(* ===== verification/Prelude.thy ===== *)
theory Prelude
  imports Main "HOL-Library.Word" "HOL-Library.Multiset"
begin

text \<open>
  Shared types, arithmetic and list lemmas.  Rust's \<^verbatim>\<open>u64\<close> seconds, ticks and counters are
  natural numbers with the saturating operations written out; bytes, identifiers and checksums,
  whose bit layout matters, are machine words.  The collections below carry the automation of the
  component theories.
\<close>

named_theorems be_simps \<open>big-endian encodings\<close>
named_theorems wheel_simps \<open>the timing wheel\<close>
named_theorems io_frame \<open>what system calls leave unchanged\<close>
named_theorems auth_simps \<open>frame rules of the credential state\<close>

section \<open>Machine arithmetic\<close>

type_synonym u8 = "8 word"
type_synonym bytes = "8 word list"

definition u64_max :: nat where
  "u64_max = 2 ^ 64 - 1"

definition u32_max :: nat where
  "u32_max = 2 ^ 32 - 1"

definition sat_add :: "nat \<Rightarrow> nat \<Rightarrow> nat" where
  "sat_add a b = min (a + b) u64_max"

definition sat_mul :: "nat \<Rightarrow> nat \<Rightarrow> nat" where
  "sat_mul a b = min (a * b) u64_max"

definition abs_diff :: "nat \<Rightarrow> nat \<Rightarrow> nat" where
  "abs_diff a b = (if a < b then b - a else a - b)"

lemma abs_diff_sym: "abs_diff a b = abs_diff b a"
  by (auto simp: abs_diff_def)

lemma abs_diff_le_iff: "abs_diff a b \<le> d \<longleftrightarrow> a \<le> b + d \<and> b \<le> a + d"
  by (auto simp: abs_diff_def)

lemma sat_add_le_max [simp]: "sat_add a b \<le> u64_max"
  by (simp add: sat_add_def)

lemma sat_add_exact: "a + b \<le> u64_max \<Longrightarrow> sat_add a b = a + b"
  by (simp add: sat_add_def)

section \<open>Big-endian encodings\<close>

fun to_be :: "nat \<Rightarrow> nat \<Rightarrow> bytes" where
  "to_be 0 n = []"
| "to_be (Suc k) n = to_be k (n div 256) @ [word_of_nat n]"

definition from_be :: "bytes \<Rightarrow> nat" where
  "from_be bs = foldl (\<lambda>acc b. acc * 256 + unat b) 0 bs"

lemma length_to_be [simp, be_simps]: "length (to_be k n) = k"
  by (induction k arbitrary: n) auto

lemma from_be_snoc [be_simps]: "from_be (bs @ [b]) = from_be bs * 256 + unat b"
  by (simp add: from_be_def)

lemma from_be_Nil [simp]: "from_be [] = 0"
  by (simp add: from_be_def)

lemma from_be_less: "from_be bs < 256 ^ length bs"
proof (induction bs rule: rev_induct)
  case (snoc b bs)
  have b: "unat b < 256"
    using unsigned_less [of b, where ?'a = nat] by simp
  have "from_be bs * 256 + unat b < (from_be bs + 1) * 256"
    using b by simp
  also have "\<dots> \<le> 256 ^ length bs * 256"
    using snoc by (intro mult_le_mono1) simp
  finally show ?case
    by (simp add: be_simps)
qed simp

lemma from_be_to_be [simp]: "from_be (to_be k n) = n mod 256 ^ k"
proof (induction k arbitrary: n)
  case (Suc k)
  have "n mod (256 * 256 ^ k) = 256 * (n div 256 mod 256 ^ k) + n mod 256"
    by (rule mod_mult2_eq)
  then show ?case
    by (simp add: Suc be_simps unat_of_nat take_bit_eq_mod mult.commute)
qed simp

lemma to_be_from_be [simp]: "to_be (length bs) (from_be bs) = bs"
proof (induction bs rule: rev_induct)
  case (snoc b bs)
  have b: "unat b < 256"
    using unsigned_less [of b, where ?'a = nat] by simp
  have zero: "(256 :: u8) = 0"
    by (rule word_unat_eq_iff [THEN iffD2]) simp
  have "(word_of_nat (from_be bs * 256 + unat b) :: u8) = b"
    by (simp add: zero)
  then show ?case
    using snoc b by (simp add: be_simps)
qed simp

lemma to_be_inject:
  assumes "to_be k m = to_be k n" "m < 256 ^ k" "n < 256 ^ k"
  shows "m = n"
  using assms by (metis from_be_to_be mod_less)

section \<open>Lists\<close>

text \<open>\<^verbatim>\<open>Iterator::find_map\<close>: the first defined result.\<close>

fun find_map :: "('a \<Rightarrow> 'b option) \<Rightarrow> 'a list \<Rightarrow> 'b option" where
  "find_map f [] = None"
| "find_map f (x # xs) = (case f x of None \<Rightarrow> find_map f xs | Some y \<Rightarrow> Some y)"

lemma find_map_SomeD: "find_map f xs = Some y \<Longrightarrow> \<exists>x \<in> set xs. f x = Some y"
  by (induction xs) (auto split: option.splits)

lemma find_map_None_iff: "find_map f xs = None \<longleftrightarrow> (\<forall>x \<in> set xs. f x = None)"
  by (induction xs) (auto split: option.splits)

text \<open>\<^verbatim>\<open>slice::get\<close>.\<close>

definition get_at :: "'a list \<Rightarrow> nat \<Rightarrow> 'a option" where
  "get_at xs i = (if i < length xs then Some (xs ! i) else None)"

lemma get_at_Some_iff: "get_at xs i = Some x \<longleftrightarrow> i < length xs \<and> xs ! i = x"
  by (simp add: get_at_def)

lemma get_at_None_iff: "get_at xs i = None \<longleftrightarrow> length xs \<le> i"
  by (simp add: get_at_def not_less)

text \<open>
  \<^verbatim>\<open>while len >= cap { pop_front }; push_back\<close>: the retention rule of every bounded queue
  of the program.
\<close>

definition push_bounded :: "nat \<Rightarrow> 'a list \<Rightarrow> 'a \<Rightarrow> 'a list" where
  "push_bounded cap xs x = drop (length xs + 1 - cap) xs @ [x]"

lemma push_bounded_length: "0 < cap \<Longrightarrow> length xs \<le> cap \<Longrightarrow> length (push_bounded cap xs x) \<le> cap"
  by (auto simp: push_bounded_def)

lemma push_bounded_last [simp]: "last (push_bounded cap xs x) = x"
  by (simp add: push_bounded_def)

section \<open>Multisets\<close>

lemma filter_mset_all: "(\<And>e. e \<in># M \<Longrightarrow> P e) \<Longrightarrow> filter_mset P M = M"
  by (induction M) auto

lemma filter_mset_none: "(\<And>e. e \<in># M \<Longrightarrow> \<not> P e) \<Longrightarrow> filter_mset P M = {#}"
  by (induction M) auto

section \<open>Fallible operations on a state\<close>

text \<open>
  A handler returns its state and either an error or a value.  \<open>and_then\<close> is Rust's \<open>?\<close>: an
  error ends the handler with the state reached so far.
\<close>

definition and_then :: "'s \<times> ('e + 'a) \<Rightarrow> ('s \<Rightarrow> 'a \<Rightarrow> 's \<times> ('e + 'b)) \<Rightarrow> 's \<times> ('e + 'b)" where
  "and_then r f = (case r of (s, Inl e) \<Rightarrow> (s, Inl e) | (s, Inr a) \<Rightarrow> f s a)"

lemma and_then_simps [simp]:
  "and_then (s, Inl e) f = (s, Inl e)"
  "and_then (s, Inr a) f = f s a"
  by (simp_all add: and_then_def)

lemma and_then_eq_Inr:
  "and_then r f = (s', Inr b) \<longleftrightarrow> (\<exists>s a. r = (s, Inr a) \<and> f s a = (s', Inr b))"
  by (cases r; cases "snd r") (auto simp: and_then_def)

lemma and_then_elim:
  assumes "and_then r f = (s', x)"
    and "\<And>e. r = (s', Inl e) \<Longrightarrow> x = Inl e \<Longrightarrow> Q"
    and "\<And>s a. r = (s, Inr a) \<Longrightarrow> f s a = (s', x) \<Longrightarrow> Q"
  shows Q
  using assms by (cases r; cases "snd r") (auto simp: and_then_def)

lemma and_then_inv:
  assumes "P (fst r)" "\<And>s a. r = (s, Inr a) \<Longrightarrow> P s \<Longrightarrow> P (fst (f s a))"
  shows "P (fst (and_then r f))"
  using assms by (cases r; cases "snd r") (auto simp: and_then_def)

lemma and_then_step:
  assumes "R s0 (fst r)" "\<And>s a. r = (s, Inr a) \<Longrightarrow> R s (fst (f s a))"
    and "\<And>x y z. R x y \<Longrightarrow> R y z \<Longrightarrow> R x z"
  shows "R s0 (fst (and_then r f))"
  using assms by (cases r; cases "snd r") (auto simp: and_then_def)

lemma fold_inv:
  assumes "P s" "\<And>x s. x \<in> set xs \<Longrightarrow> P s \<Longrightarrow> P (f x s)"
  shows "P (fold f xs s)"
  using assms by (induction xs arbitrary: s) auto

end
