(* ===== verification/Ids.thy ===== *)
theory Ids
  imports Prelude
begin

text \<open>
  Identity types of temporary credentials (\<^verbatim>\<open>pb-mapper-auth/src/ids.rs\<close>): a key id is a
  64-bit word whose high half is the generation of a slot-table row and whose low half is the row
  number.
\<close>

unbundle bit_operations_syntax

type_synonym key_id = "64 word"
type_synonym generation = "32 word"
type_synonym slot_index = "32 word"

definition ADMIN_KEY_ID :: key_id where
  "ADMIN_KEY_ID = 0"

definition key_id_new :: "generation \<Rightarrow> slot_index \<Rightarrow> key_id" where
  "key_id_new g s = push_bit 32 (ucast g) OR ucast s"

definition key_id_generation :: "key_id \<Rightarrow> generation" where
  "key_id_generation k = ucast (drop_bit 32 k)"

definition key_id_slot :: "key_id \<Rightarrow> slot_index" where
  "key_id_slot k = ucast k"

definition key_id_is_admin :: "key_id \<Rightarrow> bool" where
  "key_id_is_admin k = (k = ADMIN_KEY_ID)"

definition key_id_to_be_bytes :: "key_id \<Rightarrow> bytes" where
  "key_id_to_be_bytes k = to_be 8 (unat k)"

definition FIRST_GENERATION :: generation where
  "FIRST_GENERATION = 0"

text \<open>\<^verbatim>\<open>checked_add(1)\<close>: a row whose counter is exhausted has no further identity.\<close>

definition generation_next :: "generation \<Rightarrow> generation option" where
  "generation_next g = (if unat g + 1 < 2 ^ 32 then Some (g + 1) else None)"

definition slot_as_index :: "slot_index \<Rightarrow> nat" where
  "slot_as_index s = unat s"

text \<open>
  \<^verbatim>\<open>SlotIndex::from_index\<close> panics above \<^verbatim>\<open>u32::MAX\<close>: \<open>None\<close>.  Row numbers of a
  table that fits the address space go through \<open>row_key\<close> below.
\<close>

definition slot_from_index :: "nat \<Rightarrow> slot_index option" where
  "slot_from_index i = (if i \<le> u32_max then Some (word_of_nat i) else None)"

lemma bit_key_id_new:
  "bit (key_id_new g s) n \<longleftrightarrow> (if n < 32 then bit s n else n < 64 \<and> bit g (n - 32))"
  by (auto simp: key_id_new_def bit_simps dest: bit_imp_le_length)

lemma key_id_generation_new [simp]: "key_id_generation (key_id_new g s) = g"
  by (rule bit_eqI) (auto simp: key_id_generation_def bit_simps bit_key_id_new)

lemma key_id_slot_new [simp]: "key_id_slot (key_id_new g s) = s"
  by (rule bit_eqI) (auto simp: key_id_slot_def bit_simps bit_key_id_new)

lemma key_id_new_halves [simp]: "key_id_new (key_id_generation k) (key_id_slot k) = k"
  by (rule bit_eqI)
     (auto simp: key_id_generation_def key_id_slot_def bit_simps bit_key_id_new)

lemma key_id_new_inject [simp]: "key_id_new g s = key_id_new g' s' \<longleftrightarrow> g = g' \<and> s = s'"
  by (metis key_id_generation_new key_id_slot_new)

lemma key_id_eqI:
  "key_id_generation k = key_id_generation k' \<Longrightarrow> key_id_slot k = key_id_slot k' \<Longrightarrow> k = k'"
  by (metis key_id_new_halves)

lemma generation_next_Some:
  assumes "generation_next g = Some g'"
  shows "unat g' = unat g + 1" and "g < g'" and "g' \<noteq> FIRST_GENERATION"
proof -
  from assms have lt: "unat g + 1 < 2 ^ 32" and g': "g' = g + 1"
    by (auto simp: generation_next_def split: if_splits)
  show u: "unat g' = unat g + 1"
    using lt by (simp add: g' unat_word_ariths)
  then show "g < g'"
    by (simp add: word_less_nat_alt)
  from u show "g' \<noteq> FIRST_GENERATION"
    by (auto simp: FIRST_GENERATION_def)
qed

text \<open>The key id of row \<open>i\<close> at generation \<open>g\<close>.\<close>

definition row_key :: "generation \<Rightarrow> nat \<Rightarrow> key_id" where
  "row_key g i = key_id_new g (word_of_nat i)"

definition key_row :: "key_id \<Rightarrow> nat" where
  "key_row k = slot_as_index (key_id_slot k)"

lemma key_row_less: "key_row k < 2 ^ 32"
  using unsigned_less [of "key_id_slot k", where ?'a = nat]
  by (simp add: key_row_def slot_as_index_def)

lemma key_id_generation_row_key [simp]: "key_id_generation (row_key g i) = g"
  by (simp add: row_key_def)

lemma key_row_row_key [simp]: "i < 2 ^ 32 \<Longrightarrow> key_row (row_key g i) = i"
  by (simp add: row_key_def key_row_def slot_as_index_def unat_of_nat)

lemma row_key_key_row [simp]: "row_key (key_id_generation k) (key_row k) = k"
  by (simp add: row_key_def key_row_def slot_as_index_def)

lemma row_key_slot_from_index: "slot_from_index i = Some s \<Longrightarrow> row_key g i = key_id_new g s"
  by (auto simp: slot_from_index_def row_key_def split: if_splits)

lemma row_key_not_admin: "g \<noteq> FIRST_GENERATION \<Longrightarrow> \<not> key_id_is_admin (row_key g i)"
proof
  assume g: "g \<noteq> FIRST_GENERATION" and "key_id_is_admin (row_key g i)"
  then have "key_id_generation (row_key g i) = key_id_generation 0"
    by (simp add: key_id_is_admin_def ADMIN_KEY_ID_def)
  moreover have "key_id_generation 0 = 0"
    by (simp add: key_id_generation_def)
  ultimately show False
    using g by (simp add: FIRST_GENERATION_def)
qed

end
