(* ===== verification/AuthTypes.thy ===== *)
theory AuthTypes
  imports Ids
begin

text \<open>
  The data of the credential service (\<^verbatim>\<open>pb-mapper-auth/src/lib.rs\<close>): failures, leases, the
  slot table, what a snapshot and a write-ahead-log record hold, and the contexts authenticated
  requests carry.  A failure keeps its code and its retry flag; the human-readable message, which
  no code inspects, is left out.
\<close>

section \<open>Constants\<close>

definition ADMIN_NAMESPACE :: nat where
  "ADMIN_NAMESPACE = unat ADMIN_KEY_ID"

definition MIN_TEMP_KEY_TTL :: nat where "MIN_TEMP_KEY_TTL = 10"
definition MAX_TEMP_KEY_TTL :: nat where "MAX_TEMP_KEY_TTL = 365 * 24 * 60 * 60"
definition TOMBSTONE_RETENTION :: nat where "TOMBSTONE_RETENTION = 60"

definition MAX_SCHEDULABLE_DELAY :: nat where
  "MAX_SCHEDULABLE_DELAY = MAX_TEMP_KEY_TTL + TOMBSTONE_RETENTION"

definition SNAPSHOT_COMPACTION_INTERVAL :: nat where "SNAPSHOT_COMPACTION_INTERVAL = 5 * 60"
definition SNAPSHOT_SCHEMA_VERSION :: nat where "SNAPSHOT_SCHEMA_VERSION = 1"
definition ADMIN_REPLAY_RETENTION :: nat where "ADMIN_REPLAY_RETENTION = 10 * 60"
definition ADMIN_REPLAY_CAPACITY :: nat where "ADMIN_REPLAY_CAPACITY = 65536"
definition AUDIT_RECORD_CAPACITY :: nat where "AUDIT_RECORD_CAPACITY = 4096"

lemmas auth_const_defs =
  MIN_TEMP_KEY_TTL_def MAX_TEMP_KEY_TTL_def TOMBSTONE_RETENTION_def MAX_SCHEDULABLE_DELAY_def
  SNAPSHOT_COMPACTION_INTERVAL_def SNAPSHOT_SCHEMA_VERSION_def ADMIN_REPLAY_RETENTION_def
  ADMIN_REPLAY_CAPACITY_def AUDIT_RECORD_CAPACITY_def

section \<open>Failures and policy\<close>

record auth_failure =
  fail_code :: string
  retryable :: bool

type_synonym 'a res = "auth_failure + 'a"

abbreviation fail :: "string \<Rightarrow> bool \<Rightarrow> auth_failure" where
  "fail c r \<equiv> \<lparr>fail_code = c, retryable = r\<rparr>"

definition internal_failure :: auth_failure where
  "internal_failure = fail ''auth_internal_error'' False"

datatype legacy_policy = Allow | Deny

definition policy_is_allowed :: "legacy_policy \<Rightarrow> bool" where
  "policy_is_allowed p = (p = Allow)"

text \<open>A \<^verbatim>\<open>Duration\<close> in nanoseconds.\<close>

type_synonym duration = nat

definition from_secs :: "nat \<Rightarrow> duration" where
  "from_secs s = s * 10 ^ 9"

definition as_secs :: "duration \<Rightarrow> nat" where
  "as_secs d = d div 10 ^ 9"

record auth_config =
  max_temporary_keys :: nat
  max_temporary_key_ttl :: duration
  cfg_legacy_protocol :: legacy_policy

section \<open>Leases\<close>

datatype cancel_reason = CancelNone | CancelExpired | CancelRevoked | CancelRotated

record lease =
  lease_key :: key_id
  lease_expires :: nat
  is_cancelled :: bool
  cancel_reason :: cancel_reason

definition lease_new :: "key_id \<Rightarrow> nat \<Rightarrow> lease" where
  "lease_new k e = \<lparr>lease_key = k, lease_expires = e, is_cancelled = False, cancel_reason = CancelNone\<rparr>"

text \<open>\<^verbatim>\<open>record_cancel\<close>: the first reason wins.\<close>

definition record_cancel :: "cancel_reason \<Rightarrow> lease \<Rightarrow> lease" where
  "record_cancel r l =
     l\<lparr>cancel_reason := (if cancel_reason l = CancelNone then r else cancel_reason l),
       is_cancelled := True\<rparr>"

definition cancelled_lease_failure :: "bool \<Rightarrow> lease \<Rightarrow> auth_failure" where
  "cancelled_lease_failure is_admin l =
     (if is_admin then fail ''administrator_key_rotated'' False
      else case cancel_reason l of
        CancelExpired \<Rightarrow> fail ''temporary_key_expired'' False
      | CancelRotated \<Rightarrow> fail ''temporary_key_rotated'' False
      | CancelRevoked \<Rightarrow> fail ''temporary_key_revoked'' False
      | CancelNone \<Rightarrow> fail ''temporary_key_inactive'' False)"

text \<open>
  Shared lease objects live in a heap and are named by their index; an \<open>Arc\<close> or a \<open>Weak\<close> is
  such a name.
\<close>

type_synonym lease_id = nat
type_synonym timer_id = nat

record auth_context =
  ctx_key_id :: key_id
  ctx_namespace :: nat
  ctx_is_admin :: bool
  ctx_lease :: lease_id

definition context_from_lease :: "key_id \<Rightarrow> bool \<Rightarrow> lease_id \<Rightarrow> auth_context" where
  "context_from_lease k adm l =
     \<lparr>ctx_key_id = k, ctx_namespace = (if adm then ADMIN_NAMESPACE else unat k),
      ctx_is_admin = adm, ctx_lease = l\<rparr>"

definition require_admin :: "auth_context \<Rightarrow> unit res" where
  "require_admin c =
     (if ctx_is_admin c then Inr () else Inl (fail ''admin_permission_required'' False))"

section \<open>The slot table\<close>

datatype slot_state = Free | Active | Expired | Revoked

record slot_hot =
  slot_generation :: generation
  slot_st :: slot_state
  slot_expires :: nat
  slot_lease :: "lease_id option"

definition slot_default :: slot_hot where
  "slot_default =
     \<lparr>slot_generation = FIRST_GENERATION, slot_st = Free, slot_expires = 0, slot_lease = None\<rparr>"

definition slot_holds :: "slot_hot \<Rightarrow> key_id \<Rightarrow> bool" where
  "slot_holds s k = (slot_generation s = key_id_generation k \<and> slot_st s \<noteq> Free)"

definition slot_is_collectable :: "slot_hot \<Rightarrow> nat \<Rightarrow> bool" where
  "slot_is_collectable s now =
     (case slot_st s of Expired \<Rightarrow> True | Revoked \<Rightarrow> True
      | Active \<Rightarrow> slot_expires s \<le> now | Free \<Rightarrow> False)"

definition slot_retire :: "slot_hot \<Rightarrow> slot_hot" where
  "slot_retire s = slot_default\<lparr>slot_generation := slot_generation s\<rparr>"

record cold_metadata =
  cold_issued_at :: nat
  cold_label :: "bytes option"
  cold_tombstoned_at :: nat

record previous_root =
  prev_admin_key :: bytes
  prev_instance_id :: bytes

section \<open>What is persisted\<close>

record persisted_entry =
  pe_key_id :: key_id
  pe_state :: slot_state
  pe_issued_at :: nat
  pe_expires_at :: nat
  pe_label :: "bytes option"
  pe_tombstoned_at :: "nat option"

record admin_replay =
  ar_fingerprint :: bytes
  ar_client_timestamp :: nat
  ar_accepted_at :: nat

definition within_retention :: "admin_replay \<Rightarrow> nat \<Rightarrow> bool" where
  "within_retention r now =
     (let anchor = (if ar_accepted_at r = 0 then ar_client_timestamp r else ar_accepted_at r)
      in now - anchor \<le> ADMIN_REPLAY_RETENTION)"

datatype state_mutation =
    MIssue persisted_entry
  | MRenew key_id nat
  | MRevoke key_id nat
  | MLegacyProtocol legacy_policy

record audit_record =
  au_at :: nat
  au_action :: string
  au_key_id :: "key_id option"
  au_label :: "bytes option"

datatype wal_record =
    WalMutation state_mutation audit_record
  | WalAudit audit_record
  | WalAdminReplay admin_replay

record persisted_snapshot =
  ps_schema_version :: nat
  ps_instance_id :: bytes
  ps_generations :: "generation list"
  ps_entries :: "persisted_entry list"
  ps_legacy_protocol :: legacy_policy
  ps_admin_replays :: "admin_replay list"
  ps_audit_records :: "audit_record list"
  ps_root_epoch :: nat

section \<open>Answers\<close>

record key_metadata =
  km_key_id :: key_id
  km_state :: string
  km_issued_at :: nat
  km_expires_at :: nat
  km_label :: "bytes option"

record issued_key =
  ik_metadata :: key_metadata
  ik_credential :: bytes

record key_page =
  kp_schema_version :: nat
  kp_items :: "key_metadata list"
  kp_next_page :: "nat option"

record auth_status =
  st_safe_mode :: bool
  st_capacity :: nat
  st_active_keys :: nat
  st_expired_keys :: nat
  st_revoked_keys :: nat
  st_legacy_protocol :: legacy_policy
  st_active_legacy :: nat
  st_last_legacy_at :: "nat option"
  st_auth_successes :: nat
  st_auth_failures :: nat
  st_instance_id :: bytes

section \<open>Facts\<close>

lemma record_cancel_cancelled [simp]: "is_cancelled (record_cancel r l)"
  by (simp add: record_cancel_def)

lemma record_cancel_expires [simp]: "lease_expires (record_cancel r l) = lease_expires l"
  by (simp add: record_cancel_def)

lemma record_cancel_key [simp]: "lease_key (record_cancel r l) = lease_key l"
  by (simp add: record_cancel_def)

lemma slot_retire_generation [simp]: "slot_generation (slot_retire s) = slot_generation s"
  by (simp add: slot_retire_def)

lemma slot_retire_free [simp]: "slot_st (slot_retire s) = Free" "slot_lease (slot_retire s) = None"
  by (simp_all add: slot_retire_def slot_default_def)

end
