(* ===== verification/Credential.thy ===== *)
theory Credential
  imports Ids "HOL-Library.List_Lexorder"
begin

text \<open>
  Credentials and the frame checksum (\<^verbatim>\<open>pb-mapper-core/src/checksum.rs\<close>).  Text is the byte
  list of its UTF-8 encoding.  SHA-256, base64, AES-256-GCM and HKDF come from other crates: they
  are the fields of the record \<open>crypto\<close>, an argument of every definition that uses one.
\<close>

record crypto =
  sha256 :: "bytes \<Rightarrow> bytes"
  b64_encode :: "bytes \<Rightarrow> bytes"
  b64_decode :: "bytes \<Rightarrow> bytes option"
  aead_seal :: "bytes \<Rightarrow> bytes \<Rightarrow> bytes \<Rightarrow> bytes \<Rightarrow> bytes option"
  aead_open :: "bytes \<Rightarrow> bytes \<Rightarrow> bytes \<Rightarrow> bytes \<Rightarrow> bytes option"
  hkdf :: "bytes \<Rightarrow> bytes \<Rightarrow> bytes \<Rightarrow> bytes option"

text \<open>
  What the crates promise: digests of 32 bytes, and decoders that undo the encoders.  The
  arguments of the cipher are key, nonce, associated data and text.
\<close>

definition b64_ok :: "'a crypto_scheme \<Rightarrow> bool" where
  "b64_ok C \<longleftrightarrow> (\<forall>bs. b64_decode C (b64_encode C bs) = Some bs)"

definition sha_ok :: "'a crypto_scheme \<Rightarrow> bool" where
  "sha_ok C \<longleftrightarrow> (\<forall>bs. length (sha256 C bs) = 32)"

definition aead_ok :: "'a crypto_scheme \<Rightarrow> bool" where
  "aead_ok C \<longleftrightarrow>
     (\<forall>k n a p c. aead_seal C k n a p = Some c \<longrightarrow>
        aead_open C k n a c = Some p \<and> length c = length p + 16)"

section \<open>Text\<close>

definition ascii :: "string \<Rightarrow> bytes" where
  "ascii s = map of_char s"

text \<open>The UTF-8 encodings of the code points of property \<open>White_Space\<close>.\<close>

definition white_space :: "bytes list" where
  "white_space =
     [[0x09], [0x0A], [0x0B], [0x0C], [0x0D], [0x20], [0xC2, 0x85], [0xC2, 0xA0],
      [0xE1, 0x9A, 0x80], [0xE2, 0x80, 0x80], [0xE2, 0x80, 0x81], [0xE2, 0x80, 0x82],
      [0xE2, 0x80, 0x83], [0xE2, 0x80, 0x84], [0xE2, 0x80, 0x85], [0xE2, 0x80, 0x86],
      [0xE2, 0x80, 0x87], [0xE2, 0x80, 0x88], [0xE2, 0x80, 0x89], [0xE2, 0x80, 0x8A],
      [0xE2, 0x80, 0xA8], [0xE2, 0x80, 0xA9], [0xE2, 0x80, 0xAF], [0xE2, 0x81, 0x9F],
      [0xE3, 0x80, 0x80]]"

definition strip_prefix :: "bytes \<Rightarrow> bytes \<Rightarrow> bytes option" where
  "strip_prefix p bs = (if take (length p) bs = p then Some (drop (length p) bs) else None)"

function strip_while :: "bytes list \<Rightarrow> bytes \<Rightarrow> bytes" where
  "strip_while ws bs =
     (case find_map (\<lambda>w. if w = [] then None else strip_prefix w bs) ws of
        Some rest \<Rightarrow> (if length rest < length bs then strip_while ws rest else bs)
      | None \<Rightarrow> bs)"
  by pat_completeness auto
termination
  by (relation "measure (\<lambda>(ws, bs). length bs)") auto

declare strip_while.simps [simp del]

text \<open>\<^verbatim>\<open>str::trim\<close>.\<close>

definition trim :: "bytes \<Rightarrow> bytes" where
  "trim bs = rev (strip_while (map rev white_space) (rev (strip_while white_space bs)))"

text \<open>\<^verbatim>\<open>str::from_utf8\<close> accepts exactly the well-formed sequences of the standard's table.\<close>

definition utf8_cont :: "u8 \<Rightarrow> bool" where
  "utf8_cont b \<longleftrightarrow> 0x80 \<le> b \<and> b \<le> 0xBF"

definition utf8_second :: "u8 \<Rightarrow> u8 \<Rightarrow> bool" where
  "utf8_second a b \<longleftrightarrow>
     utf8_cont b \<and> (a = 0xE0 \<longrightarrow> 0xA0 \<le> b) \<and> (a = 0xED \<longrightarrow> b \<le> 0x9F) \<and>
     (a = 0xF0 \<longrightarrow> 0x90 \<le> b) \<and> (a = 0xF4 \<longrightarrow> b \<le> 0x8F)"

definition utf8_length :: "u8 \<Rightarrow> nat" where
  "utf8_length a =
     (if a < 0x80 then 1 else if 0xC2 \<le> a \<and> a \<le> 0xDF then 2
      else if 0xE0 \<le> a \<and> a \<le> 0xEF then 3 else if 0xF0 \<le> a \<and> a \<le> 0xF4 then 4 else 0)"

fun utf8_valid :: "bytes \<Rightarrow> bool" where
  "utf8_valid [] \<longleftrightarrow> True"
| "utf8_valid (a # bs) \<longleftrightarrow>
     (case utf8_length a of
        0 \<Rightarrow> False
      | Suc n \<Rightarrow> n \<le> length bs \<and> list_all utf8_cont (take n bs) \<and>
          (0 < n \<longrightarrow> utf8_second a (hd bs)) \<and> utf8_valid (drop n bs))"

definition to_ascii_lowercase :: "bytes \<Rightarrow> bytes" where
  "to_ascii_lowercase = map (\<lambda>b. if 65 \<le> b \<and> b \<le> 90 then b + 32 else b)"

definition is_ascii_graphic :: "u8 \<Rightarrow> bool" where
  "is_ascii_graphic b \<longleftrightarrow> 33 \<le> b \<and> b \<le> 126"

definition is_ascii_hexdigit :: "u8 \<Rightarrow> bool" where
  "is_ascii_hexdigit b \<longleftrightarrow>
     48 \<le> b \<and> b \<le> 57 \<or> 65 \<le> b \<and> b \<le> 70 \<or> 97 \<le> b \<and> b \<le> 102"

section \<open>Credentials\<close>

definition ADMIN_KEY_LEN :: nat where "ADMIN_KEY_LEN = 32"

definition TEMP_CREDENTIAL_PREFIX :: bytes where
  "TEMP_CREDENTIAL_PREFIX = ascii ''pbmt1_''"

definition is_env_safe_admin_key :: "bytes \<Rightarrow> bool" where
  "is_env_safe_admin_key bs \<longleftrightarrow> length bs = ADMIN_KEY_LEN \<and> list_all is_ascii_graphic bs"

datatype credential = Admin bytes | Temporary key_id bytes

fun credential_key_id :: "credential \<Rightarrow> key_id" where
  "credential_key_id (Admin k) = 0"
| "credential_key_id (Temporary i k) = i"

fun credential_key :: "credential \<Rightarrow> bytes" where
  "credential_key (Admin k) = k"
| "credential_key (Temporary i k) = k"

fun credential_is_admin :: "credential \<Rightarrow> bool" where
  "credential_is_admin (Admin k) = True"
| "credential_is_admin (Temporary i k) = False"

datatype cred_error =
    NotBase64
  | PayloadLength nat
  | UnsupportedVersion u8
  | ChecksumMismatch
  | ZeroKeyId
  | AdminKeyLength nat
  | NotEnvSafe
  | EnvNotUtf8
  | CredentialRequired

definition parse_credential :: "'a crypto_scheme \<Rightarrow> bytes \<Rightarrow> cred_error + credential" where
  "parse_credential C raw =
     (case strip_prefix TEMP_CREDENTIAL_PREFIX raw of
        Some encoded \<Rightarrow>
          (case b64_decode C encoded of
             None \<Rightarrow> Inl NotBase64
           | Some payload \<Rightarrow>
               if length payload \<noteq> 45 then Inl (PayloadLength (length payload))
               else if payload ! 0 \<noteq> 1 then Inl (UnsupportedVersion (payload ! 0))
               else if take 4 (sha256 C (take 41 payload)) \<noteq> drop 41 payload then Inl ChecksumMismatch
               else let key_id = word_of_nat (from_be (take 8 (drop 1 payload)));
                        key = take 32 (drop 9 payload)
                    in if key_id = 0 then Inl ZeroKeyId else Inr (Temporary key_id key))
      | None \<Rightarrow>
          if length raw \<noteq> ADMIN_KEY_LEN then Inl (AdminKeyLength (length raw))
          else if \<not> is_env_safe_admin_key raw then Inl NotEnvSafe
          else Inr (Admin raw))"

definition temp_payload :: "key_id \<Rightarrow> bytes \<Rightarrow> bytes" where
  "temp_payload key_id key = [1] @ key_id_to_be_bytes key_id @ key"

definition encode_temporary_credential :: "'a crypto_scheme \<Rightarrow> key_id \<Rightarrow> bytes \<Rightarrow> bytes" where
  "encode_temporary_credential C key_id key =
     (let payload = temp_payload key_id key
      in TEMP_CREDENTIAL_PREFIX @ b64_encode C (payload @ take 4 (sha256 C payload)))"

section \<open>The frame checksum\<close>

type_synonym checksum = "32 word"

definition gen_checksum_by_key :: "bytes \<Rightarrow> checksum" where
  "gen_checksum_by_key key = fold (\<lambda>byte hash. hash * 31 + ucast byte) key 0"

definition get_checksum_for_key :: "32 word \<Rightarrow> bytes \<Rightarrow> checksum" where
  "get_checksum_for_key datalen key = datalen XOR gen_checksum_by_key key"

definition valid_checksum_for_key :: "32 word \<Rightarrow> checksum \<Rightarrow> bytes \<Rightarrow> bool" where
  "valid_checksum_for_key datalen checksum key = (checksum = get_checksum_for_key datalen key)"

section \<open>The process credential\<close>

text \<open>
  \<^verbatim>\<open>MSG_HEADER_KEY_STATE\<close> and the environment variable it mirrors.  \<open>pc_env\<close> is the
  variable's text; \<open>Some None\<close> stands for a value that is not UTF-8.
\<close>

record proc_cred =
  pc_env :: "bytes option option"
  pc_credential :: "credential option"
  pc_load_error :: "cred_error option"
  pc_hash :: checksum

definition credential_hash :: "credential option \<Rightarrow> checksum" where
  "credential_hash c = (case c of None \<Rightarrow> 0 | Some c \<Rightarrow> gen_checksum_by_key (credential_key c))"

definition load_credential_from_env ::
  "'a crypto_scheme \<Rightarrow> bytes option option \<Rightarrow> cred_error + credential option" where
  "load_credential_from_env C var =
     (case var of
        None \<Rightarrow> Inr None
      | Some None \<Rightarrow> Inl EnvNotUtf8
      | Some (Some raw) \<Rightarrow>
          (case parse_credential C (trim raw) of Inl e \<Rightarrow> Inl e | Inr c \<Rightarrow> Inr (Some c)))"

definition initial_proc_cred :: "'a crypto_scheme \<Rightarrow> bytes option option \<Rightarrow> proc_cred" where
  "initial_proc_cred C var =
     (case load_credential_from_env C var of
        Inr c \<Rightarrow> \<lparr>pc_env = var, pc_credential = c, pc_load_error = None, pc_hash = credential_hash c\<rparr>
      | Inl e \<Rightarrow> \<lparr>pc_env = var, pc_credential = None, pc_load_error = Some e, pc_hash = 0\<rparr>)"

definition update_runtime_credential :: "credential option \<Rightarrow> proc_cred \<Rightarrow> proc_cred" where
  "update_runtime_credential c p =
     p\<lparr>pc_credential := c, pc_load_error := None, pc_hash := credential_hash c\<rparr>"

definition get_process_credential :: "proc_cred \<Rightarrow> cred_error + credential" where
  "get_process_credential p =
     (case pc_load_error p of
        Some e \<Rightarrow> Inl e
      | None \<Rightarrow> (case pc_credential p of None \<Rightarrow> Inl CredentialRequired | Some c \<Rightarrow> Inr c))"

definition get_msg_header_key :: "proc_cred \<Rightarrow> cred_error + bytes" where
  "get_msg_header_key p =
     (case get_process_credential p of Inl e \<Rightarrow> Inl e | Inr c \<Rightarrow> Inr (credential_key c))"

definition set_process_msg_header_key ::
  "'a crypto_scheme \<Rightarrow> bytes option \<Rightarrow> proc_cred \<Rightarrow> proc_cred \<times> (cred_error + unit)" where
  "set_process_msg_header_key C key p =
     (let normalized = (case key of None \<Rightarrow> [] | Some k \<Rightarrow> trim k)
      in if normalized = [] then (update_runtime_credential None (p\<lparr>pc_env := None\<rparr>), Inr ())
         else case parse_credential C normalized of
                Inl e \<Rightarrow> (p, Inl e)
              | Inr c \<Rightarrow>
                  (update_runtime_credential (Some c) (p\<lparr>pc_env := Some (Some normalized)\<rparr>), Inr ()))"

definition process_checksum_is_ready :: "proc_cred \<Rightarrow> bool" where
  "process_checksum_is_ready p = (case get_process_credential p of Inl e \<Rightarrow> False | Inr c \<Rightarrow> True)"

definition get_checksum :: "proc_cred \<Rightarrow> 32 word \<Rightarrow> checksum" where
  "get_checksum p datalen = datalen XOR pc_hash p"

definition valid_checksum :: "proc_cred \<Rightarrow> 32 word \<Rightarrow> checksum \<Rightarrow> bool" where
  "valid_checksum p datalen checksum \<longleftrightarrow>
     process_checksum_is_ready p \<and> datalen = (checksum XOR pc_hash p)"

section \<open>The machine-derived key\<close>

definition normalize_non_empty :: "bytes option \<Rightarrow> bytes option" where
  "normalize_non_empty input =
     (case input of None \<Rightarrow> None
      | Some s \<Rightarrow> (let value = trim s in if value = [] then None else Some (to_ascii_lowercase value)))"

text \<open>The field before the first \<open>c\<close>, and what follows that \<open>c\<close>.\<close>

definition field :: "u8 \<Rightarrow> bytes \<Rightarrow> bytes" where
  "field c bs = takeWhile (\<lambda>b. b \<noteq> c) bs"

definition after_field :: "u8 \<Rightarrow> bytes \<Rightarrow> bytes option" where
  "after_field c bs =
     (case dropWhile (\<lambda>b. b \<noteq> c) bs of [] \<Rightarrow> None | _ # rest \<Rightarrow> Some rest)"

definition parse_interface_name_from_ip_link :: "bytes \<Rightarrow> bytes option" where
  "parse_interface_name_from_ip_link line =
     (case after_field 58 line of None \<Rightarrow> None
      | Some rest \<Rightarrow>
          (let name = trim (field 64 (trim (field 58 rest)))
           in if name = [] \<or> name = ascii ''lo'' then None else Some name))"

definition parse_interface_name_from_ifconfig :: "bytes \<Rightarrow> bytes option" where
  "parse_interface_name_from_ifconfig line =
     (let name = trim (field 58 line)
      in if name = [] \<or> name = ascii ''lo'' \<or> name = ascii ''lo0'' then None else Some name)"

definition normalize_mac_address :: "bytes \<Rightarrow> bytes option" where
  "normalize_mac_address raw =
     (let mac = to_ascii_lowercase (trim raw)
      in if length mac \<noteq> 17 \<or> mac = ascii ''00:00:00:00:00:00'' then None
         else if list_all (\<lambda>(index, ch).
                   if index \<in> set [2, 5, 8, 11, 14] then ch = 58 else is_ascii_hexdigit ch)
                   (enumerate (0::nat) mac)
         then Some mac else None)"

text \<open>\<^verbatim>\<open>sort\<close> followed by \<^verbatim>\<open>dedup\<close>.\<close>

definition sort_dedup :: "bytes list \<Rightarrow> bytes list" where
  "sort_dedup xs = remdups_adj (sort xs)"

definition normalize_and_validate_mac_entries :: "bytes list \<Rightarrow> bytes list" where
  "normalize_and_validate_mac_entries macs = sort_dedup macs"

fun join_with :: "bytes \<Rightarrow> bytes list \<Rightarrow> bytes" where
  "join_with sep [] = []"
| "join_with sep [x] = x"
| "join_with sep (x # y # xs) = x @ sep @ join_with sep (y # xs)"

definition DERIVE_MSG_HEADER_KEY_CHARSET :: bytes where
  "DERIVE_MSG_HEADER_KEY_CHARSET =
     ascii ''0123456789abcdefghijklmnopqrstuvwxyzABCDEFGHIJKLMNOPQRSTUVWXYZ''"

definition derive_msg_header_key :: "'a crypto_scheme \<Rightarrow> bytes \<Rightarrow> bytes list \<Rightarrow> bytes" where
  "derive_msg_header_key C hostname macs =
     (let normalized = sort_dedup (map (to_ascii_lowercase \<circ> trim) macs);
          seed = ascii ''pb-mapper-msg-header-key-v1|'' @ to_ascii_lowercase (trim hostname) @
                 ascii ''|'' @ join_with (ascii ''|'') normalized
      in map (\<lambda>byte. DERIVE_MSG_HEADER_KEY_CHARSET !
                (unat byte mod length DERIVE_MSG_HEADER_KEY_CHARSET)) (sha256 C seed))"

section \<open>Facts\<close>

lemma strip_prefix_append [simp]: "strip_prefix p (p @ bs) = Some bs"
  by (simp add: strip_prefix_def)

lemma strip_prefix_SomeD: "strip_prefix p bs = Some r \<Longrightarrow> bs = p @ r"
  by (metis append_take_drop_id option.distinct(1) option.inject strip_prefix_def)

lemma length_temp_payload [simp]: "length key = 32 \<Longrightarrow> length (temp_payload k key) = 41"
  by (simp add: temp_payload_def key_id_to_be_bytes_def)

lemma word_of_nat_from_key_bytes [simp]:
  "word_of_nat (from_be (key_id_to_be_bytes k)) = (k :: key_id)"
proof -
  have "unat k < 256 ^ 8"
    using unsigned_less [of k, where ?'a = nat] by simp
  then show ?thesis
    by (simp add: key_id_to_be_bytes_def)
qed

text \<open>A printed temporary credential parses to itself.\<close>

lemma parse_encode:
  assumes "b64_ok C" "sha_ok C" "length key = 32" "k \<noteq> 0"
  shows "parse_credential C (encode_temporary_credential C k key) = Inr (Temporary k key)"
proof -
  let ?p = "temp_payload k key" and ?s = "take 4 (sha256 C (temp_payload k key))"
  have s: "length ?s = 4"
    using assms(2) by (simp add: sha_ok_def)
  have b: "b64_decode C (b64_encode C (?p @ ?s)) = Some (?p @ ?s)"
    using assms(1) by (simp add: b64_ok_def)
  have parts: "(?p @ ?s) ! 0 = 1" "take 8 (drop (Suc 0) ?p) = key_id_to_be_bytes k" "drop 9 ?p = key"
    using assms(3) by (simp_all add: temp_payload_def key_id_to_be_bytes_def)
  show ?thesis
    using assms(3,4) s
    by (simp add: parse_credential_def encode_temporary_credential_def Let_def b parts)
qed

text \<open>
  Only canonical payloads parse: version, key id and key are exactly the bytes the checksum covers.
\<close>

lemma parse_Temporary_payload:
  assumes "parse_credential C raw = Inr (Temporary k key)"
  shows "\<exists>encoded. raw = TEMP_CREDENTIAL_PREFIX @ encoded \<and>
    b64_decode C encoded = Some (temp_payload k key @ take 4 (sha256 C (temp_payload k key))) \<and>
    k \<noteq> 0 \<and> length key = 32"
proof -
  from assms obtain encoded payload where
    raw: "strip_prefix TEMP_CREDENTIAL_PREFIX raw = Some encoded"
    and dec: "b64_decode C encoded = Some payload" and len: "length payload = 45"
    and ver: "payload ! 0 = 1" and sum: "take 4 (sha256 C (take 41 payload)) = drop 41 payload"
    and k: "k = word_of_nat (from_be (take 8 (drop 1 payload)))" and key: "key = take 32 (drop 9 payload)"
    and nz: "k \<noteq> 0"
    by (auto simp: parse_credential_def Let_def split: option.splits if_splits)
  have "payload \<noteq> []"
    using len by auto
  with ver obtain tl where tl: "payload = 1 # tl"
    by (cases payload) auto
  have u: "unat k = from_be (take 8 tl)"
  proof -
    have "from_be (take 8 tl) < 256 ^ 8"
      using from_be_less [of "take 8 tl"] len tl by simp
    then show ?thesis
      by (simp add: k tl unat_of_nat)
  qed
  have t8: "key_id_to_be_bytes k = take 8 tl"
    using to_be_from_be [of "take 8 tl"] len tl by (simp add: key_id_to_be_bytes_def u)
  have "take 40 tl = take 8 tl @ take 32 (drop 8 tl)"
    using take_add [of 8 32 tl] by simp
  then have "take 41 payload = temp_payload k key"
    using tl by (simp add: temp_payload_def t8 key)
  then have "payload = temp_payload k key @ take 4 (sha256 C (temp_payload k key))"
    using sum by (metis append_take_drop_id)
  then show ?thesis
    using strip_prefix_SomeD [OF raw] dec nz key len by auto
qed

lemma parse_Admin:
  assumes "parse_credential C raw = Inr (Admin key)"
  shows "key = raw \<and> is_env_safe_admin_key raw"
  using assms by (auto simp: parse_credential_def Let_def split: option.splits if_splits)

text \<open>The checksum of a key is its value as a base-31 numeral, modulo \<open>2 ^ 32\<close>.\<close>

lemma gen_checksum_polynomial:
  "unat (gen_checksum_by_key key) = foldl (\<lambda>h b. h * 31 + unat b) 0 key mod 2 ^ 32"
proof (induction key rule: rev_induct)
  case (snoc b bs)
  have b: "unat (ucast b :: 32 word) = unat b"
    by (simp add: unsigned_ucast_eq take_bit_eq_mod
        order_less_trans [OF unsigned_less [of b, where ?'a = nat]])
  show ?case
    using snoc
    by (simp add: gen_checksum_by_key_def unat_word_ariths b mod_simps)
qed (simp add: gen_checksum_by_key_def)

lemma valid_get_checksum [simp]: "valid_checksum_for_key n (get_checksum_for_key n key) key"
  by (simp add: valid_checksum_for_key_def)

lemma valid_checksum_injective:
  "valid_checksum_for_key n c key \<Longrightarrow> valid_checksum_for_key n' c key \<Longrightarrow> n = n'"
  by (metis get_checksum_for_key_def valid_checksum_for_key_def xor.right_neutral
      xor.assoc xor_self_eq)

text \<open>The state and its hash always describe one credential.\<close>

definition wf_proc_cred :: "proc_cred \<Rightarrow> bool" where
  "wf_proc_cred p \<longleftrightarrow>
     pc_hash p = credential_hash (pc_credential p) \<and> (pc_load_error p \<noteq> None \<longrightarrow> pc_credential p = None)"

lemma initial_proc_cred_wf: "wf_proc_cred (initial_proc_cred C var)"
  by (simp add: wf_proc_cred_def initial_proc_cred_def credential_hash_def split: sum.split)

lemma set_process_wf:
  "wf_proc_cred p \<Longrightarrow> wf_proc_cred (fst (set_process_msg_header_key C key p))"
  by (simp add: wf_proc_cred_def set_process_msg_header_key_def update_runtime_credential_def
      Let_def split: sum.split)

lemma process_checksum_agrees:
  assumes "wf_proc_cred p" "get_process_credential p = Inr c"
  shows "valid_checksum p n s = valid_checksum_for_key n s (credential_key c)"
proof -
  have "pc_hash p = gen_checksum_by_key (credential_key c)"
    using assms by (auto simp: wf_proc_cred_def get_process_credential_def credential_hash_def
        split: option.splits)
  then show ?thesis
    using assms(2)
    by (auto simp: valid_checksum_def process_checksum_is_ready_def valid_checksum_for_key_def
        get_checksum_for_key_def xor.assoc)
qed

lemma derive_msg_header_key_order_free:
  assumes "set (map (to_ascii_lowercase \<circ> trim) macs) = set (map (to_ascii_lowercase \<circ> trim) macs')"
  shows "derive_msg_header_key C host macs = derive_msg_header_key C host macs'"
proof -
  have "sort_dedup xs = sorted_list_of_set (set xs)" for xs :: "bytes list"
  proof -
    have adj: "sorted ys \<Longrightarrow> distinct (remdups_adj ys)" for ys :: "bytes list"
      by (induction ys rule: remdups_adj.induct) auto
    have "remdups_adj (sort xs) = sorted_list_of_set (set (remdups_adj (sort xs)))"
      by (rule sorted_list_of_set.idem_if_sorted_distinct [symmetric])
        (simp_all add: adj sorted_remdups_adj)
    then show ?thesis
      by (simp add: sort_dedup_def)
  qed
  then show ?thesis
    using assms by (simp add: derive_msg_header_key_def)
qed

end
