(* ===== verification/AuthStore.thy ===== *)
theory AuthStore
  imports AuthTypes Credential
begin

text \<open>
  Durable authentication state (\<^verbatim>\<open>pb-mapper-auth/src/persistence\<close> and \<^verbatim>\<open>keys.rs\<close>):
  sealed blobs, the write-ahead log, snapshots, atomic replacement, the administrator key files and
  their crash recovery.

  The operating system is part of the state.  \<open>files\<close> holds the files of the state directory by
  name, as they are seen by a reader of the directory; every system call takes one outcome from the
  oracle \<open>io\<close>, and a failing write reports how many bytes it had written.  Random bytes and
  clock readings come from two further oracles.  A temporary file of \<^verbatim>\<open>atomic_write\<close> is never
  looked up by name, so only the rename shows in \<open>files\<close>; what a power failure does to data that was
  not synced is not modelled.
\<close>

section \<open>The operating system\<close>

datatype io_outcome = IoOk | IoErr nat

record os =
  files :: "string \<Rightarrow> bytes option"
  lax_mode :: "string \<Rightarrow> bool"
  machine_key :: "bytes option"
  proc :: proc_cred
  io :: "nat \<Rightarrow> io_outcome"
  io_pos :: nat
  rng :: "nat \<Rightarrow> u8"
  rng_pos :: nat
  clk :: "nat \<Rightarrow> nat"
  clk_pos :: nat

definition sys :: "'a os_scheme \<Rightarrow> 'a os_scheme \<times> io_outcome" where
  "sys st = (st\<lparr>io_pos := Suc (io_pos st)\<rparr>, io st (io_pos st))"

definition io_call :: "auth_failure \<Rightarrow> 'a os_scheme \<Rightarrow> 'a os_scheme \<times> unit res" where
  "io_call e st = (case sys st of (st, IoOk) \<Rightarrow> (st, Inr ()) | (st, IoErr n) \<Rightarrow> (st, Inl e))"

definition random_bytes :: "nat \<Rightarrow> 'a os_scheme \<Rightarrow> 'a os_scheme \<times> bytes" where
  "random_bytes n st =
     (st\<lparr>rng_pos := rng_pos st + n\<rparr>, map (rng st) [rng_pos st..<rng_pos st + n])"

definition unix_seconds :: "'a os_scheme \<Rightarrow> 'a os_scheme \<times> nat" where
  "unix_seconds st = (st\<lparr>clk_pos := Suc (clk_pos st)\<rparr>, clk st (clk_pos st))"

definition put_file :: "string \<Rightarrow> bytes \<Rightarrow> 'a os_scheme \<Rightarrow> 'a os_scheme" where
  "put_file name data st = st\<lparr>files := (files st)(name := Some data)\<rparr>"

definition file_exists :: "'a os_scheme \<Rightarrow> string \<Rightarrow> bool" where
  "file_exists st name = (files st name \<noteq> None)"

definition file_data :: "'a os_scheme \<Rightarrow> string \<Rightarrow> bytes" where
  "file_data st name = (case files st name of None \<Rightarrow> [] | Some d \<Rightarrow> d)"

text \<open>\<^verbatim>\<open>std::fs::remove_file\<close>; every caller ignores its outcome.\<close>

definition remove_file :: "string \<Rightarrow> 'a os_scheme \<Rightarrow> 'a os_scheme" where
  "remove_file name st =
     (case sys st of (st, IoOk) \<Rightarrow> st\<lparr>files := (files st)(name := None)\<rparr> | (st, IoErr n) \<Rightarrow> st)"

text \<open>\<^verbatim>\<open>std::fs::read\<close>: an absent file is an error too.\<close>

definition read_file :: "auth_failure \<Rightarrow> string \<Rightarrow> 'a os_scheme \<Rightarrow> 'a os_scheme \<times> bytes res" where
  "read_file e name st =
     and_then (io_call e st) (\<lambda>st _.
       case files st name of None \<Rightarrow> (st, Inl e) | Some d \<Rightarrow> (st, Inr d))"

definition read_text :: "auth_failure \<Rightarrow> string \<Rightarrow> 'a os_scheme \<Rightarrow> 'a os_scheme \<times> bytes res" where
  "read_text e name st =
     and_then (read_file e name st) (\<lambda>st d. if utf8_valid d then (st, Inr d) else (st, Inl e))"

section \<open>File names and failures\<close>

definition AUTH_SNAPSHOT_FILE :: string where "AUTH_SNAPSHOT_FILE = ''auth.snapshot''"
definition AUTH_WAL_FILE :: string where "AUTH_WAL_FILE = ''auth.wal''"
definition ADMIN_KEY_FILE :: string where "ADMIN_KEY_FILE = ''admin.key''"
definition ADMIN_KEY_NEXT_FILE :: string where "ADMIN_KEY_NEXT_FILE = ''admin.key.next''"
definition INSTANCE_ID_FILE :: string where "INSTANCE_ID_FILE = ''server-instance-id''"
definition INSTANCE_ID_NEXT_FILE :: string where
  "INSTANCE_ID_NEXT_FILE = ''server-instance-id.next''"

lemmas file_name_defs =
  AUTH_SNAPSHOT_FILE_def AUTH_WAL_FILE_def ADMIN_KEY_FILE_def ADMIN_KEY_NEXT_FILE_def
  INSTANCE_ID_FILE_def INSTANCE_ID_NEXT_FILE_def

definition INSTANCE_ID_LEN :: nat where "INSTANCE_ID_LEN = 16"

definition store_err :: "bool \<Rightarrow> auth_failure" where
  "store_err r = fail ''temporary_key_store_unavailable'' r"

definition state_err :: auth_failure where
  "state_err = fail ''auth_state_unavailable'' False"

definition encrypted_auth_state_exists :: "'a os_scheme \<Rightarrow> bool" where
  "encrypted_auth_state_exists st \<longleftrightarrow> file_exists st AUTH_SNAPSHOT_FILE \<or> file_exists st AUTH_WAL_FILE"

section \<open>Directory and atomic replacement\<close>

definition sync_parent_directory :: "'a os_scheme \<Rightarrow> 'a os_scheme \<times> unit res" where
  "sync_parent_directory st = io_call (store_err False) st"

definition prepare_state_dir :: "'a os_scheme \<Rightarrow> 'a os_scheme \<times> unit res" where
  "prepare_state_dir st = and_then (io_call state_err st) (\<lambda>st _. io_call state_err st)"

definition acquire_state_dir_lock :: "'a os_scheme \<Rightarrow> 'a os_scheme \<times> unit res" where
  "acquire_state_dir_lock st =
     and_then (io_call state_err st) (\<lambda>st _. io_call (fail ''auth_state_locked'' False) st)"

definition prepare_state_dir_and_lock :: "'a os_scheme \<Rightarrow> 'a os_scheme \<times> unit res" where
  "prepare_state_dir_and_lock st = and_then (prepare_state_dir st) (\<lambda>st _. acquire_state_dir_lock st)"

text \<open>
  Write a temporary file beside the target, rename it over the target, sync the directory.  A
  failed step removes the temporary file, so the target holds its old or its new content and
  nothing in between; an error after the rename leaves the new content in place.
\<close>

definition atomic_write :: "string \<Rightarrow> bytes \<Rightarrow> 'a os_scheme \<Rightarrow> 'a os_scheme \<times> unit res" where
  "atomic_write name data st =
     and_then (io_call state_err st) (\<lambda>st _.
     let (st, random_suffix) = random_bytes 8 st in
     and_then (io_call state_err st) (\<lambda>st _.
     let r =
       and_then (io_call internal_failure st) (\<lambda>st _.
       and_then (io_call state_err st) (\<lambda>st _.
       and_then (io_call state_err st) (\<lambda>st _.
       and_then (io_call state_err st) (\<lambda>st _.
       sync_parent_directory
         ((put_file name data st)\<lparr>lax_mode := (lax_mode st)(name := False)\<rparr>)))))
     in case r of (st, Inl e) \<Rightarrow> (fst (sys st), Inl e) | (st, Inr _) \<Rightarrow> (st, Inr ())))"

section \<open>Sealed blobs\<close>

definition STATE_BLOB_MAGIC :: bytes where "STATE_BLOB_MAGIC = ascii ''PBAS1''"
definition STATE_AAD :: bytes where "STATE_AAD = ascii ''pb-mapper-auth-state-v1''"

definition seal_blob ::
  "'c crypto_scheme \<Rightarrow> bytes \<Rightarrow> bytes \<Rightarrow> 'a os_scheme \<Rightarrow> 'a os_scheme \<times> bytes res" where
  "seal_blob C admin_key plain st =
     (let (st, nonce_bytes) = random_bytes 12 st
      in case aead_seal C admin_key nonce_bytes STATE_AAD plain of
           None \<Rightarrow> (st, Inl internal_failure)
         | Some output \<Rightarrow> (st, Inr (STATE_BLOB_MAGIC @ nonce_bytes @ output)))"

definition open_blob :: "'c crypto_scheme \<Rightarrow> bytes \<Rightarrow> bytes \<Rightarrow> bytes res" where
  "open_blob C admin_key sealed =
     (if length sealed < length STATE_BLOB_MAGIC + 12 + 16 \<or>
         take (length STATE_BLOB_MAGIC) sealed \<noteq> STATE_BLOB_MAGIC
      then Inl (store_err False)
      else let nonce_start = length STATE_BLOB_MAGIC; nonce_end = nonce_start + 12
           in case aead_open C admin_key (take 12 (drop nonce_start sealed)) STATE_AAD
                     (drop nonce_end sealed) of
                None \<Rightarrow> Inl (store_err False)
              | Some plain \<Rightarrow> Inr plain)"

text \<open>\<^verbatim>\<open>serde_json\<close> for the two persisted types, beside the cryptography.\<close>

record env = crypto +
  wal_json :: "wal_record \<Rightarrow> bytes option"
  wal_parse :: "bytes \<Rightarrow> wal_record option"
  snap_json :: "persisted_snapshot \<Rightarrow> bytes option"
  snap_parse :: "bytes \<Rightarrow> persisted_snapshot option"

definition json_ok :: "'c env_scheme \<Rightarrow> bool" where
  "json_ok C \<longleftrightarrow>
     (\<forall>r b. wal_json C r = Some b \<longrightarrow> wal_parse C b = Some r) \<and>
     (\<forall>s b. snap_json C s = Some b \<longrightarrow> snap_parse C b = Some s)"

section \<open>The write-ahead log\<close>

definition WAL_RECORD_MAX :: nat where "WAL_RECORD_MAX = 1024 * 1024"

text \<open>
  \<^verbatim>\<open>write_all\<close> on a file opened for appending: a failing write leaves a prefix behind.
\<close>

definition append_bytes :: "string \<Rightarrow> bytes \<Rightarrow> 'a os_scheme \<Rightarrow> 'a os_scheme \<times> bool" where
  "append_bytes name data st =
     (case sys st of
        (st, IoOk) \<Rightarrow> (put_file name (file_data st name @ data) st, True)
      | (st, IoErr n) \<Rightarrow> (put_file name (file_data st name @ take n data) st, False))"

definition sync_data :: "'a os_scheme \<Rightarrow> 'a os_scheme \<times> bool" where
  "sync_data st = (case sys st of (st, IoOk) \<Rightarrow> (st, True) | (st, IoErr n) \<Rightarrow> (st, False))"

text \<open>\<^verbatim>\<open>set_len\<close> to an earlier length, then a sync: whether the log was restored.\<close>

definition roll_back :: "string \<Rightarrow> nat \<Rightarrow> 'a os_scheme \<Rightarrow> 'a os_scheme \<times> bool" where
  "roll_back name start_len st =
     (case sys st of
        (st, IoErr n) \<Rightarrow> (st, False)
      | (st, IoOk) \<Rightarrow> sync_data (put_file name (take start_len (file_data st name)) st))"

text \<open>Both writes and the sync, stopping at the first failure.\<close>

definition append_frame :: "string \<Rightarrow> bytes \<Rightarrow> bytes \<Rightarrow> 'a os_scheme \<Rightarrow> 'a os_scheme \<times> bool" where
  "append_frame name header body st =
     (case append_bytes name header st of
        (st, False) \<Rightarrow> (st, False)
      | (st, True) \<Rightarrow>
          (case append_bytes name body st of
             (st, False) \<Rightarrow> (st, False)
           | (st, True) \<Rightarrow> sync_data st))"

text \<open>Opening with \<^verbatim>\<open>create\<close> makes an absent file an empty one.\<close>

definition open_create :: "auth_failure \<Rightarrow> string \<Rightarrow> 'a os_scheme \<Rightarrow> 'a os_scheme \<times> unit res" where
  "open_create e name st =
     and_then (io_call e st) (\<lambda>st _. (put_file name (file_data st name) st, Inr ()))"

definition append_wal ::
  "'c env_scheme \<Rightarrow> bytes \<Rightarrow> wal_record \<Rightarrow> 'a os_scheme \<Rightarrow> 'a os_scheme \<times> unit res" where
  "append_wal C admin_key record st =
     (case wal_json C record of
        None \<Rightarrow> (st, Inl internal_failure)
      | Some plain \<Rightarrow>
          and_then (seal_blob C admin_key plain st) (\<lambda>st sealed.
          if u32_max < length sealed then (st, Inl internal_failure)
          else let created = \<not> file_exists st AUTH_WAL_FILE in
          and_then (open_create (store_err True) AUTH_WAL_FILE st) (\<lambda>st _.
          and_then (io_call (store_err False) st) (\<lambda>st _.
          let st = st\<lparr>lax_mode := (lax_mode st)(AUTH_WAL_FILE := False)\<rparr> in
          and_then (io_call (store_err True) st) (\<lambda>st _.
          let start_len = length (file_data st AUTH_WAL_FILE) in
          case append_frame AUTH_WAL_FILE (to_be 4 (length sealed)) sealed st of
            (st, False) \<Rightarrow>
              (let (st, rolled_back) = roll_back AUTH_WAL_FILE start_len st
               in (st, Inl (store_err rolled_back)))
          | (st, True) \<Rightarrow> if created then sync_parent_directory st else (st, Inr ()))))))"

text \<open>
  The loop of \<^verbatim>\<open>read_wal\<close>: every \<^verbatim>\<open>read\<close> may fail, and a prefix that ends early, is
  too long, does not decrypt or does not decode fails the whole load.
\<close>

function read_records ::
  "'c env_scheme \<Rightarrow> bytes \<Rightarrow> bytes \<Rightarrow> wal_record list \<Rightarrow> 'a os_scheme \<Rightarrow>
   'a os_scheme \<times> wal_record list res" where
  "read_records C admin_key bs records st =
     (case sys st of
        (st, IoErr _) \<Rightarrow> (st, Inl (store_err False))
      | (st, IoOk) \<Rightarrow>
     if bs = [] then (st, Inr records)
     else case sys st of
        (st, IoErr _) \<Rightarrow> (st, Inl (store_err False))
      | (st, IoOk) \<Rightarrow>
     if length bs < 4 then (st, Inl (store_err False))
     else let len = from_be (take 4 bs); body = drop 4 bs in
     if WAL_RECORD_MAX < len then (st, Inl (store_err False))
     else case sys st of
        (st, IoErr _) \<Rightarrow> (st, Inl (store_err False))
      | (st, IoOk) \<Rightarrow>
     if length body < len then (st, Inl (store_err False))
     else case open_blob C admin_key (take len body) of
        Inl e \<Rightarrow> (st, Inl e)
      | Inr plain \<Rightarrow>
     (case wal_parse C plain of
        None \<Rightarrow> (st, Inl (store_err False))
      | Some r \<Rightarrow> read_records C admin_key (drop len body) (records @ [r]) st))"
  by pat_completeness auto
termination
  by (relation "measure (\<lambda>(C, k, bs, rs, st). length bs)") auto

declare read_records.simps [simp del]

definition read_wal ::
  "'c env_scheme \<Rightarrow> bytes \<Rightarrow> 'a os_scheme \<Rightarrow> 'a os_scheme \<times> wal_record list res" where
  "read_wal C admin_key st =
     and_then (read_file (store_err False) AUTH_WAL_FILE st) (\<lambda>st bs. read_records C admin_key bs [] st)"

definition truncate_auth_wal :: "'a os_scheme \<Rightarrow> 'a os_scheme \<times> unit res" where
  "truncate_auth_wal st =
     (let created = \<not> file_exists st AUTH_WAL_FILE in
      and_then (io_call (store_err True) st) (\<lambda>st _.
      let st = put_file AUTH_WAL_FILE [] st in
      and_then (io_call (store_err True) st) (\<lambda>st _.
      if created then sync_parent_directory st else (st, Inr ()))))"

definition write_snapshot_and_truncate_wal ::
  "'c env_scheme \<Rightarrow> bytes \<Rightarrow> persisted_snapshot \<Rightarrow> 'a os_scheme \<Rightarrow> 'a os_scheme \<times> unit res" where
  "write_snapshot_and_truncate_wal C admin_key snapshot st =
     (case snap_json C snapshot of
        None \<Rightarrow> (st, Inl internal_failure)
      | Some plain \<Rightarrow>
          and_then (seal_blob C admin_key plain st) (\<lambda>st sealed.
          and_then (atomic_write AUTH_SNAPSHOT_FILE sealed st) (\<lambda>st _. truncate_auth_wal st)))"

section \<open>Replaying the log over a snapshot\<close>

definition push_persisted_audit :: "audit_record list \<Rightarrow> audit_record \<Rightarrow> audit_record list" where
  "push_persisted_audit records r = push_bounded AUDIT_RECORD_CAPACITY records r"

text \<open>\<^verbatim>\<open>Vec::resize\<close> upwards.\<close>

definition grow_to :: "nat \<Rightarrow> generation list \<Rightarrow> generation list" where
  "grow_to n gs = gs @ replicate (n - length gs) FIRST_GENERATION"

fun update_first :: "('a \<Rightarrow> bool) \<Rightarrow> ('a \<Rightarrow> 'a) \<Rightarrow> 'a list \<Rightarrow> 'a list option" where
  "update_first P f [] = None"
| "update_first P f (x # xs) = (if P x then Some (f x # xs) else map_option ((#) x) (update_first P f xs))"

fun apply_persisted_mutation :: "persisted_snapshot \<Rightarrow> state_mutation \<Rightarrow> persisted_snapshot res" where
  "apply_persisted_mutation s (MIssue entry) =
     (let index = key_row (pe_key_id entry);
          gens = grow_to (index + 1) (ps_generations s)
      in Inr (s\<lparr>ps_generations := gens[index := key_id_generation (pe_key_id entry)],
                ps_entries := filter (\<lambda>c. key_row (pe_key_id c) \<noteq> index) (ps_entries s) @ [entry]\<rparr>))"
| "apply_persisted_mutation s (MRenew key_id expires_at) =
     (case update_first (\<lambda>e. pe_key_id e = key_id)
             (\<lambda>e. e\<lparr>pe_expires_at := expires_at, pe_state := Active, pe_tombstoned_at := None\<rparr>)
             (ps_entries s) of
        None \<Rightarrow> Inl (store_err False)
      | Some es \<Rightarrow> Inr (s\<lparr>ps_entries := es\<rparr>))"
| "apply_persisted_mutation s (MRevoke key_id at) =
     (case update_first (\<lambda>e. pe_key_id e = key_id)
             (\<lambda>e. e\<lparr>pe_state := Revoked, pe_tombstoned_at := Some at\<rparr>) (ps_entries s) of
        None \<Rightarrow> Inl (store_err False)
      | Some es \<Rightarrow> Inr (s\<lparr>ps_entries := es\<rparr>))"
| "apply_persisted_mutation s (MLegacyProtocol policy) = Inr (s\<lparr>ps_legacy_protocol := policy\<rparr>)"

fun apply_wal_record :: "persisted_snapshot \<Rightarrow> wal_record \<Rightarrow> persisted_snapshot res" where
  "apply_wal_record s (WalMutation m a) =
     (case apply_persisted_mutation s m of
        Inl e \<Rightarrow> Inl e
      | Inr s \<Rightarrow> Inr (s\<lparr>ps_audit_records := push_persisted_audit (ps_audit_records s) a\<rparr>))"
| "apply_wal_record s (WalAudit a) =
     Inr (s\<lparr>ps_audit_records := push_persisted_audit (ps_audit_records s) a\<rparr>)"
| "apply_wal_record s (WalAdminReplay r) = Inr (s\<lparr>ps_admin_replays := ps_admin_replays s @ [r]\<rparr>)"

fun apply_wal_records :: "persisted_snapshot \<Rightarrow> wal_record list \<Rightarrow> persisted_snapshot res" where
  "apply_wal_records s [] = Inr s"
| "apply_wal_records s (r # rs) =
     (case apply_wal_record s r of Inl e \<Rightarrow> Inl e | Inr s \<Rightarrow> apply_wal_records s rs)"

section \<open>Loading\<close>

definition fresh_snapshot :: "auth_config \<Rightarrow> bytes \<Rightarrow> persisted_snapshot" where
  "fresh_snapshot cfg instance_id =
     \<lparr>ps_schema_version = SNAPSHOT_SCHEMA_VERSION, ps_instance_id = instance_id,
      ps_generations = replicate (max_temporary_keys cfg) FIRST_GENERATION, ps_entries = [],
      ps_legacy_protocol = cfg_legacy_protocol cfg, ps_admin_replays = [], ps_audit_records = [],
      ps_root_epoch = 0\<rparr>"

definition read_snapshot ::
  "'c env_scheme \<Rightarrow> auth_config \<Rightarrow> bytes \<Rightarrow> bytes \<Rightarrow> 'a os_scheme \<Rightarrow>
   'a os_scheme \<times> persisted_snapshot res" where
  "read_snapshot C cfg admin_key instance_id st =
     (if file_exists st AUTH_SNAPSHOT_FILE then
        and_then (read_file (store_err False) AUTH_SNAPSHOT_FILE st) (\<lambda>st bs.
        case open_blob C admin_key bs of
          Inl e \<Rightarrow> (st, Inl e)
        | Inr plain \<Rightarrow>
            (case snap_parse C plain of None \<Rightarrow> (st, Inl (store_err False)) | Some s \<Rightarrow> (st, Inr s)))
      else (st, Inr (fresh_snapshot cfg instance_id)))"

definition try_load_persisted_state ::
  "'c env_scheme \<Rightarrow> auth_config \<Rightarrow> bytes \<Rightarrow> bytes \<Rightarrow> 'a os_scheme \<Rightarrow>
   'a os_scheme \<times> persisted_snapshot res" where
  "try_load_persisted_state C cfg admin_key instance_id st =
     and_then (read_snapshot C cfg admin_key instance_id st) (\<lambda>st snapshot.
     if ps_schema_version snapshot \<noteq> SNAPSHOT_SCHEMA_VERSION \<or> ps_instance_id snapshot \<noteq> instance_id
     then (st, Inl (store_err False))
     else let snapshot =
                snapshot\<lparr>ps_generations := grow_to (max_temporary_keys cfg) (ps_generations snapshot)\<rparr> in
     if file_exists st AUTH_WAL_FILE
     then and_then (read_wal C admin_key st) (\<lambda>st records. (st, apply_wal_records snapshot records))
     else (st, Inr snapshot))"

text \<open>A state that does not load starts the server in safe mode.\<close>

definition load_persisted_state ::
  "'c env_scheme \<Rightarrow> auth_config \<Rightarrow> bytes \<Rightarrow> bytes \<Rightarrow> 'a os_scheme \<Rightarrow>
   'a os_scheme \<times> persisted_snapshot option \<times> bool" where
  "load_persisted_state C cfg admin_key instance_id st =
     (case try_load_persisted_state C cfg admin_key instance_id st of
        (st, Inr s) \<Rightarrow> (st, Some s, False)
      | (st, Inl e) \<Rightarrow> (st, None, True))"

definition entry_tombstone ::
  "audit_record list \<Rightarrow> nat \<Rightarrow> persisted_entry \<Rightarrow> nat option" where
  "entry_tombstone audits now e =
     (case pe_state e of
        Expired \<Rightarrow> Some (pe_expires_at e)
      | Revoked \<Rightarrow>
          (case find (\<lambda>r. au_action r = ''temporary_key_revoke'' \<and> au_key_id r = Some (pe_key_id e))
                  (rev audits) of
             Some r \<Rightarrow> Some (au_at r) | None \<Rightarrow> Some now)
      | Free \<Rightarrow> None | Active \<Rightarrow> None)"

definition normalize_tombstone_times ::
  "persisted_snapshot \<Rightarrow> nat \<Rightarrow> persisted_snapshot \<times> bool" where
  "normalize_tombstone_times s now =
     (let fresh = (\<lambda>e. if pe_tombstoned_at e \<noteq> None then None
                       else entry_tombstone (ps_audit_records s) now e)
      in (s\<lparr>ps_entries := map (\<lambda>e. case fresh e of None \<Rightarrow> e
                                     | Some t \<Rightarrow> e\<lparr>pe_tombstoned_at := Some t\<rparr>) (ps_entries s)\<rparr>,
          list_ex (\<lambda>e. fresh e \<noteq> None) (ps_entries s)))"

definition split_high_slot_state ::
  "persisted_snapshot \<Rightarrow> nat \<Rightarrow> generation list \<times> persisted_entry list" where
  "split_high_slot_state s capacity =
     (drop capacity (ps_generations s),
      filter (\<lambda>e. capacity \<le> key_row (pe_key_id e)) (ps_entries s))"

section \<open>Frames\<close>

text \<open>
  The system calls touch only the operating system's part of a state: what a process keeps in
  memory (\<^verbatim>\<open>os.more\<close>), and the clock it will read, are unchanged.  \<open>io_only m r\<close> says so of a
  result; \<open>io_frame\<close> collects its rules, one per construct and one per routine.
\<close>

definition mem :: "'m os_scheme \<Rightarrow> (nat \<Rightarrow> nat) \<times> 'm" where
  "mem st = (clk st, os.more st)"

lemma mem_updates [simp]:
  "mem (st\<lparr>files := f\<rparr>) = mem st" "mem (st\<lparr>lax_mode := l\<rparr>) = mem st"
  "mem (st\<lparr>proc := p\<rparr>) = mem st" "mem (st\<lparr>io_pos := n\<rparr>) = mem st"
  "mem (st\<lparr>rng_pos := n\<rparr>) = mem st" "mem (st\<lparr>clk_pos := n\<rparr>) = mem st"
  by (simp_all add: mem_def)

definition io_only :: "(nat \<Rightarrow> nat) \<times> 'm \<Rightarrow> 'm os_scheme \<times> 'r \<Rightarrow> bool" where
  "io_only m r \<longleftrightarrow> mem (fst r) = m"

lemma io_only_pair [io_frame]: "mem s = m \<Longrightarrow> io_only m (s, x)"
  by (simp add: io_only_def)

lemma io_only_then [io_frame]:
  "io_only m r \<Longrightarrow> (\<And>s a. mem s = m \<Longrightarrow> io_only m (f s a)) \<Longrightarrow> io_only m (and_then r f)"
  by (cases r; cases "snd r") (auto simp: io_only_def and_then_def)

lemma io_only_case [io_frame]:
  "io_only m r \<Longrightarrow> (\<And>s x. mem s = m \<Longrightarrow> io_only m (f s x)) \<Longrightarrow> io_only m (case r of (s, x) \<Rightarrow> f s x)"
  by (cases r) (auto simp: io_only_def)

lemma io_only_if [io_frame]:
  "(b \<Longrightarrow> io_only m r) \<Longrightarrow> (\<not> b \<Longrightarrow> io_only m r') \<Longrightarrow> io_only m (if b then r else r')"
  by simp

lemma io_only_Let [io_frame]: "io_only m (f v) \<Longrightarrow> io_only m (Let v f)"
  by simp

lemma io_only_option [io_frame]:
  "io_only m r \<Longrightarrow> (\<And>x. io_only m (f x)) \<Longrightarrow> io_only m (case v of None \<Rightarrow> r | Some x \<Rightarrow> f x)"
  by (cases v) simp_all

lemma io_only_sum [io_frame]:
  "(\<And>e. io_only m (f e)) \<Longrightarrow> (\<And>x. io_only m (g x)) \<Longrightarrow> io_only m (case v of Inl e \<Rightarrow> f e | Inr x \<Rightarrow> g x)"
  by (cases v) simp_all

lemma io_only_bool [io_frame]:
  "io_only m r \<Longrightarrow> io_only m r' \<Longrightarrow> io_only m (case v of True \<Rightarrow> r | False \<Rightarrow> r')"
  by (cases v) simp_all

lemma io_only_outcome [io_frame]:
  "io_only m r \<Longrightarrow> (\<And>n. io_only m (f n)) \<Longrightarrow> io_only m (case v of IoOk \<Rightarrow> r | IoErr n \<Rightarrow> f n)"
  by (cases v) simp_all

lemma io_only_credential [io_frame]:
  "(\<And>k. io_only m (f k)) \<Longrightarrow> (\<And>i k. io_only m (g i k)) \<Longrightarrow>
   io_only m (case v of Admin k \<Rightarrow> f k | Temporary i k \<Rightarrow> g i k)"
  by (cases v) simp_all

lemma io_only_sys [io_frame]: "mem st = m \<Longrightarrow> io_only m (sys st)"
  by (simp add: sys_def io_only_def)

lemma io_only_io_call [io_frame]: "mem st = m \<Longrightarrow> io_only m (io_call e st)"
  by (simp add: io_call_def sys_def io_only_def split: io_outcome.split)

lemma io_only_random_bytes [io_frame]: "mem st = m \<Longrightarrow> io_only m (random_bytes n st)"
  by (simp add: random_bytes_def io_only_def)

lemma io_only_unix_seconds [io_frame]: "mem st = m \<Longrightarrow> io_only m (unix_seconds st)"
  by (simp add: unix_seconds_def io_only_def)

lemma mem_put_file [simp]: "mem (put_file n d st) = mem st"
  by (simp add: put_file_def)

lemma mem_sys [simp]: "mem (fst (sys st)) = mem st"
  by (simp add: sys_def)

lemma mem_remove_file [simp]: "mem (remove_file n st) = mem st"
  by (simp add: remove_file_def sys_def split: io_outcome.split)

lemma io_only_mem [simp]: "io_only m r \<Longrightarrow> mem (fst r) = m"
  by (simp add: io_only_def)

lemma io_only_read_file [io_frame]: "mem st = m \<Longrightarrow> io_only m (read_file e n st)"
  unfolding read_file_def by (rule io_frame | simp)+

lemma io_only_read_text [io_frame]: "mem st = m \<Longrightarrow> io_only m (read_text e n st)"
  unfolding read_text_def by (rule io_frame | simp)+

lemma io_only_sync_parent [io_frame]: "mem st = m \<Longrightarrow> io_only m (sync_parent_directory st)"
  unfolding sync_parent_directory_def by (rule io_frame | simp)+

lemma io_only_atomic_write [io_frame]: "mem st = m \<Longrightarrow> io_only m (atomic_write n d st)"
  unfolding atomic_write_def by (rule io_frame | simp)+

lemma io_only_seal_blob [io_frame]: "mem st = m \<Longrightarrow> io_only m (seal_blob C k p st)"
  unfolding seal_blob_def by (rule io_frame | simp)+

lemma io_only_append_bytes [io_frame]: "mem st = m \<Longrightarrow> io_only m (append_bytes n d st)"
  unfolding append_bytes_def by (rule io_frame | simp)+

lemma io_only_sync_data [io_frame]: "mem st = m \<Longrightarrow> io_only m (sync_data st)"
  unfolding sync_data_def by (rule io_frame | simp)+

lemma io_only_roll_back [io_frame]: "mem st = m \<Longrightarrow> io_only m (roll_back n l st)"
  unfolding roll_back_def by (rule io_frame | simp)+

lemma io_only_append_frame [io_frame]: "mem st = m \<Longrightarrow> io_only m (append_frame n h b st)"
  unfolding append_frame_def by (rule io_frame | simp)+

lemma io_only_open_create [io_frame]: "mem st = m \<Longrightarrow> io_only m (open_create e n st)"
  unfolding open_create_def by (rule io_frame | simp)+

lemma io_only_append_wal [io_frame]: "mem st = m \<Longrightarrow> io_only m (append_wal C k r st)"
  unfolding append_wal_def by (rule io_frame | simp)+

lemma io_only_truncate [io_frame]: "mem st = m \<Longrightarrow> io_only m (truncate_auth_wal st)"
  unfolding truncate_auth_wal_def by (rule io_frame | simp)+

lemma io_only_write_snapshot [io_frame]:
  "mem st = m \<Longrightarrow> io_only m (write_snapshot_and_truncate_wal C k s st)"
  unfolding write_snapshot_and_truncate_wal_def by (rule io_frame | simp)+

section \<open>What an append leaves in the log\<close>

lemma file_data_put [simp]: "file_data (put_file n d st) n' = (if n' = n then d else file_data st n')"
  by (simp add: file_data_def put_file_def)

lemma files_put [simp]: "files (put_file n d st) = (files st)(n := Some d)"
  by (simp add: put_file_def)

lemma file_data_cong: "files st' n = files st n \<Longrightarrow> file_data st' n = file_data st n"
  by (simp add: file_data_def)

lemma files_io_call [simp]: "files (fst (io_call e st)) = files st"
  by (simp add: io_call_def sys_def split: io_outcome.split)

lemma files_io_callD: "io_call e st = (st', r) \<Longrightarrow> files st' = files st"
  by (metis files_io_call fst_conv)

lemma io_call_InlD: "io_call e st = (st', Inl e') \<Longrightarrow> e' = e"
  by (auto simp: io_call_def sys_def split: io_outcome.splits)

lemma sync_parent_files [simp]: "files (fst (sync_parent_directory st)) = files st"
  by (simp add: sync_parent_directory_def)

lemma sync_parent_InlD: "sync_parent_directory st = (st', Inl e) \<Longrightarrow> e = store_err False"
  by (auto simp: sync_parent_directory_def dest: io_call_InlD)

lemma files_seal_blobD: "seal_blob C k p st = (st', r) \<Longrightarrow> files st' = files st"
  by (auto simp: seal_blob_def random_bytes_def split: option.splits)

lemma retryable_store_err [simp]: "retryable (store_err b) = b"
  by (simp add: store_err_def)

lemma retryable_internal [simp]: "\<not> retryable internal_failure"
  by (simp add: internal_failure_def)

text \<open>\<open>only_file n\<close>: nothing but the file \<open>n\<close> differs.\<close>

definition only_file :: "string \<Rightarrow> 'a os_scheme \<Rightarrow> 'a os_scheme \<Rightarrow> bool" where
  "only_file n st st' \<longleftrightarrow> (\<forall>n'. n' \<noteq> n \<longrightarrow> files st' n' = files st n')"

lemma append_bytes_spec:
  assumes "append_bytes n d st = (st', ok)"
  shows "only_file n st st' \<and> files st' n \<noteq> None \<and>
    (\<exists>suffix. file_data st' n = file_data st n @ suffix \<and> (ok \<longrightarrow> suffix = d))"
  using assms by (auto simp: append_bytes_def sys_def only_file_def file_data_def split: io_outcome.splits)

lemma sync_data_files: "sync_data st = (st', ok) \<Longrightarrow> files st' = files st"
  by (auto simp: sync_data_def sys_def split: io_outcome.splits)

lemma append_frame_spec:
  assumes "append_frame n h b st = (st', ok)"
  shows "only_file n st st' \<and> files st' n \<noteq> None \<and>
    (\<exists>suffix. file_data st' n = file_data st n @ suffix \<and> (ok \<longrightarrow> suffix = h @ b))"
proof -
  obtain st1 ok1 where a1: "append_bytes n h st = (st1, ok1)"
    by (cases "append_bytes n h st")
  show ?thesis
  proof (cases ok1)
    case False
    then show ?thesis
      using assms a1 append_bytes_spec [OF a1] by (auto simp: append_frame_def)
  next
    case True
    obtain st2 ok2 where a2: "append_bytes n b st1 = (st2, ok2)"
      by (cases "append_bytes n b st1")
    have "files st' = files st2" "ok \<longrightarrow> ok2"
      using assms a1 a2 True by (auto simp: append_frame_def dest: sync_data_files split: bool.splits)
    then show ?thesis
      using append_bytes_spec [OF a1] append_bytes_spec [OF a2] True
      by (auto simp: only_file_def file_data_def)
  qed
qed

lemma roll_back_spec:
  assumes "roll_back n len st = (st', ok)" "files st n \<noteq> None"
  shows "only_file n st st' \<and> files st' n \<noteq> None \<and>
    (file_data st' n = take len (file_data st n) \<or> \<not> ok \<and> file_data st' n = file_data st n)"
  using assms
  by (auto simp: roll_back_def sys_def only_file_def file_data_def split: io_outcome.splits
      dest!: sync_data_files)

text \<open>
  An append changes only the log.  If it succeeds the log has grown by one frame around the sealed
  record; if it fails and may be retried the log has its old content; in every case the old content
  is still there.
\<close>

definition wal_frame :: "bytes \<Rightarrow> bytes" where
  "wal_frame sealed = to_be 4 (length sealed) @ sealed"

definition append_post ::
  "'c env_scheme \<Rightarrow> bytes \<Rightarrow> wal_record \<Rightarrow> 'a os_scheme \<Rightarrow> 'a os_scheme \<Rightarrow> unit res \<Rightarrow> bool" where
  "append_post C k r st st' res \<longleftrightarrow> only_file AUTH_WAL_FILE st st' \<and>
    (\<exists>suffix. file_data st' AUTH_WAL_FILE = file_data st AUTH_WAL_FILE @ suffix \<and>
      (\<forall>e. res = Inl e \<longrightarrow> retryable e \<longrightarrow> suffix = []) \<and>
      (res = Inr () \<longrightarrow> files st' AUTH_WAL_FILE \<noteq> None \<and>
        (\<exists>plain sealed st1. wal_json C r = Some plain \<and> seal_blob C k plain st = (st1, Inr sealed) \<and>
           length sealed \<le> u32_max \<and> suffix = wal_frame sealed)))"

text \<open>The steps before the write leave the content of the log alone.\<close>

definition log_kept :: "'a os_scheme \<Rightarrow> 'a os_scheme \<Rightarrow> bool" where
  "log_kept st s \<longleftrightarrow> only_file AUTH_WAL_FILE st s \<and> file_data s AUTH_WAL_FILE = file_data st AUTH_WAL_FILE"

lemma log_kept_files: "log_kept st s \<Longrightarrow> files s' = files s \<Longrightarrow> log_kept st s'"
  by (simp add: log_kept_def only_file_def file_data_def)

lemma log_kept_early: "log_kept st s \<Longrightarrow> append_post C k r st s (Inl e)"
  by (simp add: log_kept_def append_post_def)

lemma log_kept_open:
  assumes "open_create e AUTH_WAL_FILE s = (s', x)" "log_kept st s"
  shows "log_kept st s' \<and> (x = Inr () \<longrightarrow> files s' AUTH_WAL_FILE \<noteq> None)"
  using assms by (auto simp: open_create_def io_call_def sys_def and_then_def log_kept_def
      only_file_def file_data_def split: io_outcome.splits)

lemma append_frame_post:
  assumes pre: "log_kept st s" "files s AUTH_WAL_FILE \<noteq> None"
    and sealed: "wal_json C r = Some plain" "seal_blob C k plain st = (st1, Inr sealed)"
      "length sealed \<le> u32_max"
    and step: "(case append_frame AUTH_WAL_FILE (to_be 4 (length sealed)) sealed s of
        (s, False) \<Rightarrow> (case roll_back AUTH_WAL_FILE (length (file_data st AUTH_WAL_FILE)) s of
            (s, rb) \<Rightarrow> (s, Inl (store_err rb)))
      | (s, True) \<Rightarrow> if created then sync_parent_directory s else (s, Inr ())) = (st', res)"
  shows "append_post C k r st st' res"
proof -
  let ?W = AUTH_WAL_FILE
  obtain s5 ok where s5: "append_frame ?W (to_be 4 (length sealed)) sealed s = (s5, ok)"
    by (cases "append_frame ?W (to_be 4 (length sealed)) sealed s")
  obtain suffix where f5: "only_file ?W st s5" "files s5 ?W \<noteq> None"
    "file_data s5 ?W = file_data st ?W @ suffix" "ok \<Longrightarrow> suffix = wal_frame sealed"
    using append_frame_spec [OF s5] pre by (auto simp: wal_frame_def log_kept_def only_file_def)
  show ?thesis
  proof (cases ok)
    case True
    have "files st' = files s5" "\<And>e. res = Inl e \<Longrightarrow> e = store_err False"
      using step s5 True
      by (auto simp: sync_parent_directory_def split: if_splits dest: files_io_callD io_call_InlD)
    then show ?thesis
      using f5 True sealed by (auto simp: append_post_def only_file_def file_data_def)
  next
    case False
    obtain s6 ok' where s6: "roll_back ?W (length (file_data st ?W)) s5 = (s6, ok')"
      by (cases "roll_back ?W (length (file_data st ?W)) s5")
    then have "st' = s6" "res = Inl (store_err ok')"
      using step s5 False by simp_all
    then show ?thesis
      using roll_back_spec [OF s6 f5(2)] f5 by (auto simp: append_post_def only_file_def)
  qed
qed

lemma open_chain:
  assumes step: "and_then (open_create e0 AUTH_WAL_FILE s1) (\<lambda>s _. and_then (io_call e1 s) (\<lambda>s _.
      and_then (io_call e2 (g s)) h)) = (st', res)"
    and k1: "log_kept st s1" and g: "\<And>s. files (g s) = files s"
  obtains (err) e where "res = Inl e" "log_kept st st'"
    | (ok) s where "log_kept st s" "files s AUTH_WAL_FILE \<noteq> None" "h s () = (st', res)"
  using step
proof (rule and_then_elim)
  fix e assume "open_create e0 AUTH_WAL_FILE s1 = (st', Inl e)" "res = Inl e"
  then show thesis
    using err log_kept_open [OF _ k1] by blast
next
  fix s2 a assume s2: "open_create e0 AUTH_WAL_FILE s1 = (s2, Inr a)"
  note k2 = log_kept_open [OF s2 k1]
  assume "and_then (io_call e1 s2) (\<lambda>s _. and_then (io_call e2 (g s)) h) = (st', res)"
  then show thesis
  proof (rule and_then_elim)
    fix e assume "io_call e1 s2 = (st', Inl e)" "res = Inl e"
    then show thesis
      using err k2 log_kept_files files_io_callD by blast
  next
    fix s3 b assume s3: "io_call e1 s2 = (s3, Inr b)"
    then have f3: "files (g s3) = files s2"
      using g files_io_callD by metis
    assume "and_then (io_call e2 (g s3)) h = (st', res)"
    then show thesis
    proof (rule and_then_elim)
      fix e assume "io_call e2 (g s3) = (st', Inl e)" "res = Inl e"
      then show thesis
        using err k2 f3 log_kept_files files_io_callD by metis
    next
      fix s4 c assume "io_call e2 (g s3) = (s4, Inr c)" "h s4 c = (st', res)"
      then show thesis
        using ok k2 f3 log_kept_files files_io_callD by (metis unit.exhaust)
    qed
  qed
qed

lemma append_wal_post:
  assumes "append_wal C k r st = (st', res)"
  shows "append_post C k r st st' res"
proof (cases "wal_json C r")
  case None
  then show ?thesis
    using assms by (auto simp: append_wal_def append_post_def only_file_def)
next
  case (Some plain)
  let ?W = AUTH_WAL_FILE
  have start: "log_kept st st"
    by (simp add: log_kept_def only_file_def)
  from assms show ?thesis
    unfolding append_wal_def Some option.case Let_def
  proof (rule and_then_elim)
    fix e assume "seal_blob C k plain st = (st', Inl e)" and res: "res = Inl e"
    then show ?thesis
      using log_kept_early [OF log_kept_files [OF start files_seal_blobD]] by blast
  next
    fix s1 sealed
    assume s1: "seal_blob C k plain st = (s1, Inr sealed)"
    note k1 = log_kept_files [OF start files_seal_blobD [OF s1]]
    assume step: "(if u32_max < length sealed then (s1, Inl internal_failure) else
      and_then (open_create (store_err True) ?W s1) (\<lambda>s _. and_then (io_call (store_err False) s) (\<lambda>s _.
      and_then (io_call (store_err True) (s\<lparr>lax_mode := (lax_mode s)(?W := False)\<rparr>)) (\<lambda>s _.
      case append_frame ?W (to_be 4 (length sealed)) sealed s of
        (s', True) \<Rightarrow> if \<not> file_exists s1 ?W then sync_parent_directory s' else (s', Inr ())
      | (s', False) \<Rightarrow> (case roll_back ?W (length (file_data s ?W)) s' of
          (s', rb) \<Rightarrow> (s', Inl (store_err rb))))))) = (st', res)"
    show ?thesis
    proof (cases "u32_max < length sealed")
      case True
      then show ?thesis
        using step log_kept_early [OF k1] by auto
    next
      case False
      from step show ?thesis
        unfolding if_not_P [OF False]
      proof (rule open_chain
          [where g = "\<lambda>s. s\<lparr>lax_mode := (lax_mode s)(?W := False)\<rparr>", OF _ k1])
        fix s
        assume k: "log_kept st s" and ex: "files s ?W \<noteq> None"
          and last: "(case append_frame ?W (to_be 4 (length sealed)) sealed s of
              (s', True) \<Rightarrow> if \<not> file_exists s1 ?W then sync_parent_directory s' else (s', Inr ())
            | (s', False) \<Rightarrow> (case roll_back ?W (length (file_data s ?W)) s' of
                (s', rb) \<Rightarrow> (s', Inl (store_err rb)))) = (st', res)"
        from k have data: "file_data s ?W = file_data st ?W"
          by (simp add: log_kept_def)
        show ?thesis
          using append_frame_post [OF k ex Some s1 _ last [unfolded data]] False by simp
      qed (auto intro: log_kept_early)
    qed
  qed
qed

section \<open>Reading the log back\<close>

definition io_fine :: "'a os_scheme \<Rightarrow> bool" where
  "io_fine st \<longleftrightarrow> (\<forall>n\<ge>io_pos st. io st n = IoOk)"

lemma sys_fine:
  assumes "io_fine st"
  shows "snd (sys st) = IoOk \<and> io_fine (fst (sys st)) \<and> files (fst (sys st)) = files st"
  using assms by (simp add: io_fine_def sys_def)

lemma sys_fineE:
  assumes "io_fine st"
  obtains s where "sys st = (s, IoOk)" "io_fine s" "files s = files st"
  using sys_fine [OF assms] by (cases "sys st") auto

text \<open>On a machine whose system calls succeed, an append succeeds.\<close>

definition succeeds :: "'a os_scheme \<times> 'r res \<Rightarrow> bool" where
  "succeeds r \<longleftrightarrow> (\<exists>s a. r = (s, Inr a) \<and> io_fine s)"

lemma succeeds_then:
  "succeeds r \<Longrightarrow> (\<And>s a. io_fine s \<Longrightarrow> succeeds (f s a)) \<Longrightarrow> succeeds (and_then r f)"
  by (auto simp: succeeds_def and_then_def)

lemma succeeds_io_call: "io_fine st \<Longrightarrow> succeeds (io_call e st)"
  by (simp add: succeeds_def io_call_def sys_def io_fine_def)

lemma io_fine_updates [simp]:
  "io_fine (put_file n d st) = io_fine st" "io_fine (st\<lparr>lax_mode := l\<rparr>) = io_fine st"
  "io_fine (st\<lparr>clk_pos := m\<rparr>) = io_fine st" "io_fine (st\<lparr>rng_pos := m\<rparr>) = io_fine st"
  by (simp_all add: io_fine_def put_file_def)

lemma succeeds_open_create: "io_fine st \<Longrightarrow> succeeds (open_create e n st)"
  unfolding open_create_def by (rule succeeds_then [OF succeeds_io_call]) (auto simp: succeeds_def)

lemma append_frame_fine:
  assumes "io_fine st"
  shows "\<exists>s. append_frame n h b st = (s, True) \<and> io_fine s"
  using assms by (simp add: append_frame_def append_bytes_def sync_data_def sys_def io_fine_def put_file_def)

definition seal_ok :: "'c crypto_scheme \<Rightarrow> bool" where
  "seal_ok C \<longleftrightarrow> (\<forall>k n a p. \<exists>c. aead_seal C k n a p = Some c \<and> length c = length p + 16)"

lemma append_wal_fine:
  assumes fine: "io_fine st" and seal: "seal_ok C"
    and json: "wal_json C r = Some plain" "length plain \<le> WAL_RECORD_MAX"
  shows "succeeds (append_wal C k r st)"
proof -
  let ?nonce = "snd (random_bytes 12 st)"
  obtain c where c: "aead_seal C k ?nonce STATE_AAD plain = Some c" "length c = length plain + 16"
    using seal unfolding seal_ok_def by metis
  define sealed where "sealed = STATE_BLOB_MAGIC @ ?nonce @ c"
  define s1 where "s1 = fst (random_bytes 12 st)"
  have s1: "seal_blob C k plain st = (s1, Inr sealed)" "io_fine s1"
    using c(1) fine by (simp_all add: seal_blob_def s1_def sealed_def random_bytes_def)
  have len: "length sealed = length plain + 33"
    using c(2) by (simp add: sealed_def random_bytes_def STATE_BLOB_MAGIC_def ascii_def)
  have small: "\<not> u32_max < length sealed"
    using len json(2) by (simp add: u32_max_def WAL_RECORD_MAX_def)
  have last: "succeeds (case append_frame n h b s of (st, False) \<Rightarrow> f st
      | (st, True) \<Rightarrow> if c then sync_parent_directory st else (st, Inr ()))"
    if "io_fine s" for n h b s f c
    using append_frame_fine [OF that, of n h b] succeeds_io_call
    by (auto simp: sync_parent_directory_def) (auto simp: succeeds_def)
  show ?thesis
    unfolding append_wal_def json(1) option.case s1(1) and_then_simps(2) Let_def if_not_P [OF small]
    by (intro succeeds_then succeeds_open_create succeeds_io_call last) (simp_all add: s1(2))
qed

text \<open>A log that holds the records \<open>rs\<close> under the key \<open>k\<close>, frame by frame.\<close>

definition frame_decodes :: "'c env_scheme \<Rightarrow> bytes \<Rightarrow> bytes \<Rightarrow> wal_record \<Rightarrow> bool" where
  "frame_decodes C k sealed r \<longleftrightarrow>
     length sealed \<le> WAL_RECORD_MAX \<and>
     (\<exists>plain. open_blob C k sealed = Inr plain \<and> wal_parse C plain = Some r)"

inductive wal_log :: "'c env_scheme \<Rightarrow> bytes \<Rightarrow> bytes \<Rightarrow> wal_record list \<Rightarrow> bool"
  for C k where
  wal_empty: "wal_log C k [] []"
| wal_snoc: "wal_log C k bs rs \<Longrightarrow> frame_decodes C k sealed r \<Longrightarrow>
    wal_log C k (bs @ wal_frame sealed) (rs @ [r])"

lemma wal_frame_parts:
  assumes "length sealed \<le> WAL_RECORD_MAX"
  shows "from_be (take 4 (wal_frame sealed @ bs)) = length sealed"
    "drop 4 (wal_frame sealed @ bs) = sealed @ bs" "4 \<le> length (wal_frame sealed @ bs)"
  using assms by (simp_all add: wal_frame_def WAL_RECORD_MAX_def)

lemma read_records_frame:
  assumes "frame_decodes C k sealed r" "io_fine st"
  shows "\<exists>s. read_records C k (wal_frame sealed @ bs) acc st = read_records C k bs (acc @ [r]) s \<and>
    io_fine s \<and> files s = files st"
proof -
  from assms(1) obtain plain where len: "length sealed \<le> WAL_RECORD_MAX"
    and op: "open_blob C k sealed = Inr plain" and pa: "wal_parse C plain = Some r"
    by (auto simp: frame_decodes_def)
  obtain s1 where s1: "sys st = (s1, IoOk)" "io_fine s1" "files s1 = files st"
    using sys_fineE [OF assms(2)] .
  obtain s2 where s2: "sys s1 = (s2, IoOk)" "io_fine s2" "files s2 = files s1"
    using sys_fineE [OF s1(2)] .
  obtain s3 where s3: "sys s2 = (s3, IoOk)" "io_fine s3" "files s3 = files s2"
    using sys_fineE [OF s2(2)] .
  define xs where "xs = wal_frame sealed @ bs"
  note parts = wal_frame_parts [OF len, of bs, folded xs_def]
  have "xs \<noteq> []" "\<not> length xs < 4"
    using parts(3) by auto
  then have "read_records C k xs acc st = read_records C k bs (acc @ [r]) s3"
    using len op pa by (subst read_records.simps) (simp add: s1(1) s2(1) s3(1) parts(1,2) Let_def)
  then show ?thesis
    using s1 s2 s3 unfolding xs_def by metis
qed

lemma wal_log_append:
  assumes "wal_log C k bs rs" "wal_log C k bs' rs'"
  shows "wal_log C k (bs @ bs') (rs @ rs')"
  using assms(2,1)
proof induction
  case (wal_snoc bs' rs' sealed r)
  then show ?case
    using wal_log.wal_snoc [of C k "bs @ bs'" "rs @ rs'" sealed r] by simp
qed simp

lemma read_records_log:
  assumes "wal_log C k bs rs" "io_fine st"
  shows "\<exists>s. read_records C k (bs @ bs') acc st = read_records C k bs' (acc @ rs) s \<and>
    io_fine s \<and> files s = files st"
  using assms
proof (induction arbitrary: bs')
  case (wal_snoc bs rs sealed r)
  obtain s where s: "read_records C k (bs @ wal_frame sealed @ bs') acc st =
      read_records C k (wal_frame sealed @ bs') (acc @ rs) s" "io_fine s" "files s = files st"
    using wal_snoc by metis
  show ?case
    using read_records_frame [OF wal_snoc.hyps(2) s(2), of bs' "acc @ rs"] s by auto
qed auto

lemma read_wal_log:
  assumes log: "wal_log C k bs rs" and "io_fine st" and f: "files st AUTH_WAL_FILE = Some bs"
  shows "snd (read_wal C k st) = Inr rs"
proof -
  obtain s1 where s1: "sys st = (s1, IoOk)" "io_fine s1" "files s1 = files st"
    using sys_fineE [OF assms(2)] .
  obtain s2 where s2: "read_records C k (bs @ []) [] s1 = read_records C k [] ([] @ rs) s2" "io_fine s2"
    using read_records_log [OF log s1(2)] by blast
  obtain s3 where s3: "sys s2 = (s3, IoOk)"
    using sys_fineE [OF s2(2)] by metis
  have "read_records C k bs [] s1 = (s3, Inr rs)"
    using s2(1) by (simp add: read_records.simps [of C k "[]"] s3)
  then show ?thesis
    using f by (simp add: read_wal_def read_file_def io_call_def s1)
qed

text \<open>A sealed record opens again.\<close>

lemma open_seal_blob:
  assumes "aead_ok C" "seal_blob C k plain st = (st', Inr sealed)"
  shows "open_blob C k sealed = Inr plain"
proof -
  from assms(2) obtain nonce out where n: "length nonce = 12"
    and out: "aead_seal C k nonce STATE_AAD plain = Some out"
    and sealed: "sealed = STATE_BLOB_MAGIC @ nonce @ out"
    by (cases "aead_seal C k (map (rng st) [rng_pos st..<rng_pos st + 12]) STATE_AAD plain")
      (auto simp: seal_blob_def random_bytes_def intro!: that [of "map (rng st) [rng_pos st..<rng_pos st + 12]"])
  have "aead_open C k nonce STATE_AAD out = Some plain" "length out = length plain + 16"
    using assms(1) out unfolding aead_ok_def by blast+
  then show ?thesis
    by (simp add: open_blob_def sealed n Let_def)
qed

lemma append_wal_extends_log:
  assumes "aead_ok C" "json_ok C" and log: "wal_log C k (file_data st AUTH_WAL_FILE) rs"
    and ap: "append_wal C k r st = (st', Inr ())"
    and small: "length (file_data st' AUTH_WAL_FILE) \<le> WAL_RECORD_MAX"
  shows "wal_log C k (file_data st' AUTH_WAL_FILE) (rs @ [r]) \<and> files st' AUTH_WAL_FILE \<noteq> None"
proof -
  from append_wal_post [OF ap] obtain plain sealed st1
    where data: "file_data st' AUTH_WAL_FILE = file_data st AUTH_WAL_FILE @ wal_frame sealed"
      and f: "files st' AUTH_WAL_FILE \<noteq> None"
      and j: "wal_json C r = Some plain" and s: "seal_blob C k plain st = (st1, Inr sealed)"
    by (auto simp: append_post_def)
  have "length sealed \<le> WAL_RECORD_MAX"
    using small by (simp add: data wal_frame_def)
  moreover have "wal_parse C plain = Some r"
    using assms(2) j by (simp add: json_ok_def)
  ultimately have "frame_decodes C k sealed r"
    using open_seal_blob [OF assms(1) s] by (simp add: frame_decodes_def)
  then show ?thesis
    using wal_snoc [OF log] f by (simp add: data)
qed

end
