(* ===== verification/AuthKeys.thy ===== *)
theory AuthKeys
  imports AuthStore
begin

text \<open>
  The administrator key and the instance id on disk: creation, the checks that keep a key from
  being written over state it cannot decrypt, and the two recoveries that finish a rotation or a
  reset the server died in (\<^verbatim>\<open>persistence/admin_key.rs\<close>, \<^verbatim>\<open>keys.rs\<close>).
\<close>

section \<open>Instance id\<close>

definition random_instance_id :: "'a os_scheme \<Rightarrow> 'a os_scheme \<times> bytes" where
  "random_instance_id st = random_bytes INSTANCE_ID_LEN st"

definition read_instance_id_file :: "string \<Rightarrow> 'a os_scheme \<Rightarrow> 'a os_scheme \<times> bytes option res" where
  "read_instance_id_file name st =
     (if \<not> file_exists st name then (st, Inr None)
      else and_then (read_file state_err name st) (\<lambda>st bs.
           if length bs = INSTANCE_ID_LEN then (st, Inr (Some bs)) else (st, Inl state_err)))"

definition load_or_create_instance_id :: "'a os_scheme \<Rightarrow> 'a os_scheme \<times> bytes res" where
  "load_or_create_instance_id st =
     and_then (read_instance_id_file INSTANCE_ID_FILE st) (\<lambda>st found.
     case found of
       Some instance_id \<Rightarrow> (st, Inr instance_id)
     | None \<Rightarrow>
         (let (st, instance_id) = random_instance_id st in
          and_then (atomic_write INSTANCE_ID_FILE instance_id st) (\<lambda>st _. (st, Inr instance_id))))"

definition parse_snapshot_bytes :: "'c env_scheme \<Rightarrow> bytes \<Rightarrow> bytes \<Rightarrow> persisted_snapshot option" where
  "parse_snapshot_bytes C admin_key bs =
     (case open_blob C admin_key bs of Inl e \<Rightarrow> None | Inr plain \<Rightarrow> snap_parse C plain)"

definition recover_instance_id_after_reset ::
  "'c env_scheme \<Rightarrow> bytes \<Rightarrow> bytes \<Rightarrow> 'a os_scheme \<Rightarrow> 'a os_scheme \<times> bytes res" where
  "recover_instance_id_after_reset C admin_key current st =
     and_then (read_instance_id_file INSTANCE_ID_NEXT_FILE st) (\<lambda>st found.
     case found of
       None \<Rightarrow> (st, Inr current)
     | Some next_id \<Rightarrow>
         if \<not> file_exists st AUTH_SNAPSHOT_FILE
         then (remove_file INSTANCE_ID_NEXT_FILE st, Inr current)
         else and_then (read_file (store_err False) AUTH_SNAPSHOT_FILE st) (\<lambda>st bs.
           case parse_snapshot_bytes C admin_key bs of
             None \<Rightarrow> (st, Inr current)
           | Some snapshot \<Rightarrow>
               if ps_instance_id snapshot = current
               then (remove_file INSTANCE_ID_NEXT_FILE st, Inr current)
               else if ps_instance_id snapshot \<noteq> next_id then (st, Inr current)
               else and_then (truncate_auth_wal st) (\<lambda>st _.
                    and_then (atomic_write INSTANCE_ID_FILE next_id st) (\<lambda>st _.
                    (remove_file INSTANCE_ID_NEXT_FILE st, Inr next_id)))))"

definition reset_already_installed ::
  "'c env_scheme \<Rightarrow> bytes \<Rightarrow> bytes \<Rightarrow> 'a os_scheme \<Rightarrow> 'a os_scheme \<times> bool" where
  "reset_already_installed C admin_key new_instance_id st =
     (case read_instance_id_file INSTANCE_ID_FILE st of
        (st, Inr (Some live)) \<Rightarrow>
          if live \<noteq> new_instance_id then (st, False)
          else (case read_file (store_err False) AUTH_SNAPSHOT_FILE st of
                  (st, Inl _) \<Rightarrow> (st, False)
                | (st, Inr bs) \<Rightarrow>
                    (case parse_snapshot_bytes C admin_key bs of
                       None \<Rightarrow> (st, False)
                     | Some s \<Rightarrow> (st, ps_instance_id s = new_instance_id)))
      | (st, _) \<Rightarrow> (st, False))"

section \<open>Which key the state belongs to\<close>

definition key_matches_existing_snapshot ::
  "'c env_scheme \<Rightarrow> bytes \<Rightarrow> 'a os_scheme \<Rightarrow> 'a os_scheme \<times> bool" where
  "key_matches_existing_snapshot C key st =
     (if \<not> file_exists st AUTH_SNAPSHOT_FILE then (st, False)
      else case parse_credential C key of
        Inr (Admin admin_key) \<Rightarrow>
          (case read_file (store_err False) AUTH_SNAPSHOT_FILE st of
             (st, Inl _) \<Rightarrow> (st, False)
           | (st, Inr bs) \<Rightarrow> (st, \<not> isl (open_blob C admin_key bs)))
      | _ \<Rightarrow> (st, False))"

text \<open>The first record of the log decides; an empty log matches every key.\<close>

definition wal_decrypts_with_key ::
  "'c env_scheme \<Rightarrow> bytes \<Rightarrow> 'a os_scheme \<Rightarrow> 'a os_scheme \<times> bool" where
  "wal_decrypts_with_key C admin_key st =
     (case read_file (store_err False) AUTH_WAL_FILE st of
        (st, Inl _) \<Rightarrow> (st, False)
      | (st, Inr bs) \<Rightarrow>
     (case sys st of (st, IoErr _) \<Rightarrow> (st, False) | (st, IoOk) \<Rightarrow>
        if bs = [] then (st, True)
        else case sys st of (st, IoErr _) \<Rightarrow> (st, False) | (st, IoOk) \<Rightarrow>
        if length bs < 4 then (st, False)
        else let len = from_be (take 4 bs); body = drop 4 bs in
        if len = 0 \<or> WAL_RECORD_MAX < len then (st, False)
        else case sys st of (st, IoErr _) \<Rightarrow> (st, False) | (st, IoOk) \<Rightarrow>
        if length body < len then (st, False)
        else (st, \<not> isl (open_blob C admin_key (take len body)))))"

definition key_matches_existing_state ::
  "'c env_scheme \<Rightarrow> bytes \<Rightarrow> 'a os_scheme \<Rightarrow> 'a os_scheme \<times> bool" where
  "key_matches_existing_state C key st =
     (case key_matches_existing_snapshot C key st of
        (st, True) \<Rightarrow> (st, True)
      | (st, False) \<Rightarrow>
          if file_exists st AUTH_SNAPSHOT_FILE \<or> \<not> file_exists st AUTH_WAL_FILE then (st, False)
          else case parse_credential C key of
            Inr (Admin admin_key) \<Rightarrow> wal_decrypts_with_key C admin_key st
          | _ \<Rightarrow> (st, False))"

definition live_admin_key_matches :: "bytes \<Rightarrow> 'a os_scheme \<Rightarrow> 'a os_scheme \<times> bool" where
  "live_admin_key_matches new_key st =
     (case read_file (store_err False) ADMIN_KEY_FILE st of
        (st, Inl _) \<Rightarrow> (st, False)
      | (st, Inr raw) \<Rightarrow> (st, utf8_valid raw \<and> trim raw = trim new_key))"

definition rotation_already_installed ::
  "'c env_scheme \<Rightarrow> bytes \<Rightarrow> 'a os_scheme \<Rightarrow> 'a os_scheme \<times> bool" where
  "rotation_already_installed C new_key st =
     (case key_matches_existing_snapshot C new_key st of
        (st, True) \<Rightarrow> live_admin_key_matches new_key st
      | (st, False) \<Rightarrow> (st, False))"

section \<open>Key files\<close>

definition key_required :: auth_failure where
  "key_required = fail ''administrator_key_required'' False"

definition key_invalid :: auth_failure where
  "key_invalid = fail ''administrator_key_invalid'' False"

definition key_line :: "bytes \<Rightarrow> bytes" where
  "key_line key = key @ ascii [CHR 0x0A]"

definition write_admin_key :: "bytes \<Rightarrow> 'a os_scheme \<Rightarrow> 'a os_scheme \<times> unit res" where
  "write_admin_key key st = atomic_write ADMIN_KEY_FILE (key_line key) st"

text \<open>
  Each character is drawn by \<^verbatim>\<open>random_range\<close> over the 62 characters; the oracle's byte,
  reduced, stands for the draw.
\<close>

definition generate_admin_key :: "'a os_scheme \<Rightarrow> 'a os_scheme \<times> bytes" where
  "generate_admin_key st =
     (let (st, draws) = random_bytes 32 st
      in (st, map (\<lambda>b. DERIVE_MSG_HEADER_KEY_CHARSET !
                     (unat b mod length DERIVE_MSG_HEADER_KEY_CHARSET)) draws))"

definition refuse_write_if_encrypted_state :: "'a os_scheme \<Rightarrow> 'a os_scheme \<times> unit res" where
  "refuse_write_if_encrypted_state st =
     (if encrypted_auth_state_exists st
      then (st, Inl (fail ''administrator_key_state_exists'' False)) else (st, Inr ()))"

definition initialize_admin_key :: "string \<Rightarrow> bool \<Rightarrow> 'a os_scheme \<Rightarrow> 'a os_scheme \<times> bytes res" where
  "initialize_admin_key name force st =
     (if file_exists st name \<and> \<not> force then (st, Inl (fail ''administrator_key_exists'' False))
      else and_then (refuse_write_if_encrypted_state st) (\<lambda>st _.
        let (st, key) = generate_admin_key st in
        and_then (atomic_write name (key_line key) st) (\<lambda>st _. (st, Inr key))))"

definition write_admin_key_file ::
  "'c env_scheme \<Rightarrow> string \<Rightarrow> bytes \<Rightarrow> bool \<Rightarrow> 'a os_scheme \<Rightarrow> 'a os_scheme \<times> unit res" where
  "write_admin_key_file C name key force st =
     (case parse_credential C key of
        Inr (Admin _) \<Rightarrow>
          if file_exists st name \<and> \<not> force then (st, Inl (fail ''administrator_key_exists'' False))
          else
            let (st, matches) =
                  (if name = ADMIN_KEY_FILE then key_matches_existing_state C key st else (st, True))
            in and_then (if matches then (st, Inr ()) else refuse_write_if_encrypted_state st) (\<lambda>st _.
               atomic_write name (key_line key) st)
      | _ \<Rightarrow> (st, Inl key_invalid))"

text \<open>
  Reading a key file first repairs a mode that lets others read it.
\<close>

definition read_admin_key :: "string \<Rightarrow> 'a os_scheme \<Rightarrow> 'a os_scheme \<times> bytes option res" where
  "read_admin_key name st =
     (if \<not> file_exists st name then (st, Inr None)
      else and_then (io_call key_required st) (\<lambda>st _.
        and_then
          (if lax_mode st name
           then and_then (io_call key_required st) (\<lambda>st _.
                  (st\<lparr>lax_mode := (lax_mode st)(name := False)\<rparr>, Inr ()))
           else (st, Inr ())) (\<lambda>st _.
        and_then (read_text key_required name st) (\<lambda>st raw. (st, Inr (Some raw))))))"

definition persist_recovery_admin_key ::
  "'c env_scheme \<Rightarrow> bytes \<Rightarrow> 'a os_scheme \<Rightarrow> 'a os_scheme \<times> unit res" where
  "persist_recovery_admin_key C key st =
     (let (st, matches) =
            (if encrypted_auth_state_exists st then key_matches_existing_state C key st else (st, True))
      in if matches then write_admin_key key st else (st, Inl key_invalid))"

definition validate_admin_credential :: "'c env_scheme \<Rightarrow> bytes \<Rightarrow> credential res" where
  "validate_admin_credential C raw =
     (case parse_credential C (trim raw) of
        Inl e \<Rightarrow> Inl key_invalid
      | Inr c \<Rightarrow> if credential_is_admin c then Inr c else Inl key_required)"

text \<open>
  A rotation writes \<^verbatim>\<open>admin.key.next\<close>, the snapshot under the new key, then
  \<^verbatim>\<open>admin.key\<close>.  When the snapshot no longer opens with the current key but opens with the
  staged one, the staged key is promoted.
\<close>

definition recover_admin_key_after_rotation ::
  "'c env_scheme \<Rightarrow> bytes \<Rightarrow> 'a os_scheme \<Rightarrow> 'a os_scheme \<times> bytes res" where
  "recover_admin_key_after_rotation C current st =
     (if \<not> file_exists st AUTH_SNAPSHOT_FILE then (st, Inr current)
      else and_then (read_file (store_err False) AUTH_SNAPSHOT_FILE st) (\<lambda>st bs.
        if (case parse_credential C (trim current) of
              Inr (Admin current_key) \<Rightarrow> \<not> isl (open_blob C current_key bs) | _ \<Rightarrow> False)
        then (st, Inr current)
        else and_then (read_admin_key ADMIN_KEY_NEXT_FILE st) (\<lambda>st found.
          case found of
            None \<Rightarrow> (st, Inr current)
          | Some next_raw \<Rightarrow>
              (case parse_credential C (trim next_raw) of
                 Inr (Admin next_key) \<Rightarrow>
                   if isl (open_blob C next_key bs) then (st, Inr current)
                   else and_then (truncate_auth_wal st) (\<lambda>st _.
                        and_then (write_admin_key (trim next_raw) st) (\<lambda>st _.
                        (remove_file ADMIN_KEY_NEXT_FILE st, Inr next_raw)))
               | _ \<Rightarrow> (st, Inr current)))))"

text \<open>
  Where the key of a server comes from: the key file, else the process credential, else the key
  file of older releases, else a new random key.
\<close>

definition read_server_admin_key :: "'c env_scheme \<Rightarrow> 'a os_scheme \<Rightarrow> 'a os_scheme \<times> bytes res" where
  "read_server_admin_key C st =
     and_then (read_admin_key ADMIN_KEY_FILE st) (\<lambda>st found.
     case found of
       Some raw \<Rightarrow> (st, Inr raw)
     | None \<Rightarrow>
     if pc_env (proc st) \<noteq> None then
       (case get_process_credential (proc st) of
          Inl e \<Rightarrow> (st, Inl key_invalid)
        | Inr (Temporary _ _) \<Rightarrow> (st, Inl key_required)
        | Inr (Admin key) \<Rightarrow>
            if \<not> utf8_valid key then (st, Inl key_invalid)
            else and_then (persist_recovery_admin_key C key st) (\<lambda>st _. (st, Inr key)))
     else case machine_key st of
       Some raw \<Rightarrow>
         and_then (io_call key_required st) (\<lambda>st _.
         if \<not> utf8_valid raw then (st, Inl key_required)
         else case validate_admin_credential C raw of
           Inl e \<Rightarrow> (st, Inl e)
         | Inr _ \<Rightarrow> and_then (persist_recovery_admin_key C (trim raw) st) (\<lambda>st _. (st, Inr raw)))
     | None \<Rightarrow> initialize_admin_key ADMIN_KEY_FILE False st)"

definition load_server_admin_credential ::
  "'c env_scheme \<Rightarrow> 'a os_scheme \<Rightarrow> 'a os_scheme \<times> credential res" where
  "load_server_admin_credential C st =
     and_then (read_server_admin_key C st) (\<lambda>st raw.
     and_then (recover_admin_key_after_rotation C raw st) (\<lambda>st raw.
     case validate_admin_credential C raw of
       Inl e \<Rightarrow> (st, Inl e)
     | Inr credential \<Rightarrow>
         (case set_process_msg_header_key C (Some (trim raw)) (proc st) of
            (p, Inl e) \<Rightarrow> (st\<lparr>proc := p\<rparr>, Inl internal_failure)
          | (p, Inr _) \<Rightarrow> (st\<lparr>proc := p\<rparr>, Inr credential))))"

definition load_isolated_server_admin_credential ::
  "'c env_scheme \<Rightarrow> 'a os_scheme \<Rightarrow> 'a os_scheme \<times> credential res" where
  "load_isolated_server_admin_credential C st =
     and_then (read_admin_key ADMIN_KEY_FILE st) (\<lambda>st found.
     and_then (case found of Some raw \<Rightarrow> (st, Inr raw)
               | None \<Rightarrow> initialize_admin_key ADMIN_KEY_FILE False st) (\<lambda>st raw.
     and_then (recover_admin_key_after_rotation C raw st) (\<lambda>st raw.
     (st, validate_admin_credential C raw))))"

definition derive_temporary_key :: "'c crypto_scheme \<Rightarrow> bytes \<Rightarrow> bytes \<Rightarrow> key_id \<Rightarrow> bytes res" where
  "derive_temporary_key C admin_key instance_id key_id =
     (case hkdf C instance_id admin_key (ascii ''pb-mapper-temp-key-v1'' @ key_id_to_be_bytes key_id) of
        None \<Rightarrow> Inl internal_failure
      | Some key \<Rightarrow> Inr key)"

section \<open>Frames\<close>

lemma io_only_random_instance_id [io_frame]: "mem st = m \<Longrightarrow> io_only m (random_instance_id st)"
  unfolding random_instance_id_def by (rule io_frame | simp)+

lemma io_only_read_instance_id [io_frame]: "mem st = m \<Longrightarrow> io_only m (read_instance_id_file n st)"
  unfolding read_instance_id_file_def by (rule io_frame | simp)+

lemma io_only_reset_installed [io_frame]:
  "mem st = m \<Longrightarrow> io_only m (reset_already_installed C k i st)"
  unfolding reset_already_installed_def by (rule io_frame | simp)+

lemma io_only_key_snapshot [io_frame]:
  "mem st = m \<Longrightarrow> io_only m (key_matches_existing_snapshot C k st)"
  unfolding key_matches_existing_snapshot_def by (rule io_frame | simp)+

lemma io_only_wal_decrypts [io_frame]: "mem st = m \<Longrightarrow> io_only m (wal_decrypts_with_key C k st)"
  unfolding wal_decrypts_with_key_def by (rule io_frame | simp)+

lemma io_only_key_state [io_frame]:
  "mem st = m \<Longrightarrow> io_only m (key_matches_existing_state C k st)"
  unfolding key_matches_existing_state_def by (rule io_frame | simp)+

lemma io_only_live_admin_key [io_frame]: "mem st = m \<Longrightarrow> io_only m (live_admin_key_matches k st)"
  unfolding live_admin_key_matches_def by (rule io_frame | simp)+

lemma io_only_rotation_installed [io_frame]:
  "mem st = m \<Longrightarrow> io_only m (rotation_already_installed C k st)"
  unfolding rotation_already_installed_def by (rule io_frame | simp)+

lemma io_only_write_admin_key [io_frame]: "mem st = m \<Longrightarrow> io_only m (write_admin_key k st)"
  unfolding write_admin_key_def by (rule io_frame | simp)+

lemma io_only_refuse [io_frame]: "mem st = m \<Longrightarrow> io_only m (refuse_write_if_encrypted_state st)"
  unfolding refuse_write_if_encrypted_state_def by (rule io_frame | simp)+

lemma io_only_write_admin_key_file [io_frame]:
  "mem st = m \<Longrightarrow> io_only m (write_admin_key_file C n k f st)"
  unfolding write_admin_key_file_def by (rule io_frame | simp)+

end
