(* ===== verification/Agenda.thy ===== *)
theory Agenda
  imports Prelude
begin

text \<open>
  The contract between a timer queue and its clients: an agenda of deadlines.  \<open>pending\<close> is the
  abstract content, a multiset of (deadline, timer) pairs on the queue's own clock.  The laws say
  that scheduling adds one pair and that a tick drops exactly the timers whose deadline it is.  The
  wheel of \<^verbatim>\<open>TimingWheel\<close> interprets the locale; \<^verbatim>\<open>Leases\<close> is the client.
\<close>

text \<open>\<open>n\<close> consecutive ticks, with the timers each of them dropped.\<close>

fun run_ticks :: "('w \<Rightarrow> 'w \<times> 'a list) \<Rightarrow> nat \<Rightarrow> 'w \<Rightarrow> 'w \<times> 'a list list" where
  "run_ticks f 0 w = (w, [])"
| "run_ticks f (Suc n) w =
     (let (w', rel) = f w; (w'', rels) = run_ticks f n w' in (w'', rel # rels))"

locale agenda =
  fixes inv :: "'w \<Rightarrow> bool"
    and clock :: "'w \<Rightarrow> nat"
    and horizon :: "'w \<Rightarrow> nat"
    and pending :: "'w \<Rightarrow> (nat \<times> 'a) multiset"
    and sched :: "'w \<Rightarrow> nat \<Rightarrow> 'a \<Rightarrow> 'w \<times> 'a list"
    and tck :: "'w \<Rightarrow> 'w \<times> 'a list"
  assumes sched_inv: "inv w \<Longrightarrow> sched w d t = (w', rel) \<Longrightarrow> inv w'"
    and sched_clock: "inv w \<Longrightarrow> sched w d t = (w', rel) \<Longrightarrow> clock w' = clock w"
    and sched_horizon: "inv w \<Longrightarrow> sched w d t = (w', rel) \<Longrightarrow> horizon w' = horizon w"
    and sched_placed:
      "inv w \<Longrightarrow> 0 < d \<Longrightarrow> d \<le> horizon w \<Longrightarrow> sched w d t = (w', rel) \<Longrightarrow>
       rel = [] \<and> pending w' = add_mset (clock w + d, t) (pending w)"
    and sched_refused: "inv w \<Longrightarrow> d = 0 \<or> horizon w < d \<Longrightarrow> sched w d t = (w, [t])"
    and tick_inv: "inv w \<Longrightarrow> tck w = (w', rel) \<Longrightarrow> inv w'"
    and tick_clock: "inv w \<Longrightarrow> tck w = (w', rel) \<Longrightarrow> clock w' = Suc (clock w)"
    and tick_horizon: "inv w \<Longrightarrow> tck w = (w', rel) \<Longrightarrow> horizon w' = horizon w"
    and tick_dropped:
      "inv w \<Longrightarrow> tck w = (w', rel) \<Longrightarrow>
       mset rel = image_mset snd (filter_mset (\<lambda>e. fst e = Suc (clock w)) (pending w))"
    and tick_kept:
      "inv w \<Longrightarrow> tck w = (w', rel) \<Longrightarrow>
       pending w' = filter_mset (\<lambda>e. fst e \<noteq> Suc (clock w)) (pending w)"
    and future: "inv w \<Longrightarrow> e \<in># pending w \<Longrightarrow> clock w < fst e"
begin

lemma run_ticks_spec:
  assumes "inv w" "run_ticks tck n w = (w', rels)"
  shows "inv w' \<and> clock w' = clock w + n \<and> horizon w' = horizon w \<and> length rels = n \<and>
    pending w' = filter_mset (\<lambda>e. clock w + n < fst e) (pending w) \<and>
    (\<forall>i<n. mset (rels ! i) =
        image_mset snd (filter_mset (\<lambda>e. fst e = clock w + Suc i) (pending w)))"
  using assms
proof (induction n arbitrary: w rels)
  case 0
  then have "filter_mset (\<lambda>e. clock w < fst e) (pending w) = pending w"
    by (auto simp: filter_mset_eq_conv dest: future)
  with 0 show ?case
    by simp
next
  case (Suc n)
  obtain w1 rel rels1 where t: "tck w = (w1, rel)"
    and r: "run_ticks tck n w1 = (w', rels1)" "rels = rel # rels1"
    using Suc.prems(2) by (auto split: prod.splits)
  note inv1 = tick_inv [OF Suc.prems(1) t] and clock1 = tick_clock [OF Suc.prems(1) t]
    and horizon1 = tick_horizon [OF Suc.prems(1) t]
    and pend1 = tick_kept [OF Suc.prems(1) t] and rel = tick_dropped [OF Suc.prems(1) t]
  note IH = Suc.IH [OF inv1 r(1)]
  have kept: "filter_mset (\<lambda>e. clock w + Suc n < fst e) (pending w1)
      = filter_mset (\<lambda>e. clock w + Suc n < fst e) (pending w)"
    by (auto simp: pend1 filter_filter_mset intro!: filter_mset_cong)
  have rels: "mset (rels ! i) = image_mset snd (filter_mset (\<lambda>e. fst e = clock w + Suc i) (pending w))"
    if "i < Suc n" for i
  proof (cases i)
    case (Suc j)
    then have "mset (rels ! i)
        = image_mset snd (filter_mset (\<lambda>e. fst e = clock w1 + Suc j) (pending w1))"
      using IH that r(2) by simp
    also have "filter_mset (\<lambda>e. fst e = clock w1 + Suc j) (pending w1)
        = filter_mset (\<lambda>e. fst e = clock w + Suc i) (pending w)"
      by (auto simp: pend1 clock1 Suc filter_filter_mset intro!: filter_mset_cong)
    finally show ?thesis .
  qed (use rel r(2) in simp)
  show ?case
    using IH kept rels r(2) clock1 horizon1 by simp
qed

text \<open>A timer fires on the tick it asked for, and on no other.\<close>

lemma fires_exactly:
  assumes "inv w" "0 < d" "d \<le> horizon w"
    and s: "sched w d t = (w1, rel)"
    and r: "run_ticks tck n w1 = (w', rels)" and "i < n"
    and fresh: "t \<notin># image_mset snd (pending w)"
  shows "count (mset (rels ! i)) t = (if Suc i = d then 1 else 0)"
proof -
  note placed = sched_placed [OF assms(1-3) s]
  have inv1: "inv w1" and clock1: "clock w1 = clock w"
    using sched_inv [OF assms(1) s] sched_clock [OF assms(1) s] by auto
  have "mset (rels ! i)
      = image_mset snd (filter_mset (\<lambda>e. fst e = clock w1 + Suc i) (pending w1))"
    using run_ticks_spec [OF inv1 r] \<open>i < n\<close> by blast
  moreover have "t \<notin># image_mset snd (filter_mset P (pending w))" for P
    using fresh by auto
  ultimately show ?thesis
    using placed clock1 by (auto simp: count_eq_zero_iff)
qed

text \<open>Every timer of the agenda is dropped exactly at its deadline.\<close>

lemma pending_fires:
  assumes "inv w" "(d, t) \<in># pending w"
    and r: "run_ticks tck n w = (w', rels)" and "d \<le> clock w + n"
  shows "t \<in> set (rels ! (d - Suc (clock w)))"
proof -
  have d: "clock w < d"
    using future [OF assms(1,2)] by simp
  let ?i = "d - Suc (clock w)"
  have "?i < n" and i: "clock w + Suc ?i = d"
    using d assms(4) by auto
  then have "mset (rels ! ?i) = image_mset snd (filter_mset (\<lambda>e. fst e = d) (pending w))"
    using run_ticks_spec [OF assms(1) r] by metis
  moreover have "t \<in># image_mset snd (filter_mset (\<lambda>e. fst e = d) (pending w))"
    using assms(2) by force
  ultimately show ?thesis
    by (metis set_mset_mset)
qed

end

end
