(* ===== verification/TimingWheel.thy ===== *)
theory TimingWheel
  imports Agenda
begin

text \<open>
  The hierarchical timer wheel of \<^verbatim>\<open>pb-mapper-auth/src/timing_wheel.rs\<close>.  A timer is a
  reference the wheel holds; \<^verbatim>\<open>schedule\<close> and \<^verbatim>\<open>tick\<close> return, next to the new wheel,
  the references they dropped, in the order of the drops.  What dropping a last reference runs is
  the business of \<^verbatim>\<open>Leases\<close>.
\<close>

section \<open>Model\<close>

text \<open>
  \<^verbatim>\<open>Link::Relay\<close> stores its level as \<^verbatim>\<open>u8\<close> and its slot as \<^verbatim>\<open>u16\<close>; the casts
  are where a relay is built, in \<open>route\<close>.
\<close>

datatype 'a link = Deliver 'a | Relay nat nat "'a link"

type_synonym 'a bucket = "'a link list"

record 'a wheel =
  ticks :: nat
  radix :: nat
  levels :: "'a bucket list list"

fun link_timer :: "'a link \<Rightarrow> 'a" where
  "link_timer (Deliver t) = t"
| "link_timer (Relay l s n) = link_timer n"

text \<open>\<^verbatim>\<open>radix.saturating_pow(level)\<close>.\<close>

definition period :: "'a wheel \<Rightarrow> nat \<Rightarrow> nat" where
  "period w level = min (radix w ^ level) u64_max"

text \<open>
  The loop of \<^verbatim>\<open>TimingWheel::new\<close> that adds levels until they span the longest delay.  The
  constructor asserts \<open>1 < radix\<close>, and \<open>max_delay\<close> is a \<^verbatim>\<open>u64\<close>: the two guards that
  make the loop's progress visible hold at every call.
\<close>

function levels_for :: "nat \<Rightarrow> nat \<Rightarrow> nat \<Rightarrow> nat \<Rightarrow> nat" where
  "levels_for max_delay rdx span n =
     (if span < max_delay \<and> 1 < rdx \<and> 0 < span \<and> max_delay \<le> u64_max
      then levels_for max_delay rdx (sat_mul span rdx) (Suc n) else n)"
  by pat_completeness auto
termination
proof (relation "measure (\<lambda>(m, r, s, n). m - s)")
  fix max_delay rdx span n :: nat
  assume a: "span < max_delay \<and> 1 < rdx \<and> 0 < span \<and> max_delay \<le> u64_max"
  then have "span < sat_mul span rdx"
    by (auto simp: sat_mul_def)
  with a show "((max_delay, rdx, sat_mul span rdx, Suc n), max_delay, rdx, span, n)
      \<in> measure (\<lambda>(m, r, s, n). m - s)"
    by auto
qed simp

declare levels_for.simps [simp del]

text \<open>\<open>None\<close> is the assertion failure.\<close>

definition wheel_new :: "nat \<Rightarrow> nat \<Rightarrow> 'a wheel option" where
  "wheel_new max_delay rdx =
     (if 1 < rdx then
        Some \<lparr>ticks = 0, radix = rdx,
          levels = replicate (levels_for max_delay rdx rdx 1) (replicate rdx [])\<rparr>
      else None)"

definition max_delay :: "'a wheel \<Rightarrow> nat" where
  "max_delay w = period w (length (levels w))"

text \<open>
  \<^verbatim>\<open>file\<close> drops the link, and with it the timer, when the slot is out of range.
\<close>

definition file_link :: "'a wheel \<Rightarrow> nat \<Rightarrow> nat \<Rightarrow> 'a link \<Rightarrow> 'a wheel \<times> 'a list" where
  "file_link w level slot k =
     (if slot < length (levels w ! level)
      then (w\<lparr>levels := (levels w)[level := (levels w ! level)[slot := levels w ! level ! slot @ [k]]]\<rparr>, [])
      else (w, [link_timer k]))"

definition entry_leg :: "'a wheel \<Rightarrow> nat \<Rightarrow> nat \<Rightarrow> (nat \<times> nat \<times> nat) option" where
  "entry_leg w target level =
     (let p = period w level;
          next_rotation = ticks w - ticks w mod p + p
      in if target < next_rotation then None
         else let ahead = target - next_rotation; slot = ahead div p
              in if slot < radix w then Some (level, slot, ahead mod p) else None)"

definition next_leg :: "'a wheel \<Rightarrow> nat \<Rightarrow> nat \<times> nat \<times> nat" where
  "next_leg w remaining =
     (let level = (case find (\<lambda>l. period w l \<le> remaining) (rev [0..<length (levels w)]) of
                     None \<Rightarrow> 0 | Some l \<Rightarrow> l);
          p = period w level
      in (level, remaining div p - 1, remaining mod p))"

lemma next_leg_rest_less:
  assumes leg: "next_leg w remaining = (level, slot, rest)" and "rest \<noteq> 0" "radix w \<noteq> 0"
  shows "rest < remaining"
proof -
  from leg have rest: "rest = remaining mod period w level"
    by (auto simp: next_leg_def Let_def)
  have pos: "0 < period w level"
    using assms(3) by (simp add: period_def u64_max_def)
  have p0: "period w 0 = 1"
    by (simp add: period_def u64_max_def)
  have "period w level \<le> remaining \<or> level = 0"
    using leg by (auto simp: next_leg_def Let_def find_Some_iff split: option.splits)
  then show ?thesis
    using rest pos p0 assms(2) by (auto intro: less_le_trans [OF mod_less_divisor])
qed

text \<open>
  The recursion of \<^verbatim>\<open>route\<close>.  A zero radix, which the constructor's assertion excludes, would
  divide by zero; the guard stops the recursion there.
\<close>

function route :: "'a wheel \<Rightarrow> nat \<Rightarrow> 'a link \<Rightarrow> 'a link" where
  "route w remaining inner =
     (case next_leg w remaining of (level, slot, rest) \<Rightarrow>
        Relay (level mod 2 ^ 8) (slot mod 2 ^ 16)
          (if rest = 0 \<or> radix w = 0 then inner else route w rest inner))"
  by pat_completeness auto
termination
  by (relation "measure (\<lambda>(w, r, k). r)") (auto dest: next_leg_rest_less [OF sym])

declare route.simps [simp del]

definition schedule :: "'a wheel \<Rightarrow> nat \<Rightarrow> 'a \<Rightarrow> 'a wheel \<times> 'a list" where
  "schedule w delay t =
     (if delay = 0 \<or> max_delay w < delay then (w, [t])
      else case find_map (entry_leg w (ticks w + delay)) (rev [0..<length (levels w)]) of
        None \<Rightarrow> (w, [t])
      | Some (level, slot, remaining) \<Rightarrow>
          file_link w level slot
            (if remaining = 0 then Deliver t else route w remaining (Deliver t)))"

definition rotate_level :: "'a wheel \<Rightarrow> nat \<Rightarrow> 'a bucket \<times> 'a wheel" where
  "rotate_level w level =
     (case levels w ! level of
        [] \<Rightarrow> ([], w\<lparr>levels := (levels w)[level := [[]]]\<rparr>)
      | b # bs \<Rightarrow> (b, w\<lparr>levels := (levels w)[level := bs @ [[]]]\<rparr>))"

fun drain :: "'a wheel \<Rightarrow> 'a bucket \<Rightarrow> 'a wheel \<times> 'a list" where
  "drain w [] = (w, [])"
| "drain w (Deliver t # ks) = (let (w', rel) = drain w ks in (w', t # rel))"
| "drain w (Relay level slot n # ks) =
     (let (w', rel) = file_link w level slot n; (w'', rel') = drain w' ks in (w'', rel @ rel'))"

fun tick_levels :: "'a wheel \<Rightarrow> nat list \<Rightarrow> 'a wheel \<times> 'a list" where
  "tick_levels w [] = (w, [])"
| "tick_levels w (level # ls) =
     (if ticks w mod period w level \<noteq> 0 then (w, [])
      else let (b, w1) = rotate_level w level;
               (w2, rel) = drain w1 b;
               (w3, rel') = tick_levels w2 ls
           in (w3, rel @ rel'))"

definition tick :: "'a wheel \<Rightarrow> 'a wheel \<times> 'a list" where
  "tick w = tick_levels (w\<lparr>ticks := ticks w + 1\<rparr>) [0..<length (levels w)]"

text \<open>The references the wheel holds, in the order in which dropping the wheel drops them.\<close>

definition wheel_timers :: "'a wheel \<Rightarrow> 'a list" where
  "wheel_timers w = map link_timer (concat (concat (levels w)))"

section \<open>Abstract content\<close>

text \<open>
  The tick at which a link that comes off a bucket at tick \<open>\<tau>\<close> releases its timer: a relay waits
  for the rotation that brings its slot to the front of its level.
\<close>

fun due :: "nat \<Rightarrow> 'a link \<Rightarrow> nat \<Rightarrow> nat" where
  "due r (Deliver t) \<tau> = \<tau>"
| "due r (Relay l s n) \<tau> = due r n ((\<tau> div r ^ l + 1 + s) * r ^ l)"

definition link_entry :: "nat \<Rightarrow> nat \<Rightarrow> 'a link \<Rightarrow> nat \<times> 'a" where
  "link_entry r \<tau> k = (due r k \<tau>, link_timer k)"

text \<open>
  \<open>base l\<close> is the rotation of level \<open>l\<close> that takes off its front bucket: slot \<open>s\<close> comes off at
  tick \<open>(base l + s) * r ^ l\<close>.
\<close>

definition pend :: "nat \<Rightarrow> (nat \<Rightarrow> nat) \<Rightarrow> 'a bucket list list \<Rightarrow> (nat \<times> 'a) multiset" where
  "pend r base lv =
     (\<Sum>l<length lv. \<Sum>s<length (lv ! l).
        image_mset (link_entry r ((base l + s) * r ^ l)) (mset (lv ! l ! s)))"

definition base_of :: "nat \<Rightarrow> nat \<Rightarrow> nat \<Rightarrow> nat" where
  "base_of r T l = T div r ^ l + 1"

definition wheel_pending :: "'a wheel \<Rightarrow> (nat \<times> 'a) multiset" where
  "wheel_pending w = pend (radix w) (base_of (radix w) (ticks w)) (levels w)"

text \<open>
  Well-formedness: full levels, a span that fits a \<^verbatim>\<open>u64\<close> and a radix whose slots fit a
  \<^verbatim>\<open>u16\<close>, and every route strictly descending.
\<close>

fun link_ok :: "nat \<Rightarrow> nat \<Rightarrow> 'a link \<Rightarrow> bool" where
  "link_ok r l (Deliver t) \<longleftrightarrow> True"
| "link_ok r l (Relay l' s n) \<longleftrightarrow> l' < l \<and> s < r \<and> link_ok r l' n"

definition wf_wheel :: "'a wheel \<Rightarrow> bool" where
  "wf_wheel w \<longleftrightarrow>
     1 < radix w \<and> radix w \<le> 2 ^ 16 \<and> levels w \<noteq> [] \<and>
     radix w ^ length (levels w) \<le> u64_max \<and>
     (\<forall>l<length (levels w). length (levels w ! l) = radix w) \<and>
     (\<forall>l<length (levels w). \<forall>s<radix w. \<forall>k\<in>set (levels w ! l ! s). link_ok (radix w) l k)"

lemma due_ge: "0 < r \<Longrightarrow> \<tau> \<le> due r k \<tau>"
proof (induction k arbitrary: \<tau>)
  case (Relay l s n)
  have "\<tau> < (\<tau> div r ^ l + 1) * r ^ l"
    using Relay.prems by (simp add: dividend_less_div_times)
  also have "\<dots> \<le> (\<tau> div r ^ l + 1 + s) * r ^ l"
    by (intro mult_le_mono1) simp
  also have "\<dots> \<le> due r n \<dots>"
    using Relay by blast
  finally show ?case
    by simp
qed simp

lemma sum_replace:
  fixes f g :: "nat \<Rightarrow> 'b::comm_monoid_add"
  assumes "i < n" "\<And>j. j < n \<Longrightarrow> j \<noteq> i \<Longrightarrow> g j = f j" "g i = c + f i"
  shows "sum g {..<n} = c + sum f {..<n}"
proof -
  have i: "finite {..<n}" "i \<in> {..<n}"
    using assms(1) by auto
  have "sum g ({..<n} - {i}) = sum f ({..<n} - {i})"
    using assms(2) by (intro sum.cong) auto
  then show ?thesis
    by (simp add: sum.remove [OF i] assms(3) add.assoc)
qed

lemma pend_cong:
  "(\<And>l. l < length lv \<Longrightarrow> base l = base' l) \<Longrightarrow> pend r base lv = pend r base' lv"
  unfolding pend_def by (intro sum.cong refl) auto

lemma pend_file:
  assumes "l < length lv" "s < length (lv ! l)"
  shows "pend r base (lv[l := (lv ! l)[s := lv ! l ! s @ [k]]])
    = add_mset (link_entry r ((base l + s) * r ^ l) k) (pend r base lv)"
proof -
  have inner: "(\<Sum>i<length (lv ! l). image_mset (link_entry r ((base l + i) * r ^ l))
        (mset ((lv ! l)[s := lv ! l ! s @ [k]] ! i)))
    = {#link_entry r ((base l + s) * r ^ l) k#}
      + (\<Sum>i<length (lv ! l). image_mset (link_entry r ((base l + i) * r ^ l)) (mset (lv ! l ! i)))"
    using assms(2) by (intro sum_replace [where i = s]) auto
  have "pend r base (lv[l := (lv ! l)[s := lv ! l ! s @ [k]]])
      = {#link_entry r ((base l + s) * r ^ l) k#} + pend r base lv"
    unfolding pend_def length_list_update
    using assms(1) inner by (intro sum_replace [where i = l]) auto
  then show ?thesis
    by simp
qed

lemma pend_rotate:
  assumes "l < length lv" "lv ! l = b # bs"
  shows "pend r base lv = image_mset (link_entry r (base l * r ^ l)) (mset b)
    + pend r (base(l := base l + 1)) (lv[l := bs @ [[]]])"
proof -
  let ?g = "\<lambda>s. image_mset (link_entry r ((base l + s) * r ^ l)) (mset ((b # bs) ! s))"
  have "(\<Sum>s<Suc (length bs). ?g s) = ?g 0 + (\<Sum>s<length bs. ?g (Suc s))"
    by (rule sum.lessThan_Suc_shift)
  also have "(\<Sum>s<length bs. ?g (Suc s))
      = (\<Sum>s<length (bs @ [[]]). image_mset (link_entry r ((base l + 1 + s) * r ^ l))
           (mset ((bs @ [[]]) ! s)))"
    by (auto simp: nth_append intro!: sum.cong)
  finally have inner: "(\<Sum>s<length (lv ! l). image_mset (link_entry r ((base l + s) * r ^ l))
        (mset (lv ! l ! s)))
     = image_mset (link_entry r (base l * r ^ l)) (mset b)
       + (\<Sum>s<length (bs @ [[]]). image_mset (link_entry r ((base l + 1 + s) * r ^ l))
           (mset ((bs @ [[]]) ! s)))"
    by (simp add: assms(2))
  show ?thesis
    unfolding pend_def length_list_update
    using assms(1) inner by (intro sum_replace [where i = l]) auto
qed

section \<open>Well-formed wheels\<close>

lemma wf_wheelD:
  assumes "wf_wheel w"
  shows "1 < radix w" "0 < radix w" "radix w \<le> 2 ^ 16" "levels w \<noteq> []"
    "radix w ^ length (levels w) \<le> u64_max"
    "l < length (levels w) \<Longrightarrow> length (levels w ! l) = radix w"
    "l < length (levels w) \<Longrightarrow> s < radix w \<Longrightarrow> k \<in> set (levels w ! l ! s) \<Longrightarrow> link_ok (radix w) l k"
  using assms by (auto simp: wf_wheel_def)

lemma wf_period:
  assumes "wf_wheel w" "l \<le> length (levels w)"
  shows "period w l = radix w ^ l"
proof -
  have "radix w ^ l \<le> radix w ^ length (levels w)"
    using assms wf_wheelD(2) [OF assms(1)] by (intro power_increasing) auto
  then show ?thesis
    using wf_wheelD(5) [OF assms(1)] by (simp add: period_def)
qed

lemma wf_max_delay: "wf_wheel w \<Longrightarrow> max_delay w = radix w ^ length (levels w)"
  by (simp add: max_delay_def wf_period)

lemma wf_levels_bound:
  assumes "wf_wheel w"
  shows "length (levels w) < 64"
proof (rule ccontr)
  assume "\<not> ?thesis"
  then have "(2::nat) ^ 64 \<le> 2 ^ length (levels w)"
    by (intro power_increasing) auto
  also have "\<dots> \<le> radix w ^ length (levels w)"
    using wf_wheelD(1) [OF assms] by (intro power_mono) auto
  also have "\<dots> \<le> u64_max"
    by (rule wf_wheelD(5) [OF assms])
  finally show False
    by (simp add: u64_max_def)
qed

text \<open>Replacing one level keeps well-formedness.\<close>

lemma wf_update_level:
  assumes "wf_wheel w" "length bs = radix w" "\<forall>b\<in>set bs. \<forall>k\<in>set b. link_ok (radix w) l k"
  shows "wf_wheel (w\<lparr>levels := (levels w)[l := bs]\<rparr>)"
  using assms
  by (cases "l < length (levels w)") (auto simp: wf_wheel_def nth_list_update)

lemma wf_bucket_links:
  assumes "wf_wheel w" "l < length (levels w)" "b \<in> set (levels w ! l)" "k \<in> set b"
  shows "link_ok (radix w) l k"
  using wf_wheelD(6) [OF assms(1,2)] wf_wheelD(7) [OF assms(1,2)] assms(3,4)
  by (metis in_set_conv_nth)

lemma file_link_spec:
  assumes wf: "wf_wheel w" and l: "l < length (levels w)" "s < radix w"
    and k: "link_ok (radix w) l k"
    and f: "file_link w l s k = (w', rel)"
  shows "wf_wheel w' \<and> ticks w' = ticks w \<and> radix w' = radix w \<and>
    length (levels w') = length (levels w) \<and> rel = [] \<and>
    pend (radix w) base (levels w')
      = add_mset (link_entry (radix w) ((base l + s) * radix w ^ l) k) (pend (radix w) base (levels w))"
proof -
  have len: "length (levels w ! l) = radix w"
    using wf_wheelD(6) [OF wf l(1)] .
  have w': "w' = w\<lparr>levels := (levels w)[l := (levels w ! l)[s := levels w ! l ! s @ [k]]]\<rparr>" "rel = []"
    using f l(2) by (auto simp: file_link_def len)
  have "\<forall>b\<in>set ((levels w ! l)[s := levels w ! l ! s @ [k]]). \<forall>k\<in>set b. link_ok (radix w) l k"
    using set_update_subset_insert [of "levels w ! l" s "levels w ! l ! s @ [k]"]
      wf_bucket_links [OF wf l(1)] k nth_mem [of s "levels w ! l"] l(2) len
    by fastforce
  then have "wf_wheel w'"
    unfolding w' using len by (intro wf_update_level [OF wf]) auto
  then show ?thesis
    using l len by (simp add: w' pend_file)
qed

section \<open>Ticking\<close>

lemma rotate_level_spec:
  assumes wf: "wf_wheel w" and l: "l < length (levels w)" and r: "rotate_level w l = (b, w')"
  shows "wf_wheel w' \<and> ticks w' = ticks w \<and> radix w' = radix w \<and>
    length (levels w') = length (levels w) \<and> (\<forall>k\<in>set b. link_ok (radix w) l k) \<and>
    pend (radix w) base (levels w) =
      image_mset (link_entry (radix w) (base l * radix w ^ l)) (mset b)
      + pend (radix w) (base(l := base l + 1)) (levels w')"
proof -
  have "length (levels w ! l) = radix w"
    using wf_wheelD(6) [OF wf l] .
  then obtain bs where lv: "levels w ! l = b # bs" and w': "w' = w\<lparr>levels := (levels w)[l := bs @ [[]]]\<rparr>"
    using r wf_wheelD(2) [OF wf] by (cases "levels w ! l") (auto simp: rotate_level_def)
  have "wf_wheel w'"
    unfolding w' using wf_bucket_links [OF wf l] lv \<open>length (levels w ! l) = radix w\<close>
    by (intro wf_update_level [OF wf]) auto
  then show ?thesis
    using wf_bucket_links [OF wf l, of b] lv by (auto simp: w' pend_rotate [OF l lv])
qed

lemma drain_spec:
  assumes "wf_wheel w" "l \<le> length (levels w)" "\<forall>k\<in>set b. link_ok (radix w) l k"
    and "\<And>i. i < l \<Longrightarrow> base i = T div radix w ^ i + 1"
    and "drain w b = (w', rel)"
  shows "wf_wheel w' \<and> ticks w' = ticks w \<and> radix w' = radix w \<and>
    length (levels w') = length (levels w) \<and>
    image_mset (link_entry (radix w) T) (mset b) + pend (radix w) base (levels w) =
      image_mset (\<lambda>t. (T, t)) (mset rel) + pend (radix w) base (levels w')"
  using assms
proof (induction w b arbitrary: rel rule: drain.induct)
  case (2 w t ks)
  then obtain rel1 where "drain w ks = (w', rel1)" "rel = t # rel1"
    by (auto split: prod.splits)
  then show ?case
    using 2 by (auto simp: link_entry_def)
next
  case (3 w lv s n ks)
  obtain w1 r1 r2 where f: "file_link w lv s n = (w1, r1)" and d: "drain w1 ks = (w', r2)"
    and rel: "rel = r1 @ r2"
    using "3.prems"(5) by (auto split: prod.splits)
  have ok: "lv < l" "s < radix w" "link_ok (radix w) lv n"
    using "3.prems"(3) by auto
  note F = file_link_spec [OF "3.prems"(1) less_le_trans [OF ok(1) "3.prems"(2)] ok(2,3) f,
      where base = base]
  have IH: "wf_wheel w' \<and> ticks w' = ticks w1 \<and> radix w' = radix w1 \<and>
    length (levels w') = length (levels w1) \<and>
    image_mset (link_entry (radix w1) T) (mset ks) + pend (radix w1) base (levels w1) =
      image_mset (\<lambda>t. (T, t)) (mset r2) + pend (radix w1) base (levels w')"
    using F "3.prems" d by (intro "3.IH" [OF f [symmetric] refl]) auto
  have "link_entry (radix w) T (Relay lv s n)
      = link_entry (radix w) ((base lv + s) * radix w ^ lv) n"
    using "3.prems"(4) [OF ok(1)] by (simp add: link_entry_def)
  then show ?case
    using F IH rel by simp
qed simp

text \<open>Between two levels of a tick, the finer ones have turned over and the coarser ones have not.\<close>

definition mixed_base :: "nat \<Rightarrow> nat \<Rightarrow> nat \<Rightarrow> nat \<Rightarrow> nat" where
  "mixed_base r k t l = (if l < k then Suc t div r ^ l + 1 else t div r ^ l + 1)"

lemma div_Suc_not_dvd: "0 < p \<Longrightarrow> Suc t mod p \<noteq> 0 \<Longrightarrow> Suc t div p = t div (p::nat)"
  by (simp add: div_Suc)

lemma mixed_base_stop:
  assumes "Suc t mod r ^ k \<noteq> 0" "0 < r"
  shows "mixed_base r k t l = base_of r (Suc t) l"
proof (cases "l < k")
  case False
  have "Suc t mod r ^ l \<noteq> 0"
    using assms(1) False le_imp_power_dvd [of k l r] by (metis dvd_trans mod_eq_0_iff_dvd not_less)
  then show ?thesis
    using False assms(2) by (simp add: mixed_base_def base_of_def div_Suc_not_dvd)
qed (simp add: mixed_base_def base_of_def)

lemma tick_levels_spec:
  assumes "wf_wheel w" "ticks w = Suc t" "k + n = length (levels w)"
    and "tick_levels w [k..<k + n] = (w', rel)"
  shows "wf_wheel w' \<and> ticks w' = ticks w \<and> radix w' = radix w \<and>
    length (levels w') = length (levels w) \<and>
    pend (radix w) (mixed_base (radix w) k t) (levels w) =
      image_mset (\<lambda>x. (Suc t, x)) (mset rel) + pend (radix w) (base_of (radix w) (Suc t)) (levels w')"
  using assms
proof (induction n arbitrary: w k rel)
  case 0
  then have "w' = w" "rel = []"
    by auto
  moreover have "pend (radix w) (mixed_base (radix w) k t) (levels w)
      = pend (radix w) (base_of (radix w) (Suc t)) (levels w)"
    using 0 by (intro pend_cong) (auto simp: mixed_base_def base_of_def)
  ultimately show ?case
    using 0 by simp
next
  case (Suc n)
  let ?r = "radix w"
  have k: "k < length (levels w)"
    using Suc.prems(3) by simp
  have p: "period w k = ?r ^ k" and r0: "0 < ?r"
    using wf_period [OF Suc.prems(1)] k wf_wheelD(2) [OF Suc.prems(1)] by auto
  have upt: "[k..<k + Suc n] = k # [Suc k..<Suc k + n]"
    by (simp add: upt_conv_Cons)
  have run: "tick_levels w (k # [Suc k..<Suc k + n]) = (w', rel)"
    using Suc.prems(4) unfolding upt .
  show ?case
  proof (cases "Suc t mod ?r ^ k = 0")
    case False
    then have "w' = w" "rel = []"
      using run Suc.prems(2) by (auto simp: p)
    moreover have "pend ?r (mixed_base ?r k t) (levels w) = pend ?r (base_of ?r (Suc t)) (levels w)"
      by (intro pend_cong mixed_base_stop [OF False r0])
    ultimately show ?thesis
      using Suc.prems by simp
  next
    case True
    obtain b w1 w2 r2 r3 where rot: "rotate_level w k = (b, w1)" and dr: "drain w1 b = (w2, r2)"
      and rest: "tick_levels w2 [Suc k..<Suc k + n] = (w', r3)" and rel: "rel = r2 @ r3"
      using run Suc.prems(2) True by (auto simp: p split: prod.splits)
    note R = rotate_level_spec [OF Suc.prems(1) k rot, of "mixed_base ?r k t"]
    have turn: "(t div ?r ^ k + 1) * ?r ^ k = Suc t"
      using True by (metis add.commute div_Suc dvd_div_mult_self mod_eq_0_iff_dvd plus_1_eq_Suc)
    have base: "(mixed_base ?r k t)(k := mixed_base ?r k t k + 1) = mixed_base ?r (Suc k) t"
      using True by (auto simp: mixed_base_def div_Suc fun_eq_iff)
    have D: "wf_wheel w2 \<and> ticks w2 = ticks w1 \<and> radix w2 = radix w1 \<and>
      length (levels w2) = length (levels w1) \<and>
      image_mset (link_entry (radix w1) (Suc t)) (mset b)
        + pend (radix w1) (mixed_base ?r (Suc k) t) (levels w1) =
      image_mset (\<lambda>x. (Suc t, x)) (mset r2) + pend (radix w1) (mixed_base ?r (Suc k) t) (levels w2)"
      using R k by (intro drain_spec [OF _ _ _ _ dr, where l = k]) (auto simp: mixed_base_def)
    have IH: "wf_wheel w' \<and> ticks w' = ticks w2 \<and> radix w' = radix w2 \<and>
      length (levels w') = length (levels w2) \<and>
      pend (radix w2) (mixed_base (radix w2) (Suc k) t) (levels w2) =
        image_mset (\<lambda>x. (Suc t, x)) (mset r3) + pend (radix w2) (base_of (radix w2) (Suc t)) (levels w')"
      using R D Suc.prems rest by (intro Suc.IH) auto
    have pk: "pend ?r (mixed_base ?r k t) (levels w)
        = image_mset (link_entry ?r (Suc t)) (mset b) + pend ?r (mixed_base ?r (Suc k) t) (levels w1)"
      using R base turn by (simp add: mixed_base_def)
    show ?thesis
      unfolding pk rel using R D IH by (simp add: ac_simps)
  qed
qed

lemma wheel_pending_future:
  assumes "wf_wheel w" "e \<in># wheel_pending w"
  shows "ticks w < fst e"
proof -
  let ?r = "radix w"
  obtain l s where l: "l < length (levels w)" "s < length (levels w ! l)"
    and e: "e \<in> link_entry ?r ((base_of ?r (ticks w) l + s) * ?r ^ l) ` set (levels w ! l ! s)"
    using assms(2) by (auto simp: wheel_pending_def pend_def set_mset_sum)
  have r: "0 < ?r"
    using wf_wheelD(2) [OF assms(1)] .
  have "ticks w < (ticks w div ?r ^ l + 1) * ?r ^ l"
    using r by (simp add: dividend_less_div_times)
  also have "\<dots> \<le> (base_of ?r (ticks w) l + s) * ?r ^ l"
    by (simp add: base_of_def)
  also have "\<dots> \<le> fst e"
    using e due_ge [OF r] by (auto simp: link_entry_def)
  finally show ?thesis .
qed

lemma tick_spec:
  assumes wf: "wf_wheel w" and t: "tick w = (w', rel)"
  shows "wf_wheel w' \<and> ticks w' = Suc (ticks w) \<and> radix w' = radix w \<and>
    length (levels w') = length (levels w) \<and>
    wheel_pending w = image_mset (\<lambda>x. (Suc (ticks w), x)) (mset rel) + wheel_pending w'"
proof -
  let ?w = "w\<lparr>ticks := Suc (ticks w)\<rparr>"
  have "wf_wheel ?w"
    using wf by (simp add: wf_wheel_def)
  moreover have "tick_levels ?w [0..<0 + length (levels w)] = (w', rel)"
    using t by (simp add: tick_def)
  ultimately have S: "wf_wheel w' \<and> ticks w' = Suc (ticks w) \<and> radix w' = radix w \<and>
    length (levels w') = length (levels w) \<and>
    pend (radix w) (mixed_base (radix w) 0 (ticks w)) (levels w) =
      image_mset (\<lambda>x. (Suc (ticks w), x)) (mset rel)
      + pend (radix w) (base_of (radix w) (Suc (ticks w))) (levels w')"
    using tick_levels_spec [of ?w "ticks w" 0 "length (levels w)" w' rel] by simp
  have "pend (radix w) (mixed_base (radix w) 0 (ticks w)) (levels w) = wheel_pending w"
    unfolding wheel_pending_def by (intro pend_cong) (auto simp: mixed_base_def base_of_def)
  then show ?thesis
    using S by (simp add: wheel_pending_def)
qed

section \<open>Scheduling\<close>

lemma find_rev_upt:
  assumes "P 0" "0 < n"
  shows "\<exists>j<n. find P (rev [0..<n]) = Some j \<and> P j \<and> (\<forall>i<n. j < i \<longrightarrow> \<not> P i)"
  using assms(2)
proof (induction n)
  case (Suc n)
  show ?case
  proof (cases "P n")
    case False
    then have "0 < n"
      using assms(1) by (cases n) auto
    with Suc.IH obtain j where "j < n" "find P (rev [0..<n]) = Some j" "P j"
      "\<forall>i<n. j < i \<longrightarrow> \<not> P i"
      by blast
    with False show ?thesis
      by (intro exI [of _ j]) (auto simp: less_Suc_eq)
  qed (auto intro!: exI [of _ n])
qed simp

lemma next_leg_spec:
  assumes wf: "wf_wheel w" and rem: "0 < rem" "rem < radix w ^ length (levels w)"
  shows "\<exists>j<length (levels w). next_leg w rem = (j, rem div radix w ^ j - 1, rem mod radix w ^ j) \<and>
    radix w ^ j \<le> rem \<and> rem < radix w ^ Suc j"
proof -
  let ?n = "length (levels w)" and ?r = "radix w"
  have n: "0 < ?n"
    using wf_wheelD(4) [OF wf] by simp
  have "period w 0 \<le> rem"
    using rem(1) wf_period [OF wf, of 0] by simp
  then obtain j where j: "j < ?n" "find (\<lambda>l. period w l \<le> rem) (rev [0..<?n]) = Some j"
    "period w j \<le> rem" "\<forall>i<?n. j < i \<longrightarrow> \<not> period w i \<le> rem"
    using find_rev_upt [of "\<lambda>l. period w l \<le> rem", OF _ n] by blast
  have "rem < ?r ^ Suc j"
  proof (cases "Suc j < ?n")
    case True
    then show ?thesis
      using j(4) wf_period [OF wf, of "Suc j"] by (metis lessI less_imp_le_nat not_less)
  next
    case False
    then have "Suc j = ?n"
      using j(1) by simp
    then show ?thesis
      using rem(2) by metis
  qed
  then show ?thesis
    using j wf_period [OF wf, of j] by (auto simp: next_leg_def Let_def)
qed

lemma route_spec:
  assumes "wf_wheel w" "0 < rem" "rem < radix w ^ l" "l \<le> length (levels w)" "radix w ^ l dvd \<tau>"
  shows "link_ok (radix w) l (route w rem (Deliver t)) \<and>
    link_entry (radix w) \<tau> (route w rem (Deliver t)) = (\<tau> + rem, t)"
  using assms
proof (induction rem arbitrary: l \<tau> rule: less_induct)
  case (less rem)
  let ?r = "radix w"
  note wf = less.prems(1)
  have r: "1 < ?r" "0 < ?r" "?r \<le> 2 ^ 16"
    using wf_wheelD(1-3) [OF wf] .
  have "?r ^ l \<le> ?r ^ length (levels w)"
    using less.prems(4) r by (intro power_increasing) auto
  then obtain j where j: "j < length (levels w)"
    "next_leg w rem = (j, rem div ?r ^ j - 1, rem mod ?r ^ j)"
    "?r ^ j \<le> rem" "rem < ?r ^ Suc j"
    using next_leg_spec [OF wf less.prems(2)] less.prems(3) by (meson less_le_trans)
  let ?s = "rem div ?r ^ j - 1" and ?rest = "rem mod ?r ^ j"
  have q: "0 < rem div ?r ^ j" "rem div ?r ^ j < ?r"
    using j(3,4) r by (auto simp: div_greater_zero_iff less_mult_imp_div_less mult.commute)
  have jl: "j < l"
    using j(3) less.prems(3) r by (meson le_less_trans not_less power_increasing nat_less_le)
  have cast: "j mod 2 ^ 8 = j" "?s mod 2 ^ 16 = ?s"
    using j(1) wf_levels_bound [OF wf] q r(3) by auto
  have dvd: "?r ^ j dvd \<tau>"
    using less.prems(5) jl by (meson dvd_trans le_imp_power_dvd less_imp_le)
  let ?\<tau> = "\<tau> + rem div ?r ^ j * ?r ^ j"
  have "(\<tau> div ?r ^ j + 1 + ?s) * ?r ^ j = ?\<tau>"
    using dvd q by (simp add: algebra_simps)
  moreover have "?\<tau> + ?rest = \<tau> + rem"
    using div_mult_mod_eq [of rem "?r ^ j"] by linarith
  moreover have route: "route w rem (Deliver t)
      = Relay j ?s (if ?rest = 0 then Deliver t else route w ?rest (Deliver t))"
    using j(2) cast r by (simp add: route.simps [of w rem])
  moreover have "link_ok ?r j (route w ?rest (Deliver t)) \<and>
      link_entry ?r ?\<tau> (route w ?rest (Deliver t)) = (?\<tau> + ?rest, t)" if "?rest \<noteq> 0"
    using that dvd j r less.prems(1)
    by (intro less.IH) (auto simp: less_le_trans [OF mod_less_divisor])
  ultimately show ?case
    using jl q r by (auto simp: link_entry_def)
qed

lemma entry_leg_Some:
  assumes wf: "wf_wheel w" and l: "l < length (levels w)"
    and e: "entry_leg w target l = Some (lv, s, rem)"
  shows "lv = l \<and> s < radix w \<and> rem < radix w ^ l \<and>
    (base_of (radix w) (ticks w) l + s) * radix w ^ l + rem = target"
proof -
  let ?p = "radix w ^ l"
  have p: "period w l = ?p"
    using wf_period [OF wf] l by simp
  let ?next = "ticks w - ticks w mod ?p + ?p"
  have next_rot: "?next = base_of (radix w) (ticks w) l * ?p"
    by (simp add: base_of_def minus_mod_eq_div_mult)
  have ge: "?next \<le> target" and s: "s = (target - ?next) div ?p" "s < radix w"
    and rem: "rem = (target - ?next) mod ?p" and lv: "lv = l"
    using e by (auto simp: entry_leg_def Let_def p split: if_splits)
  have "s * ?p + rem = target - ?next"
    unfolding s(1) rem by (rule div_mult_mod_eq)
  then have "(base_of (radix w) (ticks w) l + s) * ?p + rem = target"
    using ge by (simp add: add_mult_distrib flip: next_rot)
  moreover have "rem < ?p"
    using rem wf_wheelD(2) [OF wf] by simp
  ultimately show ?thesis
    using lv s(2) by simp
qed

lemma entry_leg_exists:
  assumes wf: "wf_wheel w" and d: "0 < d" "d \<le> radix w ^ length (levels w)"
  shows "\<exists>l<length (levels w). entry_leg w (ticks w + d) l \<noteq> None"
proof -
  let ?r = "radix w" and ?n = "length (levels w)" and ?T = "ticks w"
  define nxt where "nxt l = base_of ?r ?T l * ?r ^ l" for l
  have r: "0 < ?r"
    using wf_wheelD(2) [OF wf] .
  have n: "0 < ?n"
    using wf_wheelD(4) [OF wf] by simp
  have nxt: "?T < nxt l" "nxt l \<le> ?T + ?r ^ l" for l
    using r by (simp_all add: nxt_def base_of_def dividend_less_div_times)
  have "nxt 0 \<le> ?T + d"
    using d(1) by (simp add: nxt_def base_of_def)
  then obtain l where l: "l < ?n" "nxt l \<le> ?T + d" "\<forall>i<?n. l < i \<longrightarrow> \<not> nxt i \<le> ?T + d"
    using find_rev_upt [of "\<lambda>l. nxt l \<le> ?T + d", OF _ n] by blast
  have p: "period w l = ?r ^ l" and next_rot: "?T - ?T mod ?r ^ l + ?r ^ l = nxt l"
    using wf_period [OF wf] l(1) by (simp_all add: nxt_def base_of_def minus_mod_eq_div_mult)
  have "?T + d - nxt l < ?r ^ Suc l"
  proof (cases "Suc l < ?n")
    case True
    then have "?T + d < nxt (Suc l)"
      using l(3) by (meson lessI not_less)
    then show ?thesis
      using nxt(1) [of l] nxt(2) [of "Suc l"] by linarith
  next
    case False
    then have "Suc l = ?n"
      using l(1) by simp
    then have "d \<le> ?r ^ Suc l"
      using d(2) by metis
    then show ?thesis
      using nxt(1) [of l] l(2) by linarith
  qed
  then have "(?T + d - nxt l) div ?r ^ l < ?r"
    by (simp add: less_mult_imp_div_less mult.commute)
  then have "entry_leg w (?T + d) l \<noteq> None"
    unfolding entry_leg_def Let_def p next_rot using l(2) by simp
  with l(1) show ?thesis
    by blast
qed

lemma schedule_spec:
  assumes wf: "wf_wheel w" and d: "0 < d" "d \<le> max_delay w" and s: "schedule w d t = (w', rel)"
  shows "wf_wheel w' \<and> ticks w' = ticks w \<and> radix w' = radix w \<and>
    length (levels w') = length (levels w) \<and> rel = [] \<and>
    wheel_pending w' = add_mset (ticks w + d, t) (wheel_pending w)"
proof -
  let ?r = "radix w"
  have "find_map (entry_leg w (ticks w + d)) (rev [0..<length (levels w)]) \<noteq> None"
    using entry_leg_exists [OF wf d(1)] d(2) wf_max_delay [OF wf]
    unfolding find_map_None_iff by (metis atLeastLessThan_iff le0 set_rev set_upt)
  then obtain lv slot rem where
    fm: "find_map (entry_leg w (ticks w + d)) (rev [0..<length (levels w)]) = Some (lv, slot, rem)"
    by auto
  obtain l where l: "l < length (levels w)" and e: "entry_leg w (ticks w + d) l = Some (lv, slot, rem)"
    using find_map_SomeD [OF fm] by auto
  note E = entry_leg_Some [OF wf l e]
  let ?\<tau> = "(base_of ?r (ticks w) l + slot) * ?r ^ l"
  let ?k = "if rem = 0 then Deliver t else route w rem (Deliver t)"
  have k: "link_ok ?r l ?k \<and> link_entry ?r ?\<tau> ?k = (ticks w + d, t)"
    using E route_spec [OF wf, of rem l ?\<tau> t] l by (auto simp: link_entry_def)
  have f: "file_link w l slot ?k = (w', rel)"
    using s d fm E by (simp add: schedule_def)
  show ?thesis
    using file_link_spec [OF wf l _ _ f, of "base_of ?r (ticks w)"] E k
    by (simp add: wheel_pending_def)
qed

lemma schedule_refused: "d = 0 \<or> max_delay w < d \<Longrightarrow> schedule w d t = (w, [t])"
  by (simp add: schedule_def)

section \<open>The wheel is an agenda\<close>

lemma levels_for_spec:
  assumes "1 < r" "m \<le> u64_max" "0 < s"
  shows "n \<le> levels_for m r s n \<and> m \<le> s * r ^ (levels_for m r s n - n)"
  using assms
proof (induction m r s n rule: levels_for.induct)
  case (1 m r s n)
  show ?case
  proof (cases "s < m")
    case True
    let ?k = "levels_for m r (sat_mul s r) (Suc n)"
    have "Suc n \<le> ?k \<and> m \<le> sat_mul s r * r ^ (?k - Suc n)"
      using 1 True by (auto simp: sat_mul_def u64_max_def)
    moreover have "sat_mul s r * r ^ (?k - Suc n) \<le> s * r * r ^ (?k - Suc n)"
      by (simp add: sat_mul_def)
    moreover have "levels_for m r s n = ?k"
      using 1 True by (subst levels_for.simps) auto
    ultimately show ?thesis
      using order_trans [of m "sat_mul s r * r ^ (?k - Suc n)" "s * r * r ^ (?k - Suc n)"]
        power_Suc [of r "?k - Suc n"]
      by (simp add: Suc_diff_le mult.assoc Suc_le_eq flip: Suc_diff_Suc)
  next
    case False
    then show ?thesis
      by (subst (1 2) levels_for.simps) auto
  qed
qed

lemma wheel_new_spans:
  assumes "1 < r" "m \<le> u64_max" "wheel_new m r = Some w"
  shows "m \<le> max_delay w"
proof -
  let ?n = "levels_for m r r 1"
  have n: "1 \<le> ?n" "m \<le> r * r ^ (?n - 1)"
    using levels_for_spec [OF assms(1,2), of r 1] assms(1) by auto
  have "r * r ^ (?n - 1) = r ^ ?n"
    using n(1) by (simp flip: power_Suc)
  then show ?thesis
    using n(2) assms by (auto simp: wheel_new_def max_delay_def period_def)
qed

lemma pend_empty:
  assumes "\<And>l s. l < length lv \<Longrightarrow> s < length (lv ! l) \<Longrightarrow> lv ! l ! s = []"
  shows "pend r base lv = {#}"
  unfolding pend_def using assms by (intro sum.neutral ballI) auto

lemma wheel_new_wf:
  assumes "wheel_new m r = Some w" "r \<le> 2 ^ 16" "r ^ levels_for m r r 1 \<le> u64_max" "m \<le> u64_max"
  shows "wf_wheel w" "ticks w = 0" "radix w = r" "wheel_pending w = {#}"
proof -
  from assms(1) have r: "1 < r"
    and w: "w = \<lparr>ticks = 0, radix = r, levels = replicate (levels_for m r r 1) (replicate r [])\<rparr>"
    by (auto simp: wheel_new_def split: if_splits)
  have "1 \<le> levels_for m r r 1"
    using levels_for_spec [OF r assms(4), of r 1] r by simp
  then show "wf_wheel w"
    using r assms(2,3) by (auto simp: wf_wheel_def w)
  show "ticks w = 0" "radix w = r" "wheel_pending w = {#}"
    by (auto simp: w wheel_pending_def intro!: pend_empty)
qed

lemma tick_agenda:
  assumes wf: "wf_wheel w" and t: "tick w = (w', rel)"
  shows "mset rel = image_mset snd (filter_mset (\<lambda>e. fst e = Suc (ticks w)) (wheel_pending w))"
    and "wheel_pending w' = filter_mset (\<lambda>e. fst e \<noteq> Suc (ticks w)) (wheel_pending w)"
proof -
  let ?R = "image_mset (\<lambda>x. (Suc (ticks w), x)) (mset rel)"
  have wf': "wf_wheel w'" and tk: "ticks w' = Suc (ticks w)"
    and pd: "wheel_pending w = ?R + wheel_pending w'"
    using tick_spec [OF wf t] by auto
  have late: "fst e \<noteq> Suc (ticks w)" if "e \<in># wheel_pending w'" for e
    using wheel_pending_future [OF wf' that] by (simp add: tk)
  have R: "filter_mset (\<lambda>e. fst e = Suc (ticks w)) ?R = ?R"
    "filter_mset (\<lambda>e. fst e \<noteq> Suc (ticks w)) ?R = {#}"
    by (rule filter_mset_all filter_mset_none; auto)+
  have "image_mset snd ?R = mset rel"
    by (simp add: multiset.map_comp comp_def)
  then show "mset rel = image_mset snd (filter_mset (\<lambda>e. fst e = Suc (ticks w)) (wheel_pending w))"
    by (simp only: pd filter_union_mset R filter_mset_none [OF late] add_0_right)
  show "wheel_pending w' = filter_mset (\<lambda>e. fst e \<noteq> Suc (ticks w)) (wheel_pending w)"
    by (simp only: pd filter_union_mset R filter_mset_all [OF late] add_0_left)
qed

lemma schedule_keeps:
  assumes wf: "wf_wheel w" and s: "schedule w d t = (w', rel)"
  shows "wf_wheel w'" "ticks w' = ticks w" "max_delay w' = max_delay w"
proof -
  consider "d = 0 \<or> max_delay w < d" | "0 < d" "d \<le> max_delay w"
    by linarith
  then have "wf_wheel w' \<and> ticks w' = ticks w \<and> max_delay w' = max_delay w"
  proof cases
    case 1
    then show ?thesis
      using schedule_refused [OF 1] s wf by simp
  next
    case 2
    show ?thesis
      using schedule_spec [OF wf 2 s] wf_max_delay [OF wf] wf_max_delay [of w'] by simp
  qed
  then show "wf_wheel w'" "ticks w' = ticks w" "max_delay w' = max_delay w"
    by auto
qed

lemma schedule_placed:
  assumes "wf_wheel w" "0 < d" "d \<le> max_delay w" "schedule w d t = (w', rel)"
  shows "rel = [] \<and> wheel_pending w' = add_mset (ticks w + d, t) (wheel_pending w)"
  using schedule_spec [OF assms] by simp

lemma tick_keeps:
  assumes wf: "wf_wheel w" and t: "tick w = (w', rel)"
  shows "wf_wheel w'" "ticks w' = Suc (ticks w)" "max_delay w' = max_delay w"
  using tick_spec [OF wf t] wf_max_delay [OF wf] wf_max_delay [of w'] by simp_all

section \<open>The references the wheel holds\<close>

lemma mset_concat_sum: "mset (concat xss) = (\<Sum>i<length xss. mset (xss ! i))"
  by (induction xss) (simp_all add: sum.lessThan_Suc_shift del: sum.lessThan_Suc)

lemma image_mset_sum: "image_mset f (\<Sum>i\<in>A. g i) = (\<Sum>i\<in>A. image_mset f (g i))"
  by (induction A rule: infinite_finite_induct) auto

lemma pend_timers: "image_mset snd (pend r b lv) = mset (map link_timer (concat (concat lv)))"
proof -
  have "image_mset snd (pend r b lv)
      = (\<Sum>l<length lv. \<Sum>s<length (lv ! l). image_mset link_timer (mset (lv ! l ! s)))"
    unfolding pend_def image_mset_sum
    by (simp add: image_mset.compositionality comp_def link_entry_def del: mset_map)
  also have "\<dots> = (\<Sum>l<length lv. image_mset link_timer (mset (concat (lv ! l))))"
    by (simp add: mset_concat_sum image_mset_sum)
  also have "\<dots> = image_mset link_timer (mset (concat (concat lv)))"
  proof -
    have "concat (concat lv) = concat (map concat lv)"
      by (induction lv) auto
    then show ?thesis
      by (simp add: mset_concat_sum image_mset_sum)
  qed
  finally show ?thesis
    by simp
qed

lemma wheel_pending_timers: "image_mset snd (wheel_pending w) = mset (wheel_timers w)"
  by (simp add: wheel_pending_def wheel_timers_def pend_timers)

text \<open>No operation loses a reference: it stays in the wheel or is reported as dropped.\<close>

lemma tick_timers:
  assumes "wf_wheel w" "tick w = (w', rel)"
  shows "mset (wheel_timers w) = mset rel + mset (wheel_timers w')"
proof -
  have "wheel_pending w = image_mset (\<lambda>x. (Suc (ticks w), x)) (mset rel) + wheel_pending w'"
    using tick_spec [OF assms] by blast
  then have "image_mset snd (wheel_pending w)
      = mset rel + image_mset snd (wheel_pending w')"
    by (simp add: image_mset.compositionality comp_def)
  then show ?thesis
    by (simp add: wheel_pending_timers)
qed

lemma schedule_timers:
  assumes "wf_wheel w" "schedule w d t = (w', rel)"
  shows "add_mset t (mset (wheel_timers w)) = mset rel + mset (wheel_timers w')"
proof -
  consider "d = 0 \<or> max_delay w < d" | "0 < d" "d \<le> max_delay w"
    by linarith
  then show ?thesis
  proof cases
    case 1
    then show ?thesis
      using schedule_refused [of d w t] assms(2) by auto
  next
    case 2
    then show ?thesis
      using schedule_placed [OF assms(1) 2 assms(2)] wheel_pending_timers [of w]
        wheel_pending_timers [of w'] by auto
  qed
qed

lemma schedule_wf: "wf_wheel w \<Longrightarrow> wf_wheel (fst (schedule w d t))"
  using schedule_keeps(1) [of w d t] by (cases "schedule w d t") simp

lemma tick_wf: "wf_wheel w \<Longrightarrow> wf_wheel (fst (tick w))"
  using tick_keeps(1) [of w] by (cases "tick w") simp

interpretation wheel: agenda wf_wheel ticks max_delay wheel_pending schedule tick
  by unfold_locales
    (rule schedule_keeps schedule_placed schedule_refused tick_keeps tick_agenda wheel_pending_future;
      assumption)+

end
