(* ===== verification/Leases.thy ===== *)
theory Leases
  imports AuthKeys TimingWheel
begin

text \<open>
  The state of a running credential service and the two-stage teardown of temporary keys
  (\<^verbatim>\<open>leases.rs\<close>, and the state records of \<^verbatim>\<open>lib.rs\<close> and \<^verbatim>\<open>actor/mod.rs\<close>).

  Leases and timers are heap objects.  A strong reference to a lease is held by the actor (its own
  administrator lease), by the callback of a timer the wheel still holds, or by somebody outside
  (\<open>held\<close>); everything else names it weakly.  Only the wheel holds timers, so a timer whose last
  route is dropped runs its callback, and a callback runs once.
\<close>

section \<open>The state\<close>

datatype callback = CbRetire key_id lease_id | CbReap key_id "lease_id option"

type_synonym key_stages = "timer_id option \<times> timer_id option"

record auth = os +
  admin_key :: bytes
  admin_lease :: lease_id
  sync_process_credential :: bool
  instance_id :: bytes
  slots :: "slot_hot list"
  high_slot_generations :: "generation list"
  high_slot_entries :: "persisted_entry list"
  cold :: "key_id \<Rightarrow> cold_metadata option"
  safe_mode :: bool
  legacy_allowed :: bool
  active_legacy :: nat
  last_legacy_at :: nat
  auth_successes :: nat
  auth_failures :: nat
  root_epoch :: nat
  prev_root :: "previous_root option"
  audit_records :: "audit_record list"
  lease_objs :: "lease list"
  timer_objs :: "callback option list"
  held :: "lease_id list"
  running :: bool
  actor_lease :: lease_id
  lwheel :: "timer_id wheel"
  lnow :: nat
  stages :: "key_id \<Rightarrow> key_stages option"
  admin_replays :: "bytes set"
  admin_replay_order :: "admin_replay list"
  last_snapshot_at :: nat

section \<open>References\<close>

fun cb_lease :: "callback \<Rightarrow> lease_id option" where
  "cb_lease (CbRetire k l) = Some l"
| "cb_lease (CbReap k l) = l"

definition timer_alive :: "auth \<Rightarrow> timer_id \<Rightarrow> bool" where
  "timer_alive st t \<longleftrightarrow> t \<in> set (wheel_timers (lwheel st))"

definition lease_alive :: "auth \<Rightarrow> lease_id \<Rightarrow> bool" where
  "lease_alive st l \<longleftrightarrow>
     running st \<and> l = actor_lease st \<or> l \<in> set (held st) \<or>
     list_ex (\<lambda>t. case timer_objs st ! t of Some cb \<Rightarrow> cb_lease cb = Some l | None \<Rightarrow> False)
       (wheel_timers (lwheel st))"

definition upgrade_lease :: "auth \<Rightarrow> lease_id option \<Rightarrow> lease_id option" where
  "upgrade_lease st w = (case w of Some l \<Rightarrow> if lease_alive st l then Some l else None | None \<Rightarrow> None)"

definition upgrade_timer :: "auth \<Rightarrow> timer_id option \<Rightarrow> timer_id option" where
  "upgrade_timer st w = (case w of Some t \<Rightarrow> if timer_alive st t then Some t else None | None \<Rightarrow> None)"

definition lease_new_obj :: "key_id \<Rightarrow> nat \<Rightarrow> auth \<Rightarrow> auth \<times> lease_id" where
  "lease_new_obj k e st =
     (st\<lparr>lease_objs := lease_objs st @ [lease_new k e]\<rparr>, length (lease_objs st))"

definition cancel_lease :: "cancel_reason \<Rightarrow> lease_id \<Rightarrow> auth \<Rightarrow> auth" where
  "cancel_lease r l st =
     st\<lparr>lease_objs := (lease_objs st)[l := record_cancel r (lease_objs st ! l)]\<rparr>"

definition cancel_slot_lease :: "slot_hot \<Rightarrow> auth \<Rightarrow> auth" where
  "cancel_slot_lease s st =
     (case upgrade_lease st (slot_lease s) of
        Some l \<Rightarrow> cancel_lease CancelRotated l st | None \<Rightarrow> st)"

definition cancel_all_temporary_leases :: "auth \<Rightarrow> auth" where
  "cancel_all_temporary_leases st = fold cancel_slot_lease (slots st) st"

section \<open>The two stages\<close>

definition retention_ends :: "nat \<Rightarrow> nat" where
  "retention_ends tombstoned_at = sat_add tombstoned_at TOMBSTONE_RETENTION"

definition set_slot :: "nat \<Rightarrow> slot_hot \<Rightarrow> auth \<Rightarrow> auth" where
  "set_slot i s st = st\<lparr>slots := (slots st)[i := s]\<rparr>"

definition retire :: "key_id \<Rightarrow> lease_id \<Rightarrow> auth \<Rightarrow> auth" where
  "retire key_id l st =
     (let st = cancel_lease CancelExpired l st in
      case get_at (slots st) (key_row key_id) of
        None \<Rightarrow> st
      | Some slot \<Rightarrow>
          if \<not> slot_holds slot key_id \<or> slot_st slot \<noteq> Active then st
          else let tombstoned_at = slot_expires slot;
                   st = set_slot (key_row key_id) (slot\<lparr>slot_st := Expired\<rparr>) st
               in st\<lparr>cold := (case cold st key_id of
                     None \<Rightarrow> cold st
                   | Some c \<Rightarrow> (cold st)(key_id \<mapsto> c\<lparr>cold_tombstoned_at := tombstoned_at\<rparr>))\<rparr>)"

definition reap :: "key_id \<Rightarrow> auth \<Rightarrow> auth" where
  "reap key_id st =
     (case get_at (slots st) (key_row key_id) of
        Some slot \<Rightarrow>
          if slot_holds slot key_id
          then (set_slot (key_row key_id) (slot_retire slot) st)\<lparr>cold := (cold st)(key_id := None)\<rparr>
          else st
      | None \<Rightarrow>
          st\<lparr>high_slot_entries := filter (\<lambda>e. pe_key_id e \<noteq> key_id) (high_slot_entries st),
             cold := (cold st)(key_id := None)\<rparr>)"

fun run_callback :: "callback \<Rightarrow> auth \<Rightarrow> auth" where
  "run_callback (CbRetire k l) st = retire k l st"
| "run_callback (CbReap k l) st = reap k st"

definition timer_new :: "callback \<Rightarrow> auth \<Rightarrow> auth \<times> timer_id" where
  "timer_new cb st = (st\<lparr>timer_objs := timer_objs st @ [Some cb]\<rparr>, length (timer_objs st))"

text \<open>\<^verbatim>\<open>Timer::fire\<close> and \<^verbatim>\<open>Drop for Timer\<close>: the callback is taken, then run.\<close>

definition fire :: "timer_id \<Rightarrow> auth \<Rightarrow> auth" where
  "fire t st =
     (case timer_objs st ! t of
        None \<Rightarrow> st
      | Some cb \<Rightarrow> run_callback cb (st\<lparr>timer_objs := (timer_objs st)[t := None]\<rparr>))"

text \<open>
  References dropped in this order: a timer fires with the last of them, if the wheel keeps none.
\<close>

definition release :: "timer_id list \<Rightarrow> auth \<Rightarrow> auth" where
  "release rel st = fold fire (filter (\<lambda>t. \<not> timer_alive st t) (remdups rel)) st"

section \<open>The schedule\<close>

definition new_wheel :: "timer_id wheel" where
  "new_wheel = the (wheel_new MAX_SCHEDULABLE_DELAY 64)"

definition schedule_at :: "nat \<Rightarrow> timer_id \<Rightarrow> auth \<Rightarrow> auth" where
  "schedule_at deadline t st =
     (let (w, rel) = schedule (lwheel st) (deadline - lnow st) t in release rel (st\<lparr>lwheel := w\<rparr>))"

definition watch :: "key_id \<Rightarrow> lease_id \<Rightarrow> auth \<Rightarrow> auth" where
  "watch key_id l st =
     (let expires_at = lease_expires (lease_objs st ! l);
          (st, retire_t) = timer_new (CbRetire key_id l) st;
          (st, reap_t) = timer_new (CbReap key_id (Some l)) st;
          st = st\<lparr>stages := (stages st)(key_id \<mapsto> (Some retire_t, Some reap_t))\<rparr>
      in schedule_at (retention_ends expires_at) reap_t (schedule_at expires_at retire_t st))"

definition schedule_reap :: "key_id \<Rightarrow> nat \<Rightarrow> auth \<Rightarrow> auth" where
  "schedule_reap key_id deadline st =
     (let (st, reap_t) = timer_new (CbReap key_id None) st
      in schedule_at deadline reap_t
           (st\<lparr>stages := (stages st)(key_id \<mapsto> (None, Some reap_t))\<rparr>))"

definition lease_issue :: "lease_id \<Rightarrow> nat \<Rightarrow> bytes option \<Rightarrow> auth \<Rightarrow> auth" where
  "lease_issue l issued_at label st =
     (let key_id = lease_key (lease_objs st ! l)
      in watch key_id l (st\<lparr>cold := (cold st)(key_id \<mapsto>
           \<lparr>cold_issued_at = issued_at, cold_label = label, cold_tombstoned_at = 0\<rparr>)\<rparr>))"

definition lease_adopt :: "lease_id \<Rightarrow> auth \<Rightarrow> auth" where
  "lease_adopt l st = watch (lease_key (lease_objs st ! l)) l st"

definition lease_renew :: "key_id \<Rightarrow> nat \<Rightarrow> auth \<Rightarrow> auth \<times> bool" where
  "lease_renew key_id expires_at st =
     (case stages st key_id of
        None \<Rightarrow> (st, False)
      | Some (retire_w, reap_w) \<Rightarrow>
          (case (upgrade_timer st retire_w, upgrade_timer st reap_w) of
             (Some retire_t, Some reap_t) \<Rightarrow>
               (schedule_at (retention_ends expires_at) reap_t (schedule_at expires_at retire_t st), True)
           | _ \<Rightarrow> (st, False)))"

definition stage :: "key_id \<Rightarrow> (key_stages \<Rightarrow> timer_id option) \<Rightarrow> auth \<Rightarrow> auth \<times> timer_id option" where
  "stage key_id which st =
     (case stages st key_id of
        None \<Rightarrow> (st, None)
      | Some s \<Rightarrow>
          (if upgrade_timer st (fst s) = None \<and> upgrade_timer st (snd s) = None
           then st\<lparr>stages := (stages st)(key_id := None)\<rparr> else st,
           upgrade_timer st (which s)))"

definition fire_stage :: "key_id \<Rightarrow> (key_stages \<Rightarrow> timer_id option) \<Rightarrow> auth \<Rightarrow> auth" where
  "fire_stage key_id which st =
     (case stage key_id which st of (st, Some t) \<Rightarrow> fire t st | (st, None) \<Rightarrow> st)"

definition retire_now :: "key_id \<Rightarrow> auth \<Rightarrow> auth" where
  "retire_now key_id st = fire_stage key_id fst st"

definition end_key :: "key_id \<Rightarrow> auth \<Rightarrow> auth" where
  "end_key key_id st =
     (let st = fire_stage key_id snd (retire_now key_id st)
      in st\<lparr>stages := (stages st)(key_id := None)\<rparr>)"

definition drop_schedule :: "nat \<Rightarrow> auth \<Rightarrow> auth" where
  "drop_schedule now st =
     release (wheel_timers (lwheel st))
       (st\<lparr>stages := (\<lambda>_. None), lnow := now, lwheel := new_wheel\<rparr>)"

definition advance_second :: "auth \<Rightarrow> auth" where
  "advance_second st =
     (let (w, rel) = tick (lwheel st) in release rel (st\<lparr>lnow := Suc (lnow st), lwheel := w\<rparr>))"

text \<open>A jump beyond the wheel drops the schedule; a step backwards is ignored.\<close>

definition leases_tick :: "nat \<Rightarrow> auth \<Rightarrow> auth" where
  "leases_tick now st =
     (if max_delay (lwheel st) < now - lnow st then drop_schedule now st
      else (advance_second ^^ (now - lnow st)) st)"

definition leases_wipe :: "nat \<Rightarrow> auth \<Rightarrow> auth" where
  "leases_wipe now st = drop_schedule now (cancel_all_temporary_leases st)"

definition collectable_keys :: "nat \<Rightarrow> auth \<Rightarrow> key_id list" where
  "collectable_keys now st =
     [row_key (slot_generation s) i. (i, s) \<leftarrow> enumerate 0 (slots st), slot_is_collectable s now] @
     [pe_key_id e. e \<leftarrow> high_slot_entries st, pe_state e \<noteq> Active \<or> pe_expires_at e \<le> now]"

definition collect_garbage :: "nat \<Rightarrow> auth \<Rightarrow> auth \<times> nat" where
  "collect_garbage now st =
     (let due_keys = collectable_keys now st in (fold end_key due_keys st, length due_keys))"

text \<open>\<^verbatim>\<open>Leases::restored\<close>: live rows are watched, dead ones wait out their retention.\<close>

definition live_rows :: "auth \<Rightarrow> (key_id \<times> lease_id) list" where
  "live_rows st =
     [(row_key (slot_generation s) i, l).
        (i, s) \<leftarrow> enumerate 0 (slots st), slot_st s = Active,
        l \<leftarrow> (case upgrade_lease st (slot_lease s) of Some l \<Rightarrow> [l] | None \<Rightarrow> [])]"

definition dead_keys :: "auth \<Rightarrow> key_id list" where
  "dead_keys st =
     [row_key (slot_generation s) i.
        (i, s) \<leftarrow> enumerate 0 (slots st), slot_st s = Expired \<or> slot_st s = Revoked] @
     [pe_key_id e. e \<leftarrow> high_slot_entries st, pe_state e \<noteq> Active]"

definition restore_dead :: "nat \<Rightarrow> key_id \<Rightarrow> auth \<Rightarrow> auth" where
  "restore_dead now key_id st =
     (let tombstoned_at = (case cold st key_id of
            Some c \<Rightarrow> if cold_tombstoned_at c = 0 then now else cold_tombstoned_at c | None \<Rightarrow> now)
      in schedule_reap key_id (retention_ends tombstoned_at) st)"

definition leases_restored :: "nat \<Rightarrow> auth \<Rightarrow> auth" where
  "leases_restored now st =
     (let st = st\<lparr>lwheel := new_wheel, lnow := now, stages := (\<lambda>_. None)\<rparr>;
          live = live_rows st; dead = dead_keys st
      in fold (restore_dead now) dead (fold (\<lambda>(k, l). watch k l) live st))"

section \<open>What teardown may change\<close>

text \<open>
  \<open>control\<close> blanks the fields that teardown owns: two states with the same \<open>control\<close> agree on
  everything else.
\<close>

definition control :: "auth \<Rightarrow> auth" where
  "control st = st\<lparr>slots := [], cold := (\<lambda>_. None), high_slot_entries := [], lease_objs := [],
     timer_objs := [], lwheel := new_wheel, lnow := 0, stages := (\<lambda>_. None)\<rparr>"

lemma control_simps [simp]:
  "os.truncate (control st) = os.truncate st"
  "admin_key (control st) = admin_key st"
  "admin_lease (control st) = admin_lease st"
  "sync_process_credential (control st) = sync_process_credential st"
  "instance_id (control st) = instance_id st"
  "high_slot_generations (control st) = high_slot_generations st"
  "safe_mode (control st) = safe_mode st"
  "legacy_allowed (control st) = legacy_allowed st"
  "root_epoch (control st) = root_epoch st"
  "prev_root (control st) = prev_root st"
  "audit_records (control st) = audit_records st"
  "held (control st) = held st"
  "running (control st) = running st"
  "actor_lease (control st) = actor_lease st"
  "admin_replays (control st) = admin_replays st"
  "admin_replay_order (control st) = admin_replay_order st"
  "files (control st) = files st"
  "auth_successes (control st) = auth_successes st"
  "auth_failures (control st) = auth_failures st"
  "proc (control st) = proc st"
  "clk (control st) = clk st"
  by (simp_all add: control_def os.truncate_def)

lemma control_fields:
  assumes "control st' = control st"
  shows "os.truncate st' = os.truncate st"
    "admin_key st' = admin_key st"
    "admin_lease st' = admin_lease st"
    "sync_process_credential st' = sync_process_credential st"
    "instance_id st' = instance_id st"
    "high_slot_generations st' = high_slot_generations st"
    "safe_mode st' = safe_mode st"
    "legacy_allowed st' = legacy_allowed st"
    "root_epoch st' = root_epoch st"
    "prev_root st' = prev_root st"
    "audit_records st' = audit_records st"
    "held st' = held st"
    "running st' = running st"
    "actor_lease st' = actor_lease st"
    "admin_replays st' = admin_replays st"
    "admin_replay_order st' = admin_replay_order st"
    "files st' = files st"
    "auth_successes st' = auth_successes st"
    "auth_failures st' = auth_failures st"
    "proc st' = proc st"
    "clk st' = clk st"
  by (metis assms control_simps)+

text \<open>
  A row keeps its generation, and is either untouched or no longer active; a lease once cancelled
  stays cancelled, for the same reason.
\<close>

definition rows_decay :: "slot_hot list \<Rightarrow> slot_hot list \<Rightarrow> bool" where
  "rows_decay ss ss' \<longleftrightarrow> length ss' = length ss \<and>
     (\<forall>i<length ss. slot_generation (ss' ! i) = slot_generation (ss ! i) \<and>
        (ss' ! i = ss ! i \<or> slot_st (ss ! i) \<noteq> Free \<and> slot_st (ss' ! i) \<noteq> Active))"

definition leases_grow :: "lease list \<Rightarrow> lease list \<Rightarrow> bool" where
  "leases_grow ls ls' \<longleftrightarrow> length ls \<le> length ls' \<and>
     (\<forall>l<length ls. lease_key (ls' ! l) = lease_key (ls ! l) \<and>
        (is_cancelled (ls ! l) \<longrightarrow> is_cancelled (ls' ! l)))"

definition decay :: "auth \<Rightarrow> auth \<Rightarrow> bool" where
  "decay st st' \<longleftrightarrow> control st' = control st \<and> rows_decay (slots st) (slots st') \<and>
     leases_grow (lease_objs st) (lease_objs st')"

lemma rows_decay_refl [simp]: "rows_decay ss ss"
  by (simp add: rows_decay_def)

lemma leases_grow_refl [simp]: "leases_grow ls ls"
  by (simp add: leases_grow_def)

lemma decay_refl [simp]: "decay st st"
  by (simp add: decay_def)

lemma rows_decay_trans: "rows_decay a b \<Longrightarrow> rows_decay b c \<Longrightarrow> rows_decay a c"
  unfolding rows_decay_def by metis

lemma leases_grow_trans: "leases_grow a b \<Longrightarrow> leases_grow b c \<Longrightarrow> leases_grow a c"
  unfolding leases_grow_def by (metis order_less_le_trans order_trans)

lemma decay_trans: "decay a b \<Longrightarrow> decay b c \<Longrightarrow> decay a c"
  unfolding decay_def by (metis rows_decay_trans leases_grow_trans)

lemma decay_fold:
  assumes "\<And>x s. decay s (f x s)"
  shows "decay st (fold f xs st)"
  by (induction xs arbitrary: st) (auto intro: decay_trans assms)

lemma decay_other:
  assumes "decay st st'" "control st'' = control st'" "slots st'' = slots st'"
    "lease_objs st'' = lease_objs st'"
  shows "decay st st''"
  using assms by (simp add: decay_def)

lemma leases_grow_cancel [simp]: "leases_grow ls (ls[l := record_cancel r (ls ! l)])"
  by (cases "l < length ls") (auto simp: leases_grow_def nth_list_update)

lemma rows_decay_update:
  "\<lbrakk>slot_generation s = slot_generation (ss ! i); slot_st (ss ! i) \<noteq> Free; slot_st s \<noteq> Active\<rbrakk>
    \<Longrightarrow> rows_decay ss (ss[i := s])"
  by (cases "i < length ss") (auto simp: rows_decay_def nth_list_update)

lemma decay_cancel_lease [simp]: "decay st (cancel_lease r l st)"
  by (simp add: decay_def cancel_lease_def control_def)

lemma decay_cancel_slot_lease: "decay st (cancel_slot_lease s st)"
  by (simp add: cancel_slot_lease_def split: option.split)

lemma decay_cancel_all: "decay st (cancel_all_temporary_leases st)"
  unfolding cancel_all_temporary_leases_def by (rule decay_fold) (rule decay_cancel_slot_lease)

lemma decay_set_slot:
  assumes "get_at (slots st) i = Some slot" "slot_st slot \<noteq> Free"
    and "slot_generation s = slot_generation slot" "slot_st s \<noteq> Active"
  shows "decay st (set_slot i s st)"
  using assms by (auto simp: decay_def set_slot_def control_def get_at_Some_iff intro: rows_decay_update)

lemma decay_retire: "decay st (retire k l st)"
proof -
  let ?st = "cancel_lease CancelExpired l st"
  have "decay ?st (retire k l st)"
  proof (cases "get_at (slots ?st) (key_row k)")
    case (Some slot)
    show ?thesis
    proof (cases "slot_holds slot k \<and> slot_st slot = Active")
      case True
      have "decay ?st (set_slot (key_row k) (slot\<lparr>slot_st := Expired\<rparr>) ?st)"
        by (rule decay_set_slot [OF Some]) (simp_all add: True)
      from decay_other [OF this, of "retire k l st"] show ?thesis
        by (simp add: retire_def Let_def Some True control_def)
    qed (simp add: retire_def Some)
  qed (simp add: retire_def)
  then show ?thesis
    using decay_trans [OF decay_cancel_lease] by blast
qed

lemma decay_reap: "decay st (reap k st)"
  unfolding reap_def
  by (auto split: option.split simp: control_def slot_holds_def decay_def set_slot_def get_at_Some_iff
      intro: rows_decay_update)

lemma decay_run_callback: "decay st (run_callback cb st)"
  by (cases cb) (simp_all add: decay_retire decay_reap)

lemma decay_fire: "decay st (fire t st)"
proof (cases "timer_objs st ! t")
  case (Some cb)
  have "decay st (st\<lparr>timer_objs := (timer_objs st)[t := None]\<rparr>)"
    by (rule decay_other [OF decay_refl]) (simp_all add: control_def)
  then show ?thesis
    using Some decay_trans [OF _ decay_run_callback] by (simp add: fire_def)
qed (simp add: fire_def)

lemma decay_release: "decay st (release rel st)"
  unfolding release_def by (rule decay_fold) (rule decay_fire)

lemma decay_bookkeeping:
  "control st' = control st \<Longrightarrow> slots st' = slots st \<Longrightarrow> lease_objs st' = lease_objs st \<Longrightarrow> decay st st'"
  by (simp add: decay_def)

lemma decay_then_release:
  "control st' = control st \<Longrightarrow> slots st' = slots st \<Longrightarrow> lease_objs st' = lease_objs st \<Longrightarrow>
   decay st (release rel st')"
  using decay_trans [OF decay_bookkeeping decay_release] by blast

lemma decay_schedule_at: "decay st (schedule_at d t st)"
  unfolding schedule_at_def by (auto split: prod.split simp: control_def intro!: decay_then_release)

lemma decay_watch: "decay st (watch k l st)"
proof -
  let ?st = "st\<lparr>timer_objs := (timer_objs st @ [Some (CbRetire k l)]) @ [Some (CbReap k (Some l))],
    stages := (stages st)(k \<mapsto> (Some (length (timer_objs st)), Some (Suc (length (timer_objs st)))))\<rparr>"
  have "decay st ?st"
    by (rule decay_bookkeeping) (simp_all add: control_def)
  then show ?thesis
    unfolding watch_def timer_new_def Let_def
    using decay_trans [OF _ decay_trans [OF decay_schedule_at decay_schedule_at]] by simp
qed

lemma decay_schedule_reap: "decay st (schedule_reap k d st)"
proof -
  let ?st = "st\<lparr>timer_objs := timer_objs st @ [Some (CbReap k None)],
    stages := (stages st)(k \<mapsto> (None, Some (length (timer_objs st))))\<rparr>"
  have "decay st ?st"
    by (rule decay_bookkeeping) (simp_all add: control_def)
  then show ?thesis
    unfolding schedule_reap_def timer_new_def Let_def using decay_trans [OF _ decay_schedule_at] by simp
qed

lemma decay_lease_issue: "decay st (lease_issue l a n st)"
  unfolding lease_issue_def Let_def
  by (rule decay_trans [OF decay_bookkeeping decay_watch]) (simp_all add: control_def)

lemma decay_lease_adopt: "decay st (lease_adopt l st)"
  by (simp add: lease_adopt_def decay_watch)

lemma decay_lease_renew: "decay st (fst (lease_renew k e st))"
  by (auto simp: lease_renew_def intro: decay_trans [OF decay_schedule_at decay_schedule_at]
      split: option.split)

lemma decay_fire_stage: "decay st (fire_stage k which st)"
proof -
  have "decay st (fst (stage k which st))"
    by (auto simp: stage_def control_def intro!: decay_bookkeeping split: option.split)
  then show ?thesis
    unfolding fire_stage_def using decay_trans [OF _ decay_fire]
    by (auto split: prod.split option.split)
qed

lemma decay_retire_now: "decay st (retire_now k st)"
  by (simp add: retire_now_def decay_fire_stage)

lemma decay_end_key: "decay st (end_key k st)"
proof -
  have "decay st (fire_stage k snd (retire_now k st))"
    by (rule decay_trans [OF decay_retire_now decay_fire_stage])
  then show ?thesis
    unfolding end_key_def Let_def by (rule decay_other) (simp_all add: control_def)
qed

lemma decay_drop_schedule: "decay st (drop_schedule now st)"
  unfolding drop_schedule_def by (rule decay_then_release) (simp_all add: control_def)

lemma decay_advance_second: "decay st (advance_second st)"
  unfolding advance_second_def
  by (auto split: prod.split simp: control_def intro!: decay_then_release)

lemma decay_leases_tick: "decay st (leases_tick now st)"
proof -
  have "decay s ((advance_second ^^ n) s)" for n s
    by (induction n) (auto intro: decay_trans decay_advance_second)
  then show ?thesis
    by (simp add: leases_tick_def decay_drop_schedule)
qed

lemma decay_leases_wipe: "decay st (leases_wipe now st)"
  unfolding leases_wipe_def by (rule decay_trans [OF decay_cancel_all decay_drop_schedule])

lemma decay_collect_garbage: "decay st (fst (collect_garbage now st))"
  by (auto simp: collect_garbage_def Let_def intro: decay_fold decay_end_key)

lemmas teardown_decay =
  decay_cancel_lease decay_cancel_all decay_watch decay_schedule_reap decay_lease_issue
  decay_lease_adopt decay_lease_renew decay_retire_now decay_end_key decay_leases_tick
  decay_leases_wipe decay_collect_garbage decay_drop_schedule

section \<open>Every row in use has a reap to come\<close>

text \<open>
  \<open>covered K A st\<close>: each row that is not free has, among the timers \<open>A\<close>, one whose callback will
  reap it, except the rows of the keys \<open>K\<close>.  Firing a timer keeps the rows of the others covered.
\<close>

definition reap_timer_for :: "auth \<Rightarrow> key_id \<Rightarrow> timer_id \<Rightarrow> bool" where
  "reap_timer_for st k t \<longleftrightarrow>
     t < length (timer_objs st) \<and> (\<exists>lo. timer_objs st ! t = Some (CbReap k lo))"

definition covered :: "key_id set \<Rightarrow> timer_id set \<Rightarrow> auth \<Rightarrow> bool" where
  "covered K A st \<longleftrightarrow>
     (\<forall>i<length (slots st). slot_st (slots st ! i) \<noteq> Free \<longrightarrow>
        row_key (slot_generation (slots st ! i)) i \<notin> K \<longrightarrow>
        (\<exists>t\<in>A. reap_timer_for st (row_key (slot_generation (slots st ! i)) i) t))"

text \<open>\<open>B\<close> is the set of timers that exist but are not scheduled yet.\<close>

definition wf_with :: "key_id set \<Rightarrow> timer_id set \<Rightarrow> auth \<Rightarrow> bool" where
  "wf_with K B st \<longleftrightarrow> wf_wheel (lwheel st) \<and> length (slots st) \<le> 2 ^ 32 \<and>
     (\<forall>t\<in>set (wheel_timers (lwheel st)) \<union> B. t < length (timer_objs st)) \<and>
     covered K (set (wheel_timers (lwheel st)) \<union> B) st"

abbreviation wf_leases :: "auth \<Rightarrow> bool" where
  "wf_leases \<equiv> wf_with {} {}"

lemma covered_mono: "covered K A st \<Longrightarrow> A \<subseteq> B \<Longrightarrow> covered K B st"
  unfolding covered_def by blast

lemma new_wheel_eq: "wheel_new MAX_SCHEDULABLE_DELAY 64 = Some new_wheel"
  by (simp add: new_wheel_def wheel_new_def)

lemma levels_for_delay: "levels_for 31536060 64 64 1 = 5"
  by (simp add: levels_for.simps sat_mul_def u64_max_def)

lemma new_wheel_wf [simp]: "wf_wheel new_wheel" "ticks new_wheel = 0"
  "wheel_pending new_wheel = {#}"
  using wheel_new_wf [OF new_wheel_eq] levels_for_delay
  by (simp_all add: auth_const_defs u64_max_def)

lemma new_wheel_timers [simp]: "wheel_timers new_wheel = []"
  using wheel_pending_timers [of new_wheel] by simp

lemma new_wheel_spans: "MAX_SCHEDULABLE_DELAY \<le> max_delay new_wheel"
  by (rule wheel_new_spans [OF _ _ new_wheel_eq]) (simp_all add: auth_const_defs u64_max_def)

lemma timer_objs_retire [simp]: "timer_objs (retire k l st) = timer_objs st"
  by (simp add: retire_def cancel_lease_def set_slot_def Let_def split: option.split)

lemma timer_objs_reap [simp]: "timer_objs (reap k st) = timer_objs st"
  by (simp add: reap_def set_slot_def split: option.split)

lemma timer_objs_callback [simp]: "timer_objs (run_callback cb st) = timer_objs st"
  by (cases cb) simp_all

lemma lwheel_callback [simp]: "lwheel (run_callback cb st) = lwheel st"
  by (cases cb) (simp_all add: retire_def reap_def cancel_lease_def set_slot_def Let_def
      split: option.split)

lemma lwheel_fire [simp]: "lwheel (fire t st) = lwheel st"
  by (simp add: fire_def split: option.split)

lemma lwheel_release [simp]: "lwheel (release rel st) = lwheel st"
proof -
  have "lwheel (fold fire ts s) = lwheel s" for ts s
    by (induction ts arbitrary: s) simp_all
  then show ?thesis
    by (simp add: release_def)
qed

lemma timer_objs_fire: "timer_objs (fire t st) = (timer_objs st)[t := None]"
proof (cases "timer_objs st ! t")
  case None
  then show ?thesis
    using list_update_id [of "timer_objs st" t] by (simp add: fire_def)
qed (simp add: fire_def)

lemma length_timer_objs_release [simp]: "length (timer_objs (release rel st)) = length (timer_objs st)"
proof -
  have "length (timer_objs (fold fire ts s)) = length (timer_objs s)" for ts s
    by (induction ts arbitrary: s) (simp_all add: timer_objs_fire)
  then show ?thesis
    by (simp add: release_def)
qed

lemma reap_frees:
  assumes "i < length (slots st)" "length (slots st) \<le> 2 ^ 32"
    and "k = row_key (slot_generation (slots st ! i)) i"
  shows "slot_st (slots (reap k st) ! i) = Free"
proof -
  have "get_at (slots st) (key_row k) = Some (slots st ! i)" "key_row k = i"
    using assms by (auto simp: get_at_def)
  then show ?thesis
    using assms by (simp add: reap_def set_slot_def slot_holds_def)
qed

text \<open>The rows left in use after a step were in use before, with the same generation.\<close>

lemma covered_decay:
  assumes cov: "covered K B st" and rows: "rows_decay (slots st) (slots st')"
    and keep: "\<And>i t. i < length (slots st) \<Longrightarrow> slot_st (slots st' ! i) \<noteq> Free \<Longrightarrow> t \<in> B \<Longrightarrow>
      reap_timer_for st (row_key (slot_generation (slots st ! i)) i) t \<Longrightarrow>
      t \<in> A \<and> reap_timer_for st' (row_key (slot_generation (slots st ! i)) i) t"
  shows "covered K A st'"
  unfolding covered_def
proof (intro allI impI)
  fix i assume i: "i < length (slots st')" and nf: "slot_st (slots st' ! i) \<noteq> Free"
    and nK: "row_key (slot_generation (slots st' ! i)) i \<notin> K"
  have i': "i < length (slots st)" and gen: "slot_generation (slots st' ! i) = slot_generation (slots st ! i)"
    and nf': "slot_st (slots st ! i) \<noteq> Free"
    using rows i nf unfolding rows_decay_def by auto
  obtain t where "t \<in> B" "reap_timer_for st (row_key (slot_generation (slots st ! i)) i) t"
    using cov i' nf' nK gen by (auto simp: covered_def)
  then show "\<exists>t\<in>A. reap_timer_for st' (row_key (slot_generation (slots st' ! i)) i) t"
    using keep [OF i' nf] gen by auto
qed

lemma covered_fire:
  assumes cov: "covered K (insert t A) st" and len: "length (slots st) \<le> 2 ^ 32"
  shows "covered K A (fire t st)"
proof (rule covered_decay [OF cov])
  show "rows_decay (slots st) (slots (fire t st))"
    using decay_fire by (simp add: decay_def)
  fix i u
  assume i: "i < length (slots st)" and nf: "slot_st (slots (fire t st) ! i) \<noteq> Free"
    and u: "u \<in> insert t A" and r: "reap_timer_for st (row_key (slot_generation (slots st ! i)) i) u"
  have "u \<noteq> t"
  proof
    assume "u = t"
    then obtain lo where "timer_objs st ! t = Some (CbReap (row_key (slot_generation (slots st ! i)) i) lo)"
      using r by (auto simp: reap_timer_for_def)
    then have "slot_st (slots (fire t st) ! i) = Free"
      using reap_frees [of i "st\<lparr>timer_objs := (timer_objs st)[t := None]\<rparr>"] i len
      by (simp add: fire_def)
    with nf show False ..
  qed
  with u r show "u \<in> A \<and> reap_timer_for (fire t st) (row_key (slot_generation (slots st ! i)) i) u"
    by (auto simp: reap_timer_for_def timer_objs_fire)
qed

lemma length_slots_fire [simp]: "length (slots (fire t st)) = length (slots st)"
  using decay_fire [of st t] by (simp add: decay_def rows_decay_def)

lemma covered_fires:
  assumes "covered K (set ts \<union> A) st" "length (slots st) \<le> 2 ^ 32"
  shows "covered K A (fold fire ts st)"
  using assms
proof (induction ts arbitrary: st)
  case (Cons t ts)
  have "covered K (insert t (set ts \<union> A)) st"
    using Cons.prems(1) by simp
  from covered_fire [OF this Cons.prems(2)] show ?case
    using Cons.IH Cons.prems(2) by simp
qed simp

lemma covered_release:
  assumes "covered K (set rel \<union> A) st" "set (wheel_timers (lwheel st)) \<subseteq> A" "length (slots st) \<le> 2 ^ 32"
  shows "covered K A (release rel st)"
proof -
  let ?ts = "filter (\<lambda>t. \<not> timer_alive st t) (remdups rel)"
  have "set rel \<union> A \<subseteq> set ?ts \<union> A"
    using assms(2) by (auto simp: timer_alive_def)
  from covered_fires [OF covered_mono [OF assms(1) this] assms(3)] show ?thesis
    by (simp add: release_def)
qed

lemma length_slots_release [simp]: "length (slots (release rel st)) = length (slots st)"
  using decay_release [of st rel] by (simp add: decay_def rows_decay_def)

text \<open>A step that hands the wheel's dropped references to \<open>release\<close> keeps the invariant.\<close>

lemma wf_release:
  assumes "wf_wheel (lwheel st)" "length (slots st) \<le> 2 ^ 32"
    and "\<forall>t\<in>set (wheel_timers (lwheel st)) \<union> B. t < length (timer_objs st)"
    and "covered K (set rel \<union> (set (wheel_timers (lwheel st)) \<union> B)) st"
  shows "wf_with K B (release rel st)"
  using assms(1-3) covered_release [OF assms(4) _ assms(2)] by (simp add: wf_with_def)

lemma covered_cong:
  "covered K A st \<Longrightarrow> slots st' = slots st \<Longrightarrow> timer_objs st' = timer_objs st \<Longrightarrow> covered K A st'"
  by (simp add: covered_def reap_timer_for_def)

lemma wf_schedule_at:
  assumes wf: "wf_with K (insert t B) st"
  shows "wf_with K B (schedule_at d t st)"
proof -
  obtain w rel where s: "schedule (lwheel st) (d - lnow st) t = (w, rel)"
    by (cases "schedule (lwheel st) (d - lnow st) t")
  have w: "wf_wheel (lwheel st)"
    using wf by (simp add: wf_with_def)
  have "add_mset t (mset (wheel_timers (lwheel st))) = mset rel + mset (wheel_timers w)"
    by (rule schedule_timers [OF w s])
  then have sets: "insert t (set (wheel_timers (lwheel st))) = set rel \<union> set (wheel_timers w)"
    by (metis set_mset_add_mset_insert set_mset_mset set_mset_union)
  have "covered K (set rel \<union> (set (wheel_timers w) \<union> B)) (st\<lparr>lwheel := w\<rparr>)"
  proof -
    have "set rel \<union> (set (wheel_timers w) \<union> B) = set (wheel_timers (lwheel st)) \<union> insert t B"
      using sets by auto
    then show ?thesis
      using wf covered_cong [of K _ st "st\<lparr>lwheel := w\<rparr>"] by (simp add: wf_with_def)
  qed
  moreover have "\<forall>u\<in>set (wheel_timers w) \<union> B. u < length (timer_objs st)"
    using wf sets by (auto simp: wf_with_def)
  ultimately have "wf_with K B (release rel (st\<lparr>lwheel := w\<rparr>))"
    using wf schedule_wf [OF w, of "d - lnow st" t] s by (intro wf_release) (auto simp: wf_with_def)
  then show ?thesis
    by (simp add: schedule_at_def s)
qed

lemma wf_advance_second:
  assumes wf: "wf_with K {} st"
  shows "wf_with K {} (advance_second st)"
proof -
  obtain w rel where s: "tick (lwheel st) = (w, rel)"
    by (cases "tick (lwheel st)")
  have w: "wf_wheel (lwheel st)"
    using wf by (simp add: wf_with_def)
  have "mset (wheel_timers (lwheel st)) = mset rel + mset (wheel_timers w)"
    by (rule tick_timers [OF w s])
  then have sets: "set (wheel_timers (lwheel st)) = set rel \<union> set (wheel_timers w)"
    by (metis set_mset_mset set_mset_union)
  have "covered K (set rel \<union> set (wheel_timers w)) (st\<lparr>lnow := Suc (lnow st), lwheel := w\<rparr>)"
    using wf sets by (auto simp: wf_with_def intro: covered_cong [of _ _ st])
  then have "wf_with K {} (release rel (st\<lparr>lnow := Suc (lnow st), lwheel := w\<rparr>))"
    using wf sets tick_wf [OF w] s by (intro wf_release) (auto simp: wf_with_def)
  then show ?thesis
    by (simp add: advance_second_def s)
qed

lemma wf_drop_schedule:
  assumes wf: "wf_with K {} st"
  shows "wf_with K {} (drop_schedule now st)"
  unfolding drop_schedule_def
  using wf by (intro wf_release) (auto simp: wf_with_def intro: covered_cong [of _ _ st])

text \<open>Dropping the schedule runs every reap: no row stays in use.\<close>

lemma drop_schedule_frees:
  assumes "wf_leases st" "i < length (slots st)"
  shows "slot_st (slots (drop_schedule now st) ! i) = Free"
proof -
  have "covered {} {} (drop_schedule now st)"
    using wf_drop_schedule [OF assms(1)] by (simp add: wf_with_def drop_schedule_def)
  moreover have "i < length (slots (drop_schedule now st))"
    using assms(2) by (simp add: drop_schedule_def)
  ultimately show ?thesis
    by (auto simp: covered_def)
qed

lemma wf_leases_tick: "wf_with K {} st \<Longrightarrow> wf_with K {} (leases_tick now st)"
proof -
  have "wf_with K {} s \<Longrightarrow> wf_with K {} ((advance_second ^^ n) s)" for n s
    by (induction n) (auto intro: wf_advance_second)
  then show "wf_with K {} st \<Longrightarrow> wf_with K {} (leases_tick now st)"
    by (simp add: leases_tick_def wf_drop_schedule)
qed

lemma wf_fire:
  assumes "wf_with K {} st"
  shows "wf_with K {} (fire t st)"
proof -
  have "covered K (insert t (set (wheel_timers (lwheel st)))) st"
    using assms by (auto simp: wf_with_def intro: covered_mono)
  from covered_fire [OF this] show ?thesis
    using assms by (simp add: wf_with_def timer_objs_fire)
qed

lemma wf_cong:
  "wf_with K B st \<Longrightarrow> slots st' = slots st \<Longrightarrow> timer_objs st' = timer_objs st \<Longrightarrow> lwheel st' = lwheel st \<Longrightarrow>
   wf_with K B st'"
  using covered_cong [of K _ st st'] by (simp add: wf_with_def)

lemma wf_fire_stage: "wf_with K {} st \<Longrightarrow> wf_with K {} (fire_stage k which st)"
proof -
  have "wf_with K {} st \<Longrightarrow> wf_with K {} (fst (stage k which st))"
    by (auto simp: stage_def elim: wf_cong split: option.split)
  then show "wf_with K {} st \<Longrightarrow> wf_with K {} (fire_stage k which st)"
    unfolding fire_stage_def by (auto split: prod.split option.split intro: wf_fire)
qed

lemma wf_end_key: "wf_with K {} st \<Longrightarrow> wf_with K {} (end_key k st)"
  unfolding end_key_def retire_now_def Let_def
  by (rule wf_cong [of K "{}" "fire_stage k snd (fire_stage k fst st)"]) (simp_all add: wf_fire_stage)

lemma wf_collect_garbage: "wf_with K {} st \<Longrightarrow> wf_with K {} (fst (collect_garbage now st))"
  unfolding collect_garbage_def Let_def fst_conv by (rule fold_inv) (auto intro: wf_end_key)

lemma wf_cancel_lease: "wf_with K B st \<Longrightarrow> wf_with K B (cancel_lease r l st)"
  by (erule wf_cong) (simp_all add: cancel_lease_def)

lemma wf_cancel_all: "wf_with K B st \<Longrightarrow> wf_with K B (cancel_all_temporary_leases st)"
  unfolding cancel_all_temporary_leases_def
  by (rule fold_inv) (auto simp: cancel_slot_lease_def wf_cancel_lease split: option.split)

lemma wf_leases_wipe: "wf_with K {} st \<Longrightarrow> wf_with K {} (leases_wipe now st)"
  by (simp add: leases_wipe_def wf_drop_schedule wf_cancel_all)

lemma slots_cancel_all [simp]: "slots (cancel_all_temporary_leases st) = slots st"
  unfolding cancel_all_temporary_leases_def
  by (rule fold_inv [where P = "\<lambda>s. slots s = slots st"])
    (auto simp: cancel_slot_lease_def cancel_lease_def split: option.split)

lemma leases_wipe_frees:
  assumes "wf_leases st" "i < length (slots st)"
  shows "slot_st (slots (leases_wipe now st) ! i) = Free"
  using drop_schedule_frees [OF wf_cancel_all [OF assms(1)]] assms(2) by (simp add: leases_wipe_def)

text \<open>Rescheduling keeps a timer of the wheel in the wheel or fires it.\<close>

lemma wf_insert_alive: "wf_with K B st \<Longrightarrow> timer_alive st t \<Longrightarrow> wf_with K (insert t B) st"
  by (auto simp: wf_with_def timer_alive_def intro: covered_mono)

lemma wf_lease_renew: "wf_with K {} st \<Longrightarrow> wf_with K {} (fst (lease_renew k e st))"
  by (auto simp: lease_renew_def upgrade_timer_def intro!: wf_schedule_at wf_insert_alive
      split: option.split if_splits)

text \<open>Watching a key covers its row, whatever covered it before.\<close>

lemma wf_leases_but: "wf_with K B st \<Longrightarrow> K \<subseteq> L \<Longrightarrow> wf_with L B st"
  unfolding wf_with_def covered_def by blast

lemma reap_timer_for_append:
  "reap_timer_for st k t \<Longrightarrow> timer_objs st' = timer_objs st @ xs \<Longrightarrow> reap_timer_for st' k t"
  by (auto simp: reap_timer_for_def nth_append)

lemma wf_new_timers:
  assumes wf: "wf_with K {} st" and s: "slots st' = slots st" "lwheel st' = lwheel st"
    and ts: "timer_objs st' = timer_objs st @ xs" and u: "u \<in> B" "reap_timer_for st' k u"
    and B: "\<forall>t\<in>B. t < length (timer_objs st')"
  shows "wf_with (K - {k}) B st'"
proof -
  have "covered (K - {k}) (set (wheel_timers (lwheel st)) \<union> B) st'"
    unfolding covered_def
  proof (intro allI impI)
    fix i assume i: "i < length (slots st')" "slot_st (slots st' ! i) \<noteq> Free"
      and n: "row_key (slot_generation (slots st' ! i)) i \<notin> K - {k}"
    show "\<exists>t\<in>set (wheel_timers (lwheel st)) \<union> B.
        reap_timer_for st' (row_key (slot_generation (slots st' ! i)) i) t"
    proof (cases "row_key (slot_generation (slots st' ! i)) i = k")
      case False
      then have "\<exists>t\<in>set (wheel_timers (lwheel st)).
          reap_timer_for st (row_key (slot_generation (slots st ! i)) i) t"
        using wf i n s by (auto simp: wf_with_def covered_def)
      then show ?thesis
        using reap_timer_for_append [OF _ ts] s by auto
    qed (use u in auto)
  qed
  then show ?thesis
    using wf s ts B by (auto simp: wf_with_def)
qed

lemma wf_watch:
  assumes "wf_with K {} st"
  shows "wf_with (K - {k}) {} (watch k l st)"
proof -
  let ?n = "length (timer_objs st)"
  let ?st = "st\<lparr>timer_objs := timer_objs st @ [Some (CbRetire k l), Some (CbReap k (Some l))],
    stages := (stages st)(k \<mapsto> (Some ?n, Some (Suc ?n)))\<rparr>"
  have "wf_with (K - {k}) {?n, Suc ?n} ?st"
    by (rule wf_new_timers [OF assms, where u = "Suc ?n"])
      (simp_all add: reap_timer_for_def nth_append)
  then have "wf_with (K - {k}) {} (schedule_at (retention_ends e) (Suc ?n) (schedule_at e ?n ?st))" for e
    by (intro wf_schedule_at) simp
  then show ?thesis
    by (simp add: watch_def timer_new_def Let_def)
qed

lemma wf_schedule_reap:
  assumes "wf_with K {} st"
  shows "wf_with (K - {k}) {} (schedule_reap k d st)"
proof -
  let ?n = "length (timer_objs st)"
  let ?st = "st\<lparr>timer_objs := timer_objs st @ [Some (CbReap k None)],
    stages := (stages st)(k \<mapsto> (None, Some ?n))\<rparr>"
  have "wf_with (K - {k}) {?n} ?st"
    by (rule wf_new_timers [OF assms, where u = ?n])
      (simp_all add: reap_timer_for_def nth_append)
  then show ?thesis
    by (simp add: schedule_reap_def timer_new_def Let_def wf_schedule_at)
qed

lemma wf_lease_issue:
  assumes "wf_with {lease_key (lease_objs st ! l)} {} st"
  shows "wf_leases (lease_issue l a n st)"
proof -
  let ?k = "lease_key (lease_objs st ! l)"
  let ?st = "st\<lparr>cold := (cold st)(?k \<mapsto>
    \<lparr>cold_issued_at = a, cold_label = n, cold_tombstoned_at = 0\<rparr>)\<rparr>"
  have "wf_with {?k} {} ?st"
    using assms by (rule wf_cong) simp_all
  from wf_watch [OF this, of ?k l] show ?thesis
    by (simp add: lease_issue_def Let_def)
qed

lemma wf_lease_adopt:
  "wf_with {lease_key (lease_objs st ! l)} {} st \<Longrightarrow> wf_leases (lease_adopt l st)"
  unfolding lease_adopt_def
  using wf_watch [of "{lease_key (lease_objs st ! l)}" st "lease_key (lease_objs st ! l)"] by simp

text \<open>Overwriting the row of \<open>k\<close> leaves only \<open>k\<close> to be covered.\<close>

lemma wf_set_slot:
  assumes wf: "wf_leases st" and k: "row_key (slot_generation s) i = k"
  shows "wf_with {k} {} (set_slot i s st)"
proof -
  have "\<exists>t\<in>set (wheel_timers (lwheel st)). reap_timer_for (set_slot i s st)
      (row_key (slot_generation (slots (set_slot i s st) ! j)) j) t"
    if "j < length (slots st)" "slot_st (slots (set_slot i s st) ! j) \<noteq> Free"
      "row_key (slot_generation (slots (set_slot i s st) ! j)) j \<noteq> k" for j
  proof -
    have "j \<noteq> i"
      using that k by (auto simp: set_slot_def)
    then have same: "slots (set_slot i s st) ! j = slots st ! j"
      by (simp add: set_slot_def)
    have "\<exists>t\<in>set (wheel_timers (lwheel st)). reap_timer_for st (row_key (slot_generation (slots st ! j)) j) t"
      using wf that same unfolding wf_with_def covered_def by simp
    then show ?thesis
      unfolding same by (simp add: set_slot_def reap_timer_for_def)
  qed
  then show ?thesis
    using wf unfolding wf_with_def covered_def by (simp add: set_slot_def)
qed

text \<open>A start watches every row in use.\<close>

lemma enumerate_row: "i < length xs \<Longrightarrow> (i, xs ! i) \<in> set (enumerate 0 xs)"
  by (simp add: in_set_enumerate_eq)

lemma live_rowsI:
  assumes "i < length (slots st)" "slot_st (slots st ! i) = Active"
    and "upgrade_lease st (slot_lease (slots st ! i)) = Some l"
  shows "(row_key (slot_generation (slots st ! i)) i, l) \<in> set (live_rows st)"
  using enumerate_row [OF assms(1)] assms(2,3) by (force simp: live_rows_def)

lemma dead_keysI:
  assumes "i < length (slots st)" "slot_st (slots st ! i) = Expired \<or> slot_st (slots st ! i) = Revoked"
  shows "row_key (slot_generation (slots st ! i)) i \<in> set (dead_keys st)"
  using enumerate_row [OF assms(1)] assms(2) by (force simp: dead_keys_def)

lemma wf_watch_all: "wf_with K {} s \<Longrightarrow> wf_with (K - fst ` set ks) {} (fold (\<lambda>(k, l). watch k l) ks s)"
proof (induction ks arbitrary: K s)
  case (Cons kl ks)
  obtain k l where kl: "kl = (k, l)"
    by (cases kl)
  have "K - fst ` set (kl # ks) = K - {k} - fst ` set ks"
    by (auto simp: kl)
  moreover have "fold (\<lambda>(k, l). watch k l) (kl # ks) s = fold (\<lambda>(k, l). watch k l) ks (watch k l s)"
    by (simp add: kl)
  ultimately show ?case
    using Cons.IH [OF wf_watch [OF Cons.prems, of k l]] by (simp only:)
qed simp

lemma wf_restore_dead_all: "wf_with K {} s \<Longrightarrow> wf_with (K - set ks) {} (fold (restore_dead now) ks s)"
proof (induction ks arbitrary: K s)
  case (Cons k ks)
  have "wf_with (K - {k}) {} (restore_dead now k s)"
    using wf_schedule_reap [OF Cons.prems] by (simp add: restore_dead_def)
  moreover have "K - set (k # ks) = K - {k} - set ks"
    by auto
  ultimately show ?case
    using Cons.IH [of "K - {k}" "restore_dead now k s"] by (simp only: fold_simps)
qed simp

lemma wf_restored:
  assumes "length (slots st) \<le> 2 ^ 32"
    and st': "st' = st\<lparr>lwheel := new_wheel, lnow := now, stages := (\<lambda>_. None)\<rparr>"
    and live: "\<And>i. i < length (slots st) \<Longrightarrow> slot_st (slots st ! i) = Active \<Longrightarrow>
      upgrade_lease st' (slot_lease (slots st ! i)) \<noteq> None"
  shows "wf_leases (leases_restored now st)"
proof -
  define K where "K = fst ` set (live_rows st') \<union> set (dead_keys st')"
  have same: "slots st' = slots st" "lwheel st' = new_wheel"
    by (simp_all add: st')
  have keys: "row_key (slot_generation (slots st' ! i)) i \<in> K"
    if i: "i < length (slots st')" "slot_st (slots st' ! i) \<noteq> Free" for i
  proof (cases "slot_st (slots st' ! i)")
    case Active
    then obtain l where "upgrade_lease st' (slot_lease (slots st' ! i)) = Some l"
      using live [of i] i same by auto
    from live_rowsI [OF i(1) Active this] show ?thesis
      unfolding K_def by force
  qed (use i dead_keysI [OF i(1)] in \<open>auto simp: K_def\<close>)
  have "wf_with K {} st'"
    using assms(1) keys unfolding wf_with_def covered_def by (auto simp: same)
  from wf_restore_dead_all [OF wf_watch_all [OF this, of "live_rows st'"], of "dead_keys st'" now]
  have "wf_with (K - fst ` set (live_rows st') - set (dead_keys st')) {} (leases_restored now st)"
    by (simp add: leases_restored_def Let_def st')
  then show ?thesis
    by (rule wf_leases_but) (auto simp: K_def)
qed

end
