(* ===== verification/AuthActor.thy ===== *)
theory AuthActor
  imports Leases
begin

text \<open>
  The actor that owns the credential state (\<^verbatim>\<open>actor/mod.rs\<close>, \<^verbatim>\<open>actor/lifecycle.rs\<close>,
  \<^verbatim>\<open>actor/epoch.rs\<close> and the in-memory half of \<^verbatim>\<open>persistence\<close>).  A handler takes the
  state, returns it, and answers with a value or a failure.  Every administrator command is checked
  against the current administrator lease before it runs.
\<close>

section \<open>Durable mutations\<close>

definition push_audit_record :: "audit_record \<Rightarrow> auth \<Rightarrow> auth" where
  "push_audit_record r st =
     st\<lparr>audit_records := push_bounded AUDIT_RECORD_CAPACITY (audit_records st) r\<rparr>"

definition enter_safe_mode :: "auth \<Rightarrow> auth" where
  "enter_safe_mode st = cancel_all_temporary_leases (st\<lparr>safe_mode := True\<rparr>)"

text \<open>
  A failure that is not retryable leaves the log in an unknown state: the service closes.
\<close>

definition fail_closed_on_uncertain_wal :: "auth \<times> unit res \<Rightarrow> auth \<times> unit res" where
  "fail_closed_on_uncertain_wal r =
     (case r of
        (st, Inl e) \<Rightarrow> (if retryable e then st else enter_safe_mode st, Inl e)
      | (st, Inr _) \<Rightarrow> (st, Inr ()))"

definition append_mutation ::
  "'c env_scheme \<Rightarrow> state_mutation \<Rightarrow> audit_record \<Rightarrow> auth \<Rightarrow> auth \<times> unit res" where
  "append_mutation C mutation audit st =
     and_then (fail_closed_on_uncertain_wal
                 (append_wal C (admin_key st) (WalMutation mutation audit) st))
       (\<lambda>st _. (push_audit_record audit st, Inr ()))"

definition append_audit :: "'c env_scheme \<Rightarrow> audit_record \<Rightarrow> auth \<Rightarrow> auth \<times> unit res" where
  "append_audit C audit st =
     and_then (fail_closed_on_uncertain_wal (append_wal C (admin_key st) (WalAudit audit) st))
       (\<lambda>st _. (push_audit_record audit st, Inr ()))"

section \<open>Snapshots of the running state\<close>

definition snapshot_generations :: "auth \<Rightarrow> generation list" where
  "snapshot_generations st = map slot_generation (slots st) @ high_slot_generations st"

definition snapshot_with ::
  "auth \<Rightarrow> bytes \<Rightarrow> generation list \<Rightarrow> persisted_entry list \<Rightarrow> admin_replay list \<Rightarrow> persisted_snapshot" where
  "snapshot_with st inst gens entries replays =
     \<lparr>ps_schema_version = SNAPSHOT_SCHEMA_VERSION, ps_instance_id = inst, ps_generations = gens,
      ps_entries = entries, ps_legacy_protocol = (if legacy_allowed st then Allow else Deny),
      ps_admin_replays = replays, ps_audit_records = audit_records st, ps_root_epoch = root_epoch st\<rparr>"

definition row_entry :: "auth \<Rightarrow> nat \<Rightarrow> slot_hot \<Rightarrow> persisted_entry option" where
  "row_entry st i s =
     (if slot_st s = Free then None
      else let key_id = row_key (slot_generation s) i in
        case cold st key_id of
          None \<Rightarrow> None
        | Some c \<Rightarrow> Some
            \<lparr>pe_key_id = key_id, pe_state = slot_st s, pe_issued_at = cold_issued_at c,
             pe_expires_at = slot_expires s, pe_label = cold_label c,
             pe_tombstoned_at = (if cold_tombstoned_at c \<noteq> 0 then Some (cold_tombstoned_at c) else None)\<rparr>)"

definition row_entries :: "auth \<Rightarrow> persisted_entry list" where
  "row_entries st = List.map_filter (\<lambda>(i, s). row_entry st i s) (enumerate 0 (slots st))"

definition build_snapshot :: "auth \<Rightarrow> admin_replay list \<Rightarrow> persisted_snapshot" where
  "build_snapshot st replays =
     snapshot_with st (instance_id st) (snapshot_generations st)
       (row_entries st @ high_slot_entries st) replays"

definition empty_snapshot :: "auth \<Rightarrow> bytes \<Rightarrow> admin_replay list \<Rightarrow> persisted_snapshot" where
  "empty_snapshot st inst replays = snapshot_with st inst (snapshot_generations st) [] replays"

definition compaction_is_allowed :: "bool \<Rightarrow> bool" where
  "compaction_is_allowed safe = (\<not> safe)"

section \<open>Checks and names\<close>

definition admin_rotated :: auth_failure where
  "admin_rotated = fail ''administrator_key_rotated'' False"

definition validate_admin_authority :: "auth \<Rightarrow> lease_id \<Rightarrow> unit res" where
  "validate_admin_authority st authority =
     (if \<not> lease_alive st authority then Inl admin_rotated
      else if is_cancelled (lease_objs st ! authority) then Inl admin_rotated
      else if \<not> lease_alive st (admin_lease st) then Inl admin_rotated
      else if authority \<noteq> admin_lease st then Inl admin_rotated
      else Inr ())"

definition ensure_store_available :: "auth \<Rightarrow> unit res" where
  "ensure_store_available st = (if safe_mode st then Inl (store_err False) else Inr ())"

definition key_not_found :: auth_failure where
  "key_not_found = fail ''temporary_key_not_found'' False"

definition key_not_renewable :: auth_failure where
  "key_not_renewable = fail ''temporary_key_not_renewable'' False"

definition key_not_active :: auth_failure where
  "key_not_active = fail ''temporary_key_not_active'' False"

definition key_inactive_now :: auth_failure where
  "key_inactive_now = fail ''temporary_key_inactive'' True"

definition validate_slot_identity :: "slot_hot \<Rightarrow> key_id \<Rightarrow> unit res" where
  "validate_slot_identity slot key_id =
     (if slot_generation slot \<noteq> key_id_generation key_id \<or> slot_st slot = Free
      then Inl key_not_found else Inr ())"

fun slot_state_name :: "slot_state \<Rightarrow> string" where
  "slot_state_name Free = ''free''"
| "slot_state_name Active = ''active''"
| "slot_state_name Expired = ''expired''"
| "slot_state_name Revoked = ''revoked''"

definition audit :: "string \<Rightarrow> key_id option \<Rightarrow> bytes option \<Rightarrow> auth \<Rightarrow> auth \<times> audit_record" where
  "audit action key_id label st =
     (let (st, now) = unix_seconds st
      in (st, \<lparr>au_at = now, au_action = action, au_key_id = key_id, au_label = label\<rparr>))"

text \<open>Printing of numbers and bytes.\<close>

fun decimal :: "nat \<Rightarrow> bytes" where
  "decimal n = (if n < 10 then [] else decimal (n div 10)) @ [word_of_nat (48 + n mod 10)]"

declare decimal.simps [simp del]

definition hex :: "bytes \<Rightarrow> bytes" where
  "hex bs = concat (map (\<lambda>b. [ascii ''0123456789abcdef'' ! unat (drop_bit 4 b),
                              ascii ''0123456789abcdef'' ! unat (b AND 0x0F)]) bs)"

section \<open>Reading a key\<close>

record key_state =
  ks_state :: slot_state
  ks_expires_at :: nat
  ks_issued_at :: nat
  ks_label :: "bytes option"

definition high_slot_entry :: "persisted_entry list \<Rightarrow> key_id \<Rightarrow> persisted_entry res" where
  "high_slot_entry high key_id =
     (case find (\<lambda>e. pe_key_id e = key_id) high of None \<Rightarrow> Inl key_not_found | Some e \<Rightarrow> Inr e)"

definition key_state_of :: "auth \<Rightarrow> key_id \<Rightarrow> key_state res" where
  "key_state_of st key_id =
     (case get_at (slots st) (key_row key_id) of
        Some slot \<Rightarrow>
          (case validate_slot_identity slot key_id of
             Inl e \<Rightarrow> Inl e
           | Inr _ \<Rightarrow>
               (case cold st key_id of
                  None \<Rightarrow> Inl key_not_found
                | Some c \<Rightarrow> Inr \<lparr>ks_state = slot_st slot, ks_expires_at = slot_expires slot,
                                 ks_issued_at = cold_issued_at c, ks_label = cold_label c\<rparr>))
      | None \<Rightarrow>
          (case high_slot_entry (high_slot_entries st) key_id of
             Inl e \<Rightarrow> Inl e
           | Inr e \<Rightarrow> Inr \<lparr>ks_state = pe_state e, ks_expires_at = pe_expires_at e,
                            ks_issued_at = pe_issued_at e, ks_label = pe_label e\<rparr>))"

definition slot_metadata :: "key_id \<Rightarrow> slot_hot \<Rightarrow> cold_metadata \<Rightarrow> key_metadata" where
  "slot_metadata key_id slot c =
     \<lparr>km_key_id = key_id, km_state = slot_state_name (slot_st slot), km_issued_at = cold_issued_at c,
      km_expires_at = slot_expires slot, km_label = cold_label c\<rparr>"

definition high_slot_metadata :: "persisted_entry \<Rightarrow> key_metadata" where
  "high_slot_metadata e =
     \<lparr>km_key_id = pe_key_id e, km_state = slot_state_name (pe_state e), km_issued_at = pe_issued_at e,
      km_expires_at = pe_expires_at e, km_label = pe_label e\<rparr>"

definition metadata_with_credential ::
  "'c crypto_scheme \<Rightarrow> auth \<Rightarrow> key_id \<Rightarrow> bool \<Rightarrow> issued_key res" where
  "metadata_with_credential C st key_id reveal =
     (case (if reveal then
              (case derive_temporary_key C (admin_key st) (instance_id st) key_id of
                 Inl e \<Rightarrow> Inl e
               | Inr key \<Rightarrow> Inr (encode_temporary_credential C key_id key))
            else Inr []) of
        Inl e \<Rightarrow> Inl e
      | Inr credential \<Rightarrow>
          (case get_at (slots st) (key_row key_id) of
             Some slot \<Rightarrow>
               (case validate_slot_identity slot key_id of
                  Inl e \<Rightarrow> Inl e
                | Inr _ \<Rightarrow>
                    (case cold st key_id of
                       None \<Rightarrow> Inl key_not_found
                     | Some c \<Rightarrow> Inr \<lparr>ik_metadata = slot_metadata key_id slot c,
                                      ik_credential = credential\<rparr>))
           | None \<Rightarrow>
               (case high_slot_entry (high_slot_entries st) key_id of
                  Inl e \<Rightarrow> Inl e
                | Inr e \<Rightarrow> Inr \<lparr>ik_metadata = high_slot_metadata e, ik_credential = credential\<rparr>)))"

section \<open>Issue, show, list\<close>

definition lift_res :: "'a res \<Rightarrow> 's \<Rightarrow> 's \<times> 'a res" where
  "lift_res r st = (st, r)"

definition validate_ttl :: "auth_config \<Rightarrow> duration \<Rightarrow> auth \<Rightarrow> auth \<times> nat res" where
  "validate_ttl cfg ttl st =
     (if ttl < from_secs MIN_TEMP_KEY_TTL then (st, Inl (fail ''temporary_key_ttl_too_short'' False))
      else if max_temporary_key_ttl cfg < ttl
      then (st, Inl (fail ''temporary_key_ttl_too_long'' False))
      else let (st, now) = unix_seconds st in (st, Inr (sat_add now (as_secs ttl))))"

definition validate_label :: "bytes option \<Rightarrow> bytes option res" where
  "validate_label label =
     (let label = (case label of None \<Rightarrow> None
                   | Some l \<Rightarrow> if trim l = [] then None else Some (trim l))
      in case label of
           Some l \<Rightarrow> if 64 < length l then Inl (fail ''temporary_key_label_too_long'' False) else Inr label
         | None \<Rightarrow> Inr label)"

text \<open>The first free row whose generation can advance.\<close>

definition free_row :: "slot_hot list \<Rightarrow> (nat \<times> generation) option" where
  "free_row ss =
     find_map (\<lambda>(i, s). if slot_st s = Free
                        then map_option (\<lambda>g. (i, g)) (generation_next (slot_generation s)) else None)
       (enumerate 0 ss)"

text \<open>The in-memory half of an issue: a new lease, the row, and its schedule.\<close>

definition issue_row ::
  "nat \<Rightarrow> generation \<Rightarrow> nat \<Rightarrow> nat \<Rightarrow> bytes option \<Rightarrow> auth \<Rightarrow> auth" where
  "issue_row index gen expires_at issued_at label st =
     (let (st, l) = lease_new_obj (row_key gen index) expires_at st
      in lease_issue l issued_at label
           (set_slot index \<lparr>slot_generation = gen, slot_st = Active, slot_expires = expires_at,
              slot_lease = Some l\<rparr> st))"

definition actor_issue ::
  "'c env_scheme \<Rightarrow> auth_config \<Rightarrow> duration \<Rightarrow> bytes option \<Rightarrow> auth \<Rightarrow> auth \<times> issued_key res" where
  "actor_issue C cfg ttl label st =
     and_then (lift_res (ensure_store_available st) st) (\<lambda>st _.
     and_then (validate_ttl cfg ttl st) (\<lambda>st expires_at.
     and_then (lift_res (validate_label label) st) (\<lambda>st label.
     let (st, issued_at) = unix_seconds st in
     case free_row (slots st) of
       None \<Rightarrow> (st, Inl (fail ''temporary_key_capacity_exhausted'' True))
     | Some (index, gen) \<Rightarrow>
         (let key_id = row_key gen index;
              entry = \<lparr>pe_key_id = key_id, pe_state = Active, pe_issued_at = issued_at,
                       pe_expires_at = expires_at, pe_label = label, pe_tombstoned_at = None\<rparr>;
              (st, audit_r) = audit ''temporary_key_issue'' (Some key_id) label st
          in and_then (append_mutation C (MIssue entry) audit_r st) (\<lambda>st _.
             if length (slots st) \<le> index then (st, Inl internal_failure)
             else let st = issue_row index gen expires_at issued_at label st
                  in lift_res (metadata_with_credential C st key_id True) st)))))"

definition row_metadata :: "auth \<Rightarrow> nat \<Rightarrow> slot_hot \<Rightarrow> key_metadata option" where
  "row_metadata st i s =
     (if slot_st s = Free then None
      else map_option (slot_metadata (row_key (slot_generation s) i) s)
             (cold st (row_key (slot_generation s) i)))"

definition all_metadata :: "auth \<Rightarrow> key_metadata list" where
  "all_metadata st =
     sort_key (\<lambda>m. - int (km_issued_at m))
       (List.map_filter (\<lambda>(i, s). row_metadata st i s) (enumerate 0 (slots st)) @
        [high_slot_metadata e. e \<leftarrow> high_slot_entries st, pe_state e \<noteq> Free])"

definition actor_list :: "nat \<Rightarrow> nat \<Rightarrow> auth \<Rightarrow> key_page res" where
  "actor_list page page_size st =
     (let page_size = max 1 (min 1000 page_size);
          start = sat_mul page page_size;
          all = all_metadata st
      in Inr \<lparr>kp_schema_version = 1, kp_items = take page_size (drop start all),
              kp_next_page = (if sat_add start page_size < length all
                              then Some (min (page + 1) u32_max) else None)\<rparr>)"

definition actor_show ::
  "'c env_scheme \<Rightarrow> key_id \<Rightarrow> bool \<Rightarrow> auth \<Rightarrow> auth \<times> issued_key res" where
  "actor_show C key_id reveal st =
     and_then (lift_res (metadata_with_credential C st key_id reveal) st) (\<lambda>st result.
     let (st, audit_r) =
           audit (if reveal then ''temporary_key_reveal'' else ''temporary_key_show'') (Some key_id)
             (km_label (ik_metadata result)) st
     in and_then (append_audit C audit_r st) (\<lambda>st _. (st, Inr result)))"

section \<open>Renew, revoke, collect\<close>

text \<open>The in-memory half of a renewal of an addressable row.\<close>

definition renew_row :: "key_id \<Rightarrow> nat \<Rightarrow> slot_hot \<Rightarrow> auth \<Rightarrow> auth" where
  "renew_row key_id expires_at slot st =
     (let st = set_slot (key_row key_id) (slot\<lparr>slot_expires := expires_at\<rparr>) st;
          live = (case upgrade_lease st (slot_lease slot) of
                    Some l \<Rightarrow> if is_cancelled (lease_objs st ! l) then None else Some l | None \<Rightarrow> None)
      in case live of
           Some l \<Rightarrow>
             fst (lease_renew key_id expires_at
               (st\<lparr>lease_objs := (lease_objs st)[l := (lease_objs st ! l)\<lparr>lease_expires := expires_at\<rparr>]\<rparr>))
         | None \<Rightarrow>
             (let (st, l) = lease_new_obj key_id expires_at st
              in lease_adopt l
                   (set_slot (key_row key_id) (slot\<lparr>slot_expires := expires_at, slot_lease := Some l\<rparr>) st)))"

text \<open>What follows the log record of a renewal.\<close>

definition publish_renew ::
  "'c crypto_scheme \<Rightarrow> key_id \<Rightarrow> nat \<Rightarrow> auth \<Rightarrow> auth \<times> issued_key res" where
  "publish_renew C key_id expires_at st =
     (case get_at (slots st) (key_row key_id) of
       Some slot \<Rightarrow>
         and_then (lift_res (validate_slot_identity slot key_id) st) (\<lambda>st _.
         if slot_st slot \<noteq> Active then (st, Inl key_inactive_now)
         else let st = renew_row key_id expires_at slot st
              in lift_res (metadata_with_credential C st key_id True) st)
     | None \<Rightarrow>
         and_then (lift_res (high_slot_entry (high_slot_entries st) key_id) st) (\<lambda>st entry.
         if pe_state entry \<noteq> Active then (st, Inl key_inactive_now)
         else case update_first (\<lambda>e. pe_key_id e = key_id)
                     (\<lambda>e. e\<lparr>pe_expires_at := expires_at, pe_tombstoned_at := None\<rparr>)
                     (high_slot_entries st) of
                None \<Rightarrow> (st, Inl key_not_found)
              | Some es \<Rightarrow>
                  (let st = st\<lparr>high_slot_entries := es\<rparr>
                   in lift_res (metadata_with_credential C st key_id True) st)))"

definition actor_renew ::
  "'c env_scheme \<Rightarrow> auth_config \<Rightarrow> key_id \<Rightarrow> duration \<Rightarrow> auth \<Rightarrow> auth \<times> issued_key res" where
  "actor_renew C cfg key_id ttl st =
     and_then (lift_res (ensure_store_available st) st) (\<lambda>st _.
     and_then (validate_ttl cfg ttl st) (\<lambda>st expires_at.
     and_then (lift_res (key_state_of st key_id) st) (\<lambda>st current.
     if ks_state current \<noteq> Active then (st, Inl key_not_renewable)
     else let (st, now) = unix_seconds st in
     if ks_expires_at current \<le> now then (st, Inl key_not_renewable)
     else let (st, audit_r) = audit ''temporary_key_renew'' (Some key_id) (ks_label current) st in
     and_then (append_mutation C (MRenew key_id expires_at) audit_r st) (\<lambda>st _.
     publish_renew C key_id expires_at st))))"

definition revoke_row :: "key_id \<Rightarrow> slot_hot \<Rightarrow> auth \<Rightarrow> auth" where
  "revoke_row key_id slot st =
     (let st = set_slot (key_row key_id) (slot\<lparr>slot_st := Revoked\<rparr>) st;
          st = (case upgrade_lease st (slot_lease slot) of
                  Some l \<Rightarrow> cancel_lease CancelRevoked l st | None \<Rightarrow> st)
      in retire_now key_id st)"

text \<open>What follows the log record of a revoke.\<close>

definition publish_revoke :: "key_id \<Rightarrow> nat \<Rightarrow> key_state \<Rightarrow> auth \<Rightarrow> auth \<times> key_metadata res" where
  "publish_revoke key_id now current st =
     (case get_at (slots st) (key_row key_id) of
       Some slot \<Rightarrow>
         and_then (lift_res (validate_slot_identity slot key_id) st) (\<lambda>st _.
         let st = revoke_row key_id slot st in
         case cold st key_id of
           None \<Rightarrow> (st, Inl key_not_found)
         | Some c \<Rightarrow> (st, Inr (slot_metadata key_id (slot\<lparr>slot_st := Revoked\<rparr>) c)))
     | None \<Rightarrow>
         and_then (lift_res (high_slot_entry (high_slot_entries st) key_id) st) (\<lambda>st entry.
         if pe_state entry \<noteq> Active then (st, Inl key_not_active)
         else case update_first (\<lambda>e. pe_key_id e = key_id)
                     (\<lambda>e. e\<lparr>pe_state := Revoked, pe_tombstoned_at := Some now\<rparr>)
                     (high_slot_entries st) of
                None \<Rightarrow> (st, Inl key_not_found)
              | Some es \<Rightarrow>
                  (retire_now key_id (st\<lparr>high_slot_entries := es\<rparr>),
                   Inr \<lparr>km_key_id = key_id, km_state = slot_state_name Revoked,
                        km_issued_at = ks_issued_at current, km_expires_at = ks_expires_at current,
                        km_label = ks_label current\<rparr>)))"

definition actor_revoke :: "'c env_scheme \<Rightarrow> key_id \<Rightarrow> auth \<Rightarrow> auth \<times> key_metadata res" where
  "actor_revoke C key_id st =
     and_then (lift_res (ensure_store_available st) st) (\<lambda>st _.
     let (st, now) = unix_seconds st in
     and_then (lift_res (key_state_of st key_id) st) (\<lambda>st current.
     if ks_state current \<noteq> Active then (st, Inl key_not_active)
     else let (st, audit_r) = audit ''temporary_key_revoke'' (Some key_id) (ks_label current) st in
     and_then (append_mutation C (MRevoke key_id now) audit_r st) (\<lambda>st _.
     publish_revoke key_id now current st)))"

definition actor_gc :: "'c env_scheme \<Rightarrow> auth \<Rightarrow> auth \<times> nat res" where
  "actor_gc C st =
     and_then (lift_res (ensure_store_available st) st) (\<lambda>st _.
     let (st, now) = unix_seconds st;
         (st, removed) = collect_garbage now st;
         (st, gc_audit) = audit ''temporary_key_gc'' None (Some (ascii ''removed='' @ decimal removed)) st;
         snapshot = build_snapshot st (admin_replay_order st);
         snapshot = snapshot\<lparr>ps_audit_records := push_persisted_audit (ps_audit_records snapshot) gc_audit\<rparr>
     in case write_snapshot_and_truncate_wal C (admin_key st) snapshot st of
          (st, Inl e) \<Rightarrow> (enter_safe_mode st, Inl e)
        | (st, Inr _) \<Rightarrow> (push_audit_record gc_audit st, Inr removed))"

section \<open>Reset and rotation\<close>

definition bump_epoch :: "auth \<Rightarrow> auth" where
  "bump_epoch st = st\<lparr>root_epoch := (root_epoch st + 1) mod 2 ^ 64\<rparr>"

definition remember_previous_root :: "auth \<Rightarrow> auth" where
  "remember_previous_root st =
     st\<lparr>prev_root := Some \<lparr>prev_admin_key = admin_key st, prev_instance_id = instance_id st\<rparr>\<rparr>"

text \<open>
  An error of the last replacement is not fatal when the files already show the new state.
\<close>

definition settle ::
  "(auth \<Rightarrow> auth \<times> bool) \<Rightarrow> auth \<times> unit res \<Rightarrow> auth \<times> unit res" where
  "settle installed r =
     (case r of
        (st, Inr _) \<Rightarrow> (st, Inr ())
      | (st, Inl e) \<Rightarrow>
          (case installed st of
             (st, True) \<Rightarrow> (st, Inr ()) | (st, False) \<Rightarrow> (enter_safe_mode st, Inl e)))"

definition wipe_now :: "auth \<Rightarrow> auth" where
  "wipe_now st = (let (st, now) = unix_seconds st in leases_wipe now st)"

text \<open>The three files of a reset, in order: staged id, empty snapshot, live id.\<close>

definition reset_files ::
  "'c env_scheme \<Rightarrow> bytes \<Rightarrow> persisted_snapshot \<Rightarrow> auth \<Rightarrow> auth \<times> unit res" where
  "reset_files C new_instance_id snapshot st =
     settle (reset_already_installed C (admin_key st) new_instance_id)
       (and_then (atomic_write INSTANCE_ID_NEXT_FILE new_instance_id st) (\<lambda>st _.
        and_then (write_snapshot_and_truncate_wal C (admin_key st) snapshot st) (\<lambda>st _.
        atomic_write INSTANCE_ID_FILE new_instance_id st)))"

definition actor_reset :: "'c env_scheme \<Rightarrow> string \<Rightarrow> auth \<Rightarrow> auth \<times> unit res" where
  "actor_reset C action st =
     (let (st, new_instance_id) = random_instance_id st;
          st = bump_epoch st;
          (st, reset_audit) = audit action None None st;
          snapshot = empty_snapshot st new_instance_id (admin_replay_order st);
          snapshot = snapshot\<lparr>ps_audit_records := push_persisted_audit (ps_audit_records snapshot) reset_audit\<rparr>
      in and_then (reset_files C new_instance_id snapshot st) (\<lambda>st _.
         let st = remove_file INSTANCE_ID_NEXT_FILE st;
             st = push_audit_record reset_audit st;
             st = remember_previous_root st;
             st = wipe_now st
         in (st\<lparr>instance_id := new_instance_id, safe_mode := False\<rparr>, Inr ())))"

definition new_admin_lease :: "bytes \<Rightarrow> auth \<Rightarrow> auth \<times> lease_id" where
  "new_admin_lease new_key st =
     (let (st, l) = lease_new_obj ADMIN_KEY_ID u64_max st
      in (st\<lparr>admin_key := new_key, admin_lease := l\<rparr>, l))"

definition install_root :: "'c env_scheme \<Rightarrow> bytes \<Rightarrow> auth \<Rightarrow> auth \<times> unit res" where
  "install_root C new_key st =
     (let old_admin_lease = actor_lease st;
          (st, l) = new_admin_lease new_key st
      in and_then
           (if sync_process_credential st
            then (case set_process_msg_header_key C (Some new_key) (proc st) of
                    (p, Inl _) \<Rightarrow> (st\<lparr>proc := p\<rparr>, Inl internal_failure)
                  | (p, Inr _) \<Rightarrow> (st\<lparr>proc := p\<rparr>, Inr ()))
            else (st, Inr ())) (\<lambda>st _.
         ((cancel_lease CancelRotated old_admin_lease (st\<lparr>safe_mode := False\<rparr>))\<lparr>actor_lease := l\<rparr>,
          Inr ())))"

text \<open>The three files of a rotation: staged key, snapshot under the new key, live key.\<close>

definition rotate_files ::
  "'c env_scheme \<Rightarrow> bytes \<Rightarrow> persisted_snapshot \<Rightarrow> auth \<Rightarrow> auth \<times> unit res" where
  "rotate_files C new_key snapshot st =
     settle (rotation_already_installed C new_key)
       (and_then (write_admin_key_file C ADMIN_KEY_NEXT_FILE new_key True st) (\<lambda>st _.
        and_then (write_snapshot_and_truncate_wal C new_key snapshot st) (\<lambda>st _.
        write_admin_key new_key st)))"

definition actor_rotate_root :: "'c env_scheme \<Rightarrow> bytes \<Rightarrow> auth \<Rightarrow> auth \<times> unit res" where
  "actor_rotate_root C new_key st =
     (if new_key = admin_key st then (st, Inl (fail ''administrator_key_unchanged'' False))
      else if \<not> is_env_safe_admin_key new_key then (st, Inl key_invalid)
      else if \<not> utf8_valid new_key then (st, Inl key_invalid)
      else
        let st = bump_epoch st;
            (st, rotate_audit) = audit ''administrator_key_rotate'' None None st;
            snapshot = empty_snapshot st (instance_id st) [];
            snapshot = snapshot\<lparr>ps_audit_records := push_persisted_audit (ps_audit_records snapshot) rotate_audit\<rparr>
        in and_then (rotate_files C new_key snapshot st) (\<lambda>st _.
           let st = remove_file ADMIN_KEY_NEXT_FILE st;
               st = push_audit_record rotate_audit st;
               st = remember_previous_root st;
               st = wipe_now st
           in install_root C new_key st))"

definition actor_set_legacy_protocol ::
  "'c env_scheme \<Rightarrow> legacy_policy \<Rightarrow> auth \<Rightarrow> auth \<times> unit res" where
  "actor_set_legacy_protocol C policy st =
     and_then (lift_res (ensure_store_available st) st) (\<lambda>st _.
     let (st, audit_r) = audit ''legacy_protocol_update'' None
           (Some (ascii (case policy of Allow \<Rightarrow> ''Allow'' | Deny \<Rightarrow> ''Deny''))) st in
     and_then (append_mutation C (MLegacyProtocol policy) audit_r st) (\<lambda>st _.
     (st\<lparr>legacy_allowed := policy_is_allowed policy\<rparr>, Inr ())))"

section \<open>Administrator replay claims\<close>

definition prune_expired_admin_replays :: "nat \<Rightarrow> auth \<Rightarrow> auth" where
  "prune_expired_admin_replays now st =
     st\<lparr>admin_replay_order := filter (\<lambda>r. within_retention r now) (admin_replay_order st),
        admin_replays := admin_replays st -
          ar_fingerprint ` set (filter (\<lambda>r. \<not> within_retention r now) (admin_replay_order st))\<rparr>"

definition actor_claim_admin_mutation ::
  "'c env_scheme \<Rightarrow> bytes \<Rightarrow> nat \<Rightarrow> auth \<Rightarrow> auth \<times> unit res" where
  "actor_claim_admin_mutation C fingerprint client_timestamp st =
     (let (st, now) = unix_seconds st;
          st = prune_expired_admin_replays now st
      in if fingerprint \<in> admin_replays st
         then (st, Inl (fail ''admin_request_replayed'' False))
         else if ADMIN_REPLAY_CAPACITY \<le> card (admin_replays st)
         then (st, Inl (fail ''admin_replay_capacity_exhausted'' True))
         else if ADMIN_REPLAY_RETENTION div 2 < abs_diff now client_timestamp
         then (st, Inl (fail ''admin_request_timestamp_invalid'' False))
         else let record = \<lparr>ar_fingerprint = fingerprint, ar_client_timestamp = client_timestamp,
                            ar_accepted_at = now\<rparr>
              in and_then (fail_closed_on_uncertain_wal
                             (append_wal C (admin_key st) (WalAdminReplay record) st)) (\<lambda>st _.
                 (st\<lparr>admin_replays := insert fingerprint (admin_replays st),
                     admin_replay_order := admin_replay_order st @ [record]\<rparr>, Inr ())))"

section \<open>Status\<close>

definition count_state :: "slot_state \<Rightarrow> auth \<Rightarrow> nat" where
  "count_state s st =
     length (filter (\<lambda>slot. slot_st slot = s) (slots st)) +
     length (filter (\<lambda>e. pe_state e = s) (high_slot_entries st))"

definition actor_status :: "auth \<Rightarrow> auth_status" where
  "actor_status st =
     \<lparr>st_safe_mode = safe_mode st, st_capacity = length (slots st),
      st_active_keys = count_state Active st, st_expired_keys = count_state Expired st,
      st_revoked_keys = count_state Revoked st,
      st_legacy_protocol = (if legacy_allowed st then Allow else Deny),
      st_active_legacy = active_legacy st,
      st_last_legacy_at = (if last_legacy_at st \<noteq> 0 then Some (last_legacy_at st) else None),
      st_auth_successes = auth_successes st, st_auth_failures = auth_failures st,
      st_instance_id = hex (instance_id st)\<rparr>"

section \<open>The actor's loop\<close>

datatype auth_command =
    ClaimAdminMutation lease_id bytes nat
  | Issue lease_id duration "bytes option"
  | ListKeys lease_id nat nat
  | ShowKey lease_id key_id bool
  | Renew lease_id key_id duration
  | Revoke lease_id key_id
  | Gc lease_id
  | Reset lease_id
  | RotateRoot lease_id bytes
  | SetLegacyProtocol lease_id legacy_policy
  | Status lease_id
  | AuditAdmin lease_id string "key_id option" "bytes option"
  | Shutdown

datatype answer =
    AnsUnit
  | AnsIssued issued_key
  | AnsPage key_page
  | AnsMetadata key_metadata
  | AnsCount nat
  | AnsStatus auth_status

definition answer :: "('a \<Rightarrow> answer) \<Rightarrow> auth \<times> 'a res \<Rightarrow> auth \<times> answer res" where
  "answer f r = (case r of (st, Inl e) \<Rightarrow> (st, Inl e) | (st, Inr a) \<Rightarrow> (st, Inr (f a)))"

abbreviation unit_answer :: "auth \<times> unit res \<Rightarrow> auth \<times> answer res" where
  "unit_answer \<equiv> answer (\<lambda>_. AnsUnit)"

fun run_command :: "'c env_scheme \<Rightarrow> auth_config \<Rightarrow> auth_command \<Rightarrow> auth \<Rightarrow> auth \<times> answer res" where
  "run_command C cfg (ClaimAdminMutation a f t) st = unit_answer (actor_claim_admin_mutation C f t st)"
| "run_command C cfg (Issue a ttl label) st = answer AnsIssued (actor_issue C cfg ttl label st)"
| "run_command C cfg (ListKeys a page psize) st = answer AnsPage (st, actor_list page psize st)"
| "run_command C cfg (ShowKey a k reveal) st = answer AnsIssued (actor_show C k reveal st)"
| "run_command C cfg (Renew a k ttl) st = answer AnsIssued (actor_renew C cfg k ttl st)"
| "run_command C cfg (Revoke a k) st = answer AnsMetadata (actor_revoke C k st)"
| "run_command C cfg (Gc a) st = answer AnsCount (actor_gc C st)"
| "run_command C cfg (Reset a) st = unit_answer (actor_reset C ''auth_state_reset'' st)"
| "run_command C cfg (RotateRoot a key) st =
     unit_answer (and_then (actor_rotate_root C key st) (\<lambda>st _.
       (st\<lparr>admin_replays := {}, admin_replay_order := []\<rparr>, Inr ())))"
| "run_command C cfg (SetLegacyProtocol a p) st = unit_answer (actor_set_legacy_protocol C p st)"
| "run_command C cfg (Status a) st = (st, Inr (AnsStatus (actor_status st)))"
| "run_command C cfg (AuditAdmin a action k detail) st =
     (let (st, audit_r) = audit action k detail st in unit_answer (append_audit C audit_r st))"
| "run_command C cfg Shutdown st =
     (let st = cancel_all_temporary_leases (cancel_lease CancelRotated (actor_lease st) st)
      in ((drop_schedule (lnow st) st)\<lparr>running := False\<rparr>, Inr AnsUnit))"

fun authority_of :: "auth_command \<Rightarrow> lease_id option" where
  "authority_of (ClaimAdminMutation a f t) = Some a"
| "authority_of (Issue a ttl label) = Some a"
| "authority_of (ListKeys a page psize) = Some a"
| "authority_of (ShowKey a k reveal) = Some a"
| "authority_of (Renew a k ttl) = Some a"
| "authority_of (Revoke a k) = Some a"
| "authority_of (Gc a) = Some a"
| "authority_of (Reset a) = Some a"
| "authority_of (RotateRoot a key) = Some a"
| "authority_of (SetLegacyProtocol a p) = Some a"
| "authority_of (Status a) = Some a"
| "authority_of (AuditAdmin a action k detail) = Some a"
| "authority_of Shutdown = None"

text \<open>One command: the authority check of every arm, then the operation.\<close>

definition actor_command ::
  "'c env_scheme \<Rightarrow> auth_config \<Rightarrow> auth_command \<Rightarrow> auth \<Rightarrow> auth \<times> answer res" where
  "actor_command C cfg cmd st =
     and_then (lift_res (case authority_of cmd of
                           None \<Rightarrow> Inr () | Some a \<Rightarrow> validate_admin_authority st a) st)
       (\<lambda>st _. run_command C cfg cmd st)"

text \<open>
  One interval of the timer arm: teardown, replay pruning, and a compaction every five minutes
  unless the service runs in safe mode.
\<close>

definition actor_tick :: "'c env_scheme \<Rightarrow> auth \<Rightarrow> auth" where
  "actor_tick C st =
     (let (st, now) = unix_seconds st;
          st = prune_expired_admin_replays now (leases_tick now st)
      in if compaction_is_allowed (safe_mode st) \<and>
            SNAPSHOT_COMPACTION_INTERVAL \<le> now - last_snapshot_at st
         then (case write_snapshot_and_truncate_wal C (admin_key st)
                      (build_snapshot st (admin_replay_order st)) st of
                 (st, Inl e) \<Rightarrow> enter_safe_mode st
               | (st, Inr _) \<Rightarrow> st\<lparr>last_snapshot_at := now\<rparr>)
         else st)"

end
