(* ===== verification/AuthRuntime.thy ===== *)
theory AuthRuntime
  imports AuthActor
begin

text \<open>
  The runtime around the actor (\<^verbatim>\<open>runtime.rs\<close>, and \<^verbatim>\<open>AuthContext\<close> of
  \<^verbatim>\<open>lib.rs\<close>): start-up from the state directory, the hot-path check of a presented
  credential, the liveness check of an authenticated context, and the facade through which
  administrators reach the actor.
\<close>

section \<open>Start\<close>

definition initial_slot :: "generation list \<Rightarrow> nat \<Rightarrow> slot_hot" where
  "initial_slot gens i =
     (case get_at gens i of None \<Rightarrow> slot_default | Some g \<Rightarrow> slot_default\<lparr>slot_generation := g\<rparr>)"

definition restored_state :: "nat \<Rightarrow> persisted_entry \<Rightarrow> slot_state" where
  "restored_state now e =
     (if pe_state e = Active \<and> pe_expires_at e \<le> now then Expired else pe_state e)"

definition restored_cold :: "nat \<Rightarrow> persisted_entry \<Rightarrow> cold_metadata" where
  "restored_cold now e =
     \<lparr>cold_issued_at = pe_issued_at e, cold_label = pe_label e,
      cold_tombstoned_at =
        (case restored_state now e of
           Expired \<Rightarrow> (case pe_tombstoned_at e of Some t \<Rightarrow> t | None \<Rightarrow> pe_expires_at e)
         | Revoked \<Rightarrow> (case pe_tombstoned_at e of Some t \<Rightarrow> t | None \<Rightarrow> now)
         | Free \<Rightarrow> 0 | Active \<Rightarrow> 0)\<rparr>"

text \<open>One persisted entry goes to its row, unless the row is out of range or newer.\<close>

definition restore_entry :: "nat \<Rightarrow> persisted_entry \<Rightarrow> auth \<Rightarrow> auth" where
  "restore_entry now e st =
     (let index = key_row (pe_key_id e) in
      case get_at (slots st) index of
        None \<Rightarrow> st
      | Some slot \<Rightarrow>
          if slot_generation slot \<noteq> key_id_generation (pe_key_id e) then st
          else
            let slot = slot\<lparr>slot_st := restored_state now e, slot_expires := pe_expires_at e\<rparr>;
                st = set_slot index slot st;
                st = st\<lparr>cold := (cold st)(pe_key_id e \<mapsto> restored_cold now e)\<rparr>
            in if restored_state now e = Active
               then let (st, l) = lease_new_obj (pe_key_id e) (pe_expires_at e) st
                    in (set_slot index (slot\<lparr>slot_lease := Some l\<rparr>) st)\<lparr>held := l # held st\<rparr>
               else st)"

definition expire_high_entry :: "nat \<Rightarrow> persisted_entry \<Rightarrow> persisted_entry" where
  "expire_high_entry now e =
     (if pe_state e = Active \<and> pe_expires_at e \<le> now
      then e\<lparr>pe_state := Expired,
             pe_tombstoned_at := Some (case pe_tombstoned_at e of Some t \<Rightarrow> t | None \<Rightarrow> pe_expires_at e)\<rparr>
      else e)"

text \<open>\<^verbatim>\<open>while len > cap { pop_front }\<close>.\<close>

definition keep_last :: "nat \<Rightarrow> 'a list \<Rightarrow> 'a list" where
  "keep_last n xs = drop (length xs - n) xs"

text \<open>
  The memory of a new process: everything is set, from the loaded state when there is one.
\<close>

definition boot_memory ::
  "bytes \<Rightarrow> auth_config \<Rightarrow> bool \<Rightarrow> bytes \<Rightarrow> persisted_snapshot option \<Rightarrow> bool \<Rightarrow> nat \<Rightarrow> auth \<Rightarrow> auth" where
  "boot_memory key cfg sync inst loaded safe now st =
     (let gens = (case loaded of None \<Rightarrow> [] | Some s \<Rightarrow> ps_generations s);
          entries = (case loaded of None \<Rightarrow> [] | Some s \<Rightarrow> ps_entries s);
          legacy = (if safe then Deny
                    else case loaded of None \<Rightarrow> cfg_legacy_protocol cfg | Some s \<Rightarrow> ps_legacy_protocol s);
          replay_order = keep_last ADMIN_REPLAY_CAPACITY
            (case loaded of None \<Rightarrow> [] | Some s \<Rightarrow> filter (\<lambda>r. within_retention r now) (ps_admin_replays s));
          (high_gens, high_entries) =
            (case loaded of None \<Rightarrow> ([], []) | Some s \<Rightarrow> split_high_slot_state s (max_temporary_keys cfg));
          st = st\<lparr>
            admin_key := key, admin_lease := 0, sync_process_credential := sync, instance_id := inst,
            slots := map (initial_slot gens) [0..<max_temporary_keys cfg],
            high_slot_generations := high_gens,
            high_slot_entries := map (expire_high_entry now) high_entries,
            cold := (\<lambda>_. None), safe_mode := safe, legacy_allowed := policy_is_allowed legacy,
            active_legacy := 0, last_legacy_at := 0, auth_successes := 0, auth_failures := 0,
            root_epoch := (case loaded of None \<Rightarrow> 0 | Some s \<Rightarrow> ps_root_epoch s),
            prev_root := None,
            audit_records := keep_last AUDIT_RECORD_CAPACITY
              (case loaded of None \<Rightarrow> [] | Some s \<Rightarrow> ps_audit_records s),
            lease_objs := [lease_new ADMIN_KEY_ID u64_max], timer_objs := [], held := [],
            running := True, actor_lease := 0, lwheel := new_wheel, lnow := now, stages := (\<lambda>_. None),
            admin_replays := ar_fingerprint ` set replay_order, admin_replay_order := replay_order,
            last_snapshot_at := now\<rparr>
      in (leases_restored now (fold (restore_entry now) entries st))\<lparr>held := []\<rparr>)"

definition start_locked ::
  "'c env_scheme \<Rightarrow> bytes \<Rightarrow> auth_config \<Rightarrow> bool \<Rightarrow> auth \<Rightarrow> auth \<times> unit res" where
  "start_locked C key cfg sync st =
     and_then (load_or_create_instance_id st) (\<lambda>st inst.
     and_then (recover_instance_id_after_reset C key inst st) (\<lambda>st inst.
     let (st, loaded, safe) = load_persisted_state C cfg key inst st;
         (st, now) = unix_seconds st;
         normalized = map_option (\<lambda>s. normalize_tombstone_times s now) loaded;
         loaded = map_option fst normalized
     in and_then
          (case normalized of
             Some (s, True) \<Rightarrow> write_snapshot_and_truncate_wal C key s st
           | _ \<Rightarrow> (st, Inr ())) (\<lambda>st _.
        let st = boot_memory key cfg sync inst loaded safe now st;
            (st, started_at) = unix_seconds st
        in (st\<lparr>last_snapshot_at := started_at\<rparr>, Inr ()))))"

definition auth_start :: "'c env_scheme \<Rightarrow> bytes \<Rightarrow> auth_config \<Rightarrow> auth \<Rightarrow> auth \<times> unit res" where
  "auth_start C key cfg st =
     and_then (prepare_state_dir_and_lock st) (\<lambda>st _. start_locked C key cfg True st)"

definition from_process :: "'c env_scheme \<Rightarrow> auth_config \<Rightarrow> auth \<Rightarrow> auth \<times> unit res" where
  "from_process C cfg st =
     and_then (prepare_state_dir_and_lock st) (\<lambda>st _.
     and_then (load_server_admin_credential C st) (\<lambda>st credential.
     case credential of
       Admin key \<Rightarrow> start_locked C key cfg True st
     | Temporary _ _ \<Rightarrow> (st, Inl key_required)))"

definition from_isolated_state :: "'c env_scheme \<Rightarrow> auth_config \<Rightarrow> auth \<Rightarrow> auth \<times> unit res" where
  "from_isolated_state C cfg st =
     and_then (prepare_state_dir_and_lock st) (\<lambda>st _.
     and_then (load_isolated_server_admin_credential C st) (\<lambda>st credential.
     case credential of
       Admin key \<Rightarrow> start_locked C key cfg False st
     | Temporary _ _ \<Rightarrow> (st, Inl key_required)))"

section \<open>Presented credentials\<close>

definition unavailable :: auth_failure where
  "unavailable = fail ''auth_state_unavailable'' True"

definition derive_key :: "'c crypto_scheme \<Rightarrow> auth \<Rightarrow> key_id \<Rightarrow> bytes res" where
  "derive_key C st key_id =
     (if \<not> running st then Inl unavailable
      else if key_id_is_admin key_id then Inr (admin_key st)
      else derive_temporary_key C (admin_key st) (instance_id st) key_id)"

definition derive_previous_key :: "'c crypto_scheme \<Rightarrow> auth \<Rightarrow> key_id \<Rightarrow> bytes option" where
  "derive_previous_key C st key_id =
     (if \<not> running st then None
      else case prev_root st of
        None \<Rightarrow> None
      | Some p \<Rightarrow>
          if key_id_is_admin key_id then Some (prev_admin_key p)
          else (case derive_temporary_key C (prev_admin_key p) (prev_instance_id p) key_id of
                  Inl _ \<Rightarrow> None | Inr key \<Rightarrow> Some key))"

definition row_generation :: "auth \<Rightarrow> nat \<Rightarrow> generation option" where
  "row_generation st index =
     (case get_at (slots st) index of
        Some slot \<Rightarrow> Some (slot_generation slot)
      | None \<Rightarrow> if length (slots st) \<le> index
                then get_at (high_slot_generations st) (index - length (slots st)) else None)"

definition temporary_key_material_mismatch :: "auth \<Rightarrow> key_id \<Rightarrow> auth_failure" where
  "temporary_key_material_mismatch st key_id =
     (let index = key_row key_id; gen = key_id_generation key_id;
          slot_is_active = (case get_at (slots st) index of
            Some slot \<Rightarrow> slot_st slot = Active \<and> slot_generation slot = gen | None \<Rightarrow> False)
      in if slot_is_active then fail ''temporary_key_invalid'' False
         else if 0 < root_epoch st \<and> FIRST_GENERATION < gen \<and>
                 (case row_generation st index of Some issued \<Rightarrow> gen \<le> issued | None \<Rightarrow> False)
         then fail ''temporary_key_rotated'' False
         else fail ''temporary_key_invalid'' False)"

definition count_failure :: "auth \<Rightarrow> auth" where
  "count_failure st = st\<lparr>auth_failures := (auth_failures st + 1) mod 2 ^ 64\<rparr>"

definition count_success :: "auth \<Rightarrow> auth" where
  "count_success st = st\<lparr>auth_successes := (auth_successes st + 1) mod 2 ^ 64\<rparr>"

text \<open>What the state of a row of the right generation says; only an active row reads the clock.\<close>

definition row_failure :: "slot_hot \<Rightarrow> auth \<Rightarrow> auth \<times> auth_failure option" where
  "row_failure slot st =
     (case slot_st slot of
        Free \<Rightarrow> (st, Some (fail ''temporary_key_not_found'' False))
      | Expired \<Rightarrow> (st, Some (fail ''temporary_key_expired'' False))
      | Revoked \<Rightarrow> (st, Some (fail ''temporary_key_revoked'' False))
      | Active \<Rightarrow>
          (let (st, now) = unix_seconds st in
           if slot_expires slot \<le> now
           then (case upgrade_lease st (slot_lease slot) of
                   Some l \<Rightarrow> cancel_lease CancelExpired l st | None \<Rightarrow> st,
                 Some (fail ''temporary_key_expired'' False))
           else (st, None)))"

definition authenticate_row :: "key_id \<Rightarrow> auth \<Rightarrow> auth \<times> auth_context res" where
  "authenticate_row key_id st =
     (case get_at (slots st) (key_row key_id) of
        None \<Rightarrow> (count_failure st, Inl (fail ''temporary_key_not_found'' False))
      | Some slot \<Rightarrow>
          if slot_generation slot \<noteq> key_id_generation key_id
          then (count_failure st, Inl (fail ''temporary_key_generation_mismatch'' False))
          else (case row_failure slot st of
             (st, Some failure) \<Rightarrow> (count_failure st, Inl failure)
           | (st, None) \<Rightarrow>
               (case upgrade_lease st (slot_lease slot) of
                  None \<Rightarrow> (count_failure st, Inl key_inactive_now)
                | Some l \<Rightarrow> (count_success st, Inr (context_from_lease key_id False l)))))"

definition authenticate_presented ::
  "'c crypto_scheme \<Rightarrow> key_id \<Rightarrow> bytes \<Rightarrow> auth \<Rightarrow> auth \<times> auth_context res" where
  "authenticate_presented C key_id presented_key st =
     (if \<not> running st then (st, Inl unavailable)
      else if key_id_is_admin key_id then
        (if presented_key \<noteq> admin_key st
         then (count_failure st, Inl (fail ''administrator_key_invalid'' False))
         else if \<not> lease_alive st (admin_lease st) then (st, Inl admin_rotated)
         else (count_success st, Inr (context_from_lease ADMIN_KEY_ID True (admin_lease st))))
      else if safe_mode st then (count_failure st, Inl (store_err False))
      else case derive_temporary_key C (admin_key st) (instance_id st) key_id of
        Inl e \<Rightarrow> (st, Inl e)
      | Inr expected_key \<Rightarrow>
          if presented_key \<noteq> expected_key
          then (count_failure st, Inl (temporary_key_material_mismatch st key_id))
          else authenticate_row key_id st)"

section \<open>Contexts\<close>

definition ensure_active :: "auth_context \<Rightarrow> auth \<Rightarrow> auth \<times> lease_id res" where
  "ensure_active c st =
     (let l = ctx_lease c in
      if \<not> lease_alive st l
      then (st, Inl (if ctx_is_admin c then admin_rotated else fail ''temporary_key_inactive'' False))
      else if is_cancelled (lease_objs st ! l)
      then (st, Inl (cancelled_lease_failure (ctx_is_admin c) (lease_objs st ! l)))
      else if ctx_is_admin c then (st, Inr l)
      else let (st, now) = unix_seconds st in
        if lease_expires (lease_objs st ! l) \<le> now
        then (cancel_lease CancelExpired l st, Inl (fail ''temporary_key_expired'' False))
        else (st, Inr l))"

definition admin_cancellation_token :: "auth_context \<Rightarrow> auth \<Rightarrow> auth \<times> lease_id res" where
  "admin_cancellation_token c st = and_then (lift_res (require_admin c) st) (\<lambda>st _. ensure_active c st)"

definition admin_authority :: "auth_context \<Rightarrow> auth \<Rightarrow> auth \<times> lease_id res" where
  "admin_authority c st =
     and_then (lift_res (require_admin c) st) (\<lambda>st _.
     and_then (ensure_active c st) (\<lambda>st _. (st, Inr (ctx_lease c))))"

section \<open>The facade\<close>

definition request :: "'c env_scheme \<Rightarrow> auth_config \<Rightarrow> auth_command \<Rightarrow> auth \<Rightarrow> auth \<times> answer res" where
  "request C cfg cmd st =
     (if \<not> running st then (st, Inl unavailable) else actor_command C cfg cmd st)"

definition admin_request ::
  "'c env_scheme \<Rightarrow> auth_config \<Rightarrow> auth_context \<Rightarrow> (lease_id \<Rightarrow> auth_command) \<Rightarrow> auth \<Rightarrow> auth \<times> answer res" where
  "admin_request C cfg c build st =
     and_then (admin_authority c st) (\<lambda>st authority. request C cfg (build authority) st)"

definition rt_claim_admin_mutation where
  "rt_claim_admin_mutation C cfg c fingerprint client_timestamp st =
     admin_request C cfg c (\<lambda>a. ClaimAdminMutation a fingerprint client_timestamp) st"

definition rt_issue where
  "rt_issue C cfg c ttl label st = admin_request C cfg c (\<lambda>a. Issue a ttl label) st"

definition rt_list where
  "rt_list C cfg c page page_size st = admin_request C cfg c (\<lambda>a. ListKeys a page page_size) st"

definition rt_show where
  "rt_show C cfg c key_id reveal st = admin_request C cfg c (\<lambda>a. ShowKey a key_id reveal) st"

definition rt_renew where
  "rt_renew C cfg c key_id ttl st = admin_request C cfg c (\<lambda>a. Renew a key_id ttl) st"

definition rt_revoke where
  "rt_revoke C cfg c key_id st = admin_request C cfg c (\<lambda>a. Revoke a key_id) st"

definition rt_gc where
  "rt_gc C cfg c st = admin_request C cfg c (\<lambda>a. Gc a) st"

definition rt_reset where
  "rt_reset C cfg c st = admin_request C cfg c (\<lambda>a. Reset a) st"

definition rt_rotate_root where
  "rt_rotate_root C cfg c new_key st = admin_request C cfg c (\<lambda>a. RotateRoot a new_key) st"

definition rt_set_legacy_protocol where
  "rt_set_legacy_protocol C cfg c policy st = admin_request C cfg c (\<lambda>a. SetLegacyProtocol a policy) st"

definition rt_status where
  "rt_status C cfg c st = admin_request C cfg c (\<lambda>a. Status a) st"

definition rt_audit_admin where
  "rt_audit_admin C cfg c action key_id detail st =
     admin_request C cfg c (\<lambda>a. AuditAdmin a action key_id detail) st"

definition shutdown_actor :: "'c env_scheme \<Rightarrow> auth_config \<Rightarrow> auth \<Rightarrow> auth" where
  "shutdown_actor C cfg st = (if running st then fst (actor_command C cfg Shutdown st) else st)"

definition record_legacy_connection :: "auth \<Rightarrow> auth \<times> unit res" where
  "record_legacy_connection st =
     (if \<not> running st then (st, Inl unavailable)
      else let st = st\<lparr>active_legacy := (active_legacy st + 1) mod 2 ^ 64\<rparr>;
               (st, now) = unix_seconds st
           in (st\<lparr>last_legacy_at := now\<rparr>, Inr ()))"

definition legacy_guard_drop :: "auth \<Rightarrow> auth" where
  "legacy_guard_drop st =
     (if running st then st\<lparr>active_legacy := (active_legacy st + 2 ^ 64 - 1) mod 2 ^ 64\<rparr> else st)"

definition legacy_protocol_allowed :: "auth \<Rightarrow> bool res" where
  "legacy_protocol_allowed st = (if running st then Inr (legacy_allowed st) else Inl unavailable)"

end
