(* ===== verification/AuthFacts.thy ===== *)
theory AuthFacts
  imports AuthRuntime
begin

text \<open>
  Invariants of the actor.  The locale \<open>core_invariant\<close> states what a predicate on states has to
  survive (the memory half of each operation, and nothing of files, clocks or audits); inside it
  every command and every timer interval is shown to preserve the predicate, once.  The
  interpretations below give the history of the slot table and the coverage of its rows.
\<close>

section \<open>Handlers as state transformers\<close>

definition ends :: "('s \<Rightarrow> bool) \<Rightarrow> 's \<times> 'r \<Rightarrow> bool" where
  "ends P r \<longleftrightarrow> P (fst r)"

named_theorems ends_rules

lemma ends_pair [ends_rules]: "P s \<Longrightarrow> ends P (s, x)"
  by (simp add: ends_def)

lemma ends_then [ends_rules]:
  "ends P r \<Longrightarrow> (\<And>s a. r = (s, Inr a) \<Longrightarrow> P s \<Longrightarrow> ends P (f s a)) \<Longrightarrow> ends P (and_then r f)"
  by (cases r; cases "snd r") (auto simp: ends_def and_then_def)

lemma ends_case [ends_rules]:
  "ends P r \<Longrightarrow> (\<And>s x. r = (s, x) \<Longrightarrow> P s \<Longrightarrow> ends P (f s x)) \<Longrightarrow> ends P (case r of (s, x) \<Rightarrow> f s x)"
  by (cases r) (auto simp: ends_def)

lemma ends_if [ends_rules]:
  "(b \<Longrightarrow> ends P r) \<Longrightarrow> (\<not> b \<Longrightarrow> ends P r') \<Longrightarrow> ends P (if b then r else r')"
  by simp

lemma ends_option [ends_rules]:
  "(v = None \<Longrightarrow> ends P r) \<Longrightarrow> (\<And>x. v = Some x \<Longrightarrow> ends P (f x)) \<Longrightarrow>
   ends P (case v of None \<Rightarrow> r | Some x \<Rightarrow> f x)"
  by (cases v) simp_all

lemma ends_sum [ends_rules]:
  "(\<And>e. v = Inl e \<Longrightarrow> ends P (f e)) \<Longrightarrow> (\<And>x. v = Inr x \<Longrightarrow> ends P (g x)) \<Longrightarrow>
   ends P (case v of Inl e \<Rightarrow> f e | Inr x \<Rightarrow> g x)"
  by (cases v) simp_all

lemma ends_lift [ends_rules]: "P st \<Longrightarrow> ends P (lift_res r st)"
  by (simp add: lift_res_def ends_def)

lemma ends_prod: "(\<And>a b. v = (a, b) \<Longrightarrow> ends P (f a b)) \<Longrightarrow> ends P (case v of (a, b) \<Rightarrow> f a b)"
  by (cases v) simp

lemma ends_bind_option:
  "ends P v \<Longrightarrow> (\<And>a. v = (a, None) \<Longrightarrow> P a \<Longrightarrow> ends P (f a)) \<Longrightarrow>
   (\<And>a x. v = (a, Some x) \<Longrightarrow> P a \<Longrightarrow> ends P (g a x)) \<Longrightarrow>
   ends P (case v of (a, None) \<Rightarrow> f a | (a, Some x) \<Rightarrow> g a x)"
  by (cases v; cases "snd v") (auto simp: ends_def)

lemma ends_fst: "ends P r \<Longrightarrow> P (fst r)"
  by (simp add: ends_def)

lemma ends_answer [ends_rules]: "ends P r \<Longrightarrow> ends P (answer f r)"
  by (cases r; cases "snd r") (auto simp: ends_def answer_def)

section \<open>What an operation outside the core leaves alone\<close>

definition same_core :: "auth \<Rightarrow> auth \<Rightarrow> bool" where
  "same_core s s' \<longleftrightarrow> slots s' = slots s \<and> lease_objs s' = lease_objs s \<and>
     timer_objs s' = timer_objs s \<and> lwheel s' = lwheel s \<and>
     high_slot_generations s' = high_slot_generations s \<and> admin_lease s' = admin_lease s \<and>
     admin_replays s' = admin_replays s \<and> admin_replay_order s' = admin_replay_order s \<and>
     audit_records s' = audit_records s \<and> clk s' = clk s"

lemma same_core_refl [simp]: "same_core s s"
  by (simp add: same_core_def)

lemma same_core_trans: "same_core a b \<Longrightarrow> same_core b c \<Longrightarrow> same_core a c"
  by (simp add: same_core_def)

lemma more_fields:
  fixes s s' :: auth
  assumes "mem s' = mem s"
  shows "clk s' = clk s" "slots s' = slots s" "lease_objs s' = lease_objs s" "timer_objs s' = timer_objs s"
    "lwheel s' = lwheel s" "high_slot_generations s' = high_slot_generations s"
    "admin_lease s' = admin_lease s" "safe_mode s' = safe_mode s" "admin_key s' = admin_key s"
    "instance_id s' = instance_id s" "cold s' = cold s" "running s' = running s"
    "high_slot_entries s' = high_slot_entries s" "held s' = held s" "actor_lease s' = actor_lease s"
    "admin_replays s' = admin_replays s" "admin_replay_order s' = admin_replay_order s"
    "audit_records s' = audit_records s" "legacy_allowed s' = legacy_allowed s"
    "stages s' = stages s" "lnow s' = lnow s" "root_epoch s' = root_epoch s"
  using assms unfolding mem_def by (cases s; cases s'; simp)+

lemma same_core_mem: "mem s' = mem s \<Longrightarrow> same_core s s'"
  using more_fields [of s' s] by (simp add: same_core_def)

lemma append_mutation_core:
  assumes "append_mutation C m a st = (s, Inr u)"
  shows "same_core (push_audit_record a st) s \<and> safe_mode s = safe_mode st \<and> cold s = cold st \<and>
    high_slot_entries s = high_slot_entries st \<and> stages s = stages st"
proof -
  obtain s1 x where w: "append_wal C (admin_key st) (WalMutation m a) st = (s1, x)"
    by (cases "append_wal C (admin_key st) (WalMutation m a) st")
  have "io_only (mem st) (append_wal C (admin_key st) (WalMutation m a) st)"
    by (rule io_frame) simp
  then have more: "mem s1 = mem st"
    by (simp add: w io_only_def)
  have "s = push_audit_record a s1"
    using assms w by (auto simp: append_mutation_def fail_closed_on_uncertain_wal_def and_then_def
        split: sum.splits)
  then show ?thesis
    using more_fields [OF more] by (simp add: push_audit_record_def same_core_def)
qed

lemma unix_seconds_core: "unix_seconds st = (s, now) \<Longrightarrow> same_core st s \<and> now \<in> range (clk st)"
  by (auto simp: unix_seconds_def same_core_def)

lemma audit_core: "audit a k l st = (s, r) \<Longrightarrow> same_core st s"
  by (auto simp: audit_def unix_seconds_def same_core_def)

lemma identity_holds:
  "lift_res (validate_slot_identity slot k) s = (s', Inr u) \<Longrightarrow> s' = s \<and> slot_holds slot k"
  by (auto simp: lift_res_def validate_slot_identity_def slot_holds_def split: if_splits)

section \<open>Predicates the actor preserves\<close>

locale core_invariant =
  fixes P :: "auth \<Rightarrow> bool"
  assumes frame: "same_core s s' \<Longrightarrow> P s \<Longrightarrow> P s'"
    and cancel: "P s \<Longrightarrow> P (cancel_lease r l s)"
    and issue: "P s \<Longrightarrow> free_row (slots s) = Some (i, g) \<Longrightarrow> P (issue_row i g e a label s)"
    and renew: "P s \<Longrightarrow> get_at (slots s) (key_row k) = Some slot \<Longrightarrow> slot_holds slot k \<Longrightarrow>
      slot_st slot = Active \<Longrightarrow> P (renew_row k e slot s)"
    and revoke: "P s \<Longrightarrow> get_at (slots s) (key_row k) = Some slot \<Longrightarrow> slot_holds slot k \<Longrightarrow>
      P (revoke_row k slot s)"
    and retire_key: "P s \<Longrightarrow> P (retire_now k s)"
    and garbage: "P s \<Longrightarrow> P (fst (collect_garbage now s))"
    and drop: "P s \<Longrightarrow> P (drop_schedule now s)"
    and teardown: "P s \<Longrightarrow> P (leases_tick now s)"
    and new_root: "P s \<Longrightarrow> P (fst (new_admin_lease key s))"
    and push_audit: "P s \<Longrightarrow> P (push_audit_record ar s)"
    and prune: "P s \<Longrightarrow> now \<in> range (clk s) \<Longrightarrow> P (prune_expired_admin_replays now s)"
    and claim: "P s \<Longrightarrow> f \<notin> admin_replays s \<Longrightarrow> card (admin_replays s) < ADMIN_REPLAY_CAPACITY \<Longrightarrow>
      rc = \<lparr>ar_fingerprint = f, ar_client_timestamp = ts, ar_accepted_at = now\<rparr> \<Longrightarrow>
      P (s\<lparr>admin_replays := insert f (admin_replays s), admin_replay_order := admin_replay_order s @ [rc]\<rparr>)"
    and forget: "P s \<Longrightarrow> P s0 \<Longrightarrow> admin_lease s = length (lease_objs s0) \<Longrightarrow>
      P (s\<lparr>admin_replays := {}, admin_replay_order := []\<rparr>)"
begin

lemma io: "P st \<Longrightarrow> io_only (mem st) r \<Longrightarrow> ends P r"
  unfolding io_only_def ends_def using frame [OF same_core_mem] by blast

lemma clock: "P st \<Longrightarrow> ends P (unix_seconds st)"
  by (rule io) (auto intro: io_frame)

lemma audit_ends: "P st \<Longrightarrow> ends P (audit a k l st)"
  unfolding audit_def Let_def by (rule ends_rules clock | assumption)+

lemma cancel_all: "P st \<Longrightarrow> P (cancel_all_temporary_leases st)"
  unfolding cancel_all_temporary_leases_def
  by (rule fold_inv) (auto simp: cancel_slot_lease_def cancel split: option.split)

lemma safe: "P st \<Longrightarrow> P (enter_safe_mode st)"
  unfolding enter_safe_mode_def by (rule cancel_all) (erule frame [rotated], simp add: same_core_def)

lemma fail_closed: "ends P r \<Longrightarrow> ends P (fail_closed_on_uncertain_wal r)"
  by (cases r; cases "snd r") (auto simp: ends_def fail_closed_on_uncertain_wal_def safe)

lemma append_wal_ends: "P st \<Longrightarrow> ends P (append_wal C k r st)"
  by (rule io) (auto intro: io_frame)

lemma write_snapshot_ends: "P st \<Longrightarrow> ends P (write_snapshot_and_truncate_wal C k s st)"
  by (rule io) (auto intro: io_frame)

lemma append_mutation_ends: "P st \<Longrightarrow> ends P (append_mutation C m a st)"
  unfolding append_mutation_def by (assumption | rule ends_rules fail_closed append_wal_ends push_audit)+

lemma append_audit_ends: "P st \<Longrightarrow> ends P (append_audit C a st)"
  unfolding append_audit_def by (assumption | rule ends_rules fail_closed append_wal_ends push_audit)+

lemma ttl_ends: "P st \<Longrightarrow> ends P (validate_ttl cfg ttl st)"
  unfolding validate_ttl_def Let_def by (assumption | rule ends_rules clock)+

text \<open>The row chosen before the log write is still free after it.\<close>

lemma issue_after:
  assumes "P s" "append_mutation C m a s1 = (s, Inr u)" "audit ac k l s0 = (s1, r)"
    and "free_row (slots s0) = Some (i, g)"
  shows "P (issue_row i g e at label s)"
proof -
  have "slots s = slots s0"
    using append_mutation_core [OF assms(2)] audit_core [OF assms(3)]
    by (simp add: same_core_def push_audit_record_def)
  then show ?thesis
    using issue [OF assms(1)] assms(4) by simp
qed

lemma issue_ends: "P st \<Longrightarrow> ends P (actor_issue C cfg ttl label st)"
  unfolding actor_issue_def Let_def
  by (assumption | rule ends_rules ttl_ends clock audit_ends append_mutation_ends
      issue_after | rule ends_prod | simp only:)+

lemma show_ends: "P st \<Longrightarrow> ends P (actor_show C k reveal st)"
  unfolding actor_show_def Let_def by (assumption | rule ends_rules audit_ends append_audit_ends)+

lemma renew_after:
  assumes "P s'" "lift_res (validate_slot_identity slot k) s = (s', Inr u)"
    and "get_at (slots s) (key_row k) = Some slot" "\<not> slot_st slot \<noteq> Active"
  shows "P (renew_row k e slot s')"
  using renew [of s' k slot e] identity_holds [OF assms(2)] assms by simp

lemma revoke_after:
  assumes "P s'" "lift_res (validate_slot_identity slot k) s = (s', Inr u)"
    and "get_at (slots s) (key_row k) = Some slot"
  shows "P (revoke_row k slot s')"
  using revoke [of s' k slot] identity_holds [OF assms(2)] assms by simp

lemma high_update: "P s \<Longrightarrow> P (s\<lparr>high_slot_entries := es\<rparr>)"
  by (erule frame [rotated]) (simp add: same_core_def)

lemma publish_renew_ends: "P st \<Longrightarrow> ends P (publish_renew C k e st)"
  unfolding publish_renew_def Let_def by (assumption | rule ends_rules renew_after high_update)+

lemma renew_ends: "P st \<Longrightarrow> ends P (actor_renew C cfg k ttl st)"
  unfolding actor_renew_def Let_def
  by (assumption | rule ends_rules ttl_ends clock audit_ends append_mutation_ends publish_renew_ends)+

lemma publish_revoke_ends: "P st \<Longrightarrow> ends P (publish_revoke k now cur st)"
  unfolding publish_revoke_def Let_def
  by (assumption | rule ends_rules revoke_after retire_key high_update)+

lemma revoke_ends: "P st \<Longrightarrow> ends P (actor_revoke C k st)"
  unfolding actor_revoke_def Let_def
  by (assumption | rule ends_rules clock audit_ends append_mutation_ends publish_revoke_ends)+

lemma garbage_ends: "P st \<Longrightarrow> ends P (collect_garbage now st)"
  by (simp add: ends_def garbage)

lemma gc_ends: "P st \<Longrightarrow> ends P (actor_gc C st)"
  unfolding actor_gc_def Let_def
  by (assumption | rule ends_rules clock audit_ends write_snapshot_ends safe push_audit garbage_ends)+

lemma legacy_update: "P s \<Longrightarrow> P (s\<lparr>legacy_allowed := b\<rparr>)"
  by (erule frame [rotated]) (simp add: same_core_def)

lemma legacy_ends: "P st \<Longrightarrow> ends P (actor_set_legacy_protocol C p st)"
  unfolding actor_set_legacy_protocol_def Let_def
  by (assumption | rule ends_rules audit_ends append_mutation_ends legacy_update)+

lemma claim_after:
  assumes "P s" "fail_closed_on_uncertain_wal (append_wal C k w s0) = (s, Inr u)"
    and "f \<notin> admin_replays s0" "\<not> ADMIN_REPLAY_CAPACITY \<le> card (admin_replays s0)"
  shows "P (s\<lparr>admin_replays := insert f (admin_replays s),
    admin_replay_order := admin_replay_order s @
      [\<lparr>ar_fingerprint = f, ar_client_timestamp = ts, ar_accepted_at = now\<rparr>]\<rparr>)"
proof -
  have "io_only (mem s0) (append_wal C k w s0)"
    by (rule io_frame) simp
  then have "mem s = mem s0"
    using assms(2) by (cases "append_wal C k w s0")
      (auto simp: io_only_def fail_closed_on_uncertain_wal_def split: sum.splits)
  from more_fields [OF this] show ?thesis
    using claim [OF assms(1) _ _ refl] assms(3,4) by simp
qed

lemma prune_now: "P s \<Longrightarrow> unix_seconds s0 = (s, now) \<Longrightarrow> P (prune_expired_admin_replays now s)"
  using prune [of s now] unix_seconds_core [of s0 s now] by (simp add: same_core_def)

lemma claim_ends: "P st \<Longrightarrow> ends P (actor_claim_admin_mutation C f t st)"
  unfolding actor_claim_admin_mutation_def Let_def
  by (assumption | rule ends_rules clock prune_now fail_closed append_wal_ends claim_after)+

lemma wipe: "P st \<Longrightarrow> P (wipe_now st)"
  using clock [of st]
  by (cases "unix_seconds st")
    (simp add: wipe_now_def ends_def leases_wipe_def drop cancel_all)

lemma bump: "P s \<Longrightarrow> P (bump_epoch s)"
  by (erule frame [rotated]) (simp add: bump_epoch_def same_core_def)

lemma remember: "P s \<Longrightarrow> P (remember_previous_root s)"
  by (erule frame [rotated]) (simp add: remember_previous_root_def same_core_def)

lemma unlink: "P s \<Longrightarrow> P (remove_file n s)"
  using frame [OF same_core_mem [OF mem_remove_file]] .

lemma settle_ends:
  assumes "ends P r" "\<And>s. P s \<Longrightarrow> ends P (f s)"
  shows "ends P (settle f r)"
  using assms(1) assms(2) [of "fst r"]
  by (cases r; cases "snd r")
    (auto simp: ends_def settle_def safe split: prod.splits bool.splits)

lemma finish_reset: "P s \<Longrightarrow> P (s\<lparr>instance_id := i, safe_mode := b\<rparr>)"
  by (erule frame [rotated]) (simp add: same_core_def)

lemma reset_files_ends: "P st \<Longrightarrow> ends P (reset_files C i sn st)"
  unfolding reset_files_def
  by (assumption | rule ends_rules settle_ends write_snapshot_ends io [OF _ io_only_atomic_write [OF refl]]
      io [OF _ io_only_reset_installed [OF refl]])+

lemma reset_ends: "P st \<Longrightarrow> ends P (actor_reset C a st)"
  unfolding actor_reset_def Let_def
  by (assumption | rule ends_rules finish_reset wipe remember push_audit unlink bump reset_files_ends
      audit_ends io [OF _ io_only_random_instance_id [OF refl]])+

lemma proc_update: "P s \<Longrightarrow> P (s\<lparr>proc := p\<rparr>)"
  by (erule frame [rotated]) (simp add: same_core_def)

lemma unsafe: "P s \<Longrightarrow> P (s\<lparr>safe_mode := b\<rparr>)"
  by (erule frame [rotated]) (simp add: same_core_def)

lemma actor_lease_update: "P s \<Longrightarrow> P (s\<lparr>actor_lease := l\<rparr>)"
  by (erule frame [rotated]) (simp add: same_core_def)

lemma new_root_ends: "P st \<Longrightarrow> ends P (new_admin_lease key st)"
  by (simp add: ends_def new_root)

lemma ends_bind_sum:
  "(\<And>a e. v = (a, Inl e) \<Longrightarrow> ends P (f a e)) \<Longrightarrow> (\<And>a x. v = (a, Inr x) \<Longrightarrow> ends P (g a x)) \<Longrightarrow>
   ends P (case v of (a, Inl e) \<Rightarrow> f a e | (a, Inr x) \<Rightarrow> g a x)"
  by (cases v; cases "snd v") auto

lemma install_ends: "P st \<Longrightarrow> ends P (install_root C key st)"
  unfolding install_root_def Let_def
  by (assumption | rule ends_rules new_root_ends ends_bind_sum proc_update unsafe cancel
      actor_lease_update)+

lemma rotate_files_ends: "P st \<Longrightarrow> ends P (rotate_files C key sn st)"
  unfolding rotate_files_def
  by (assumption | rule ends_rules settle_ends write_snapshot_ends
      io [OF _ io_only_write_admin_key_file [OF refl]] io [OF _ io_only_write_admin_key [OF refl]]
      io [OF _ io_only_rotation_installed [OF refl]])+

lemma rotate_ends: "P st \<Longrightarrow> ends P (actor_rotate_root C key st)"
  unfolding actor_rotate_root_def Let_def
  by (assumption | rule ends_rules install_ends wipe remember push_audit unlink bump rotate_files_ends
      audit_ends)+

lemma install_lease:
  assumes "install_root C key s0 = (s, Inr u)"
  shows "admin_lease s = length (lease_objs s0)"
proof -
  obtain s1 l where n: "new_admin_lease key s0 = (s1, l)"
    by (cases "new_admin_lease key s0")
  then have "admin_lease s1 = length (lease_objs s0)"
    by (auto simp: new_admin_lease_def lease_new_obj_def)
  then show ?thesis
    using assms by (auto simp: install_root_def n Let_def cancel_lease_def and_then_def
        split: sum.splits prod.splits if_splits)
qed

lemma rotate_installs:
  assumes P: "P st" and r: "actor_rotate_root C key st = (s, Inr u)"
  obtains s0 where "P s0" "install_root C key s0 = (s, Inr u)"
proof -
  obtain s1 ra where a: "audit ''administrator_key_rotate'' None None (bump_epoch st) = (s1, ra)"
    by (cases "audit ''administrator_key_rotate'' None None (bump_epoch st)")
  from r have "\<exists>sn s2. rotate_files C key sn s1 = (s2, Inr ()) \<and> install_root C key
      (wipe_now (remember_previous_root (push_audit_record ra (remove_file ADMIN_KEY_NEXT_FILE s2)))) = (s, Inr u)"
    by (auto simp: actor_rotate_root_def a Let_def split: if_splits elim!: and_then_elim) blast
  then obtain sn s2 where f: "rotate_files C key sn s1 = (s2, Inr ())" and i: "install_root C key
      (wipe_now (remember_previous_root (push_audit_record ra (remove_file ADMIN_KEY_NEXT_FILE s2)))) = (s, Inr u)"
    by blast
  have "P s1"
    using audit_ends [OF bump [OF P], of "''administrator_key_rotate''" None None] a by (simp add: ends_def)
  from rotate_files_ends [OF this, of C key sn] have "P s2"
    by (simp add: f ends_def)
  then show thesis
    using that [OF _ i] wipe remember push_audit unlink by blast
qed

lemma rotate_forget:
  assumes "P st"
  shows "ends P (and_then (actor_rotate_root C key st) (\<lambda>s _.
    (s\<lparr>admin_replays := {}, admin_replay_order := []\<rparr>, Inr ())))"
proof (rule ends_then [OF rotate_ends [OF assms]], rule ends_pair)
  fix s u assume r: "actor_rotate_root C key st = (s, Inr u)" and P: "P s"
  obtain s0 where "P s0" "install_root C key s0 = (s, Inr u)"
    using rotate_installs [OF assms r] .
  then show "P (s\<lparr>admin_replays := {}, admin_replay_order := []\<rparr>)"
    using forget [OF P] install_lease by blast
qed

lemma stop: "P s \<Longrightarrow> P (s\<lparr>running := b\<rparr>)"
  by (erule frame [rotated]) (simp add: same_core_def)

lemma run_command_ends: "P st \<Longrightarrow> ends P (run_command C cfg cmd st)"
proof (cases cmd)
  case Shutdown
  then show "P st \<Longrightarrow> ?thesis"
    by (simp add: ends_def Let_def stop drop cancel_all cancel)
qed (simp_all add: Let_def, (assumption | rule ends_rules claim_ends issue_ends show_ends renew_ends
      revoke_ends gc_ends reset_ends rotate_forget legacy_ends audit_ends append_audit_ends)+)

text \<open>Every command, whatever its outcome, and every timer interval.\<close>

lemma command: "P st \<Longrightarrow> P (fst (actor_command C cfg cmd st))"
  unfolding actor_command_def
  by (rule ends_fst) (assumption | rule ends_rules run_command_ends)+

lemma interval: "P st \<Longrightarrow> P (actor_tick C st)"
proof -
  assume P: "P st"
  obtain s now where s: "unix_seconds st = (s, now)"
    by (cases "unix_seconds st")
  let ?s = "prune_expired_admin_replays now (leases_tick now s)"
  have Ps: "P ?s"
  proof -
    have "P (leases_tick now s)"
      using clock [OF P] s by (simp add: ends_def teardown)
    moreover have "clk (leases_tick now s) = clk s"
      using decay_leases_tick [of s now] unfolding decay_def by (blast intro: control_fields(21))
    moreover have "now \<in> range (clk s)"
      using unix_seconds_core [OF s] by (simp add: same_core_def)
    ultimately show ?thesis
      using prune by simp
  qed
  obtain s2 r where w: "write_snapshot_and_truncate_wal C (admin_key ?s)
      (build_snapshot ?s (admin_replay_order ?s)) ?s = (s2, r)"
    by (cases "write_snapshot_and_truncate_wal C (admin_key ?s) (build_snapshot ?s (admin_replay_order ?s)) ?s")
  have P2: "P s2"
    using write_snapshot_ends [OF Ps] w by (metis ends_def fst_conv)
  have "P (s2\<lparr>last_snapshot_at := now\<rparr>)"
    using P2 by (rule frame [rotated]) (simp add: same_core_def)
  then show ?thesis
    unfolding actor_tick_def s Let_def case_prod_conv w
    using Ps safe [OF P2] by (cases r) simp_all
qed

end

section \<open>The history of the slot table\<close>

text \<open>
  A row's generation never decreases, and as long as it stands still a row that is not active does
  not become active again: a key id that went out of service stays out of service.
\<close>

definition rows_step :: "slot_hot list \<Rightarrow> slot_hot list \<Rightarrow> bool" where
  "rows_step ss ss' \<longleftrightarrow> length ss' = length ss \<and>
     (\<forall>i<length ss. slot_generation (ss ! i) \<le> slot_generation (ss' ! i) \<and>
        (slot_generation (ss' ! i) = slot_generation (ss ! i) \<longrightarrow>
         slot_st (ss ! i) \<noteq> Active \<longrightarrow> slot_st (ss' ! i) \<noteq> Active))"

definition service_step :: "auth \<Rightarrow> auth \<Rightarrow> bool" where
  "service_step s s' \<longleftrightarrow> rows_step (slots s) (slots s') \<and>
     high_slot_generations s' = high_slot_generations s \<and>
     leases_grow (lease_objs s) (lease_objs s') \<and>
     (admin_lease s' = admin_lease s \<or> length (lease_objs s) \<le> admin_lease s')"

lemma rows_step_refl [simp]: "rows_step ss ss"
  by (simp add: rows_step_def)

lemma rows_step_trans:
  assumes "rows_step a b" "rows_step b c"
  shows "rows_step a c"
proof -
  have "slot_generation (a ! i) \<le> slot_generation (c ! i) \<and>
      (slot_generation (c ! i) = slot_generation (a ! i) \<longrightarrow> slot_st (a ! i) \<noteq> Active \<longrightarrow>
       slot_st (c ! i) \<noteq> Active)" if "i < length a" for i
  proof -
    have ab: "slot_generation (a ! i) \<le> slot_generation (b ! i)"
      and bc: "slot_generation (b ! i) \<le> slot_generation (c ! i)"
      using assms that by (simp_all add: rows_step_def)
    moreover have "slot_generation (b ! i) = slot_generation (a ! i)"
      if "slot_generation (c ! i) = slot_generation (a ! i)"
      using ab bc that by (simp add: antisym)
    moreover have "slot_generation (a ! i) \<le> slot_generation (c ! i)"
      using ab bc by (rule order_trans)
    ultimately show ?thesis
      using assms that by (auto simp: rows_step_def)
  qed
  then show ?thesis
    using assms by (simp add: rows_step_def)
qed

lemma rows_decay_step: "rows_decay ss ss' \<Longrightarrow> rows_step ss ss'"
  unfolding rows_decay_def rows_step_def by (metis order_refl)

lemma rows_step_update:
  assumes "i < length ss \<Longrightarrow> slot_generation (ss ! i) \<le> slot_generation s"
    and "i < length ss \<Longrightarrow> slot_generation s = slot_generation (ss ! i) \<Longrightarrow>
      slot_st (ss ! i) \<noteq> Active \<Longrightarrow> slot_st s \<noteq> Active"
  shows "rows_step ss (ss[i := s])"
  unfolding rows_step_def
proof (intro conjI allI impI)
  fix j assume "j < length ss"
  then show "slot_generation (ss ! j) \<le> slot_generation (ss[i := s] ! j)"
    using assms(1) by (cases "j = i") simp_all
  assume "slot_generation (ss[i := s] ! j) = slot_generation (ss ! j)" "slot_st (ss ! j) \<noteq> Active"
  with \<open>j < length ss\<close> show "slot_st (ss[i := s] ! j) \<noteq> Active"
    using assms(2) by (cases "j = i") simp_all
qed simp

lemma service_step_refl [simp]: "service_step s s"
  by (simp add: service_step_def)

lemma service_step_trans:
  assumes "service_step a b" "service_step b c"
  shows "service_step a c"
proof -
  have "rows_step (slots a) (slots c)" "leases_grow (lease_objs a) (lease_objs c)"
    using assms rows_step_trans leases_grow_trans unfolding service_step_def by blast+
  moreover have "length (lease_objs a) \<le> length (lease_objs b)"
    using assms by (simp add: service_step_def leases_grow_def)
  ultimately show ?thesis
    using assms by (auto simp: service_step_def)
qed

lemma decay_service_step: "decay s s' \<Longrightarrow> service_step s s'"
  using control_fields(3,6) [of s' s] by (simp add: decay_def service_step_def rows_decay_step)

lemma service_step_decay: "service_step a b \<Longrightarrow> decay b c \<Longrightarrow> service_step a c"
  using service_step_trans decay_service_step by blast

lemma same_core_service_step: "service_step a s \<Longrightarrow> same_core s s' \<Longrightarrow> service_step a s'"
  by (simp add: service_step_def same_core_def)

lemma leases_grow_append [simp]: "leases_grow ls (ls @ xs)"
  by (auto simp: leases_grow_def nth_append)

lemma leases_grow_expires [simp]: "leases_grow ls (ls[l := (ls ! l)\<lparr>lease_expires := e\<rparr>])"
  by (cases "l < length ls") (auto simp: leases_grow_def nth_list_update)

lemma free_row_Some:
  assumes "free_row ss = Some (i, g)"
  shows "i < length ss \<and> slot_st (ss ! i) = Free \<and> generation_next (slot_generation (ss ! i)) = Some g"
proof -
  from find_map_SomeD [OF assms [unfolded free_row_def]] obtain j s
    where "(j, s) \<in> set (enumerate 0 ss)"
      "(if slot_st s = Free then map_option (Pair j) (generation_next (slot_generation s)) else None) = Some (i, g)"
    by auto
  then show ?thesis
    by (auto simp: in_set_enumerate_eq split: if_splits)
qed

lemma service_issue_row:
  assumes "free_row (slots s) = Some (i, g)"
  shows "service_step s (issue_row i g e a label s)"
proof -
  let ?s = "set_slot i \<lparr>slot_generation = g, slot_st = Active, slot_expires = e,
    slot_lease = Some (length (lease_objs s))\<rparr> (s\<lparr>lease_objs := lease_objs s @ [lease_new (row_key g i) e]\<rparr>)"
  note free = free_row_Some [OF assms]
  then have "slot_generation (slots s ! i) < g"
    using generation_next_Some(2) by blast
  then have "service_step s ?s"
    by (auto simp: service_step_def set_slot_def intro!: rows_step_update)
  from service_step_decay [OF this decay_lease_issue] show ?thesis
    by (simp add: issue_row_def lease_new_obj_def)
qed

lemma service_step_row:
  assumes "get_at (slots s) i = Some slot" "slots s' = (slots s)[i := slot']"
    and "slot_generation slot' = slot_generation slot" "slot_st slot = Active \<or> slot_st slot' \<noteq> Active"
    and "leases_grow (lease_objs s) (lease_objs s')"
    and "high_slot_generations s' = high_slot_generations s" "admin_lease s' = admin_lease s"
  shows "service_step s s'"
  using assms by (auto simp: service_step_def get_at_Some_iff intro!: rows_step_update)

lemma service_renew_row:
  assumes "get_at (slots s) (key_row k) = Some slot" "slot_st slot = Active"
  shows "service_step s (renew_row k e slot s)"
  unfolding renew_row_def Let_def
  by (auto simp: set_slot_def lease_new_obj_def assms split: option.split
      intro!: service_step_decay [OF _ decay_lease_renew] service_step_decay [OF _ decay_lease_adopt]
        service_step_row [OF assms(1)])

lemma service_revoke_row:
  assumes "get_at (slots s) (key_row k) = Some slot"
  shows "service_step s (revoke_row k slot s)"
proof -
  have "service_step s (set_slot (key_row k) (slot\<lparr>slot_st := Revoked\<rparr>) s)"
    by (rule service_step_row [OF assms, where slot' = "slot\<lparr>slot_st := Revoked\<rparr>"])
      (simp_all add: set_slot_def)
  then show ?thesis
    unfolding revoke_row_def Let_def
    by (auto split: option.split intro!: service_step_decay [OF _ decay_retire_now]
        service_step_decay [OF _ decay_cancel_lease])
qed

lemma service_new_admin_lease: "service_step s (fst (new_admin_lease key s))"
  by (simp add: new_admin_lease_def lease_new_obj_def service_step_def)

text \<open>Every command and every interval moves the table along this order.\<close>

lemma service_step_cong:
  "service_step a s \<Longrightarrow> slots s' = slots s \<Longrightarrow> lease_objs s' = lease_objs s \<Longrightarrow>
   high_slot_generations s' = high_slot_generations s \<Longrightarrow> admin_lease s' = admin_lease s \<Longrightarrow> service_step a s'"
  by (simp add: service_step_def)

interpretation history: core_invariant "service_step s0" for s0
proof unfold_locales
  fix s ar now f r ts
  show "service_step s0 s \<Longrightarrow> service_step s0 (push_audit_record ar s)"
    by (erule service_step_cong) (simp_all add: push_audit_record_def)
  show "service_step s0 s \<Longrightarrow> service_step s0 (prune_expired_admin_replays now s)"
    by (erule service_step_cong) (simp_all add: prune_expired_admin_replays_def)
  show "service_step s0 s \<Longrightarrow> service_step s0 (s\<lparr>admin_replays := insert f (admin_replays s),
      admin_replay_order := admin_replay_order s @ [r]\<rparr>)"
    by (erule service_step_cong) simp_all
  show "service_step s0 s \<Longrightarrow> service_step s0 (s\<lparr>admin_replays := {}, admin_replay_order := []\<rparr>)"
    by (erule service_step_cong) simp_all
qed (blast intro: same_core_service_step service_step_decay teardown_decay service_step_trans
      service_issue_row service_renew_row service_revoke_row service_new_admin_lease)+

section \<open>Every row in use keeps a reap to come\<close>

lemma wf_issue_row:
  assumes wf: "wf_leases s" and "free_row (slots s) = Some (i, g)"
  shows "wf_leases (issue_row i g e a label s)"
proof -
  let ?s = "s\<lparr>lease_objs := lease_objs s @ [lease_new (row_key g i) e]\<rparr>"
  have "wf_leases ?s"
    using wf by (rule wf_cong) simp_all
  from wf_set_slot [OF this, of "\<lparr>slot_generation = g, slot_st = Active, slot_expires = e,
      slot_lease = Some (length (lease_objs s))\<rparr>" i]
  show ?thesis
    by (auto simp: issue_row_def lease_new_obj_def set_slot_def lease_new_def intro!: wf_lease_issue)
qed

lemma wf_same_rows:
  assumes wf: "wf_leases s" and row: "get_at (slots s) i = Some slot"
    and gen: "slot_generation slot' = slot_generation slot" and nf: "slot_st slot \<noteq> Free"
  shows "wf_leases (set_slot i slot' s)"
proof -
  have "covered {} A (set_slot i slot' s)" if cov: "covered {} A s" for A
    unfolding covered_def
  proof (intro allI impI)
    fix j assume j: "j < length (slots (set_slot i slot' s))" "slot_st (slots (set_slot i slot' s) ! j) \<noteq> Free"
    have "slot_generation (slots (set_slot i slot' s) ! j) = slot_generation (slots s ! j)
        \<and> slot_st (slots s ! j) \<noteq> Free"
      using row gen nf j by (cases "j = i") (auto simp: set_slot_def get_at_Some_iff)
    then show "\<exists>t\<in>A. reap_timer_for (set_slot i slot' s)
        (row_key (slot_generation (slots (set_slot i slot' s) ! j)) j) t"
      using cov j by (auto simp: covered_def set_slot_def reap_timer_for_def)
  qed
  then show ?thesis
    using wf unfolding wf_with_def by (simp add: set_slot_def)
qed

lemma wf_renew_row:
  assumes wf: "wf_leases s" and row: "get_at (slots s) (key_row k) = Some slot"
    and hold: "slot_holds slot k" and act: "slot_st slot = Active"
  shows "wf_leases (renew_row k e slot s)"
proof -
  have key: "row_key (slot_generation slot) (key_row k) = k"
    using hold by (simp add: slot_holds_def)
  let ?s = "set_slot (key_row k) (slot\<lparr>slot_expires := e\<rparr>) s"
  have s: "wf_leases ?s"
    by (rule wf_same_rows [OF wf row]) (simp_all add: act)
  have "wf_leases (?s\<lparr>lease_objs := ls\<rparr>)" for ls
    using s by (rule wf_cong) simp_all
  then show ?thesis
    using key wf_set_slot [of "?s\<lparr>lease_objs := lease_objs s @ [lease_new k e]\<rparr>"
        "slot\<lparr>slot_expires := e, slot_lease := Some (length (lease_objs s))\<rparr>" "key_row k" k]
    unfolding renew_row_def Let_def
    by (auto simp: lease_new_obj_def set_slot_def lease_new_def split: option.split
        intro!: wf_lease_renew wf_lease_adopt)
qed

lemma wf_revoke_row:
  assumes wf: "wf_leases s" and row: "get_at (slots s) (key_row k) = Some slot" and hold: "slot_holds slot k"
  shows "wf_leases (revoke_row k slot s)"
proof -
  have "wf_leases (set_slot (key_row k) (slot\<lparr>slot_st := Revoked\<rparr>) s)"
    using hold by (intro wf_same_rows [OF wf row]) (simp_all add: slot_holds_def)
  then show ?thesis
    unfolding revoke_row_def Let_def retire_now_def
    by (auto split: option.split intro!: wf_fire_stage wf_cancel_lease)
qed

lemma wf_new_admin_lease: "wf_leases s \<Longrightarrow> wf_leases (fst (new_admin_lease key s))"
  by (erule wf_cong) (simp_all add: new_admin_lease_def lease_new_obj_def)

lemma wf_same_core: "same_core s s' \<Longrightarrow> wf_leases s \<Longrightarrow> wf_leases s'"
  using wf_cong [of "{}" "{}" s s'] by (simp add: same_core_def)

lemma wf_retire_now: "wf_leases s \<Longrightarrow> wf_leases (retire_now k s)"
  by (simp add: retire_now_def wf_fire_stage)

interpretation coverage: core_invariant wf_leases
proof unfold_locales
  fix s ar now f r ts
  show "wf_leases s \<Longrightarrow> wf_leases (push_audit_record ar s)"
    by (erule wf_cong) (simp_all add: push_audit_record_def)
  show "wf_leases s \<Longrightarrow> wf_leases (prune_expired_admin_replays now s)"
    by (erule wf_cong) (simp_all add: prune_expired_admin_replays_def)
  show "wf_leases s \<Longrightarrow> wf_leases (s\<lparr>admin_replays := insert f (admin_replays s),
      admin_replay_order := admin_replay_order s @ [r]\<rparr>)"
    by (erule wf_cong) simp_all
  show "wf_leases s \<Longrightarrow> wf_leases (s\<lparr>admin_replays := {}, admin_replay_order := []\<rparr>)"
    by (erule wf_cong) simp_all
qed (blast intro: wf_same_core wf_cancel_lease wf_issue_row wf_renew_row wf_revoke_row wf_collect_garbage
      wf_drop_schedule wf_leases_tick wf_new_admin_lease wf_retire_now)+


section \<open>Runs of the service\<close>

text \<open>
  What can happen to a running service, one event at a time: a command reaches the actor, the timer
  ticks, a connection presents a credential, a handler checks that its context is still good.
\<close>

datatype event =
    Command auth_command
  | Interval
  | Present key_id bytes
  | CheckContext auth_context
  | LegacyConnect
  | LegacyDisconnect

fun service_event :: "'c env_scheme \<Rightarrow> auth_config \<Rightarrow> event \<Rightarrow> auth \<Rightarrow> auth" where
  "service_event C cfg (Command cmd) st = (if running st then fst (actor_command C cfg cmd st) else st)"
| "service_event C cfg Interval st = (if running st then actor_tick C st else st)"
| "service_event C cfg (Present k key) st = fst (authenticate_presented C k key st)"
| "service_event C cfg (CheckContext c) st = fst (ensure_active c st)"
| "service_event C cfg LegacyConnect st = fst (record_legacy_connection st)"
| "service_event C cfg LegacyDisconnect st = legacy_guard_drop st"

definition service_run :: "'c env_scheme \<Rightarrow> auth_config \<Rightarrow> event list \<Rightarrow> auth \<Rightarrow> auth" where
  "service_run C cfg es st = fold (service_event C cfg) es st"

context core_invariant
begin

lemma counted: "P s \<Longrightarrow> P (count_failure s)" "P s \<Longrightarrow> P (count_success s)"
  by (erule frame [rotated], simp add: count_failure_def count_success_def same_core_def)+

lemma row_failure_ends: "P st \<Longrightarrow> ends P (row_failure slot st)"
proof -
  assume P: "P st"
  obtain s now where s: "unix_seconds st = (s, now)"
    by (cases "unix_seconds st")
  have "P s"
    using clock [OF P] s by (simp add: ends_def)
  then show ?thesis
    using P by (auto simp: row_failure_def s ends_def cancel split: slot_state.split option.split)
qed

lemma authenticate_row_ends: "P st \<Longrightarrow> ends P (authenticate_row k st)"
  unfolding authenticate_row_def
  by (assumption | rule ends_rules counted row_failure_ends ends_bind_option)+

lemma authenticate_ends: "P st \<Longrightarrow> ends P (authenticate_presented C k key st)"
  unfolding authenticate_presented_def
  by (assumption | rule ends_rules counted authenticate_row_ends)+

lemma ensure_active_ends: "P st \<Longrightarrow> ends P (ensure_active c st)"
  unfolding ensure_active_def Let_def by (assumption | rule ends_rules clock cancel)+

lemma legacy_count: "P s \<Longrightarrow> P (s\<lparr>active_legacy := n\<rparr>)" "P s \<Longrightarrow> P (s\<lparr>last_legacy_at := n\<rparr>)"
  by (erule frame [rotated], simp add: same_core_def)+

lemma legacy_connect_ends: "P st \<Longrightarrow> ends P (record_legacy_connection st)"
  unfolding record_legacy_connection_def Let_def by (assumption | rule ends_rules clock legacy_count)+

lemma event: "P st \<Longrightarrow> P (service_event C cfg e st)"
  by (cases e) (auto simp: command interval legacy_guard_drop_def legacy_count
      intro: ends_fst authenticate_ends ensure_active_ends legacy_connect_ends)

lemma run: "P st \<Longrightarrow> P (service_run C cfg es st)"
  unfolding service_run_def by (rule fold_inv) (auto intro: event)

end

section \<open>Audit log and replay window\<close>

definition audit_bounded :: "auth \<Rightarrow> bool" where
  "audit_bounded st \<longleftrightarrow> length (audit_records st) \<le> AUDIT_RECORD_CAPACITY"

text \<open>The set of fingerprints and the queue that expires them describe the same claims.\<close>

definition replays_ok :: "auth \<Rightarrow> bool" where
  "replays_ok st \<longleftrightarrow> admin_replays st = ar_fingerprint ` set (admin_replay_order st) \<and>
     distinct (map ar_fingerprint (admin_replay_order st)) \<and>
     length (admin_replay_order st) \<le> ADMIN_REPLAY_CAPACITY"

definition untouched_log :: "auth \<Rightarrow> auth \<Rightarrow> bool" where
  "untouched_log s s' \<longleftrightarrow> admin_replays s' = admin_replays s \<and>
     admin_replay_order s' = admin_replay_order s \<and> clk s' = clk s \<and>
     (admin_lease s' = admin_lease s \<or> length (lease_objs s) \<le> admin_lease s') \<and>
     length (lease_objs s) \<le> length (lease_objs s')"

lemma decay_untouched: "decay s s' \<Longrightarrow> untouched_log s s' \<and> audit_records s' = audit_records s"
  unfolding decay_def untouched_log_def leases_grow_def
  using control_fields(3,11,15,16,21) [of s' s] by blast

lemma same_core_untouched: "same_core s s' \<Longrightarrow> untouched_log s s' \<and> audit_records s' = audit_records s"
  by (simp add: same_core_def untouched_log_def)

lemma untouched_trans: "untouched_log a b \<Longrightarrow> untouched_log b c \<Longrightarrow> untouched_log a c"
  by (auto simp: untouched_log_def)

definition quiet :: "auth \<Rightarrow> auth \<Rightarrow> bool" where
  "quiet s s' \<longleftrightarrow> untouched_log s s' \<and> audit_records s' = audit_records s"

lemma decay_quiet: "decay s s' \<Longrightarrow> quiet s s'"
  unfolding quiet_def by (rule decay_untouched)

lemma quiet_trans: "quiet a b \<Longrightarrow> quiet b c \<Longrightarrow> quiet a c"
  unfolding quiet_def using untouched_trans by metis

lemma quiet_decay: "quiet a b \<Longrightarrow> decay b c \<Longrightarrow> quiet a c"
  using quiet_trans decay_quiet by blast

lemma quiet_rows:
  "admin_replays s' = admin_replays s \<Longrightarrow> admin_replay_order s' = admin_replay_order s \<Longrightarrow> clk s' = clk s \<Longrightarrow>
   admin_lease s' = admin_lease s \<Longrightarrow> length (lease_objs s) \<le> length (lease_objs s') \<Longrightarrow>
   audit_records s' = audit_records s \<Longrightarrow> quiet s s'"
  by (simp add: quiet_def untouched_log_def)

lemma quiet_issue_row: "quiet s (issue_row i g e a label s)"
  unfolding issue_row_def lease_new_obj_def Let_def
  by (auto simp: set_slot_def intro!: quiet_decay [OF _ decay_lease_issue] quiet_rows)

lemma quiet_renew_row: "quiet s (renew_row k e slot s)"
  unfolding renew_row_def Let_def
  by (auto simp: set_slot_def lease_new_obj_def split: option.split
      intro!: quiet_decay [OF _ decay_lease_renew] quiet_decay [OF _ decay_lease_adopt] quiet_rows)

lemma quiet_revoke_row: "quiet s (revoke_row k slot s)"
proof -
  have "quiet s (set_slot (key_row k) (slot\<lparr>slot_st := Revoked\<rparr>) s)"
    by (rule quiet_rows) (simp_all add: set_slot_def)
  then show ?thesis
    unfolding revoke_row_def Let_def
    by (auto split: option.split intro!: quiet_decay [OF _ decay_retire_now]
        quiet_decay [OF _ decay_cancel_lease])
qed

lemma quiet_new_admin_lease: "quiet s (fst (new_admin_lease key s))"
  by (simp add: new_admin_lease_def lease_new_obj_def quiet_def untouched_log_def)

text \<open>
  A predicate on the audit log, the replay window and the identity of the administrator lease needs
  to survive only the four operations that touch those.
\<close>

locale log_invariant =
  fixes P :: "auth \<Rightarrow> bool"
  assumes quietly: "quiet s s' \<Longrightarrow> P s \<Longrightarrow> P s'"
    and logged: "P s \<Longrightarrow> P (push_audit_record ar s)"
    and pruned: "P s \<Longrightarrow> now \<in> range (clk s) \<Longrightarrow> P (prune_expired_admin_replays now s)"
    and claimed: "P s \<Longrightarrow> f \<notin> admin_replays s \<Longrightarrow> card (admin_replays s) < ADMIN_REPLAY_CAPACITY \<Longrightarrow>
      rc = \<lparr>ar_fingerprint = f, ar_client_timestamp = ts, ar_accepted_at = now\<rparr> \<Longrightarrow>
      P (s\<lparr>admin_replays := insert f (admin_replays s), admin_replay_order := admin_replay_order s @ [rc]\<rparr>)"
    and forgot: "P s \<Longrightarrow> P s0 \<Longrightarrow> admin_lease s = length (lease_objs s0) \<Longrightarrow>
      P (s\<lparr>admin_replays := {}, admin_replay_order := []\<rparr>)"

sublocale log_invariant \<subseteq> core_invariant P
proof unfold_locales
  show "same_core s s' \<Longrightarrow> P s \<Longrightarrow> P s'" for s s'
    using quietly [of s s'] same_core_untouched [of s s'] by (simp add: quiet_def)
qed (blast intro: quietly decay_quiet teardown_decay quiet_issue_row quiet_renew_row quiet_revoke_row
      quiet_new_admin_lease logged pruned claimed forgot)+

lemma replays_ok_filter:
  assumes "replays_ok st"
  shows "replays_ok (prune_expired_admin_replays now st)"
proof -
  let ?xs = "admin_replay_order st" and ?p = "\<lambda>r. within_retention r now"
  have d: "distinct (map ar_fingerprint ?xs)" and set: "admin_replays st = ar_fingerprint ` set ?xs"
    using assms by (simp_all add: replays_ok_def)
  have "inj_on ar_fingerprint (set ?xs)"
    using d by (simp add: distinct_map)
  then have "ar_fingerprint ` set ?xs - ar_fingerprint ` set (filter (\<lambda>r. \<not> ?p r) ?xs)
      = ar_fingerprint ` set (filter ?p ?xs)"
    by (auto simp: inj_on_def)
  then show ?thesis
    using assms d set distinct_map_filter [of ar_fingerprint ?xs ?p]
      order_trans [OF length_filter_le [of ?p ?xs], of ADMIN_REPLAY_CAPACITY]
    by (simp add: replays_ok_def prune_expired_admin_replays_def)
qed

lemma replays_ok_card: "replays_ok st \<Longrightarrow> card (admin_replays st) = length (admin_replay_order st)"
  by (metis card_image distinct_card distinct_map length_map replays_ok_def)

lemma replays_ok_claim:
  assumes "replays_ok s" "ar_fingerprint rc \<notin> admin_replays s"
    and "card (admin_replays s) < ADMIN_REPLAY_CAPACITY"
  shows "replays_ok (s\<lparr>admin_replays := insert (ar_fingerprint rc) (admin_replays s),
    admin_replay_order := admin_replay_order s @ [rc]\<rparr>)"
  using assms replays_ok_card [OF assms(1)] by (auto simp: replays_ok_def)

definition logs_ok :: "auth \<Rightarrow> bool" where
  "logs_ok st \<longleftrightarrow> audit_bounded st \<and> replays_ok st"

interpretation logs: log_invariant logs_ok
proof unfold_locales
  show "quiet s s' \<Longrightarrow> logs_ok s \<Longrightarrow> logs_ok s'" for s s'
    by (simp add: quiet_def untouched_log_def logs_ok_def audit_bounded_def replays_ok_def)
  show "logs_ok s \<Longrightarrow> logs_ok (push_audit_record ar s)" for s ar
    by (auto simp: logs_ok_def audit_bounded_def push_audit_record_def replays_ok_def
        AUDIT_RECORD_CAPACITY_def intro: push_bounded_length)
  show "logs_ok s \<Longrightarrow> now \<in> range (clk s) \<Longrightarrow> logs_ok (prune_expired_admin_replays now s)" for s now
    using replays_ok_filter [of s now]
    by (simp add: logs_ok_def audit_bounded_def) (simp add: prune_expired_admin_replays_def)
next
  fix s f rc ts now
  assume ok: "logs_ok s" "f \<notin> admin_replays s" "card (admin_replays s) < ADMIN_REPLAY_CAPACITY"
    and rc: "rc = \<lparr>ar_fingerprint = f, ar_client_timestamp = ts, ar_accepted_at = now\<rparr>"
  show "logs_ok (s\<lparr>admin_replays := insert f (admin_replays s), admin_replay_order := admin_replay_order s @ [rc]\<rparr>)"
    using ok replays_ok_claim [of s rc] rc by (simp add: logs_ok_def audit_bounded_def)
next
  show "logs_ok s \<Longrightarrow> logs_ok (s\<lparr>admin_replays := {}, admin_replay_order := []\<rparr>)" for s
    by (simp add: logs_ok_def audit_bounded_def replays_ok_def)
qed

text \<open>
  A fingerprint admitted under the administrator lease \<open>a\<close>: until another lease takes over, its
  record stays in the window while the clock has not passed \<open>T\<close>.
\<close>

definition admitted :: "nat \<Rightarrow> lease_id \<Rightarrow> bytes \<Rightarrow> auth \<Rightarrow> bool" where
  "admitted T a f st \<longleftrightarrow> (\<forall>n. clk st n \<le> T) \<and> replays_ok st \<and> a < length (lease_objs st) \<and>
     (admin_lease st = a \<longrightarrow>
        (\<exists>r\<in>set (admin_replay_order st). ar_fingerprint r = f \<and> ar_accepted_at r \<noteq> 0 \<and>
           T \<le> ar_accepted_at r + ADMIN_REPLAY_RETENTION))"

interpretation admission: log_invariant "admitted T a f" for T a f
proof unfold_locales
  show "quiet s s' \<Longrightarrow> admitted T a f s \<Longrightarrow> admitted T a f s'" for s s'
    by (auto simp: quiet_def untouched_log_def admitted_def replays_ok_def)
  show "admitted T a f s \<Longrightarrow> admitted T a f (push_audit_record ar s)" for s ar
    by (simp add: admitted_def push_audit_record_def replays_ok_def)
next
  fix s now assume ad: "admitted T a f s" and "now \<in> range (clk s)"
  then have "now \<le> T"
    by (auto simp: admitted_def)
  then have "within_retention r now" if "ar_accepted_at r \<noteq> 0" "T \<le> ar_accepted_at r + ADMIN_REPLAY_RETENTION" for r
    using that by (simp add: within_retention_def Let_def)
  then show "admitted T a f (prune_expired_admin_replays now s)"
    using ad replays_ok_filter [of s now]
    by (auto simp: admitted_def) (auto simp: prune_expired_admin_replays_def)
next
  fix s f' rc ts now
  assume "admitted T a f s" "f' \<notin> admin_replays s" "card (admin_replays s) < ADMIN_REPLAY_CAPACITY"
    and "rc = \<lparr>ar_fingerprint = f', ar_client_timestamp = ts, ar_accepted_at = now\<rparr>"
  then show "admitted T a f (s\<lparr>admin_replays := insert f' (admin_replays s),
      admin_replay_order := admin_replay_order s @ [rc]\<rparr>)"
    using replays_ok_claim [of s rc] by (auto simp: admitted_def)
next
  show "admitted T a f s \<Longrightarrow> admitted T a f s0 \<Longrightarrow> admin_lease s = length (lease_objs s0) \<Longrightarrow>
      admitted T a f (s\<lparr>admin_replays := {}, admin_replay_order := []\<rparr>)" for s s0
    by (simp add: admitted_def replays_ok_def)
qed

end
