(* ===== verification/Toy.thy ===== *)
theory Toy
  imports AuthFacts
begin

text \<open>
  A small concrete service for the instances that accompany the properties: a cipher that appends
  the first bytes of the key, codecs that know one record, two rows, and an operating system on
  which every call succeeds.
\<close>

definition tag16 :: "bytes \<Rightarrow> bytes" where
  "tag16 k = take 16 (k @ replicate 16 0)"

definition toy_audit :: audit_record where
  "toy_audit = \<lparr>au_at = 7, au_action = ''admin_show'', au_key_id = None, au_label = None\<rparr>"

definition toy_record :: wal_record where
  "toy_record = WalAudit toy_audit"

definition toy_snapshot :: persisted_snapshot where
  "toy_snapshot = \<lparr>ps_schema_version = 1, ps_instance_id = replicate 16 9, ps_generations = [0, 0],
     ps_entries = [], ps_legacy_protocol = Deny, ps_admin_replays = [], ps_audit_records = [],
     ps_root_epoch = 0\<rparr>"

definition toy_env :: env where
  "toy_env = \<lparr>sha256 = (\<lambda>_. replicate 32 5), b64_encode = (\<lambda>b. b), b64_decode = Some,
     aead_seal = (\<lambda>k n a p. Some (p @ tag16 k)),
     aead_open = (\<lambda>k n a c. if 16 \<le> length c \<and> drop (length c - 16) c = tag16 k
                            then Some (take (length c - 16) c) else None),
     hkdf = (\<lambda>salt ikm info. Some (take 32 (info @ salt @ ikm @ replicate 32 0))),
     wal_json = (\<lambda>r. if r = toy_record then Some [1] else None),
     wal_parse = (\<lambda>b. if b = [1] then Some toy_record else None),
     snap_json = (\<lambda>s. if s = toy_snapshot then Some [2] else None),
     snap_parse = (\<lambda>b. if b = [2] then Some toy_snapshot else None)\<rparr>"

definition toy_cfg :: auth_config where
  "toy_cfg = \<lparr>max_temporary_keys = 2, max_temporary_key_ttl = from_secs 3600, cfg_legacy_protocol = Deny\<rparr>"

definition toy_key :: bytes where "toy_key = replicate 32 65"
definition toy_key2 :: bytes where "toy_key2 = replicate 32 66"

definition toy_wheel :: "timer_id wheel" where
  "toy_wheel = \<lparr>ticks = 0, radix = 2, levels = [[[], []], [[], []]]\<rparr>"

text \<open>Row 0 belongs to an active key of generation 1; row 1 has never been used.\<close>

definition toy_slots :: "slot_hot list" where
  "toy_slots = [\<lparr>slot_generation = 1, slot_st = Active, slot_expires = 100, slot_lease = Some 1\<rparr>,
     slot_default]"

definition toy_state :: auth where
  "toy_state = \<lparr>files = (\<lambda>_. None), lax_mode = (\<lambda>_. False), machine_key = None,
     proc = \<lparr>pc_env = None, pc_credential = None, pc_load_error = None, pc_hash = 0\<rparr>,
     io = (\<lambda>_. IoOk), io_pos = 0, rng = (\<lambda>_. 0), rng_pos = 0, clk = (\<lambda>_. 50), clk_pos = 0,
     admin_key = toy_key, admin_lease = 0, sync_process_credential = False,
     instance_id = replicate 16 9, slots = toy_slots, high_slot_generations = [],
     high_slot_entries = [],
     cold = (\<lambda>_. None)(row_key 1 0 \<mapsto>
       \<lparr>cold_issued_at = 40, cold_label = None, cold_tombstoned_at = 0\<rparr>),
     safe_mode = False, legacy_allowed = False, active_legacy = 0, last_legacy_at = 0,
     auth_successes = 0, auth_failures = 0, root_epoch = 0, prev_root = None, audit_records = [],
     lease_objs = [lease_new ADMIN_KEY_ID u64_max, lease_new (row_key 1 0) 100],
     timer_objs = [Some (CbReap (row_key 1 0) (Some 1))], held = [1], running = True,
     actor_lease = 0,
     lwheel = \<lparr>ticks = 0, radix = 2, levels = [[[], [Deliver 0]], [[], []]]\<rparr>,
     lnow = 50, stages = (\<lambda>_. None), admin_replays = {}, admin_replay_order = [],
     last_snapshot_at = 0\<rparr>"

lemma toy_ok: "aead_ok toy_env" "json_ok toy_env" "b64_ok toy_env" "sha_ok toy_env"
  by (auto simp: toy_env_def aead_ok_def json_ok_def b64_ok_def sha_ok_def tag16_def split: if_splits)

lemma toy_rows: "length (slots toy_state) = 2" "slots toy_state ! 0 =
    \<lparr>slot_generation = 1, slot_st = Active, slot_expires = 100, slot_lease = Some 1\<rparr>"
  by (simp_all add: toy_state_def toy_slots_def)

lemma all_less_two: "(\<forall>i<Suc (Suc 0). P i) \<longleftrightarrow> P 0 \<and> P 1"
  by (auto simp: less_Suc_eq)

lemma all_less_2: "(\<forall>i<2. P i) \<longleftrightarrow> P (0::nat) \<and> P 1"
  by (auto simp: numeral_2_eq_2 less_Suc_eq)

lemma toy_wf: "wf_leases toy_state"
proof -
  have "wf_wheel (lwheel toy_state)"
    by (simp add: toy_state_def wf_wheel_def u64_max_def all_less_two all_less_2)
  moreover have "wheel_timers (lwheel toy_state) = [0]"
    by (simp add: toy_state_def wheel_timers_def)
  moreover have "covered {} {0} toy_state"
    by (auto simp: covered_def toy_state_def toy_slots_def slot_default_def reap_timer_for_def less_Suc_eq)
  ultimately show ?thesis
    by (simp add: wf_with_def) (simp add: toy_state_def toy_slots_def)
qed

end
