(* ===== verification/CoreProps.thy ===== *)
theory CoreProps
  imports Toy
begin

text \<open>
  The properties of the parts that stand on their own: the timer wheel, key ids, printed
  credentials, the frame checksum and the process credential.
\<close>

section \<open>The timer wheel\<close>

text \<open>
  C6: A timer scheduled for a delay the wheel spans fires on exactly the tick it asked for, however
  many levels its route relays through, and on no other tick.
\<close>

theorem wheel_fires_on_the_exact_tick:
  assumes "wf_wheel w" "0 < d" "d \<le> max_delay w" "schedule w d t = (w1, rel)"
    and "run_ticks tick n w1 = (w2, rels)" "i < n" "t \<notin> set (wheel_timers w)"
  shows "count (mset (rels ! i)) t = (if Suc i = d then 1 else 0)"
proof -
  have "set_mset (image_mset snd (wheel_pending w)) = set (wheel_timers w)"
    by (simp only: wheel_pending_timers set_mset_mset)
  then show ?thesis
    using wheel.fires_exactly [OF assms(1-6)] assms(7) by simp
qed

lemma toy_wheel_wf: "wf_wheel toy_wheel"
  by (simp add: toy_wheel_def wf_wheel_def u64_max_def all_less_two all_less_2)

lemma toy_wheel_span: "max_delay toy_wheel = 4"
  by (simp add: toy_wheel_def max_delay_def period_def u64_max_def)

theorem wheel_fires_on_the_exact_tick_witness:
  "count (mset (snd (run_ticks tick 4 (fst (schedule toy_wheel 3 7))) ! 2)) 7 = 1"
proof -
  have "7 \<notin> set (wheel_timers toy_wheel)"
    by (simp add: toy_wheel_def wheel_timers_def)
  from wheel_fires_on_the_exact_tick [OF toy_wheel_wf _ _ prod.collapse [symmetric] prod.collapse [symmetric] _ this]
  show ?thesis
    by (simp add: toy_wheel_span)
qed

text \<open>
  Neither scheduling nor a tick loses a timer: each reference is in the wheel afterwards or among
  those the operation dropped, with multiplicity, and a timer due later than this tick is not dropped.
\<close>

theorem wheel_keeps_every_timer:
  assumes "wf_wheel w"
  shows "add_mset t (mset (wheel_timers w)) =
      mset (snd (schedule w d t)) + mset (wheel_timers (fst (schedule w d t))) \<and>
    mset (wheel_timers w) = mset (snd (tick w)) + mset (wheel_timers (fst (tick w))) \<and>
    mset (snd (tick w)) = image_mset snd (filter_mset (\<lambda>e. fst e = Suc (ticks w)) (wheel_pending w))"
  using schedule_timers [OF assms prod.collapse [symmetric]] tick_timers [OF assms prod.collapse [symmetric]]
    tick_agenda(1) [OF assms prod.collapse [symmetric]] by blast

theorem wheel_keeps_every_timer_witness:
  "mset (wheel_timers toy_wheel) = mset (snd (tick toy_wheel)) + mset (wheel_timers (fst (tick toy_wheel)))"
  using wheel_keeps_every_timer [OF toy_wheel_wf] by blast

text \<open>
  A new wheel is well formed, holds nothing, and spans at least the longest delay it was built
  for, so every delay up to that one can be scheduled.
\<close>

theorem new_wheel_spans_the_longest_delay:
  assumes "wheel_new m r = Some w" "m \<le> u64_max" "r \<le> 2 ^ 16" "r ^ levels_for m r r 1 \<le> u64_max"
  shows "wf_wheel w \<and> wheel_timers w = [] \<and> m \<le> max_delay w \<and> radix w = r"
proof -
  have r: "1 < r"
    using assms(1) by (auto simp: wheel_new_def split: if_splits)
  have w: "wf_wheel w" "radix w = r" "wheel_pending w = {#}"
    using wheel_new_wf [OF assms(1,3,4,2)] by auto
  then have "mset (wheel_timers w) = {#}"
    using wheel_pending_timers [of w] by simp
  then show ?thesis
    using w wheel_new_spans [OF r assms(2,1)] by simp
qed

theorem new_wheel_spans_the_longest_delay_witness:
  "MAX_SCHEDULABLE_DELAY \<le> max_delay (new_wheel :: nat wheel)"
proof -
  have n: "levels_for MAX_SCHEDULABLE_DELAY 64 64 1 = 5"
    by (simp add: MAX_SCHEDULABLE_DELAY_def levels_for.simps sat_mul_def u64_max_def
        MAX_TEMP_KEY_TTL_def TOMBSTONE_RETENTION_def)
  have "wheel_new MAX_SCHEDULABLE_DELAY 64 = Some (new_wheel :: nat wheel)"
    by (simp add: new_wheel_def wheel_new_def)
  from new_wheel_spans_the_longest_delay [OF this]
  show ?thesis
    unfolding n by (simp add: MAX_SCHEDULABLE_DELAY_def u64_max_def MAX_TEMP_KEY_TTL_def TOMBSTONE_RETENTION_def)
qed

section \<open>Key ids\<close>

text \<open>
  A key id and its two halves, and a key id and its eight big-endian bytes, determine each other.
\<close>

theorem key_id_round_trip:
  "key_id_generation (key_id_new g s) = g \<and> key_id_slot (key_id_new g s) = s \<and>
   key_id_new (key_id_generation k) (key_id_slot k) = k \<and>
   length (key_id_to_be_bytes k) = 8 \<and> word_of_nat (from_be (key_id_to_be_bytes k)) = k"
  by (simp del: key_id_to_be_bytes_def) (simp add: key_id_to_be_bytes_def)

section \<open>Printed credentials\<close>

text \<open>
  A temporary credential that the service prints parses back to the same key id and key.
\<close>

theorem credential_round_trip:
  assumes "b64_ok C" "sha_ok C" "length key = 32" "k \<noteq> 0"
  shows "parse_credential C (encode_temporary_credential C k key) = Inr (Temporary k key)"
  by (rule parse_encode [OF assms])

theorem credential_round_trip_witness:
  "parse_credential toy_env (encode_temporary_credential toy_env 0x100000000 toy_key) =
     Inr (Temporary 0x100000000 toy_key)"
  by (rule credential_round_trip) (simp_all add: toy_ok toy_key_def)

text \<open>
  What parses as a temporary credential is canonical: its payload is the version byte, a non-zero
  key id, a 32-byte key and the checksum of exactly these; what parses as an administrator key is
  the text itself, 32 printable characters.
\<close>

theorem parsed_credential_is_canonical:
  "case parse_credential C raw of
     Inl e \<Rightarrow> True
   | Inr (Admin key) \<Rightarrow> key = raw \<and> is_env_safe_admin_key raw
   | Inr (Temporary k key) \<Rightarrow> k \<noteq> 0 \<and> length key = 32 \<and>
       (\<exists>encoded. raw = TEMP_CREDENTIAL_PREFIX @ encoded \<and>
          b64_decode C encoded = Some (temp_payload k key @ take 4 (sha256 C (temp_payload k key))))"
  by (auto split: sum.split credential.split dest: parse_Temporary_payload parse_Admin)

section \<open>The frame checksum\<close>

text \<open>
  The checksum of a key is the key read as a base-31 numeral, modulo \<open>2 ^ 32\<close>; and a frame
  checksum under one key is right for exactly one length.
\<close>

theorem frame_checksum_pins_the_length:
  "unat (gen_checksum_by_key key) = foldl (\<lambda>h b. h * 31 + unat b) 0 key mod 2 ^ 32 \<and>
   (valid_checksum_for_key n (get_checksum_for_key m key) key \<longleftrightarrow> n = m)"
  using valid_checksum_injective [of n _ key m] by (auto simp: gen_checksum_polynomial)

definition process_history :: "'a crypto_scheme \<Rightarrow> bytes option option \<Rightarrow> bytes option list \<Rightarrow> proc_cred" where
  "process_history C var keys =
     fold (\<lambda>key p. fst (set_process_msg_header_key C key p)) keys (initial_proc_cred C var)"

lemma process_history_wf: "wf_proc_cred (process_history C var keys)"
  unfolding process_history_def by (rule fold_inv) (simp_all add: initial_proc_cred_wf set_process_wf)

text \<open>
  However the process credential is loaded and replaced, the cached hash is the hash of the
  credential in force, so checking against the process state is checking against that key, and
  nothing is accepted while no credential is in force.
\<close>

theorem process_checksum_follows_the_credential:
  "valid_checksum (process_history C var keys) n s =
     (case get_process_credential (process_history C var keys) of
        Inl e \<Rightarrow> False
      | Inr c \<Rightarrow> valid_checksum_for_key n s (credential_key c))"
proof (cases "get_process_credential (process_history C var keys)")
  case (Inl e)
  then show ?thesis
    by (simp add: valid_checksum_def process_checksum_is_ready_def)
next
  case (Inr c)
  then show ?thesis
    using process_checksum_agrees [OF process_history_wf Inr] by simp
qed

text \<open>
  The key derived for a machine depends on its hardware addresses as a set: their order, repeats,
  case and surrounding blanks do not matter.
\<close>

theorem machine_key_ignores_address_order:
  assumes "set (map (to_ascii_lowercase \<circ> trim) macs) = set (map (to_ascii_lowercase \<circ> trim) macs')"
  shows "derive_msg_header_key C host macs = derive_msg_header_key C host macs'"
  by (rule derive_msg_header_key_order_free [OF assms])

theorem machine_key_ignores_address_order_witness:
  "derive_msg_header_key toy_env [104] [[97], [66]] = derive_msg_header_key toy_env [104] [[98, 32], [65], [97]]"
proof (rule machine_key_ignores_address_order)
  show "set (map (to_ascii_lowercase \<circ> trim) [[97], [66]]) =
      set (map (to_ascii_lowercase \<circ> trim) [[98, 32], [65], [97]])"
    by code_simp
qed

end
