(* ===== verification/AuthProps.thy ===== *)
theory AuthProps
  imports Toy
begin

text \<open>
  The properties of the credential service: what an issued, revoked, rotated or unauthenticated key
  can and cannot do, what an interrupted write leaves behind, and what a restart makes of it.
\<close>

section \<open>Identities are used once\<close>

text \<open>The key ids handed out by the successful issues of a run, in order.\<close>

definition issued_by :: "event \<Rightarrow> auth \<times> answer res \<Rightarrow> key_id list" where
  "issued_by e r =
     (case (e, snd r) of
        (Command (Issue a ttl label), Inr (AnsIssued ik)) \<Rightarrow> [km_key_id (ik_metadata ik)]
      | _ \<Rightarrow> [])"

fun issued_ids :: "'c env_scheme \<Rightarrow> auth_config \<Rightarrow> event list \<Rightarrow> auth \<Rightarrow> key_id list" where
  "issued_ids C cfg [] st = []"
| "issued_ids C cfg (e # es) st =
     (case e of
        Command cmd \<Rightarrow> (if running st then issued_by e (actor_command C cfg cmd st) else [])
      | _ \<Rightarrow> []) @ issued_ids C cfg es (service_event C cfg e st)"

definition spent :: "auth \<Rightarrow> key_id \<Rightarrow> bool" where
  "spent st k \<longleftrightarrow> key_row k < length (slots st) \<and>
     key_id_generation k \<le> slot_generation (slots st ! key_row k)"

lemma spent_step: "service_step st st' \<Longrightarrow> spent st k \<Longrightarrow> spent st' k"
  by (auto simp: spent_def service_step_def rows_step_def intro: order_trans)

lemma service_step_length: "service_step st st' \<Longrightarrow> length (slots st') = length (slots st)"
  by (simp add: service_step_def rows_step_def)

lemma metadata_key_id:
  "metadata_with_credential C st k reveal = Inr ik \<Longrightarrow> km_key_id (ik_metadata ik) = k"
  by (auto simp: metadata_with_credential_def slot_metadata_def high_slot_metadata_def
      high_slot_entry_def find_Some_iff split: option.splits sum.splits if_splits)

lemma issue_row_generation:
  assumes "i < length (slots st)"
  shows "slot_generation (slots (issue_row i g e a label st) ! i) = g"
proof -
  let ?s = "set_slot i \<lparr>slot_generation = g, slot_st = Active, slot_expires = e,
    slot_lease = Some (length (lease_objs st))\<rparr> (st\<lparr>lease_objs := lease_objs st @ [lease_new (row_key g i) e]\<rparr>)"
  have "rows_decay (slots ?s) (slots (issue_row i g e a label st))"
    using decay_lease_issue [of ?s] by (simp add: decay_def issue_row_def lease_new_obj_def)
  then show ?thesis
    using assms by (simp add: rows_decay_def set_slot_def)
qed

lemma actor_issue_row:
  assumes "actor_issue C cfg ttl label st = (s, Inr ik)"
  obtains i g st1 e a lb where "free_row (slots st) = Some (i, g)" "slots st1 = slots st"
    "s = issue_row i g e a lb st1" "km_key_id (ik_metadata ik) = row_key g i"
proof -
  obtain s1 e s2 a i g s3 ar lb m s4 where
      ttl: "validate_ttl cfg ttl st = (s1, Inr e)" and at: "unix_seconds s1 = (s2, a)"
    and free: "free_row (slots s2) = Some (i, g)"
    and aud: "audit ''temporary_key_issue'' (Some (row_key g i)) lb s2 = (s3, ar)"
    and app: "append_mutation C m ar s3 = (s4, Inr ())"
    and s: "s = issue_row i g e a lb s4"
    and md: "metadata_with_credential C s (row_key g i) True = Inr ik"
    using assms unfolding actor_issue_def Let_def
    by (auto elim!: and_then_elim simp: lift_res_def split: prod.splits option.splits if_splits)
  have "slots s1 = slots st"
    using ttl by (auto simp: validate_ttl_def unix_seconds_def Let_def split: if_splits)
  moreover have "slots s2 = slots s1" "slots s3 = slots s2" "slots s4 = slots s3"
    using unix_seconds_core [OF at] audit_core [OF aud] append_mutation_core [OF app]
    by (simp_all add: same_core_def push_audit_record_def)
  ultimately show thesis
    using that [of i g s4 e a lb] free s metadata_key_id [OF md] by simp
qed

lemma actor_issue_fresh:
  assumes "actor_issue C cfg ttl label st = (s, Inr ik)" "length (slots st) \<le> 2 ^ 32"
  shows "\<not> spent st (km_key_id (ik_metadata ik)) \<and> spent s (km_key_id (ik_metadata ik))"
proof -
  obtain i g st1 e a lb where free: "free_row (slots st) = Some (i, g)" and st1: "slots st1 = slots st"
    and s: "s = issue_row i g e a lb st1" and k: "km_key_id (ik_metadata ik) = row_key g i"
    using actor_issue_row [OF assms(1)] .
  note row = free_row_Some [OF free]
  then have i: "i < length (slots st)" "i < 2 ^ 32" and lt: "slot_generation (slots st ! i) < g"
    using assms(2) generation_next_Some(2) by auto
  have "length (slots s) = length (slots st)"
    using service_issue_row [of st1 i g e a lb] free st1 s by (auto dest: service_step_length)
  moreover have "slot_generation (slots s ! i) = g"
    using issue_row_generation [of i st1] i st1 s by simp
  ultimately show ?thesis
    using i lt by (simp add: spent_def k key_row_row_key not_le)
qed

lemma service_event_step: "service_step st (service_event C cfg e st)"
  by (rule history.event) simp

lemma service_run_step: "service_step st (service_run C cfg es st)"
  by (rule history.run) simp

lemma issued_by_fresh:
  assumes "k \<in> set (issued_by e (actor_command C cfg cmd st))" "e = Command cmd" "length (slots st) \<le> 2 ^ 32"
  shows "\<not> spent st k \<and> spent (fst (actor_command C cfg cmd st)) k"
    and "distinct (issued_by e (actor_command C cfg cmd st))"
proof -
  obtain a ttl label ik where cmd: "cmd = Issue a ttl label" and k: "k = km_key_id (ik_metadata ik)"
    and ok: "snd (actor_command C cfg cmd st) = Inr (AnsIssued ik)"
    using assms(1,2) by (auto simp: issued_by_def split: auth_command.splits sum.splits answer.splits)
  have "\<exists>s. actor_issue C cfg ttl label st = (s, Inr ik) \<and> fst (actor_command C cfg cmd st) = s"
    using ok by (cases "actor_issue C cfg ttl label st")
      (auto simp: cmd actor_command_def lift_res_def and_then_def answer_def split: sum.splits)
  then show "\<not> spent st k \<and> spent (fst (actor_command C cfg cmd st)) k"
    using actor_issue_fresh [OF _ assms(3)] k by blast
  show "distinct (issued_by e (actor_command C cfg cmd st))"
    using cmd ok assms(2) by (simp add: issued_by_def)
qed

lemma issued_ids_fresh:
  assumes "length (slots st) \<le> 2 ^ 32"
  shows "(\<forall>k\<in>set (issued_ids C cfg es st). \<not> spent st k) \<and> distinct (issued_ids C cfg es st)"
  using assms
proof (induction es arbitrary: st)
  case (Cons e es)
  let ?st = "service_event C cfg e st"
  have step: "service_step st ?st"
    by (rule service_event_step)
  then have len: "length (slots ?st) \<le> 2 ^ 32"
    using Cons.prems service_step_length by metis
  note IH = Cons.IH [OF len]
  have later: "\<not> spent st k" if "k \<in> set (issued_ids C cfg es ?st)" for k
    using IH that spent_step [OF step] by blast
  show ?case
  proof (cases "\<exists>cmd. e = Command cmd \<and> running st")
    case False
    then have "issued_ids C cfg (e # es) st = issued_ids C cfg es ?st"
      by (cases e) auto
    then show ?thesis
      using IH later by simp
  next
    case True
    then obtain cmd where e: "e = Command cmd" and run: "running st"
      by blast
    let ?now = "issued_by e (actor_command C cfg cmd st)"
    have ids: "issued_ids C cfg (e # es) st = ?now @ issued_ids C cfg es ?st"
      and st: "?st = fst (actor_command C cfg cmd st)"
      using e run by simp_all
    have now: "\<not> spent st k \<and> spent ?st k" if "k \<in> set ?now" for k
      using issued_by_fresh(1) [OF that e Cons.prems] st by simp
    have "distinct ?now"
      using issued_by_fresh(2) [OF _ e Cons.prems] by (cases "?now = []") (auto intro: hd_in_set)
    then show ?thesis
      unfolding ids using now later IH by auto
  qed
qed simp

text \<open>
  C4: A key id is handed out at most once: over any sequence of commands, timer intervals,
  authentications and context checks, the ids of the successful issues are pairwise distinct.
\<close>

theorem key_ids_never_reissued:
  assumes "length (slots st) \<le> 2 ^ 32"
  shows "distinct (issued_ids C cfg es st)"
  using issued_ids_fresh [OF assms] by blast

theorem key_ids_never_reissued_witness:
  "distinct (issued_ids toy_env toy_cfg
     [Command (Issue 0 (from_secs 60) None), Interval, Command (Gc 0),
      Command (Issue 0 (from_secs 60) None)] toy_state)"
  by (rule key_ids_never_reissued) (simp add: toy_rows)

section \<open>Presented credentials\<close>

definition out_of_service :: "auth \<Rightarrow> key_id \<Rightarrow> bool" where
  "out_of_service st k \<longleftrightarrow> key_row k < length (slots st) \<and>
     (key_id_generation k < slot_generation (slots st ! key_row k) \<or>
      key_id_generation k = slot_generation (slots st ! key_row k) \<and>
      slot_st (slots st ! key_row k) \<noteq> Active)"

lemma out_of_service_step:
  assumes "service_step st st'" "out_of_service st k"
  shows "out_of_service st' k"
proof -
  let ?s = "slots st ! key_row k" and ?s' = "slots st' ! key_row k"
  have le: "slot_generation ?s \<le> slot_generation ?s'"
    and st: "slot_generation ?s' = slot_generation ?s \<longrightarrow> slot_st ?s \<noteq> Active \<longrightarrow> slot_st ?s' \<noteq> Active"
    and len: "length (slots st') = length (slots st)"
    using assms by (auto simp: service_step_def rows_step_def out_of_service_def)
  show ?thesis
  proof (cases "key_id_generation k < slot_generation ?s'")
    case False
    then have "slot_generation ?s' = slot_generation ?s" "key_id_generation k = slot_generation ?s'"
      using assms(2) le unfolding out_of_service_def by (auto simp: not_less)
    then show ?thesis
      using assms(2) st len by (auto simp: out_of_service_def)
  qed (use assms(2) len in \<open>simp add: out_of_service_def\<close>)
qed

text \<open>What a successful authentication of a temporary credential has checked.\<close>

definition accepted :: "'c crypto_scheme \<Rightarrow> key_id \<Rightarrow> bytes \<Rightarrow> auth \<Rightarrow> auth_context \<Rightarrow> bool" where
  "accepted C k key st c \<longleftrightarrow>
     running st \<and> \<not> safe_mode st \<and>
     derive_temporary_key C (admin_key st) (instance_id st) k = Inr key \<and>
     (\<exists>slot l. get_at (slots st) (key_row k) = Some slot \<and>
        slot_generation slot = key_id_generation k \<and> slot_st slot = Active \<and>
        clk st (clk_pos st) < slot_expires slot \<and>
        slot_lease slot = Some l \<and> lease_alive st l \<and> c = context_from_lease k False l)"

lemma upgrade_lease_Some: "upgrade_lease st w = Some l \<longleftrightarrow> w = Some l \<and> lease_alive st l"
  by (auto simp: upgrade_lease_def split: option.split)

lemma lease_alive_clock [simp]: "lease_alive (st\<lparr>clk_pos := n\<rparr>) l = lease_alive st l"
  by (simp add: lease_alive_def)

lemma authenticate_temporary:
  assumes "\<not> key_id_is_admin k"
  shows "snd (authenticate_presented C k key st) = Inr c \<longleftrightarrow> accepted C k key st c"
  using assms
  by (auto simp: authenticate_presented_def authenticate_row_def row_failure_def accepted_def
      unix_seconds_def Let_def upgrade_lease_Some upgrade_lease_def
      split: sum.splits option.splits slot_state.splits if_splits)

text \<open>
  C1: A presented temporary credential authenticates exactly when the service runs outside safe
  mode, the key material is the one derived for the key id from the current root and instance, and
  the row of the id carries its generation, is active, has not reached its expiry on the clock and
  has a live lease; the context names that key, its own namespace and that lease.
\<close>

theorem authenticate_exactly_when_accepted:
  assumes "\<not> key_id_is_admin k"
  shows "snd (authenticate_presented C k key st) = Inr c \<longleftrightarrow> accepted C k key st c"
  by (rule authenticate_temporary [OF assms])

lemma toy_key_id: "row_key 1 0 = 0x100000000"
  by (simp add: row_key_def key_id_new_def)

lemma toy_key_row: "key_row 0x100000000 = 0" "key_id_generation 0x100000000 = 1"
  using key_row_row_key [of 0 1] key_id_generation_row_key [of 1 0] by (simp_all add: toy_key_id)

definition toy_temp_key :: bytes where
  "toy_temp_key = take 32 (ascii ''pb-mapper-temp-key-v1'' @ key_id_to_be_bytes 0x100000000 @
     replicate 16 9 @ toy_key @ replicate 32 0)"

theorem authenticate_exactly_when_accepted_witness:
  "snd (authenticate_presented toy_env 0x100000000 toy_temp_key toy_state) =
     Inr (context_from_lease 0x100000000 False 1)"
proof (subst authenticate_exactly_when_accepted)
  show "\<not> key_id_is_admin 0x100000000"
    by (simp add: key_id_is_admin_def ADMIN_KEY_ID_def)
  show "accepted toy_env 0x100000000 toy_temp_key toy_state (context_from_lease 0x100000000 False 1)"
    by (simp add: accepted_def toy_key_row get_at_Some_iff)
      (simp add: derive_temporary_key_def toy_env_def toy_state_def toy_slots_def lease_alive_def
        toy_temp_key_def)
qed

lemma out_of_service_rejected:
  assumes "out_of_service st k" "\<not> key_id_is_admin k"
  shows "\<exists>e. snd (authenticate_presented C k key st) = Inl e"
proof -
  have "\<not> accepted C k key st c" for c
    using assms(1) by (auto simp: accepted_def out_of_service_def get_at_Some_iff)
  then show ?thesis
    using authenticate_temporary [OF assms(2)] by (metis sum.exhaust)
qed

text \<open>
  C2: A key whose row has moved on or is no longer active never authenticates again, whatever
  commands, intervals, authentications and context checks follow and whatever key material is
  presented.
\<close>

theorem out_of_service_forever:
  assumes "out_of_service st k" "\<not> key_id_is_admin k"
  shows "\<exists>e. snd (authenticate_presented C k key (service_run C cfg es st)) = Inl e"
  using out_of_service_rejected [OF out_of_service_step [OF service_run_step assms(1)] assms(2)] .

theorem out_of_service_forever_witness:
  "\<exists>e. snd (authenticate_presented toy_env 1 toy_key
     (service_run toy_env toy_cfg [Interval, Command (Issue 0 (from_secs 60) None)] toy_state)) = Inl e"
proof (rule out_of_service_forever)
  have "key_row 1 = 1"
    by (simp add: key_row_def key_id_slot_def slot_as_index_def)
  then show "out_of_service toy_state 1"
    by (simp add: out_of_service_def toy_state_def toy_slots_def slot_default_def
        key_id_generation_def FIRST_GENERATION_def)
qed (simp add: key_id_is_admin_def ADMIN_KEY_ID_def)

lemma revoke_row_state:
  assumes "get_at (slots st) (key_row k) = Some slot" "slot_holds slot k"
  shows "out_of_service (revoke_row k slot st) k"
proof -
  let ?s = "set_slot (key_row k) (slot\<lparr>slot_st := Revoked\<rparr>) st"
  have "out_of_service ?s k"
    using assms by (auto simp: out_of_service_def set_slot_def get_at_Some_iff slot_holds_def)
  moreover have "decay ?s (revoke_row k slot st)"
    unfolding revoke_row_def Let_def
    by (auto split: option.split intro: decay_retire_now decay_trans [OF decay_cancel_lease decay_retire_now])
  ultimately show ?thesis
    using out_of_service_step decay_service_step by blast
qed

lemma publish_revoke_row:
  assumes "publish_revoke k now cur st = (s, Inr m)" "key_row k < length (slots st)"
  shows "out_of_service s k"
proof -
  obtain slot where slot: "get_at (slots st) (key_row k) = Some slot"
    using assms(2) by (simp add: get_at_def)
  then have "slot_holds slot k \<and> s = revoke_row k slot st"
    using assms(1) by (auto simp: publish_revoke_def Let_def dest: identity_holds
        elim!: and_then_elim split: option.splits)
  then show ?thesis
    using revoke_row_state [OF slot] by blast
qed

lemma actor_revoke_row:
  assumes "actor_revoke C k st = (s, Inr m)" "key_row k < length (slots st)"
  shows "out_of_service s k"
proof -
  obtain s1 now ks s2 ar s3 where at: "unix_seconds st = (s1, now)"
    and aud: "audit ''temporary_key_revoke'' (Some k) (ks_label ks) s1 = (s2, ar)"
    and app: "append_mutation C (MRevoke k now) ar s2 = (s3, Inr ())"
    and pub: "publish_revoke k now ks s3 = (s, Inr m)"
    using assms(1) unfolding actor_revoke_def Let_def
    by (auto elim!: and_then_elim simp: lift_res_def split: prod.splits if_splits)
  have "slots s3 = slots st"
    using unix_seconds_core [OF at] audit_core [OF aud] append_mutation_core [OF app]
    by (simp add: same_core_def push_audit_record_def)
  then show ?thesis
    using publish_revoke_row [OF pub] assms(2) by simp
qed

text \<open>
  C3: Once a revoke of a key in the slot table has been acknowledged, the key never authenticates
  again in any continuation of the run.
\<close>

theorem revoked_key_never_authenticates:
  assumes "actor_revoke C k st = (s, Inr m)" "key_row k < length (slots st)" "\<not> key_id_is_admin k"
  shows "\<exists>e. snd (authenticate_presented C k key (service_run C cfg es s)) = Inl e"
  by (rule out_of_service_rejected [OF out_of_service_step [OF service_run_step
        actor_revoke_row [OF assms(1,2)]] assms(3)])

definition recordable :: "'c env_scheme \<Rightarrow> wal_record \<Rightarrow> bool" where
  "recordable C r \<longleftrightarrow> (\<exists>b. wal_json C r = Some b \<and> length b \<le> WAL_RECORD_MAX)"

lemma append_mutation_fine:
  assumes "io_fine st" "seal_ok C" "recordable C (WalMutation m a)"
  shows "succeeds (append_mutation C m a st)"
proof -
  obtain s where "append_wal C (admin_key st) (WalMutation m a) st = (s, Inr ())" "io_fine s"
    using assms append_wal_fine by (fastforce simp: recordable_def succeeds_def)
  then show ?thesis
    by (simp add: append_mutation_def fail_closed_on_uncertain_wal_def succeeds_def push_audit_record_def
        io_fine_def)
qed

text \<open>The retire stage of a key retires that key and no other.\<close>

definition retire_stage_ok :: "auth \<Rightarrow> key_id \<Rightarrow> bool" where
  "retire_stage_ok st k \<longleftrightarrow>
     (case stages st k of
        Some (Some t, r) \<Rightarrow> (case timer_objs st ! t of
            Some (CbRetire k' l) \<Rightarrow> k' = k | Some (CbReap k' l) \<Rightarrow> False | None \<Rightarrow> True)
      | _ \<Rightarrow> True)"

lemma fire_retire_cold:
  assumes "stage k fst st = (s, Some t)" "retire_stage_ok st k"
  shows "cold (fire t s) k = None \<longleftrightarrow> cold st k = None"
proof -
  obtain r where at: "stages st k = Some (Some t, r)" and s: "cold s = cold st" "timer_objs s = timer_objs st"
    using assms(1) by (auto simp: stage_def upgrade_timer_def split: option.splits if_splits)
  show ?thesis
  proof (cases "timer_objs st ! t")
    case (Some cb)
    then obtain l where "cb = CbRetire k l"
      using assms(2) at by (cases cb) (auto simp: retire_stage_ok_def)
    then show ?thesis
      using Some s by (simp add: fire_def retire_def Let_def cancel_lease_def set_slot_def split: option.split)
  qed (use s in \<open>simp add: fire_def\<close>)
qed

lemma revoke_row_cold:
  assumes "retire_stage_ok st k"
  shows "cold (revoke_row k slot st) k = None \<longleftrightarrow> cold st k = None"
proof -
  have keep: "cold (retire_now k s) k = None \<longleftrightarrow> cold s k = None" if "retire_stage_ok s k" for s
  proof (cases "stage k fst s")
    case (Pair s' t)
    then show ?thesis
      using fire_retire_cold [of k s s'] that
      by (cases t) (auto simp: retire_now_def fire_stage_def stage_def split: option.splits if_splits)
  qed
  define s1 where "s1 = set_slot (key_row k) (slot\<lparr>slot_st := Revoked\<rparr>) st"
  define s2 where "s2 = (case upgrade_lease s1 (slot_lease slot) of
      Some l \<Rightarrow> cancel_lease CancelRevoked l s1 | None \<Rightarrow> s1)"
  have "stages s2 = stages st" "timer_objs s2 = timer_objs st" "cold s2 = cold st"
    by (simp_all add: s2_def s1_def set_slot_def cancel_lease_def split: option.split)
  moreover from this have "retire_stage_ok s2 k"
    using assms by (simp only: retire_stage_ok_def)
  moreover have "revoke_row k slot st = retire_now k s2"
    by (simp only: revoke_row_def s1_def s2_def Let_def)
  ultimately show ?thesis
    using keep [of s2] by simp
qed

lemma publish_revoke_fine:
  assumes "key_state_of st k = Inr ks" "get_at (slots st) (key_row k) = Some slot" "retire_stage_ok st k"
  shows "\<not> isl (snd (publish_revoke k now ks st))"
  using assms revoke_row_cold [of st k slot] by (auto simp: publish_revoke_def key_state_of_def lift_res_def Let_def
        split: option.splits sum.splits)

lemma revoke_acknowledged:
  assumes "\<not> safe_mode st" "io_fine st" "seal_ok C" "\<And>n a. recordable C (WalMutation (MRevoke k n) a)"
    and ks: "key_state_of st k = Inr ks" "ks_state ks = Active" and row: "key_row k < length (slots st)"
    and stage: "retire_stage_ok st k"
  shows "\<exists>s m. actor_revoke C k st = (s, Inr m)"
proof -
  let ?s1 = "fst (unix_seconds st)" and ?now = "snd (unix_seconds st)"
  let ?a = "audit ''temporary_key_revoke'' (Some k) (ks_label ks) ?s1"
  have "succeeds (append_mutation C (MRevoke k ?now) (snd ?a) (fst ?a))"
    using assms(2-4) by (intro append_mutation_fine) (simp_all add: audit_def unix_seconds_def)
  then obtain s3 where s3: "append_mutation C (MRevoke k ?now) (snd ?a) (fst ?a) = (s3, Inr ())"
    by (auto simp: succeeds_def)
  have rows: "get_at (slots st) (key_row k) = Some (slots st ! key_row k)"
    using row by (simp add: get_at_def)
  have "key_state_of ?s1 k = Inr ks"
    using ks(1) rows by (auto simp: key_state_of_def unix_seconds_def split: option.splits sum.splits)
  then have run: "actor_revoke C k st = publish_revoke k ?now ks s3"
    using assms(1) ks(2) s3
    by (simp add: actor_revoke_def lift_res_def ensure_store_available_def case_prod_beta)
  have s3': "slots s3 = slots st" "cold s3 = cold st" "stages s3 = stages st" "timer_objs s3 = timer_objs st"
    using append_mutation_core [OF s3]
    by (simp_all add: same_core_def audit_def unix_seconds_def push_audit_record_def)
  then have "key_state_of s3 k = Inr ks" "retire_stage_ok s3 k"
    using ks(1) rows stage by (auto simp: key_state_of_def retire_stage_ok_def split: option.splits sum.splits)
  then have "\<not> isl (snd (actor_revoke C k st))"
    unfolding run using rows s3'(1) by (intro publish_revoke_fine) auto
  then show ?thesis
    by (cases "actor_revoke C k st"; cases "snd (actor_revoke C k st)") auto
qed


definition toy_env2 :: env where
  "toy_env2 = toy_env\<lparr>wal_json := (\<lambda>_. Some [1])\<rparr>"

lemma toy_cold: "cold toy_state 0x100000000 =
    Some \<lparr>cold_issued_at = 40, cold_label = None, cold_tombstoned_at = 0\<rparr>"
proof -
  have "row_key 1 0 = 0x100000000"
    by (rule toy_key_id)
  then show ?thesis
    by (simp add: toy_state_def)
qed

lemma toy_revoke_ready:
  "\<not> safe_mode toy_state" "io_fine toy_state" "seal_ok toy_env2"
  "recordable toy_env2 (WalMutation (MRevoke 0x100000000 n) a)"
  "key_state_of toy_state 0x100000000 =
     Inr \<lparr>ks_state = Active, ks_expires_at = 100, ks_issued_at = 40, ks_label = None\<rparr>"
  "retire_stage_ok toy_state 0x100000000"
proof -
  show "\<not> safe_mode toy_state" "io_fine toy_state"
    by (simp_all add: toy_state_def io_fine_def)
  show "seal_ok toy_env2"
    by (simp add: seal_ok_def toy_env2_def toy_env_def tag16_def min_def)
  show "recordable toy_env2 (WalMutation (MRevoke 0x100000000 n) a)"
    by (simp add: recordable_def toy_env2_def WAL_RECORD_MAX_def)
  show "key_state_of toy_state 0x100000000 =
     Inr \<lparr>ks_state = Active, ks_expires_at = 100, ks_issued_at = 40, ks_label = None\<rparr>"
    using toy_cold
    by (simp add: key_state_of_def toy_key_row get_at_def toy_rows validate_slot_identity_def)
  show "retire_stage_ok toy_state 0x100000000"
    by (simp add: retire_stage_ok_def toy_state_def)
qed


theorem revoked_key_never_authenticates_witness:
  "\<exists>s m. actor_revoke toy_env2 0x100000000 toy_state = (s, Inr m) \<and>
     (\<exists>e. snd (authenticate_presented toy_env2 0x100000000 toy_temp_key
            (service_run toy_env2 toy_cfg [Interval] s)) = Inl e)"
proof -
  have "\<exists>s m. actor_revoke toy_env2 0x100000000 toy_state = (s, Inr m)"
    by (rule revoke_acknowledged [OF toy_revoke_ready(1-4) toy_revoke_ready(5) _ _ toy_revoke_ready(6)])
      (simp_all add: toy_key_row toy_rows)
  then show ?thesis
    using revoked_key_never_authenticates [of toy_env2 "0x100000000" toy_state _ _ toy_temp_key toy_cfg "[Interval]"]
    by (auto simp: toy_key_row toy_rows key_id_is_admin_def ADMIN_KEY_ID_def)
qed

end
