(* ===== verification/Wire.thy ===== *)
theory Wire
  imports Credential
begin

text \<open>
  Byte streams and the basic message framing (\<^verbatim>\<open>pb-mapper-protocol/src/lib.rs\<close>,
  \<^verbatim>\<open>pb-mapper-core/src/codec.rs\<close> and \<^verbatim>\<open>error.rs\<close>).  What a peer sends until it closes
  or fails is a list of bytes, which a reader consumes; what a program writes goes to a sink, which
  may break after some number of bytes.  Timeouts belong to the callers.  The locale \<open>framing\<close>
  is what a pair of message reader and writer promise each other, and
  \<open>canonical_framing\<close> adds that the reader accepts nothing else.
\<close>

section \<open>Errors and streams\<close>

datatype wire_error =
    MsgNetworkReadCheckSum
  | MsgNetworkReadDatalen
  | MsgNetworkReadBody
  | MsgNetworkWriteCheckSum
  | MsgNetworkWriteDatalen
  | MsgNetworkWriteBody
  | MsgNetworkWriteCodecMsg
  | MsgNetworkWriteCodecTag
  | MsgDatalenExceeded nat nat
  | MsgDatalenValidate nat checksum
  | MsgCodec string
  | MsgProtocol

text \<open>\<open>room\<close> is the number of bytes the peer still takes; \<open>None\<close> is a peer that takes all.\<close>

record sink =
  sent :: bytes
  room :: "nat option"

definition write_all :: "'e \<Rightarrow> bytes \<Rightarrow> sink \<Rightarrow> sink \<times> ('e + unit)" where
  "write_all e bs k =
     (case room k of
        None \<Rightarrow> (k\<lparr>sent := sent k @ bs\<rparr>, Inr ())
      | Some n \<Rightarrow>
          if length bs \<le> n then (k\<lparr>sent := sent k @ bs, room := Some (n - length bs)\<rparr>, Inr ())
          else (k\<lparr>sent := sent k @ take n bs, room := Some 0\<rparr>, Inl e))"

definition read_exact :: "'e \<Rightarrow> nat \<Rightarrow> bytes \<Rightarrow> bytes \<times> ('e + bytes)" where
  "read_exact e n bs = (if n \<le> length bs then (drop n bs, Inr (take n bs)) else ([], Inl e))"

definition read_uint :: "'e \<Rightarrow> nat \<Rightarrow> bytes \<Rightarrow> bytes \<times> ('e + nat)" where
  "read_uint e n bs = and_then (read_exact e n bs) (\<lambda>rest b. (rest, Inr (from_be b)))"

lemma read_exact_append [simp]: "length bs = n \<Longrightarrow> read_exact e n (bs @ rest) = (rest, Inr bs)"
  by (simp add: read_exact_def)

lemma read_uint_append [simp]: "v < 256 ^ n \<Longrightarrow> read_uint e n (to_be n v @ rest) = (rest, Inr v)"
  by (simp add: read_uint_def)

lemma read_exactD: "read_exact e n bs = (rest, Inr b) \<Longrightarrow> bs = b @ rest \<and> length b = n"
  by (auto simp: read_exact_def split: if_splits)

lemma read_uintD:
  assumes "read_uint e n bs = (rest, Inr v)"
  shows "bs = to_be n v @ rest \<and> v < 256 ^ n"
proof -
  obtain b where b: "read_exact e n bs = (rest, Inr b)" "v = from_be b"
    using assms unfolding read_uint_def by (rule and_then_elim) auto
  with read_exactD [OF b(1)] from_be_less [of b] to_be_from_be [of b] show ?thesis
    by auto
qed

lemma write_all_Inr:
  "write_all e bs k = (k', Inr ()) \<Longrightarrow> sent k' = sent k @ bs"
  by (auto simp: write_all_def split: option.splits if_splits)

lemma write_all_open: "room k = None \<Longrightarrow> write_all e bs k = (k\<lparr>sent := sent k @ bs\<rparr>, Inr ())"
  by (simp add: write_all_def)

section \<open>Message framings\<close>

text \<open>Sending and receiving several messages, up to the first error.\<close>

fun send_list :: "('m \<Rightarrow> 's \<Rightarrow> 's \<times> ('e + unit)) \<Rightarrow> 'm list \<Rightarrow> 's \<Rightarrow> 's \<times> ('e + unit)" where
  "send_list put [] s = (s, Inr ())"
| "send_list put (m # ms) s = and_then (put m s) (\<lambda>s _. send_list put ms s)"

fun receive_list :: "('s \<Rightarrow> 's \<times> ('e + 'm)) \<Rightarrow> nat \<Rightarrow> 's \<Rightarrow> 's \<times> ('e + 'm list)" where
  "receive_list get 0 s = (s, Inr [])"
| "receive_list get (Suc n) s =
     and_then (get s) (\<lambda>s m. and_then (receive_list get n s) (\<lambda>s ms. (s, Inr (m # ms))))"

text \<open>
  \<open>put\<close> sends one message and \<open>get\<close> receives one; \<open>paired w r\<close> says that reader and writer are
  in step, and \<open>fits\<close> that a message is one the reader takes.
\<close>

locale framing =
  fixes put :: "'m \<Rightarrow> 'w \<times> sink \<Rightarrow> ('w \<times> sink) \<times> ('e + unit)"
    and get :: "'r \<times> bytes \<Rightarrow> ('r \<times> bytes) \<times> ('e + 'm)"
    and paired :: "'w \<Rightarrow> 'r \<Rightarrow> bool"
    and fits :: "'m \<Rightarrow> bool"
  assumes put_get: "paired w r \<Longrightarrow> fits m \<Longrightarrow> put m (w, k) = ((w', k'), Inr ()) \<Longrightarrow>
    \<exists>bs. sent k' = sent k @ bs \<and>
      (\<forall>rest. \<exists>r'. get (r, bs @ rest) = ((r', rest), Inr m) \<and> paired w' r')"
begin

lemma list_round_trip:
  assumes "paired w r" "\<forall>m\<in>set ms. fits m" "send_list put ms (w, k) = ((w', k'), Inr ())"
  shows "\<exists>bs. sent k' = sent k @ bs \<and>
    (\<forall>rest. \<exists>r'. receive_list get (length ms) (r, bs @ rest) = ((r', rest), Inr ms) \<and> paired w' r')"
  using assms
proof (induction ms arbitrary: w r k)
  case (Cons m ms)
  from Cons.prems(3) obtain w1 k1 where put: "put m (w, k) = ((w1, k1), Inr ())"
    and rest: "send_list put ms (w1, k1) = ((w', k'), Inr ())"
    by (auto elim: and_then_elim)
  from put_get [OF Cons.prems(1) _ put] Cons.prems(2) obtain bs where bs: "sent k1 = sent k @ bs"
    "\<And>rest. \<exists>r'. get (r, bs @ rest) = ((r', rest), Inr m) \<and> paired w1 r'"
    by auto
  from bs(2) obtain r1 where "paired w1 r1"
    by blast
  from Cons.IH [OF this _ rest] Cons.prems(2) obtain cs where cs: "sent k' = sent k1 @ cs"
    by auto
  have "\<exists>r'. receive_list get (length (m # ms)) (r, (bs @ cs) @ rest) = ((r', rest), Inr (m # ms)) \<and> paired w' r'" for rest
  proof -
    from bs(2) [of "cs @ rest"] obtain r1 where r1: "get (r, bs @ cs @ rest) = ((r1, cs @ rest), Inr m)" "paired w1 r1"
      by blast
    from Cons.IH [OF r1(2) _ rest] Cons.prems(2) cs
    obtain r' where "receive_list get (length ms) (r1, cs @ rest) = ((r', rest), Inr ms)" "paired w' r'"
      by auto
    then show ?thesis
      using r1(1) by auto
  qed
  then show ?case
    using bs(1) cs by (intro exI [of _ "bs @ cs"]) auto
qed auto

end

text \<open>Nothing else is accepted: what the reader takes is what the writer would have sent.\<close>

locale canonical_framing = framing put get paired fits
  for put :: "'m \<Rightarrow> 'w \<times> sink \<Rightarrow> ('w \<times> sink) \<times> ('e + unit)"
    and get :: "'r \<times> bytes \<Rightarrow> ('r \<times> bytes) \<times> ('e + 'm)"
    and paired fits +
  assumes get_put: "paired w r \<Longrightarrow> get (r, input) = ((r', rest), Inr m) \<Longrightarrow> room k = None \<Longrightarrow>
    \<exists>bs w'. input = bs @ rest \<and> put m (w, k) = ((w', k\<lparr>sent := sent k @ bs\<rparr>), Inr ()) \<and> paired w' r'"
begin

lemma list_accepts_sent:
  assumes "paired w r" "receive_list get n (r, input) = ((r', rest), Inr ms)" "room k = None"
  shows "\<exists>bs w'. input = bs @ rest \<and> send_list put ms (w, k) = ((w', k\<lparr>sent := sent k @ bs\<rparr>), Inr ())"
  using assms
proof (induction n arbitrary: w r input k ms)
  case 0
  then show ?case
    by auto
next
  case (Suc n)
  from Suc.prems(2) obtain r1 in1 m ms' where get: "get (r, input) = ((r1, in1), Inr m)"
    and rest: "receive_list get n (r1, in1) = ((r', rest), Inr ms')" and ms: "ms = m # ms'"
    by (auto elim!: and_then_elim)
  from get_put [OF Suc.prems(1) get Suc.prems(3)] obtain bs w1 where bs: "input = bs @ in1"
      "put m (w, k) = ((w1, k\<lparr>sent := sent k @ bs\<rparr>), Inr ())" "paired w1 r1"
    by blast
  from Suc.IH [OF bs(3) rest, of "k\<lparr>sent := sent k @ bs\<rparr>"] Suc.prems(3)
  obtain cs w' where cs: "in1 = cs @ rest"
      "send_list put ms' (w1, k\<lparr>sent := sent k @ bs\<rparr>) = ((w', k\<lparr>sent := sent k @ bs @ cs\<rparr>), Inr ())"
    by auto
  then show ?case
    using bs(1,2) ms by (intro exI [of _ "bs @ cs"]) auto
qed

end

section \<open>The length header\<close>

definition MAX_PLAINTEXT_LEN :: nat where "MAX_PLAINTEXT_LEN = 8 * 1024 * 1024"
definition CODEC_TAG_LEN :: nat where "CODEC_TAG_LEN = 16"
definition MAX_MSG_LEN :: nat where "MAX_MSG_LEN = MAX_PLAINTEXT_LEN + CODEC_TAG_LEN"

lemmas msg_len_defs = MAX_PLAINTEXT_LEN_def CODEC_TAG_LEN_def MAX_MSG_LEN_def

definition checksum_matches :: "proc_cred \<Rightarrow> 32 word \<Rightarrow> checksum \<Rightarrow> bytes option \<Rightarrow> bool" where
  "checksum_matches p datalen checksum key =
     (case key of Some key \<Rightarrow> valid_checksum_for_key datalen checksum key
      | None \<Rightarrow> valid_checksum p datalen checksum)"

definition checksum_for :: "proc_cred \<Rightarrow> 32 word \<Rightarrow> bytes option \<Rightarrow> wire_error + checksum" where
  "checksum_for p len key =
     (case key of Some key \<Rightarrow> Inr (get_checksum_for_key len key)
      | None \<Rightarrow> if \<not> process_checksum_is_ready p then Inl (MsgCodec ''load configured credential'')
                else Inr (get_checksum p len))"

definition get_msg_len :: "proc_cred \<Rightarrow> bytes option \<Rightarrow> bytes \<Rightarrow> bytes \<times> (wire_error + nat)" where
  "get_msg_len p checksum_key input =
     and_then (read_uint MsgNetworkReadCheckSum 4 input) (\<lambda>input checksum.
     and_then (read_uint MsgNetworkReadDatalen 4 input) (\<lambda>input datalen.
     if checksum_matches p (word_of_nat datalen) (word_of_nat checksum) checksum_key then
       (if datalen \<le> MAX_MSG_LEN then (input, Inr datalen)
        else (input, Inl (MsgDatalenExceeded datalen MAX_MSG_LEN)))
     else (input, Inl (MsgDatalenValidate datalen (word_of_nat checksum)))))"

definition set_msg_len :: "proc_cred \<Rightarrow> 32 word \<Rightarrow> bytes option \<Rightarrow> sink \<Rightarrow> sink \<times> (wire_error + unit)" where
  "set_msg_len p len checksum_key k =
     and_then (k, checksum_for p len checksum_key) (\<lambda>k c.
     and_then (write_all MsgNetworkWriteCheckSum (to_be 4 (unat c)) k) (\<lambda>k _.
     write_all MsgNetworkWriteDatalen (to_be 4 (unat len)) k))"

section \<open>Plain messages\<close>

definition normal_read_msg :: "proc_cred \<Rightarrow> bytes option \<Rightarrow> bytes \<Rightarrow> bytes \<times> (wire_error + bytes)" where
  "normal_read_msg p checksum_key input =
     and_then (get_msg_len p checksum_key input) (\<lambda>input datalen.
     read_exact MsgNetworkReadBody datalen input)"

definition normal_write_msg :: "proc_cred \<Rightarrow> bytes option \<Rightarrow> bytes \<Rightarrow> sink \<Rightarrow> sink \<times> (wire_error + unit)" where
  "normal_write_msg p checksum_key msg k =
     and_then (set_msg_len p (word_of_nat (length msg)) checksum_key k) (\<lambda>k _.
     write_all MsgNetworkWriteBody msg k)"

section \<open>Encrypted messages\<close>

text \<open>
  A codec draws its nonces from a 32-bit counter (which wraps, the release build has no overflow
  check); the counter moves even when the cipher refuses.
\<close>

record codec =
  codec_key :: bytes
  codec_counter :: "32 word"

definition codec_new :: "bytes \<Rightarrow> codec" where
  "codec_new key = \<lparr>codec_key = key, codec_counter = 0\<rparr>"

definition codec_nonce :: "codec \<Rightarrow> bytes" where
  "codec_nonce d = replicate 8 0 @ to_be 4 (unat (codec_counter d))"

definition codec_advance :: "codec \<Rightarrow> codec" where
  "codec_advance d = d\<lparr>codec_counter := codec_counter d + 1\<rparr>"

definition codec_encrypt :: "'c crypto_scheme \<Rightarrow> codec \<Rightarrow> bytes \<Rightarrow> codec \<times> bytes option" where
  "codec_encrypt C d data = (codec_advance d, aead_seal C (codec_key d) (codec_nonce d) [] data)"

definition codec_decrypt :: "'c crypto_scheme \<Rightarrow> codec \<Rightarrow> bytes \<Rightarrow> codec \<times> bytes option" where
  "codec_decrypt C d data = (codec_advance d, aead_open C (codec_key d) (codec_nonce d) [] data)"

definition codec_read_msg ::
  "'c crypto_scheme \<Rightarrow> proc_cred \<Rightarrow> bytes option \<Rightarrow> codec \<times> bytes \<Rightarrow> (codec \<times> bytes) \<times> (wire_error + bytes)" where
  "codec_read_msg C p checksum_key = (\<lambda>(d, input).
     case normal_read_msg p checksum_key input of
       (input, Inl e) \<Rightarrow> ((d, input), Inl e)
     | (input, Inr body) \<Rightarrow>
         (case codec_decrypt C d body of
            (d, None) \<Rightarrow> ((d, input), Inl (MsgCodec ''decrypt''))
          | (d, Some v) \<Rightarrow> ((d, input), Inr v)))"

text \<open>The cipher returns the text and the tag separately; the model's returns them joined.\<close>

definition codec_write_msg ::
  "'c crypto_scheme \<Rightarrow> proc_cred \<Rightarrow> bytes option \<Rightarrow> bytes \<Rightarrow> codec \<times> sink \<Rightarrow> (codec \<times> sink) \<times> (wire_error + unit)" where
  "codec_write_msg C p checksum_key msg = (\<lambda>(d, k).
     case codec_encrypt C d msg of
       (d, None) \<Rightarrow> ((d, k), Inl (MsgCodec ''encrypt''))
     | (d, Some sealed) \<Rightarrow>
         (case and_then (set_msg_len p (word_of_nat (length sealed)) checksum_key k) (\<lambda>k _.
               and_then (write_all MsgNetworkWriteCodecMsg (take (length msg) sealed) k) (\<lambda>k _.
               write_all MsgNetworkWriteCodecTag (drop (length msg) sealed) k)) of
            (k, r) \<Rightarrow> ((d, k), r)))"

definition get_default_codec :: "proc_cred \<Rightarrow> wire_error + codec" where
  "get_default_codec p =
     (case get_msg_header_key p of
        Inl _ \<Rightarrow> Inl (MsgCodec ''load configured credential'')
      | Inr key \<Rightarrow> Inr (codec_new key))"

section \<open>Encrypted messages are a canonical framing\<close>

definition aead_canonical :: "'c crypto_scheme \<Rightarrow> bool" where
  "aead_canonical C \<longleftrightarrow> (\<forall>k n a c p. aead_open C k n a c = Some p \<longrightarrow> aead_seal C k n a p = Some c)"

text \<open>A reader or writer bound to a session key does not look at the process credential.\<close>

lemma set_msg_len_key:
  "set_msg_len p len (Some key) k =
     and_then (write_all MsgNetworkWriteCheckSum (to_be 4 (unat (get_checksum_for_key len key))) k) (\<lambda>k _.
       write_all MsgNetworkWriteDatalen (to_be 4 (unat len)) k)"
  by (simp add: set_msg_len_def checksum_for_def)

lemma word32_less: "unat (w :: 32 word) < 256 ^ 4"
  using unsigned_less [of w, where ?'a = nat] by simp

lemma unat_word_of_nat32: "n < 2 ^ 32 \<Longrightarrow> unat (word_of_nat n :: 32 word) = n"
  by (simp add: unat_of_nat take_bit_eq_mod)

lemma get_msg_len_header:
  assumes "n \<le> MAX_MSG_LEN"
  shows "get_msg_len p (Some key)
      (to_be 4 (unat (get_checksum_for_key (word_of_nat n) key)) @ to_be 4 n @ rest) = (rest, Inr n)"
proof -
  have "n < 256 ^ 4"
    using assms by (simp add: msg_len_defs)
  then show ?thesis
    using word32_less assms
    by (simp add: get_msg_len_def checksum_matches_def valid_checksum_for_key_def get_checksum_for_key_def)
qed

lemma codec_write_Inr:
  assumes "codec_write_msg C p (Some key) m (d, k) = ((d', k'), Inr ())" "aead_ok C"
  shows "\<exists>c. codec_encrypt C d m = (d', Some c) \<and> length c = length m + 16 \<and>
    sent k' = sent k @ to_be 4 (unat (get_checksum_for_key (word_of_nat (length c)) key)) @
      to_be 4 (unat (word_of_nat (length c) :: 32 word)) @ c"
proof -
  obtain c where c: "codec_encrypt C d m = (d', Some c)"
    and w: "and_then (set_msg_len p (word_of_nat (length c)) (Some key) k) (\<lambda>k _.
               and_then (write_all MsgNetworkWriteCodecMsg (take (length m) c) k) (\<lambda>k _.
               write_all MsgNetworkWriteCodecTag (drop (length m) c) k)) = (k', Inr ())"
    using assms(1) by (auto simp: codec_write_msg_def split: prod.splits option.splits)
  have "length c = length m + 16"
    using c assms(2) by (auto simp: codec_encrypt_def aead_ok_def)
  with c w show ?thesis
    by (auto simp: set_msg_len_key and_then_eq_Inr dest!: write_all_Inr)
qed

lemma codec_write_open:
  assumes "codec_encrypt C d m = (d', Some c)" "room k = None"
  shows "codec_write_msg C p (Some key) m (d, k) =
    ((d', k\<lparr>sent := sent k @ to_be 4 (unat (get_checksum_for_key (word_of_nat (length c)) key)) @
      to_be 4 (unat (word_of_nat (length c) :: 32 word)) @ c\<rparr>), Inr ())"
  using assms by (simp add: codec_write_msg_def set_msg_len_key write_all_open)

lemma codec_read_frame:
  assumes "length c \<le> MAX_MSG_LEN" "codec_decrypt C d c = (d', Some m)"
  shows "codec_read_msg C p (Some key)
    (d, to_be 4 (unat (get_checksum_for_key (word_of_nat (length c)) key)) @
      to_be 4 (unat (word_of_nat (length c) :: 32 word)) @ c @ rest) = ((d', rest), Inr m)"
proof -
  have "unat (word_of_nat (length c) :: 32 word) = length c"
    using assms(1) by (simp add: unat_of_nat take_bit_eq_mod msg_len_defs)
  then show ?thesis
    using get_msg_len_header [OF assms(1), of p key "c @ rest"] assms(2)
    by (simp add: codec_read_msg_def normal_read_msg_def)
qed

lemma codec_read_Inr:
  assumes "codec_read_msg C p (Some key) (d, input) = ((d', rest), Inr m)"
  shows "\<exists>c. codec_decrypt C d c = (d', Some m) \<and> length c \<le> MAX_MSG_LEN \<and>
    input = to_be 4 (unat (get_checksum_for_key (word_of_nat (length c)) key)) @
      to_be 4 (unat (word_of_nat (length c) :: 32 word)) @ c @ rest"
proof -
  obtain c in1 where body: "normal_read_msg p (Some key) input = (in1, Inr c)"
    and dec: "codec_decrypt C d c = (d', Some m)" and r: "in1 = rest"
    using assms by (auto simp: codec_read_msg_def split: prod.splits sum.splits option.splits)
  from body obtain in2 n where len: "get_msg_len p (Some key) input = (in2, Inr n)"
    and c: "in2 = c @ rest" "length c = n"
    unfolding normal_read_msg_def r by (auto elim!: and_then_elim dest!: read_exactD)
  from len obtain cs in3 where cs: "read_uint MsgNetworkReadCheckSum 4 input = (in3, Inr cs)"
    and n: "read_uint MsgNetworkReadDatalen 4 in3 = (in2, Inr n)" "n \<le> MAX_MSG_LEN"
    and ok: "checksum_matches p (word_of_nat n) (word_of_nat cs) (Some key)"
    unfolding get_msg_len_def by (auto elim!: and_then_elim split: if_splits)
  from read_uintD [OF cs] read_uintD [OF n(1)]
  have input: "input = to_be 4 cs @ to_be 4 n @ c @ rest" and bounds: "cs < 2 ^ 32" "n < 2 ^ 32"
    using c by auto
  have "(word_of_nat cs :: 32 word) = get_checksum_for_key (word_of_nat n) key"
    using ok by (simp add: checksum_matches_def valid_checksum_for_key_def)
  then have "cs = unat (get_checksum_for_key (word_of_nat n) key)"
    using bounds(1) by (metis unat_word_of_nat32)
  moreover have "n = unat (word_of_nat n :: 32 word)"
    using bounds(2) by (simp add: unat_word_of_nat32)
  ultimately show ?thesis
    using input dec n(2) c by auto
qed

interpretation codec: framing "codec_write_msg C p (Some key)" "codec_read_msg C p (Some key)"
    "\<lambda>d e. aead_ok C \<and> d = e" "\<lambda>m. length m \<le> MAX_PLAINTEXT_LEN" for C p key
proof unfold_locales
  fix w r :: codec and m k w' k'
  assume pair: "aead_ok C \<and> w = r" and m: "length m \<le> MAX_PLAINTEXT_LEN"
    and put: "codec_write_msg C p (Some key) m (w, k) = ((w', k'), Inr ())"
  from codec_write_Inr [OF put] pair obtain c where c: "codec_encrypt C w m = (w', Some c)"
      "length c = length m + 16"
      "sent k' = sent k @ to_be 4 (unat (get_checksum_for_key (word_of_nat (length c)) key)) @
        to_be 4 (unat (word_of_nat (length c) :: 32 word)) @ c"
    by blast
  have "codec_decrypt C r c = (w', Some m)"
    using c(1) pair by (auto simp: codec_encrypt_def codec_decrypt_def aead_ok_def)
  moreover have "length c \<le> MAX_MSG_LEN"
    using c(2) m by (simp add: msg_len_defs)
  ultimately have "codec_read_msg C p (Some key)
      (r, to_be 4 (unat (get_checksum_for_key (word_of_nat (length c)) key)) @
        to_be 4 (unat (word_of_nat (length c) :: 32 word)) @ c @ rest) = ((w', rest), Inr m)" for rest
    by (rule codec_read_frame [rotated])
  then show "\<exists>bs. sent k' = sent k @ bs \<and>
      (\<forall>rest. \<exists>r'. codec_read_msg C p (Some key) (r, bs @ rest) = ((r', rest), Inr m) \<and> aead_ok C \<and> w' = r')"
    using c(3) pair by auto
qed

interpretation codec_exact: canonical_framing "codec_write_msg C p (Some key)" "codec_read_msg C p (Some key)"
    "\<lambda>d e. (aead_ok C \<and> d = e) \<and> aead_canonical C" "\<lambda>m. length m \<le> MAX_PLAINTEXT_LEN" for C p key
proof unfold_locales
  show "\<exists>bs. sent k' = sent k @ bs \<and> (\<forall>rest. \<exists>r'. codec_read_msg C p (Some key) (r, bs @ rest) =
      ((r', rest), Inr m) \<and> (aead_ok C \<and> w' = r') \<and> aead_canonical C)"
    if "(aead_ok C \<and> w = r) \<and> aead_canonical C" "length m \<le> MAX_PLAINTEXT_LEN"
      "codec_write_msg C p (Some key) m (w, k) = ((w', k'), Inr ())" for w r m k w' k'
    using codec.put_get [OF _ that(2,3)] that(1) by simp
next
  fix w r :: codec and input r' rest m and k :: sink
  assume pair: "(aead_ok C \<and> w = r) \<and> aead_canonical C" and k: "room k = None"
    and get: "codec_read_msg C p (Some key) (r, input) = ((r', rest), Inr m)"
  from codec_read_Inr [OF get] obtain c where c: "codec_decrypt C r c = (r', Some m)"
      "input = to_be 4 (unat (get_checksum_for_key (word_of_nat (length c)) key)) @
        to_be 4 (unat (word_of_nat (length c) :: 32 word)) @ c @ rest"
    by blast
  have "codec_encrypt C w m = (r', Some c)"
    using c(1) pair by (auto simp: codec_encrypt_def codec_decrypt_def aead_canonical_def)
  from codec_write_open [OF this k] c(2) pair
  show "\<exists>bs w'. input = bs @ rest \<and>
      codec_write_msg C p (Some key) m (w, k) = ((w', k\<lparr>sent := sent k @ bs\<rparr>), Inr ()) \<and>
      (aead_ok C \<and> w' = r') \<and> aead_canonical C"
    by (intro exI conjI) auto
qed

end
