(* ===== verification/Frame.thy ===== *)
theory Frame
  imports Wire
begin

text \<open>
  Protocol-v2 frames (\<^verbatim>\<open>pb-mapper-protocol/src/secure/frame.rs\<close> and the constants of
  \<^verbatim>\<open>secure.rs\<close>): key material of a connection, the clear prefix, and the counted,
  authenticated frames of each direction.  HKDF is extract and expand in one: the field \<open>hkdf\<close>
  takes the salt, the input key and the label.
\<close>

section \<open>Constants and key material\<close>

definition PROTOCOL_V2_MAGIC :: bytes where "PROTOCOL_V2_MAGIC = ascii ''PBM2''"
definition PROTOCOL_V2_VERSION :: u8 where "PROTOCOL_V2_VERSION = 2"
definition FIRST_PREFIX_REMAINDER_LEN :: nat where "FIRST_PREFIX_REMAINDER_LEN = 28"
definition DIRECTION_CLIENT_TO_SERVER :: u8 where "DIRECTION_CLIENT_TO_SERVER = 0"
definition DIRECTION_SERVER_TO_CLIENT :: u8 where "DIRECTION_SERVER_TO_CLIENT = 1"
definition MAX_INITIAL_PLAINTEXT_LEN :: nat where "MAX_INITIAL_PLAINTEXT_LEN = 64 * 1024"
definition MAX_INITIAL_CIPHERTEXT_LEN :: nat where
  "MAX_INITIAL_CIPHERTEXT_LEN = MAX_INITIAL_PLAINTEXT_LEN + 16"
definition TAG_LEN :: nat where "TAG_LEN = 16"

record v2_material =
  mat_key_id :: key_id
  mat_flags :: u8
  mat_salt :: bytes
  client_to_server :: bytes
  server_to_client :: bytes

definition expand_direction :: "'c crypto_scheme \<Rightarrow> bytes \<Rightarrow> bytes \<Rightarrow> string \<Rightarrow> wire_error + bytes" where
  "expand_direction C salt cred_key label =
     (case hkdf C salt cred_key (ascii label) of None \<Rightarrow> Inl MsgProtocol | Some key \<Rightarrow> Inr key)"

definition derive_material ::
  "'c crypto_scheme \<Rightarrow> key_id \<Rightarrow> bytes \<Rightarrow> bytes \<Rightarrow> wire_error + v2_material" where
  "derive_material C key_id cred_key salt_bytes =
     (case expand_direction C salt_bytes cred_key ''pb-mapper-v2-c2s'' of
        Inl e \<Rightarrow> Inl e
      | Inr c2s \<Rightarrow>
          (case expand_direction C salt_bytes cred_key ''pb-mapper-v2-s2c'' of
             Inl e \<Rightarrow> Inl e
           | Inr s2c \<Rightarrow>
               Inr \<lparr>mat_key_id = key_id, mat_flags = 0, mat_salt = salt_bytes,
                    client_to_server = c2s, server_to_client = s2c\<rparr>))"

definition direction_key :: "v2_material \<Rightarrow> u8 \<Rightarrow> bytes" where
  "direction_key m d = (if d = DIRECTION_CLIENT_TO_SERVER then client_to_server m else server_to_client m)"

definition first_prefix :: "v2_material \<Rightarrow> bytes" where
  "first_prefix m =
     PROTOCOL_V2_MAGIC @ [PROTOCOL_V2_VERSION] @ [mat_flags m] @ to_be 2 0 @
     key_id_to_be_bytes (mat_key_id m) @ mat_salt m"

definition frame_aad :: "v2_material \<Rightarrow> u8 \<Rightarrow> nat \<Rightarrow> nat \<Rightarrow> bytes" where
  "frame_aad m d counter datalen = first_prefix m @ [d] @ to_be 8 counter @ to_be 4 datalen"

definition frame_nonce :: "nat \<Rightarrow> bytes" where
  "frame_nonce counter = replicate 4 0 @ to_be 8 counter"

section \<open>Reading\<close>

record v2_end =
  end_material :: v2_material
  end_direction :: u8
  end_counter :: nat

definition v2_end_new :: "v2_material \<Rightarrow> u8 \<Rightarrow> nat \<Rightarrow> v2_end" where
  "v2_end_new m d counter = \<lparr>end_material = m, end_direction = d, end_counter = counter\<rparr>"

text \<open>The length is bounded before the body's buffer is allocated.\<close>

definition read_v2_frame :: "nat \<Rightarrow> nat \<Rightarrow> bytes \<Rightarrow> bytes \<times> (wire_error + nat \<times> bytes)" where
  "read_v2_frame expected_counter max_plaintext_len input =
     and_then (read_uint MsgProtocol 8 input) (\<lambda>input counter.
     if counter \<noteq> expected_counter then (input, Inl MsgProtocol)
     else and_then (read_uint MsgProtocol 4 input) (\<lambda>input datalen.
     if datalen < TAG_LEN \<or> min (max_plaintext_len + TAG_LEN) u32_max < datalen
     then (input, Inl MsgProtocol)
     else and_then (read_exact MsgProtocol datalen input) (\<lambda>input ciphertext.
     (input, Inr (counter, ciphertext)))))"

definition open_v2_payload ::
  "'c crypto_scheme \<Rightarrow> v2_material \<Rightarrow> u8 \<Rightarrow> nat \<Rightarrow> bytes \<Rightarrow> wire_error + bytes" where
  "open_v2_payload C m d counter ciphertext =
     (if u32_max < length ciphertext then Inl MsgProtocol
      else case aead_open C (direction_key m d) (frame_nonce counter)
                  (frame_aad m d counter (length ciphertext)) ciphertext of
        None \<Rightarrow> Inl MsgProtocol | Some plain \<Rightarrow> Inr plain)"

definition read_msg_with_limit ::
  "'c crypto_scheme \<Rightarrow> nat \<Rightarrow> v2_end \<times> bytes \<Rightarrow> (v2_end \<times> bytes) \<times> (wire_error + bytes)" where
  "read_msg_with_limit C max_plaintext_len = (\<lambda>(r, input).
     case read_v2_frame (end_counter r) max_plaintext_len input of
       (input, Inl e) \<Rightarrow> ((r, input), Inl e)
     | (input, Inr (counter, ciphertext)) \<Rightarrow>
         (case open_v2_payload C (end_material r) (end_direction r) counter ciphertext of
            Inl e \<Rightarrow> ((r, input), Inl e)
          | Inr plain \<Rightarrow>
              if u64_max < end_counter r + 1 then ((r, input), Inl MsgProtocol)
              else ((r\<lparr>end_counter := end_counter r + 1\<rparr>, input), Inr plain)))"

definition v2_read_msg ::
  "'c crypto_scheme \<Rightarrow> v2_end \<times> bytes \<Rightarrow> (v2_end \<times> bytes) \<times> (wire_error + bytes)" where
  "v2_read_msg C = read_msg_with_limit C (MAX_MSG_LEN - TAG_LEN)"

section \<open>Writing\<close>

definition v2_write_msg ::
  "'c crypto_scheme \<Rightarrow> bytes \<Rightarrow> v2_end \<times> sink \<Rightarrow> (v2_end \<times> sink) \<times> (wire_error + unit)" where
  "v2_write_msg C message = (\<lambda>(w, k).
     let encrypted_len = length message + TAG_LEN; counter = end_counter w in
     if u32_max < encrypted_len \<or> MAX_MSG_LEN < encrypted_len then ((w, k), Inl MsgProtocol)
     else case aead_seal C (direction_key (end_material w) (end_direction w)) (frame_nonce counter)
                 (frame_aad (end_material w) (end_direction w) counter encrypted_len) message of
       None \<Rightarrow> ((w, k), Inl MsgProtocol)
     | Some encrypted \<Rightarrow>
         (case and_then (write_all MsgProtocol (to_be 8 counter) k) (\<lambda>k _.
               and_then (write_all MsgProtocol (to_be 4 encrypted_len) k) (\<lambda>k _.
               write_all MsgProtocol encrypted k)) of
            (k, Inl e) \<Rightarrow> ((w, k), Inl e)
          | (k, Inr _) \<Rightarrow>
              if u64_max < counter + 1 then ((w, k), Inl MsgProtocol)
              else ((w\<lparr>end_counter := counter + 1\<rparr>, k), Inr ())))"

section \<open>Frames on the wire\<close>

definition frame_bytes :: "nat \<Rightarrow> bytes \<Rightarrow> bytes" where
  "frame_bytes counter c = to_be 8 counter @ to_be 4 (length c) @ c"

definition fits_limit :: "nat \<Rightarrow> nat \<Rightarrow> bool" where
  "fits_limit limit n \<longleftrightarrow> TAG_LEN \<le> n \<and> n \<le> limit + TAG_LEN \<and> n \<le> u32_max"

lemma read_v2_frame_accepts:
  assumes "fits_limit limit (length c)" "counter \<le> u64_max"
  shows "read_v2_frame counter limit (frame_bytes counter c @ rest) = (rest, Inr (counter, c))"
  using assms by (simp add: read_v2_frame_def frame_bytes_def fits_limit_def u64_max_def u32_max_def not_less)

lemma read_v2_frameD:
  assumes "read_v2_frame expected limit input = (rest, Inr (counter, c))"
  shows "counter = expected \<and> expected \<le> u64_max \<and> fits_limit limit (length c) \<and>
    input = frame_bytes expected c @ rest"
proof -
  from assms obtain in1 in2 datalen where
      r: "read_uint MsgProtocol 8 input = (in1, Inr expected)" "counter = expected"
        "read_uint MsgProtocol 4 in1 = (in2, Inr datalen)"
        "read_exact MsgProtocol datalen in2 = (rest, Inr c)"
      and n: "TAG_LEN \<le> datalen" "\<not> min (limit + TAG_LEN) u32_max < datalen"
    unfolding read_v2_frame_def by (auto elim!: and_then_elim split: if_splits)
  from read_uintD [OF r(1)] read_uintD [OF r(3)] read_exactD [OF r(4)] n show ?thesis
    using r(2) by (simp add: frame_bytes_def fits_limit_def u64_max_def not_less)
qed

text \<open>A frame is written exactly when the message is small enough, the cipher seals it and the counter is not the last.\<close>

lemma v2_write_Inr:
  assumes "v2_write_msg C m (w, k) = ((w', k'), Inr ())"
  shows "\<exists>c. aead_seal C (direction_key (end_material w) (end_direction w)) (frame_nonce (end_counter w))
      (frame_aad (end_material w) (end_direction w) (end_counter w) (length m + TAG_LEN)) m = Some c \<and>
    sent k' = sent k @ to_be 8 (end_counter w) @ to_be 4 (length m + TAG_LEN) @ c \<and>
    end_counter w < u64_max \<and> w' = w\<lparr>end_counter := end_counter w + 1\<rparr> \<and> length m \<le> MAX_PLAINTEXT_LEN"
  using assms
  by (auto simp: v2_write_msg_def Let_def and_then_eq_Inr msg_len_defs TAG_LEN_def
      split: option.splits prod.splits sum.splits if_splits dest!: write_all_Inr)

lemma v2_write_open:
  assumes "aead_seal C (direction_key (end_material w) (end_direction w)) (frame_nonce (end_counter w))
      (frame_aad (end_material w) (end_direction w) (end_counter w) (length m + TAG_LEN)) m = Some c"
    and "length m \<le> MAX_PLAINTEXT_LEN" "end_counter w < u64_max" "room k = None"
  shows "v2_write_msg C m (w, k) = ((w\<lparr>end_counter := end_counter w + 1\<rparr>,
    k\<lparr>sent := sent k @ to_be 8 (end_counter w) @ to_be 4 (length m + TAG_LEN) @ c\<rparr>), Inr ())"
  using assms by (simp add: v2_write_msg_def Let_def write_all_open msg_len_defs TAG_LEN_def u32_max_def)

lemma read_limit_Inr:
  assumes "read_msg_with_limit C limit (r, input) = ((r', rest), Inr m)"
  shows "\<exists>c. aead_open C (direction_key (end_material r) (end_direction r)) (frame_nonce (end_counter r))
      (frame_aad (end_material r) (end_direction r) (end_counter r) (length c)) c = Some m \<and>
    input = frame_bytes (end_counter r) c @ rest \<and> fits_limit limit (length c) \<and>
    end_counter r < u64_max \<and> r' = r\<lparr>end_counter := end_counter r + 1\<rparr>"
proof -
  from assms obtain in1 counter c where
      f: "read_v2_frame (end_counter r) limit input = (in1, Inr (counter, c))"
      and p: "open_v2_payload C (end_material r) (end_direction r) counter c = Inr m"
      and u: "in1 = rest" "end_counter r < u64_max" "r' = r\<lparr>end_counter := end_counter r + 1\<rparr>"
    by (auto simp: read_msg_with_limit_def split: prod.splits sum.splits if_splits)
  from read_v2_frameD [OF f] p u show ?thesis
    by (auto simp: open_v2_payload_def split: option.splits if_splits)
qed

lemma read_limit_accepts:
  assumes "aead_open C (direction_key (end_material r) (end_direction r)) (frame_nonce (end_counter r))
      (frame_aad (end_material r) (end_direction r) (end_counter r) (length c)) c = Some m"
    and "fits_limit limit (length c)" "end_counter r < u64_max"
  shows "read_msg_with_limit C limit (r, frame_bytes (end_counter r) c @ rest) =
    ((r\<lparr>end_counter := end_counter r + 1\<rparr>, rest), Inr m)"
  using assms read_v2_frame_accepts [OF assms(2), of "end_counter r" rest]
  by (simp add: read_msg_with_limit_def open_v2_payload_def fits_limit_def)

interpretation v2: framing "v2_write_msg C" "v2_read_msg C" "\<lambda>w r. aead_ok C \<and> w = r" "\<lambda>m. True" for C
proof unfold_locales
  fix w r :: v2_end and m k w' k'
  assume pair: "aead_ok C \<and> w = r" and put: "v2_write_msg C m (w, k) = ((w', k'), Inr ())"
  from v2_write_Inr [OF put] obtain c where c:
      "aead_seal C (direction_key (end_material w) (end_direction w)) (frame_nonce (end_counter w))
        (frame_aad (end_material w) (end_direction w) (end_counter w) (length m + TAG_LEN)) m = Some c"
      "sent k' = sent k @ to_be 8 (end_counter w) @ to_be 4 (length m + TAG_LEN) @ c"
      "end_counter w < u64_max" "w' = w\<lparr>end_counter := end_counter w + 1\<rparr>" "length m \<le> MAX_PLAINTEXT_LEN"
    by blast
  from c(1) pair have len: "length c = length m + TAG_LEN" and opens:
      "aead_open C (direction_key (end_material w) (end_direction w)) (frame_nonce (end_counter w))
        (frame_aad (end_material w) (end_direction w) (end_counter w) (length c)) c = Some m"
    by (auto simp: aead_ok_def TAG_LEN_def)
  have "fits_limit (MAX_MSG_LEN - TAG_LEN) (length c)"
    using len c(5) by (simp add: fits_limit_def msg_len_defs TAG_LEN_def u32_max_def)
  from read_limit_accepts [OF opens this c(3)] c(2,4) len pair
  show "\<exists>bs. sent k' = sent k @ bs \<and>
      (\<forall>rest. \<exists>r'. v2_read_msg C (r, bs @ rest) = ((r', rest), Inr m) \<and> aead_ok C \<and> w' = r')"
    by (auto simp: v2_read_msg_def frame_bytes_def)
qed

interpretation v2_exact: canonical_framing "v2_write_msg C" "v2_read_msg C"
    "\<lambda>w r. (aead_ok C \<and> w = r) \<and> aead_canonical C" "\<lambda>m. True" for C
proof unfold_locales
  show "\<exists>bs. sent k' = sent k @ bs \<and> (\<forall>rest. \<exists>r'. v2_read_msg C (r, bs @ rest) =
      ((r', rest), Inr m) \<and> (aead_ok C \<and> w' = r') \<and> aead_canonical C)"
    if "(aead_ok C \<and> w = r) \<and> aead_canonical C" "True" "v2_write_msg C m (w, k) = ((w', k'), Inr ())"
    for w r m k w' k'
    using v2.put_get [OF _ _ that(3)] that(1) by simp
next
  fix w r :: v2_end and input r' rest m and k :: sink
  assume pair: "(aead_ok C \<and> w = r) \<and> aead_canonical C" and k: "room k = None"
    and get: "v2_read_msg C (r, input) = ((r', rest), Inr m)"
  from read_limit_Inr [OF get [unfolded v2_read_msg_def]] obtain c where c:
      "aead_open C (direction_key (end_material r) (end_direction r)) (frame_nonce (end_counter r))
        (frame_aad (end_material r) (end_direction r) (end_counter r) (length c)) c = Some m"
      "input = frame_bytes (end_counter r) c @ rest" "fits_limit (MAX_MSG_LEN - TAG_LEN) (length c)"
      "end_counter r < u64_max" "r' = r\<lparr>end_counter := end_counter r + 1\<rparr>"
    by blast
  from c(1) pair have seal: "aead_seal C (direction_key (end_material w) (end_direction w))
      (frame_nonce (end_counter w)) (frame_aad (end_material w) (end_direction w) (end_counter w) (length c)) m = Some c"
    by (auto simp: aead_canonical_def)
  then have len: "length c = length m + TAG_LEN"
    using pair by (auto simp: aead_ok_def TAG_LEN_def)
  have small: "length m \<le> MAX_PLAINTEXT_LEN"
    using c(3) len by (simp add: fits_limit_def msg_len_defs TAG_LEN_def)
  from v2_write_open [OF seal [unfolded len] small _ k] c pair len
  show "\<exists>bs w'. input = bs @ rest \<and> v2_write_msg C m (w, k) = ((w', k\<lparr>sent := sent k @ bs\<rparr>), Inr ()) \<and>
      (aead_ok C \<and> w' = r') \<and> aead_canonical C"
    by (auto simp: frame_bytes_def)
qed

end
