(* ===== verification/Bloom.thy ===== *)
theory Bloom
  imports Ids
begin

text \<open>
  The duplicate filter of the first flights (\<^verbatim>\<open>pb-mapper-protocol/src/secure/replay.rs\<close>): a
  Bloom filter over bytes, and the pair of filters that rotates with time.  The locale
  \<open>window_filter\<close> is what the rotation needs of a filter: an inserted element is found, and
  stays found while others are inserted.  The Bloom filter interprets it.
\<close>

unbundle bit_operations_syntax

section \<open>One filter\<close>

definition bloom_positions :: "nat \<Rightarrow> bytes \<Rightarrow> nat list" where
  "bloom_positions filter_len fingerprint =
     map (\<lambda>index. from_be (take 8 (drop (index * 8) fingerprint)) mod (filter_len * 8)) [0..<4]"

definition bloom_contains :: "bytes \<Rightarrow> bytes \<Rightarrow> bool" where
  "bloom_contains filt fingerprint =
     list_all (\<lambda>p. filt ! (p div 8) AND push_bit (p mod 8) 1 \<noteq> 0)
       (bloom_positions (length filt) fingerprint)"

definition set_position :: "nat \<Rightarrow> bytes \<Rightarrow> bytes" where
  "set_position p filt = filt[p div 8 := filt ! (p div 8) OR push_bit (p mod 8) 1]"

definition bloom_insert :: "bytes \<Rightarrow> bytes \<Rightarrow> bytes" where
  "bloom_insert filt fingerprint = fold set_position (bloom_positions (length filt) fingerprint) filt"

definition bloom_empty :: "nat \<Rightarrow> bytes" where
  "bloom_empty n = replicate n 0"

section \<open>Two filters that rotate\<close>

record 'f rotating =
  rb_current :: 'f
  rb_previous :: 'f
  rb_started_at :: nat
  rb_window :: nat

text \<open>
  The rotation is written over any filter \<open>blank\<close>; the program's is a vector of zero bytes of the
  filter's length.
\<close>

definition rotate_window :: "'f \<Rightarrow> nat \<Rightarrow> 'f rotating \<Rightarrow> 'f rotating" where
  "rotate_window blank now b =
     (let elapsed = now - rb_started_at b in
      if elapsed < rb_window b then b
      else if sat_mul (rb_window b) 2 \<le> elapsed
      then b\<lparr>rb_current := blank, rb_previous := blank, rb_started_at := now\<rparr>
      else b\<lparr>rb_current := blank, rb_previous := rb_current b, rb_started_at := now\<rparr>)"

locale window_filter =
  fixes blank :: 'f
    and inserted :: "'f \<Rightarrow> 'x \<Rightarrow> 'f"
    and found :: "'f \<Rightarrow> 'x \<Rightarrow> bool"
    and sized :: "'f \<Rightarrow> bool"
  assumes sized_blank: "sized blank"
    and sized_inserted: "sized f \<Longrightarrow> sized (inserted f x)"
    and found_inserted: "sized f \<Longrightarrow> found (inserted f x) x"
    and found_other: "sized f \<Longrightarrow> found f y \<Longrightarrow> found (inserted f x) y"
begin

definition seen :: "'x \<Rightarrow> 'f rotating \<Rightarrow> bool" where
  "seen x b \<longleftrightarrow> found (rb_current b) x \<or> found (rb_previous b) x"

definition remember :: "nat \<Rightarrow> 'x \<Rightarrow> 'f rotating \<Rightarrow> 'f rotating" where
  "remember now x b = (let b = rotate_window blank now b in b\<lparr>rb_current := inserted (rb_current b) x\<rparr>)"

definition both_sized :: "'f rotating \<Rightarrow> bool" where
  "both_sized b \<longleftrightarrow> sized (rb_current b) \<and> sized (rb_previous b)"

text \<open>
  \<open>x\<close> was inserted at a time \<open>t\<close>: it is in the current filter and \<open>t\<close> is before the end of the
  current window, or in the previous filter and \<open>t\<close> is before its start.
\<close>

definition holds_until :: "nat \<Rightarrow> 'x \<Rightarrow> 'f rotating \<Rightarrow> bool" where
  "holds_until t x b \<longleftrightarrow> both_sized b \<and>
     (found (rb_current b) x \<and> t < rb_started_at b + rb_window b \<or>
      found (rb_previous b) x \<and> t < rb_started_at b)"

lemma both_sized_rotate: "both_sized b \<Longrightarrow> both_sized (rotate_window blank now b)"
  by (simp add: both_sized_def rotate_window_def Let_def sized_blank)

lemma window_rotate [simp]: "rb_window (rotate_window blank now b) = rb_window b"
  by (simp add: rotate_window_def Let_def)

lemma both_sized_remember: "both_sized b \<Longrightarrow> both_sized (remember now x b)"
  using both_sized_rotate [of b now] by (simp add: both_sized_def remember_def Let_def sized_inserted)

lemma window_remember [simp]: "rb_window (remember now x b) = rb_window b"
  by (simp add: remember_def Let_def)

text \<open>An element survives every rotation up to a window after its insertion.\<close>

lemma holds_rotate:
  assumes "holds_until t x b" "now \<le> t + rb_window b" "0 < rb_window b" "2 * rb_window b \<le> u64_max"
  shows "holds_until t x (rotate_window blank now b)"
proof (cases "now - rb_started_at b < rb_window b")
  case True
  then show ?thesis
    using assms(1) by (simp add: rotate_window_def)
next
  case False
  then have late: "rb_started_at b + rb_window b \<le> now"
    using assms(3) by linarith
  have cur: "found (rb_current b) x" "t < rb_started_at b + rb_window b"
    using assms(1,2) late by (auto simp: holds_until_def)
  have "\<not> sat_mul (rb_window b) 2 \<le> now - rb_started_at b"
    using assms(2,4) cur(2) late by (simp add: sat_mul_def mult.commute)
  then show ?thesis
    using assms(1) False cur late by (simp add: rotate_window_def holds_until_def both_sized_def sized_blank)
qed

lemma holds_remember_other:
  assumes "holds_until t x b" "now \<le> t + rb_window b" "0 < rb_window b" "2 * rb_window b \<le> u64_max"
  shows "holds_until t x (remember now y b)"
  using holds_rotate [OF assms]
  by (auto simp: remember_def holds_until_def both_sized_def Let_def sized_inserted found_other)

lemma holds_remember:
  assumes "both_sized b" "0 < rb_window b"
  shows "holds_until now x (remember now x b)"
proof -
  have "now < rb_started_at (rotate_window blank now b) + rb_window b"
    using assms(2) by (auto simp: rotate_window_def Let_def)
  then show ?thesis
    using both_sized_rotate [OF assms(1), of now]
    by (simp add: remember_def holds_until_def both_sized_def Let_def sized_inserted found_inserted)
qed

lemma holds_seen: "holds_until t x b \<Longrightarrow> seen x b"
  by (auto simp: holds_until_def seen_def)

end

section \<open>The Bloom filter is such a filter\<close>

lemma length_set_position [simp]: "length (set_position p f) = length f"
  by (simp add: set_position_def)

lemma length_fold_set_position [simp]: "length (fold set_position ps f) = length f"
  by (induction ps arbitrary: f) auto

lemma length_bloom_insert [simp]: "length (bloom_insert f x) = length f"
  by (simp add: bloom_insert_def)

text \<open>A bit of the filter, by position.\<close>

definition bit_at :: "bytes \<Rightarrow> nat \<Rightarrow> bool" where
  "bit_at f p \<longleftrightarrow> bit (f ! (p div 8)) (p mod 8)"

lemma bloom_contains_bits:
  "bloom_contains f x \<longleftrightarrow> (\<forall>p\<in>set (bloom_positions (length f) x). bit_at f p)"
  by (simp add: bloom_contains_def list_all_iff and_exp_eq_0_iff_not_bit bit_at_def)

lemma bit_at_set_position:
  assumes "q div 8 < length f"
  shows "bit_at (set_position p f) q \<longleftrightarrow> q = p \<or> bit_at f q"
proof (cases "q div 8 = p div 8")
  case True
  then have "q = p \<longleftrightarrow> q mod 8 = p mod 8"
    by (metis mod_div_decomp)
  then show ?thesis
    using True assms by (auto simp: bit_at_def set_position_def bit_simps)
qed (auto simp: bit_at_def set_position_def)

lemma bit_at_fold:
  assumes "q div 8 < length f"
  shows "bit_at (fold set_position ps f) q \<longleftrightarrow> q \<in> set ps \<or> bit_at f q"
  using assms by (induction ps arbitrary: f) (auto simp: bit_at_set_position)

lemma position_in_range:
  assumes "p \<in> set (bloom_positions n x)" "0 < n"
  shows "p div 8 < n"
  using assms by (auto simp: bloom_positions_def intro!: less_mult_imp_div_less)

lemma bloom_contains_insert:
  assumes "0 < length f"
  shows "bloom_contains (bloom_insert f x) y \<longleftrightarrow>
    (\<forall>p\<in>set (bloom_positions (length f) y). p \<in> set (bloom_positions (length f) x) \<or> bit_at f p)"
  using assms position_in_range by (auto simp: bloom_contains_bits bloom_insert_def bit_at_fold)

definition filter_sized :: "nat \<Rightarrow> bytes \<Rightarrow> bool" where
  "filter_sized n f \<longleftrightarrow> length f = Suc n"

interpretation bloom: window_filter "bloom_empty (Suc n)" bloom_insert bloom_contains "filter_sized n" for n
proof unfold_locales
  show "filter_sized n (bloom_empty (Suc n))"
    by (simp add: filter_sized_def bloom_empty_def)
  show "filter_sized n f \<Longrightarrow> filter_sized n (bloom_insert f x)" for f x
    by (simp add: filter_sized_def)
  show "filter_sized n f \<Longrightarrow> bloom_contains (bloom_insert f x) x" for f x
    by (subst bloom_contains_insert) (auto simp: filter_sized_def)
  show "filter_sized n f \<Longrightarrow> bloom_contains f y \<Longrightarrow> bloom_contains (bloom_insert f x) y" for f x y
    by (subst bloom_contains_insert) (auto simp: filter_sized_def bloom_contains_bits)
qed

end
