(* ===== verification/AuthConfig.thy ===== *)
theory AuthConfig
  imports AuthTypes Credential
begin

text \<open>
  Configuration from the environment (\<^verbatim>\<open>pb-mapper-auth/src/config.rs\<close>).  A variable
  is absent, present but not UTF-8, or text; \<open>Some None\<close> is the middle case.  The choice of the
  state directory, which asks the platform, is not modelled.
\<close>

type_synonym environment = "string \<Rightarrow> bytes option option"

definition DEFAULT_TEMP_KEY_CAPACITY :: nat where "DEFAULT_TEMP_KEY_CAPACITY = 65536"
definition MAX_TEMP_KEY_CAPACITY :: nat where "MAX_TEMP_KEY_CAPACITY = 1048576"
definition DEFAULT_MAX_TEMP_KEY_TTL :: nat where "DEFAULT_MAX_TEMP_KEY_TTL = 30 * 24 * 60 * 60"

text \<open>
  \<^verbatim>\<open>FromStr\<close> of the unsigned integers: an optional plus sign and decimal digits, at least one, whose
  value does not exceed the type's maximum.
\<close>

definition is_ascii_digit :: "u8 \<Rightarrow> bool" where
  "is_ascii_digit b \<longleftrightarrow> 48 \<le> b \<and> b \<le> 57"

definition parse_digits :: "nat \<Rightarrow> bytes \<Rightarrow> nat option" where
  "parse_digits max_value bs =
     (if bs \<noteq> [] \<and> list_all is_ascii_digit bs then
        let n = foldl (\<lambda>acc b. acc * 10 + (unat b - 48)) 0 bs
        in if n \<le> max_value then Some n else None
      else None)"

definition parse_unsigned :: "nat \<Rightarrow> bytes \<Rightarrow> nat option" where
  "parse_unsigned max_value bs =
     (case bs of b # rest \<Rightarrow> if b = 43 then parse_digits max_value rest else parse_digits max_value bs
      | [] \<Rightarrow> None)"

definition env_bounded :: "environment \<Rightarrow> string \<Rightarrow> nat \<Rightarrow> nat \<Rightarrow> nat \<Rightarrow> nat" where
  "env_bounded env name fallback lo hi =
     (case env name of
        None \<Rightarrow> fallback
      | Some None \<Rightarrow> fallback
      | Some (Some raw) \<Rightarrow>
          (case parse_unsigned u64_max raw of
             Some value \<Rightarrow> if lo \<le> value \<and> value \<le> hi then value else fallback
           | None \<Rightarrow> fallback))"

definition parse_legacy_protocol_policy :: "bytes \<Rightarrow> legacy_policy option" where
  "parse_legacy_protocol_policy value =
     (let v = to_ascii_lowercase (trim value)
      in if v = ascii ''allow'' then Some Allow else if v = ascii ''deny'' then Some Deny else None)"

definition legacy_protocol_from_env :: "environment \<Rightarrow> legacy_policy" where
  "legacy_protocol_from_env env =
     (case env ''PB_MAPPER_LEGACY_PROTOCOL'' of
        None \<Rightarrow> Allow
      | Some None \<Rightarrow> Deny
      | Some (Some value) \<Rightarrow>
          (case parse_legacy_protocol_policy value of Some p \<Rightarrow> p | None \<Rightarrow> Deny))"

definition default_auth_config :: "environment \<Rightarrow> auth_config" where
  "default_auth_config env =
     \<lparr>max_temporary_keys =
        env_bounded env ''PB_MAPPER_AUTH_MAX_TEMP_KEYS'' DEFAULT_TEMP_KEY_CAPACITY 1 MAX_TEMP_KEY_CAPACITY,
      max_temporary_key_ttl =
        from_secs (env_bounded env ''PB_MAPPER_AUTH_MAX_TEMP_TTL_SECS''
                     DEFAULT_MAX_TEMP_KEY_TTL MIN_TEMP_KEY_TTL MAX_TEMP_KEY_TTL),
      cfg_legacy_protocol = legacy_protocol_from_env env\<rparr>"

lemma env_bounded_range:
  assumes "lo \<le> fallback" "fallback \<le> hi"
  shows "lo \<le> env_bounded env name fallback lo hi \<and> env_bounded env name fallback lo hi \<le> hi"
  using assms by (auto simp: env_bounded_def split: option.split)

end
