(* ===== verification/Replay.thy ===== *)
theory Replay
  imports Bloom AuthStore AuthConfig
begin

text \<open>
  The admission guard for first flights (\<^verbatim>\<open>secure/replay.rs\<close>): the rotating filter, the budgets
  per credential and in total, and the durable log that lets a restarted relay remember what it had
  admitted.  The log lives in the same directory, on the same operating system, as the
  authentication state.  An operation takes the guard and the operating system and returns both.
\<close>

section \<open>Constants and types\<close>

definition CONNECTION_SALT_LEN :: nat where "CONNECTION_SALT_LEN = 16"
definition DEFAULT_NEW_STREAMS_PER_SECOND :: nat where "DEFAULT_NEW_STREAMS_PER_SECOND = 100"
definition REPLAY_RECORD_LEN :: nat where "REPLAY_RECORD_LEN = 40"
definition REPLAY_COMPACT_INTERVAL_SECONDS :: nat where "REPLAY_COMPACT_INTERVAL_SECONDS = 60"

datatype first_flight_admit = Fresh | Replayed | Limited | Unavailable

definition replay_fingerprint :: "'c crypto_scheme \<Rightarrow> key_id \<Rightarrow> bytes \<Rightarrow> bytes" where
  "replay_fingerprint C key_id salt = sha256 C (key_id_to_be_bytes key_id @ salt)"

text \<open>Saturating \<^verbatim>\<open>u32\<close> arithmetic.\<close>

definition mul32 :: "nat \<Rightarrow> nat \<Rightarrow> nat" where
  "mul32 a b = min (a * b) u32_max"

definition first_flight_budget :: "environment \<Rightarrow> nat \<Rightarrow> nat" where
  "first_flight_budget env window_seconds =
     (let streams_per_sec =
            min (case env ''PB_MAPPER_NEW_STREAMS_PER_SECOND'' of
                   Some (Some value) \<Rightarrow>
                     (case parse_unsigned u32_max value of
                        Some n \<Rightarrow> if 0 < n then n else DEFAULT_NEW_STREAMS_PER_SECOND
                      | None \<Rightarrow> DEFAULT_NEW_STREAMS_PER_SECOND)
                 | _ \<Rightarrow> DEFAULT_NEW_STREAMS_PER_SECOND) 1000000;
          window = min window_seconds u32_max
      in max (mul32 (mul32 (mul32 streams_per_sec 2) window) 2) 8192)"

definition bloom_insert_capacity :: "nat \<Rightarrow> nat" where
  "bloom_insert_capacity bs = max (min (sat_mul bs 8 div 16) u32_max) 1"

section \<open>The rotating filter\<close>

type_synonym rotating_bloom = "bytes rotating"

definition bloom_new :: "nat \<Rightarrow> nat \<Rightarrow> nat \<Rightarrow> rotating_bloom" where
  "bloom_new bs window_seconds now =
     \<lparr>rb_current = bloom_empty bs, rb_previous = bloom_empty bs, rb_started_at = now,
      rb_window = window_seconds\<rparr>"

definition bloom_rotate :: "nat \<Rightarrow> rotating_bloom \<Rightarrow> rotating_bloom" where
  "bloom_rotate now b = rotate_window (bloom_empty (length (rb_current b))) now b"

definition bloom_check :: "bytes \<Rightarrow> nat \<Rightarrow> rotating_bloom \<Rightarrow> rotating_bloom \<times> bool" where
  "bloom_check fingerprint now b =
     (let b = bloom_rotate now b
      in (b, bloom_contains (rb_current b) fingerprint \<or> bloom_contains (rb_previous b) fingerprint))"

definition bloom_add :: "bytes \<Rightarrow> nat \<Rightarrow> rotating_bloom \<Rightarrow> rotating_bloom" where
  "bloom_add fingerprint now b =
     (let b = bloom_rotate now b in b\<lparr>rb_current := bloom_insert (rb_current b) fingerprint\<rparr>)"

section \<open>The guard\<close>

record guard =
  g_bloom :: rotating_bloom
  g_counts :: "key_id \<Rightarrow> nat option"
  counts_started_at :: nat
  window_seconds :: nat
  max_per_key :: nat
  total :: nat
  total_started_at :: nat
  max_total :: nat
  log_path :: "string option"
  last_compact_at :: nat
  log_failed :: bool

definition io_error :: auth_failure where "io_error = fail ''io_error'' False"

definition replay_record :: "bytes \<Rightarrow> nat \<Rightarrow> bytes" where
  "replay_record fingerprint now = fingerprint @ to_be 8 now"

definition record_time :: "bytes \<Rightarrow> nat" where
  "record_time r = from_be (drop 32 r)"

definition append_record :: "string \<Rightarrow> bytes \<Rightarrow> 'a os_scheme \<Rightarrow> 'a os_scheme \<times> bool" where
  "append_record path r st =
     (case append_bytes path r st of (st, False) \<Rightarrow> (st, False) | (st, True) \<Rightarrow> sync_data st)"

text \<open>Opening the log for an append: whether it was created, and its length.\<close>

definition open_log :: "string \<Rightarrow> 'a os_scheme \<Rightarrow> 'a os_scheme \<times> (bool \<times> nat) res" where
  "open_log path st =
     and_then (io_call io_error st) (\<lambda>st _.
     let created = \<not> file_exists st path in
     and_then (open_create io_error path st) (\<lambda>st _.
     and_then (io_call io_error st) (\<lambda>st _. (st, Inr (created, length (file_data st path))))))"

definition persist :: "bytes \<Rightarrow> nat \<Rightarrow> guard \<times> 'a os_scheme \<Rightarrow> (guard \<times> 'a os_scheme) \<times> bool" where
  "persist fingerprint now = (\<lambda>(g, st).
     if log_failed g then ((g, st), False)
     else case log_path g of
       None \<Rightarrow> ((g, st), True)
     | Some path \<Rightarrow>
         (case open_log path st of
            (st, Inl e) \<Rightarrow> ((g, st), False)
          | (st, Inr (created, start_len)) \<Rightarrow>
              (case append_record path (replay_record fingerprint now) st of
                 (st, False) \<Rightarrow>
                   (case roll_back path start_len st of
                      (st, True) \<Rightarrow> ((g, st), False)
                    | (st, False) \<Rightarrow> ((g\<lparr>log_failed := True\<rparr>, st), False))
               | (st, True) \<Rightarrow>
                   if created then
                     (case io_call io_error st of
                        (st, Inl e) \<Rightarrow> ((g\<lparr>log_failed := True\<rparr>, st), False)
                      | (st, Inr _) \<Rightarrow> ((g, st), True))
                   else ((g, st), True))))"

text \<open>A record is read in one call; a short one ends the load with an error.\<close>

function read_complete ::
  "bytes \<Rightarrow> bytes list \<Rightarrow> 'a os_scheme \<Rightarrow> 'a os_scheme \<times> bytes list res" where
  "read_complete bs acc st =
     (case sys st of
        (st, IoErr n) \<Rightarrow> (st, Inl io_error)
      | (st, IoOk) \<Rightarrow>
          if bs = [] then (st, Inr (rev acc))
          else if length bs < REPLAY_RECORD_LEN then (st, Inl io_error)
          else read_complete (drop REPLAY_RECORD_LEN bs) (take REPLAY_RECORD_LEN bs # acc) st)"
  by pat_completeness auto
termination
  by (relation "measure (\<lambda>(bs, acc, st). length bs)") (auto simp: REPLAY_RECORD_LEN_def)

declare read_complete.simps [simp del]

definition read_complete_replay_records :: "string \<Rightarrow> 'a os_scheme \<Rightarrow> 'a os_scheme \<times> bytes list res" where
  "read_complete_replay_records path st =
     and_then (read_file io_error path st) (\<lambda>st bs. read_complete bs [] st)"

definition rewrite_live :: "bytes list \<Rightarrow> guard \<Rightarrow> 'a os_scheme \<Rightarrow> 'a os_scheme \<times> unit res" where
  "rewrite_live live g st =
     (case log_path g of
        None \<Rightarrow> (st, Inr ())
      | Some path \<Rightarrow>
          (let (st, random_suffix) = random_bytes 8 st;
               r = and_then (io_call io_error st) (\<lambda>st _.
                   and_then (io_call io_error st) (\<lambda>st _.
                   and_then (io_call io_error st) (\<lambda>st _.
                   and_then (io_call io_error st) (\<lambda>st _.
                   io_call io_error (put_file path (concat live) st)))))
           in case r of (st, Inl e) \<Rightarrow> (fst (sys st), Inl e) | (st, Inr _) \<Rightarrow> (st, Inr ())))"

definition live_records :: "nat \<Rightarrow> guard \<Rightarrow> bytes list \<Rightarrow> bytes list" where
  "live_records now g records = filter (\<lambda>r. now - record_time r \<le> window_seconds g) records"

definition compact :: "nat \<Rightarrow> guard \<times> 'a os_scheme \<Rightarrow> guard \<times> 'a os_scheme" where
  "compact now = (\<lambda>(g, st).
     case log_path g of
       None \<Rightarrow> (g\<lparr>last_compact_at := now\<rparr>, st)
     | Some path \<Rightarrow>
         (case read_complete_replay_records path st of
            (st, Inl e) \<Rightarrow> (g\<lparr>log_failed := True\<rparr>, st)
          | (st, Inr records) \<Rightarrow>
              (case rewrite_live (live_records now g records) g st of
                 (st, Inl e) \<Rightarrow> (g\<lparr>log_failed := True\<rparr>, st)
               | (st, Inr _) \<Rightarrow> (g\<lparr>last_compact_at := now\<rparr>, st))))"

definition reset_total_if_rotated :: "guard \<Rightarrow> guard" where
  "reset_total_if_rotated g =
     (if rb_started_at (g_bloom g) \<noteq> total_started_at g
      then g\<lparr>total := 0, total_started_at := rb_started_at (g_bloom g)\<rparr> else g)"

definition rotate_counts :: "nat \<Rightarrow> guard \<Rightarrow> guard" where
  "rotate_counts now g =
     (if now - counts_started_at g < window_seconds g then g
      else g\<lparr>g_counts := (\<lambda>_. None), counts_started_at := now\<rparr>)"

definition reserve ::
  "bytes \<Rightarrow> nat \<Rightarrow> guard \<times> 'a os_scheme \<Rightarrow> (guard \<times> 'a os_scheme) \<times> first_flight_admit" where
  "reserve fingerprint now s =
     (case persist fingerprint now s of
        (s, False) \<Rightarrow> (s, Unavailable)
      | ((g, st), True) \<Rightarrow>
          ((g\<lparr>g_bloom := bloom_add fingerprint now (g_bloom g), total := min (total g + 1) u32_max\<rparr>, st), Fresh))"

definition count_of :: "guard \<Rightarrow> key_id \<Rightarrow> nat" where
  "count_of g key_id = (case g_counts g key_id of None \<Rightarrow> 0 | Some n \<Rightarrow> n)"

text \<open>
  The count is below \<open>max_per_key\<close>, a \<^verbatim>\<open>u32\<close>, when it is incremented.
\<close>

definition admit ::
  "key_id \<Rightarrow> bytes \<Rightarrow> nat \<Rightarrow> guard \<times> 'a os_scheme \<Rightarrow> (guard \<times> 'a os_scheme) \<times> first_flight_admit" where
  "admit key_id fingerprint now = (\<lambda>(g, st).
     let g = rotate_counts now g;
         (b, found) = bloom_check fingerprint now (g_bloom g);
         g = g\<lparr>g_bloom := b\<rparr>
     in if found then ((g, st), Replayed)
        else let g = reset_total_if_rotated g in
          if max_per_key g \<le> count_of g key_id \<or> max_total g \<le> total g then ((g, st), Limited)
          else case reserve fingerprint now (g, st) of
            ((g, st), Fresh) \<Rightarrow>
              (let g = g\<lparr>g_counts := (g_counts g)(key_id \<mapsto> count_of g key_id + 1)\<rparr>
               in (if REPLAY_COMPACT_INTERVAL_SECONDS \<le> now - last_compact_at g
                   then compact now (g, st) else (g, st), Fresh))
          | (s, result) \<Rightarrow> (s, result))"

definition claim ::
  "bytes \<Rightarrow> nat \<Rightarrow> guard \<times> 'a os_scheme \<Rightarrow> (guard \<times> 'a os_scheme) \<times> first_flight_admit" where
  "claim fingerprint now = (\<lambda>(g, st).
     let (b, found) = bloom_check fingerprint now (g_bloom g);
         g = g\<lparr>g_bloom := b\<rparr>
     in if found then ((g, st), Replayed)
        else let g = reset_total_if_rotated g in
          if max_total g \<le> total g then ((g, st), Unavailable)
          else reserve fingerprint now (g, st))"

section \<open>Opening\<close>

definition reload :: "bytes list \<Rightarrow> rotating_bloom \<Rightarrow> rotating_bloom" where
  "reload live b =
     (let b = fold (\<lambda>r. bloom_add (take 32 r) (record_time r)) live b
      in if live = [] then b else b\<lparr>rb_started_at := Min (set (map record_time live))\<rparr>)"

definition load_persisted :: "guard \<times> 'a os_scheme \<Rightarrow> guard \<times> 'a os_scheme" where
  "load_persisted = (\<lambda>(g, st).
     case log_path g of
       None \<Rightarrow> (g, st)
     | Some path \<Rightarrow>
         if \<not> file_exists st path then (g, st)
         else case io_call io_error st of
           (st, Inl e) \<Rightarrow> (g\<lparr>log_failed := True\<rparr>, st)
         | (st, Inr _) \<Rightarrow>
             (let (st, now) = unix_seconds st in
              case read_complete (file_data st path) [] st of
                (st, Inl e) \<Rightarrow> (g\<lparr>log_failed := True\<rparr>, st)
              | (st, Inr records) \<Rightarrow>
                  (let live = live_records now g records;
                       g = g\<lparr>g_bloom := reload live (g_bloom g)\<rparr>;
                       g = g\<lparr>total := min (min (length live) u32_max) (max_total g),
                             total_started_at := rb_started_at (g_bloom g)\<rparr>
                   in case rewrite_live live g st of
                        (st, Inl e) \<Rightarrow> (g\<lparr>log_failed := True\<rparr>, st)
                      | (st, Inr _) \<Rightarrow> (g\<lparr>last_compact_at := now\<rparr>, st))))"

definition guard_open ::
  "environment \<Rightarrow> string option \<Rightarrow> nat \<Rightarrow> nat \<Rightarrow> 'a os_scheme \<Rightarrow> guard \<times> 'a os_scheme" where
  "guard_open env path bs window st =
     (let (st, now) = unix_seconds st;
          (st, bloom_now) = unix_seconds st;
          configured = first_flight_budget env window
      in load_persisted
           (\<lparr>g_bloom = bloom_new bs window bloom_now, g_counts = (\<lambda>_. None), counts_started_at = now,
             window_seconds = window, max_per_key = configured, total = 0, total_started_at = now,
             max_total = min configured (bloom_insert_capacity bs), log_path = path,
             last_compact_at = now, log_failed = False\<rparr>, st))"

end
