(* ===== verification/Limiter.thy ===== *)
theory Limiter
  imports Ids "HOL-Library.AList"
begin

text \<open>
  The suppression of repeated authentication-failure logs
  (\<^verbatim>\<open>pb-mapper-protocol/src/secure/limiter.rs\<close>).  The hash map is an association list with
  distinct keys; addresses and reasons are opaque.
\<close>

section \<open>The limiter\<close>

record failure_log_decision =
  emit :: bool
  suppressed :: nat

record failure_log_entry =
  window_started_at :: nat
  emitted :: nat
  entry_suppressed :: nat

type_synonym log_key = "bytes \<times> key_id \<times> string"

record failure_log_limiter =
  log_entries :: "(log_key \<times> failure_log_entry) list"
  overflow :: "failure_log_entry option"

definition empty_limiter :: failure_log_limiter where
  "empty_limiter = \<lparr>log_entries = [], overflow = None\<rparr>"

definition new_entry :: "nat \<Rightarrow> failure_log_entry" where
  "new_entry now = \<lparr>window_started_at = now, emitted = 0, entry_suppressed = 0\<rparr>"

definition record_failure_entry ::
  "failure_log_entry \<Rightarrow> nat \<Rightarrow> failure_log_entry \<times> failure_log_decision" where
  "record_failure_entry entry now =
     (if 60 \<le> now - window_started_at entry
      then (\<lparr>window_started_at = now, emitted = 1, entry_suppressed = 0\<rparr>,
            \<lparr>emit = True, suppressed = entry_suppressed entry\<rparr>)
      else if emitted entry < 5
      then (entry\<lparr>emitted := emitted entry + 1\<rparr>, \<lparr>emit = True, suppressed = 0\<rparr>)
      else (entry\<lparr>entry_suppressed := sat_add (entry_suppressed entry) 1\<rparr>,
            \<lparr>emit = False, suppressed = 0\<rparr>))"

definition retain_recent ::
  "nat \<Rightarrow> (log_key \<times> failure_log_entry) list \<Rightarrow> (log_key \<times> failure_log_entry) list" where
  "retain_recent now es = filter (\<lambda>(_, entry). now - window_started_at entry < 120) es"

definition get_or_new :: "nat \<Rightarrow> failure_log_entry option \<Rightarrow> failure_log_entry" where
  "get_or_new now e = (case e of Some entry \<Rightarrow> entry | None \<Rightarrow> new_entry now)"

definition record_failure ::
  "log_key \<Rightarrow> nat \<Rightarrow> failure_log_limiter \<Rightarrow> failure_log_limiter \<times> failure_log_decision" where
  "record_failure key now l =
     (let crowded = map_of (log_entries l) key = None \<and> 4096 \<le> length (log_entries l);
          l = (if crowded then l\<lparr>log_entries := retain_recent now (log_entries l)\<rparr> else l)
      in if crowded \<and> 4096 \<le> length (log_entries l)
         then let (entry, d) = record_failure_entry (get_or_new now (overflow l)) now
              in (l\<lparr>overflow := Some entry\<rparr>, d)
         else let (entry, d) = record_failure_entry (get_or_new now (map_of (log_entries l) key)) now
              in (l\<lparr>log_entries := AList.update key entry (log_entries l)\<rparr>, d))"

section \<open>Bounds\<close>

definition limiter_ok :: "failure_log_limiter \<Rightarrow> bool" where
  "limiter_ok l \<longleftrightarrow> distinct (map fst (log_entries l)) \<and> length (log_entries l) \<le> 4096"

lemma length_update:
  "length (AList.update k v al) = (if map_of al k = None then Suc (length al) else length al)"
  by (induction al) auto

lemma retain_recent_ok:
  assumes "distinct (map fst es)"
  shows "distinct (map fst (retain_recent now es))" "length (retain_recent now es) \<le> length es"
proof -
  show "distinct (map fst (retain_recent now es))"
    using assms by (simp add: retain_recent_def distinct_map_filter)
qed (simp add: retain_recent_def)

lemma limiter_ok_update:
  assumes "limiter_ok l" "map_of (log_entries l) key = None \<longrightarrow> length (log_entries l) < 4096"
  shows "limiter_ok (l\<lparr>log_entries := AList.update key e (log_entries l)\<rparr>)"
  using assms by (auto simp: limiter_ok_def distinct_update length_update)

lemma record_failure_ok:
  assumes "limiter_ok l"
  shows "limiter_ok (fst (record_failure key now l))"
proof -
  define crowded where "crowded \<longleftrightarrow> map_of (log_entries l) key = None \<and> 4096 \<le> length (log_entries l)"
  define l1 where "l1 = (if crowded then l\<lparr>log_entries := retain_recent now (log_entries l)\<rparr> else l)"
  have l1: "limiter_ok l1"
    using assms retain_recent_ok [of "log_entries l" now] by (auto simp: l1_def limiter_ok_def)
  show ?thesis
  proof (cases "crowded \<and> 4096 \<le> length (log_entries l1)")
    case True
    then show ?thesis
      using l1 by (auto simp: record_failure_def Let_def crowded_def l1_def limiter_ok_def split: prod.splits)
  next
    case False
    have "map_of (log_entries l1) key = None \<longrightarrow> length (log_entries l1) < 4096"
      using False by (auto simp: l1_def crowded_def not_le split: if_splits)
    note limiter_ok_update [OF l1 this]
    moreover have "record_failure key now l =
        (let (entry, d) = record_failure_entry (get_or_new now (map_of (log_entries l1) key)) now
         in (l1\<lparr>log_entries := AList.update key entry (log_entries l1)\<rparr>, d))"
      unfolding record_failure_def Let_def crowded_def [symmetric] l1_def [symmetric]
      by (rule if_not_P [OF False])
    ultimately show ?thesis
      by (simp split: prod.splits)
  qed
qed

section \<open>How much is logged\<close>

fun limiter_run ::
  "(log_key \<times> nat) list \<Rightarrow> failure_log_limiter \<Rightarrow> failure_log_limiter \<times> failure_log_decision list" where
  "limiter_run [] l = (l, [])"
| "limiter_run ((key, now) # rs) l =
     (let (l, d) = record_failure key now l; (l, ds) = limiter_run rs l in (l, d # ds))"

definition emits :: "failure_log_decision list \<Rightarrow> nat" where
  "emits ds = length (filter emit ds)"

text \<open>The lines a limiter has let through in the windows it remembers.\<close>

definition let_through :: "failure_log_limiter \<Rightarrow> nat" where
  "let_through l =
     sum_list (map (emitted \<circ> snd) (log_entries l)) +
     (case overflow l of None \<Rightarrow> 0 | Some e \<Rightarrow> emitted e)"

definition started_by :: "nat \<Rightarrow> failure_log_limiter \<Rightarrow> bool" where
  "started_by t l \<longleftrightarrow> limiter_ok l \<and>
     (\<forall>e\<in>snd ` set (log_entries l) \<union> set_option (overflow l). t \<le> window_started_at e \<and> emitted e \<le> 5)"

lemma record_in_window:
  assumes "now - window_started_at e < 60" "record_failure_entry e now = (e', d)" "emitted e \<le> 5"
  shows "window_started_at e' = window_started_at e \<and> emitted e' \<le> 5 \<and>
    emitted e' = emitted e + (if emit d then 1 else 0)"
  using assms by (auto simp: record_failure_entry_def split: if_splits)

lemma update_sum:
  "distinct (map fst al) \<Longrightarrow>
   sum_list (map (emitted \<circ> snd) (AList.update k e al)) +
     (case map_of al k of None \<Rightarrow> 0 | Some e0 \<Rightarrow> emitted e0) =
   sum_list (map (emitted \<circ> snd) al) + emitted e"
  by (induction al) (auto split: option.splits)

lemma snd_update: "snd ` set (AList.update k v al) \<subseteq> insert v (snd ` set al)"
  by (induction al) auto

lemma record_failure_step:
  assumes "started_by t l" "t \<le> now" "now < t + 60" "record_failure key now l = (l', d)"
  shows "started_by t l' \<and> let_through l' = let_through l + (if emit d then 1 else 0)"
proof -
  have young: "now - window_started_at e < 120 \<and> now - window_started_at e < 60 \<and> emitted e \<le> 5"
    if "e \<in> snd ` set (log_entries l) \<union> set_option (overflow l)" for e
  proof -
    have "t \<le> window_started_at e \<and> emitted e \<le> 5"
      using assms(1) that by (simp add: started_by_def)
    then show ?thesis
      using assms(2,3) by linarith
  qed
  have keep: "retain_recent now (log_entries l) = log_entries l"
    using young by (force simp: retain_recent_def intro!: filter_True)
  have ok: "limiter_ok l'"
    using record_failure_ok [of l key now] assms(1,4) by (simp add: started_by_def)
  define crowded where "crowded \<longleftrightarrow> map_of (log_entries l) key = None \<and> 4096 \<le> length (log_entries l)"
  define e0 where "e0 = get_or_new now (if crowded then overflow l else map_of (log_entries l) key)"
  obtain e' where e': "record_failure_entry e0 now = (e', d)"
    and l': "l' = (if crowded then l\<lparr>overflow := Some e'\<rparr>
                   else l\<lparr>log_entries := AList.update key e' (log_entries l)\<rparr>)"
    using assms(4) keep
    by (auto simp: record_failure_def Let_def crowded_def e0_def split: prod.splits if_splits)
  have found: "map_of (log_entries l) key = Some e \<Longrightarrow> e \<in> snd ` set (log_entries l)" for e
    by (force dest: map_of_SomeD)
  have "e0 = new_entry now \<or> e0 \<in> snd ` set (log_entries l) \<union> set_option (overflow l)"
    using found by (auto simp: e0_def get_or_new_def split: option.splits)
  then have e0: "t \<le> window_started_at e0 \<and> now - window_started_at e0 < 60 \<and> emitted e0 \<le> 5"
  proof
    assume "e0 \<in> snd ` set (log_entries l) \<union> set_option (overflow l)"
    then show ?thesis
      using young assms(1) by (simp add: started_by_def)
  qed (simp add: new_entry_def assms(2))
  have e'_ok: "t \<le> window_started_at e' \<and> emitted e' \<le> 5 \<and> emitted e' = emitted e0 + (if emit d then 1 else 0)"
    using record_in_window [OF _ e'] e0 by auto
  have "snd ` set (log_entries l') \<union> set_option (overflow l') \<subseteq>
      insert e' (snd ` set (log_entries l) \<union> set_option (overflow l))"
    using snd_update [of key e' "log_entries l"] unfolding l' by (cases crowded) auto
  then have "started_by t l'"
    using ok e'_ok assms(1) unfolding started_by_def by blast
  moreover have "let_through l' = let_through l + (if emit d then 1 else 0)"
  proof (cases crowded)
    case True
    then show ?thesis
      using e'_ok by (auto simp: let_through_def l' e0_def get_or_new_def new_entry_def split: option.splits)
  next
    case False
    have "distinct (map fst (log_entries l))"
      using assms(1) by (simp add: started_by_def limiter_ok_def)
    from update_sum [OF this, of key e'] False e'_ok show ?thesis
      by (auto simp: let_through_def l' e0_def get_or_new_def new_entry_def split: option.splits)
  qed
  ultimately show ?thesis
    by simp
qed

lemma let_through_le:
  assumes "started_by t l"
  shows "let_through l \<le> 5 * 4097"
proof -
  have "sum_list (map (emitted \<circ> snd) es) \<le> 5 * length es"
    if "\<forall>e\<in>snd ` set es. emitted e \<le> 5" for es :: "(log_key \<times> failure_log_entry) list"
    using that by (induction es) auto
  from this [of "log_entries l"] have "sum_list (map (emitted \<circ> snd) (log_entries l)) \<le> 5 * length (log_entries l)"
    using assms by (auto simp: started_by_def)
  moreover have "length (log_entries l) \<le> 4096"
    using assms by (simp add: started_by_def limiter_ok_def)
  moreover have "(case overflow l of None \<Rightarrow> 0 | Some e \<Rightarrow> emitted e) \<le> 5"
    using assms by (auto simp: started_by_def split: option.split)
  ultimately show ?thesis
    by (simp add: let_through_def)
qed

lemma limiter_run_counts:
  assumes "started_by t l" "\<forall>(key, now)\<in>set rs. t \<le> now \<and> now < t + 60" "limiter_run rs l = (l', ds)"
  shows "started_by t l' \<and> let_through l' = let_through l + emits ds"
  using assms
proof (induction rs arbitrary: l ds)
  case (Cons r rs)
  obtain key now where r: "r = (key, now)"
    by (cases r) auto
  obtain l1 d where step: "record_failure key now l = (l1, d)"
    by fastforce
  from Cons.prems(3) step r obtain ds' where ds: "limiter_run rs l1 = (l', ds')" "ds = d # ds'"
    by (auto split: prod.splits)
  from record_failure_step [OF Cons.prems(1) _ _ step] Cons.prems(2) r
  have s: "started_by t l1" "let_through l1 = let_through l + (if emit d then 1 else 0)"
    by auto
  from Cons.IH [OF s(1) _ ds(1)] Cons.prems(2) s(2) ds(2) show ?case
    by (auto simp: emits_def)
qed (simp add: emits_def)

lemma started_by_empty: "started_by t empty_limiter"
  by (simp add: started_by_def limiter_ok_def empty_limiter_def)

text \<open>Without a clock assumption the number of buckets is still bounded.\<close>

lemma limiter_run_ok: "limiter_ok l \<Longrightarrow> limiter_ok (fst (limiter_run rs l))"
proof (induction rs arbitrary: l)
  case (Cons r rs)
  obtain key now where r: "r = (key, now)"
    by (cases r) auto
  have "limiter_ok (fst (record_failure key now l))"
    by (rule record_failure_ok [OF Cons.prems])
  from Cons.IH [OF this] show ?case
    by (simp add: r Let_def case_prod_unfold)
qed simp

end
