(* ===== verification/Secure.thy ===== *)
theory Secure
  imports Frame Replay AuthRuntime Limiter
begin

text \<open>
  Connection security (\<^verbatim>\<open>pb-mapper-protocol/src/secure.rs\<close> and
  \<^verbatim>\<open>secure/first_flight.rs\<close>): client and server sessions over the legacy and the v2
  framing, and how the relay authenticates the first frame of a connection.  The relay's shared
  state is the admission guard and the credential service; a connection is the bytes its peer still
  sends.  Panics and shutdown of the blocking thread pool, which turn into a retryable
  failure, and timeouts are left out; so is the key-length check of the cipher, as keys are arrays
  of 32 bytes.
\<close>

section \<open>Sessions\<close>

definition MAX_CONNECTION_CLOCK_SKEW_SECONDS :: nat where "MAX_CONNECTION_CLOCK_SKEW_SECONDS = 5 * 60"
definition DEFAULT_REPLAY_WINDOW_SECONDS :: nat where
  "DEFAULT_REPLAY_WINDOW_SECONDS = sat_mul MAX_CONNECTION_CLOCK_SKEW_SECONDS 2"
definition DEFAULT_REPLAY_FILTER_BYTES :: nat where "DEFAULT_REPLAY_FILTER_BYTES = 1024 * 1024"

datatype header_protocol = LegacyProtocol | V2Protocol

record client_session =
  cs_protocol :: header_protocol
  cs_legacy_key :: bytes
  cs_v2 :: "v2_material option"

record server_session =
  ss_protocol :: header_protocol
  ss_legacy_key :: bytes
  ss_v2 :: "v2_material option"
  ss_context :: "auth_context option"
  ss_legacy_guard :: bool

text \<open>The two message readers and writers: a legacy codec bound to its session key, or a v2 end.\<close>

datatype header_end = LegacyEnd codec | V2End v2_end

definition header_read_msg ::
  "'c crypto_scheme \<Rightarrow> proc_cred \<Rightarrow> header_end \<times> bytes \<Rightarrow> (header_end \<times> bytes) \<times> (wire_error + bytes)" where
  "header_read_msg C p = (\<lambda>(r, input).
     case r of
       LegacyEnd d \<Rightarrow>
         (case codec_read_msg C p (Some (codec_key d)) (d, input) of ((d, input), x) \<Rightarrow> ((LegacyEnd d, input), x))
     | V2End e \<Rightarrow> (case v2_read_msg C (e, input) of ((e, input), x) \<Rightarrow> ((V2End e, input), x)))"

definition header_write_msg ::
  "'c crypto_scheme \<Rightarrow> proc_cred \<Rightarrow> bytes \<Rightarrow> header_end \<times> sink \<Rightarrow> (header_end \<times> sink) \<times> (wire_error + unit)" where
  "header_write_msg C p message = (\<lambda>(w, k).
     case w of
       LegacyEnd d \<Rightarrow>
         (case codec_write_msg C p (Some (codec_key d)) message (d, k) of ((d, k), x) \<Rightarrow> ((LegacyEnd d, k), x))
     | V2End e \<Rightarrow> (case v2_write_msg C message (e, k) of ((e, k), x) \<Rightarrow> ((V2End e, k), x)))"

definition session_end :: "header_protocol \<Rightarrow> bytes \<Rightarrow> v2_material option \<Rightarrow> u8 \<Rightarrow> nat \<Rightarrow> wire_error + header_end" where
  "session_end protocol key v2 d counter =
     (case protocol of
        LegacyProtocol \<Rightarrow> Inr (LegacyEnd (codec_new key))
      | V2Protocol \<Rightarrow>
          (case v2 of None \<Rightarrow> Inl MsgProtocol | Some m \<Rightarrow> Inr (V2End (v2_end_new m d counter))))"

section \<open>The client\<close>

definition client_new_v2 :: "'c crypto_scheme \<Rightarrow> credential \<Rightarrow> 'a os_scheme \<Rightarrow> 'a os_scheme \<times> (wire_error + client_session)" where
  "client_new_v2 C cred st =
     (let (st, now) = unix_seconds st;
          (st, r) = random_bytes 8 st
      in case derive_material C (credential_key_id cred) (credential_key cred) (to_be 8 now @ r) of
           Inl e \<Rightarrow> (st, Inl e)
         | Inr m \<Rightarrow>
             (st, Inr \<lparr>cs_protocol = V2Protocol, cs_legacy_key = credential_key cred, cs_v2 = Some m\<rparr>))"

definition client_from_process :: "'c crypto_scheme \<Rightarrow> 'a os_scheme \<Rightarrow> 'a os_scheme \<times> (wire_error + client_session)" where
  "client_from_process C st =
     (case get_process_credential (proc st) of
        Inl _ \<Rightarrow> (st, Inl MsgProtocol)
      | Inr cred \<Rightarrow> client_new_v2 C cred st)"

definition write_initial ::
  "'c crypto_scheme \<Rightarrow> proc_cred \<Rightarrow> client_session \<Rightarrow> bytes \<Rightarrow> sink \<Rightarrow> sink \<times> (wire_error + unit)" where
  "write_initial C p s message k =
     (case cs_protocol s of
        LegacyProtocol \<Rightarrow>
          (case codec_write_msg C p (Some (cs_legacy_key s)) message (codec_new (cs_legacy_key s), k) of
             ((d, k), r) \<Rightarrow> (k, r))
      | V2Protocol \<Rightarrow>
          (case cs_v2 s of
             None \<Rightarrow> (k, Inl MsgProtocol)
           | Some m \<Rightarrow>
               and_then (write_all MsgProtocol (first_prefix m) k) (\<lambda>k _.
               case v2_write_msg C message (v2_end_new m DIRECTION_CLIENT_TO_SERVER 0, k) of
                 ((w, k), r) \<Rightarrow> (k, r))))"

definition client_response_reader :: "client_session \<Rightarrow> wire_error + header_end" where
  "client_response_reader s =
     session_end (cs_protocol s) (cs_legacy_key s) (cs_v2 s) DIRECTION_SERVER_TO_CLIENT 0"

definition client_continuation_writer :: "client_session \<Rightarrow> wire_error + header_end" where
  "client_continuation_writer s =
     session_end (cs_protocol s) (cs_legacy_key s) (cs_v2 s) DIRECTION_CLIENT_TO_SERVER 1"

section \<open>The server's session\<close>

definition session_key_id :: "server_session \<Rightarrow> key_id" where
  "session_key_id s =
     (case ss_context s of
        Some c \<Rightarrow> ctx_key_id c
      | None \<Rightarrow> (case ss_v2 s of Some m \<Rightarrow> mat_key_id m | None \<Rightarrow> ADMIN_KEY_ID))"

definition session_context :: "server_session \<Rightarrow> wire_error + auth_context" where
  "session_context s = (case ss_context s of Some c \<Rightarrow> Inr c | None \<Rightarrow> Inl MsgProtocol)"

definition take_context :: "server_session \<Rightarrow> server_session \<times> (wire_error + auth_context)" where
  "take_context s = (s\<lparr>ss_context := None\<rparr>, session_context s)"

definition server_response_writer :: "server_session \<Rightarrow> wire_error + header_end" where
  "server_response_writer s =
     session_end (ss_protocol s) (ss_legacy_key s) (ss_v2 s) DIRECTION_SERVER_TO_CLIENT 0"

definition server_continuation_reader :: "server_session \<Rightarrow> wire_error + header_end" where
  "server_continuation_reader s =
     session_end (ss_protocol s) (ss_legacy_key s) (ss_v2 s) DIRECTION_CLIENT_TO_SERVER 1"

definition v2_session :: "bytes \<Rightarrow> v2_material \<Rightarrow> server_session" where
  "v2_session key m =
     \<lparr>ss_protocol = V2Protocol, ss_legacy_key = key, ss_v2 = Some m, ss_context = None, ss_legacy_guard = False\<rparr>"

definition session_without_context :: "server_session \<Rightarrow> server_session" where
  "session_without_context s = s\<lparr>ss_context := None, ss_legacy_guard := False\<rparr>"

section \<open>First flights\<close>

record initial_message =
  im_payload :: bytes
  im_session :: server_session
  im_fingerprint :: "bytes option"
  im_timestamp :: "nat option"

record initial_error =
  ie_failure :: auth_failure
  ie_session :: "server_session option"
  ie_key_id :: "key_id option"

definition error_new :: "auth_failure \<Rightarrow> initial_error" where
  "error_new f = \<lparr>ie_failure = f, ie_session = None, ie_key_id = None\<rparr>"

definition first_flight_error :: "string \<Rightarrow> bool \<Rightarrow> key_id \<Rightarrow> initial_error" where
  "first_flight_error code retry key_id =
     \<lparr>ie_failure = fail code retry, ie_session = None, ie_key_id = Some key_id\<rparr>"

datatype first_flight_work =
    Live bytes bytes server_session
  | Stale initial_error

type_synonym relay = "guard \<times> auth"

definition reserved_error_session :: "bytes \<Rightarrow> server_session \<Rightarrow> relay \<Rightarrow> relay \<times> server_session option" where
  "reserved_error_session fingerprint session = (\<lambda>(g, st).
     let (st, now) = unix_seconds st in
     case claim fingerprint now (g, st) of (s, r) \<Rightarrow> (s, if r = Fresh then Some session else None))"

definition evaluate_first_flight ::
  "'c crypto_scheme \<Rightarrow> key_id \<Rightarrow> bytes \<Rightarrow> first_flight_work \<Rightarrow> relay \<Rightarrow>
   relay \<times> (initial_error + bytes \<times> auth_context)" where
  "evaluate_first_flight C key_id fingerprint work = (\<lambda>(g, st).
     case work of
       Live key payload error_session \<Rightarrow>
         (case authenticate_presented C key_id key st of
            (st, Inl failure) \<Rightarrow>
              (let (s, session) = reserved_error_session fingerprint error_session (g, st)
               in (s, Inl \<lparr>ie_failure = failure, ie_session = session, ie_key_id = Some key_id\<rparr>))
          | (st, Inr context) \<Rightarrow>
              (let (st, now) = unix_seconds st in
               case admit key_id fingerprint now (g, st) of
                 (s, Fresh) \<Rightarrow> (s, Inr (payload, context))
               | (s, Replayed) \<Rightarrow> (s, Inl (first_flight_error ''connection_salt_replayed'' True key_id))
               | (s, Limited) \<Rightarrow> (s, Inl (first_flight_error ''connection_admission_limited'' True key_id))
               | (s, Unavailable) \<Rightarrow>
                   (s, Inl (first_flight_error ''connection_replay_store_unavailable'' True key_id))))
     | Stale error \<Rightarrow>
         (case ie_session error of
            None \<Rightarrow> ((g, st), Inl error)
          | Some session \<Rightarrow>
              (let (s, session) = reserved_error_session fingerprint session (g, st)
               in (s, Inl (error\<lparr>ie_session := session\<rparr>)))))"

definition stale_root_first_flight ::
  "'c crypto_scheme \<Rightarrow> auth \<Rightarrow> key_id \<Rightarrow> bytes \<Rightarrow> nat \<Rightarrow> bytes \<Rightarrow> initial_error option" where
  "stale_root_first_flight C st key_id salt counter ciphertext =
     (case derive_previous_key C st key_id of
        None \<Rightarrow> None
      | Some previous_key \<Rightarrow>
          (case derive_material C key_id previous_key salt of
             Inl _ \<Rightarrow> None
           | Inr m \<Rightarrow>
               (case open_v2_payload C m DIRECTION_CLIENT_TO_SERVER counter ciphertext of
                  Inl _ \<Rightarrow> None
                | Inr _ \<Rightarrow>
                    Some \<lparr>ie_failure = fail (if key_id_is_admin key_id then ''administrator_key_invalid''
                                            else ''temporary_key_rotated'') False,
                          ie_session = Some (v2_session previous_key m), ie_key_id = Some key_id\<rparr>)))"

section \<open>The first frame of a connection\<close>

definition security_new :: "environment \<Rightarrow> auth \<Rightarrow> relay" where
  "security_new env st =
     guard_open env (Some ''connection.replay'') DEFAULT_REPLAY_FILTER_BYTES DEFAULT_REPLAY_WINDOW_SECONDS st"

definition admin_key_of :: "auth \<Rightarrow> bytes res" where
  "admin_key_of st = (if running st then Inr (admin_key st) else Inl unavailable)"

definition read_legacy_initial ::
  "'c crypto_scheme \<Rightarrow> bytes \<Rightarrow> relay \<Rightarrow> bytes \<Rightarrow> relay \<times> (initial_error + initial_message)" where
  "read_legacy_initial C checksum_bytes = (\<lambda>(g, st) input.
     if legacy_protocol_allowed st \<noteq> Inr True
     then ((g, st), Inl (error_new (fail ''legacy_protocol_disabled'' False)))
     else case admin_key_of st of Inl f \<Rightarrow> ((g, st), Inl (error_new f)) | Inr key \<Rightarrow>
       (case read_uint (error_new (fail ''legacy_frame_invalid'' True)) 4 input of
          (input, Inl e) \<Rightarrow> ((g, st), Inl e)
        | (input, Inr datalen) \<Rightarrow>
            if \<not> valid_checksum_for_key (word_of_nat datalen) (word_of_nat (from_be checksum_bytes)) key \<or>
               MAX_INITIAL_CIPHERTEXT_LEN < datalen
            then ((g, st), Inl (error_new (fail ''legacy_frame_invalid'' False)))
            else (case read_exact (error_new (fail ''legacy_frame_invalid'' True)) datalen input of
               (input, Inl e) \<Rightarrow> ((g, st), Inl e)
             | (input, Inr encrypted) \<Rightarrow>
                 (case codec_decrypt C (codec_new key) encrypted of
                    (d, None) \<Rightarrow> ((g, st), Inl (error_new (fail ''legacy_decrypt_failed'' False)))
                  | (d, Some plain) \<Rightarrow>
                      (case authenticate_presented C ADMIN_KEY_ID key st of
                         (st, Inl f) \<Rightarrow> ((g, st), Inl (error_new f))
                       | (st, Inr context) \<Rightarrow>
                           (case record_legacy_connection st of
                              (st, Inl f) \<Rightarrow> ((g, st), Inl (error_new f))
                            | (st, Inr _) \<Rightarrow>
                                ((g, st), Inr \<lparr>im_payload = plain,
                                   im_session = \<lparr>ss_protocol = LegacyProtocol, ss_legacy_key = key, ss_v2 = None,
                                                 ss_context = Some context, ss_legacy_guard = True\<rparr>,
                                   im_fingerprint = None, im_timestamp = None\<rparr>)))))))"

text \<open>The fields of the clear prefix after the magic.\<close>

definition prefix_key_id :: "bytes \<Rightarrow> key_id" where
  "prefix_key_id remainder = word_of_nat (from_be (take 8 (drop 4 remainder)))"

definition prefix_salt :: "bytes \<Rightarrow> bytes" where
  "prefix_salt remainder = drop 12 remainder"

definition salt_timestamp :: "bytes \<Rightarrow> nat" where
  "salt_timestamp salt = from_be (take 8 salt)"

definition classify_first_flight ::
  "'c crypto_scheme \<Rightarrow> auth \<Rightarrow> key_id \<Rightarrow> bytes \<Rightarrow> bytes \<Rightarrow> v2_material \<Rightarrow> nat \<Rightarrow> bytes \<Rightarrow> initial_error + first_flight_work" where
  "classify_first_flight C st key_id key salt m counter ciphertext =
     (case open_v2_payload C m DIRECTION_CLIENT_TO_SERVER counter ciphertext of
        Inr payload \<Rightarrow> Inr (Live key payload (session_without_context (v2_session key m)))
      | Inl _ \<Rightarrow>
          (case stale_root_first_flight C st key_id salt counter ciphertext of
             Some stale \<Rightarrow> Inr (Stale stale)
           | None \<Rightarrow> Inl (first_flight_error ''protocol_v2_decrypt_failed'' False key_id)))"

text \<open>
  A first flight before the admission lock is taken: everything up to here only reads the relay's
  state, so a connection can be at this point while others are admitted.
\<close>

record first_flight =
  ff_key_id :: key_id
  ff_salt :: bytes
  ff_key :: bytes
  ff_material :: v2_material
  ff_work :: first_flight_work

definition prepare_first_flight ::
  "'c crypto_scheme \<Rightarrow> auth \<Rightarrow> bytes \<Rightarrow> auth \<times> (initial_error + first_flight)" where
  "prepare_first_flight C st input =
     (case read_exact (error_new (fail ''protocol_v2_header_invalid'' True)) FIRST_PREFIX_REMAINDER_LEN input of
        (input, Inl e) \<Rightarrow> (st, Inl e)
      | (input, Inr remainder) \<Rightarrow>
          if remainder ! 0 \<noteq> PROTOCOL_V2_VERSION
          then (st, Inl (error_new (fail ''protocol_version_unsupported'' False)))
          else if remainder ! 1 \<noteq> 0 \<or> from_be (take 2 (drop 2 remainder)) \<noteq> 0
          then (st, Inl (error_new (fail ''protocol_v2_header_invalid'' False)))
          else
            let key_id = prefix_key_id remainder;
                salt = prefix_salt remainder;
                (st, now) = unix_seconds st
            in if MAX_CONNECTION_CLOCK_SKEW_SECONDS < abs_diff now (salt_timestamp salt)
               then (st, Inl (first_flight_error ''connection_timestamp_invalid'' False key_id))
               else case derive_key C st key_id of
                 Inl f \<Rightarrow> (st, Inl \<lparr>ie_failure = f, ie_session = None, ie_key_id = Some key_id\<rparr>)
               | Inr key \<Rightarrow>
                   (case derive_material C key_id key salt of
                      Inl _ \<Rightarrow> (st, Inl (first_flight_error ''protocol_v2_key_derivation_failed'' False key_id))
                    | Inr m \<Rightarrow>
                        (case read_v2_frame 0 MAX_INITIAL_PLAINTEXT_LEN input of
                           (input, Inl _) \<Rightarrow> (st, Inl (first_flight_error ''protocol_v2_decrypt_failed'' False key_id))
                         | (input, Inr (counter, ciphertext)) \<Rightarrow>
                             (case classify_first_flight C st key_id key salt m counter ciphertext of
                                Inl e \<Rightarrow> (st, Inl e)
                              | Inr work \<Rightarrow>
                                  (st, Inr \<lparr>ff_key_id = key_id, ff_salt = salt, ff_key = key,
                                            ff_material = m, ff_work = work\<rparr>)))))"

definition flight_fingerprint :: "'c crypto_scheme \<Rightarrow> first_flight \<Rightarrow> bytes" where
  "flight_fingerprint C ff = replay_fingerprint C (ff_key_id ff) (ff_salt ff)"

definition finish_first_flight ::
  "'c crypto_scheme \<Rightarrow> first_flight \<Rightarrow> relay \<Rightarrow> relay \<times> (initial_error + initial_message)" where
  "finish_first_flight C ff s =
     and_then (evaluate_first_flight C (ff_key_id ff) (flight_fingerprint C ff) (ff_work ff) s) (\<lambda>s (payload, context).
     (s, Inr \<lparr>im_payload = payload,
              im_session = (v2_session (ff_key ff) (ff_material ff))\<lparr>ss_context := Some context\<rparr>,
              im_fingerprint = Some (flight_fingerprint C ff),
              im_timestamp = Some (salt_timestamp (ff_salt ff))\<rparr>))"

definition read_v2_initial ::
  "'c crypto_scheme \<Rightarrow> relay \<Rightarrow> bytes \<Rightarrow> relay \<times> (initial_error + initial_message)" where
  "read_v2_initial C = (\<lambda>(g, st) input.
     case prepare_first_flight C st input of
       (st, Inl e) \<Rightarrow> ((g, st), Inl e)
     | (st, Inr ff) \<Rightarrow> finish_first_flight C ff (g, st))"

definition read_initial ::
  "'c crypto_scheme \<Rightarrow> relay \<Rightarrow> bytes \<Rightarrow> relay \<times> (initial_error + initial_message)" where
  "read_initial C s input =
     (case read_exact (error_new (fail ''protocol_header_read_failed'' True)) 4 input of
        (input, Inl e) \<Rightarrow> (s, Inl e)
      | (input, Inr first) \<Rightarrow>
          if first = PROTOCOL_V2_MAGIC then read_v2_initial C s input
          else read_legacy_initial C first s input)"

definition record_failure_log ::
  "bytes \<Rightarrow> key_id \<Rightarrow> string \<Rightarrow> failure_log_limiter \<times> auth \<Rightarrow> (failure_log_limiter \<times> auth) \<times> failure_log_decision" where
  "record_failure_log peer_ip key_id reason = (\<lambda>(l, st).
     let (st, now) = unix_seconds st;
         (l, d) = record_failure (peer_ip, key_id, reason) now l
     in ((l, st), d))"

end
