(* ===== verification/Connection.thy ===== *)
theory Connection
  imports Secure
begin

text \<open>
  What the relay does with an authenticated connection
  (\<^verbatim>\<open>pb-mapper-protocol/src/command.rs\<close> and \<^verbatim>\<open>pb-mapper-server/src/connection.rs\<close>):
  the requests, the namespace a request may act in, the key under which a service is registered,
  and the dispatch to the handlers.  Text is a list of UTF-8 bytes.  JSON is a parameter: a request
  arrives decoded.
\<close>

section \<open>Requests\<close>

datatype status_req = StatusRemoteId | StatusKeys | StatusService bytes

datatype admin_req =
    KeyIssue nat "bytes option"
  | KeyList nat nat
  | KeyShow key_id
  | KeyReveal key_id
  | KeyRenew key_id nat
  | KeyRevoke key_id
  | KeyGc
  | AuthStatusReq
  | AuthStateReset bool
  | RootKeyRotate bytes
  | LegacyProtocolSet legacy_policy
  | ConnectionList "nat option" nat nat
  | ServiceList "nat option" nat nat

fun is_mutating :: "admin_req \<Rightarrow> bool" where
  "is_mutating (KeyIssue ttl label) = True"
| "is_mutating (KeyRenew k ttl) = True"
| "is_mutating (KeyRevoke k) = True"
| "is_mutating KeyGc = True"
| "is_mutating (AuthStateReset confirm) = True"
| "is_mutating (RootKeyRotate key) = True"
| "is_mutating (LegacyProtocolSet p) = True"
| "is_mutating _ = False"

text \<open>What a client says of itself when it registers; the relay only logs it.\<close>

record register_info =
  client_instance_id :: "bytes option"
  heartbeat_interval_ms :: "nat option"
  heartbeat_tolerance_ms :: "nat option"

text \<open>
  The arguments of a registration are whether it wants a codec, whether it is a datagram service, its
  name and its protocol version; a scoped request carries a namespace.
\<close>

datatype conn_request =
    RegisterReq bool bool bytes "nat option" register_info
  | RegisterScoped bool bool bytes nat bool "nat option" register_info
  | SubscribeReq bytes
  | SubscribeScoped bytes nat
  | StatusReq status_req
  | StatusScoped status_req nat
  | StreamReq bytes nat nat
  | StreamScoped bytes nat nat nat
  | AdminReq admin_req

section \<open>Namespaces and service keys\<close>

text \<open>\<^verbatim>\<open>{:016x}\<close>, and \<^verbatim>\<open>u64::from_str_radix(_, 16)\<close>.\<close>

definition hex_digit :: "nat \<Rightarrow> u8" where
  "hex_digit d = (if d < 10 then word_of_nat (48 + d) else word_of_nat (87 + d))"

fun hex_pad :: "nat \<Rightarrow> nat \<Rightarrow> bytes" where
  "hex_pad 0 n = []"
| "hex_pad (Suc k) n = hex_pad k (n div 16) @ [hex_digit (n mod 16)]"

definition hex_value :: "u8 \<Rightarrow> nat option" where
  "hex_value b =
     (if 48 \<le> b \<and> b \<le> 57 then Some (unat b - 48)
      else if 97 \<le> b \<and> b \<le> 102 then Some (unat b - 87)
      else if 65 \<le> b \<and> b \<le> 70 then Some (unat b - 55) else None)"

fun hex_digits :: "nat \<Rightarrow> bytes \<Rightarrow> nat option" where
  "hex_digits acc [] = Some acc"
| "hex_digits acc (b # bs) =
     (case hex_value b of None \<Rightarrow> None | Some d \<Rightarrow> hex_digits (acc * 16 + d) bs)"

definition u64_from_hex :: "bytes \<Rightarrow> nat option" where
  "u64_from_hex bs =
     (let ds = (case bs of b # c # rest \<Rightarrow> if b = 43 then c # rest else bs | _ \<Rightarrow> bs)
      in if ds = [] then None
         else case hex_digits 0 ds of None \<Rightarrow> None | Some n \<Rightarrow> if n \<le> u64_max then Some n else None)"

text \<open>\<^verbatim>\<open>str::split_once\<close> at the first NUL.\<close>

definition split_once_nul :: "bytes \<Rightarrow> (bytes \<times> bytes) option" where
  "split_once_nul key =
     (case dropWhile (\<lambda>b. b \<noteq> 0) key of [] \<Rightarrow> None | _ # rest \<Rightarrow> Some (takeWhile (\<lambda>b. b \<noteq> 0) key, rest))"

definition resolve_namespace :: "auth_context \<Rightarrow> nat option \<Rightarrow> bool \<Rightarrow> bool \<Rightarrow> nat res" where
  "resolve_namespace ctx requested force_register_namespace is_register =
     (let namespace = (case requested of Some n \<Rightarrow> n | None \<Rightarrow> ctx_namespace ctx) in
      if \<not> ctx_is_admin ctx \<and> namespace \<noteq> ctx_namespace ctx
      then Inl (fail ''namespace_access_denied'' False)
      else if ctx_is_admin ctx \<and> is_register \<and> namespace \<noteq> 0 \<and> \<not> force_register_namespace
      then Inl (fail ''namespace_force_required'' False)
      else Inr namespace)"

definition is_service_byte :: "u8 \<Rightarrow> bool" where
  "is_service_byte b \<longleftrightarrow>
     48 \<le> b \<and> b \<le> 57 \<or> 65 \<le> b \<and> b \<le> 90 \<or> 97 \<le> b \<and> b \<le> 122 \<or> b \<in> set (ascii ''._:-'')"

definition scope_key :: "nat \<Rightarrow> bytes \<Rightarrow> bytes" where
  "scope_key namespace service_name =
     (if namespace = 0 then service_name else [64] @ hex_pad 16 namespace @ [0] @ service_name)"

definition scoped_service_key :: "auth_context \<Rightarrow> nat \<Rightarrow> bytes \<Rightarrow> bytes res" where
  "scoped_service_key ctx namespace service_name =
     (if service_name = [] \<or> 1024 < length service_name \<or> 0 \<in> set service_name
      then Inl (fail ''service_name_invalid'' False)
      else if \<not> ctx_is_admin ctx \<and> (128 < length service_name \<or> \<not> list_all is_service_byte service_name)
      then Inl (fail ''service_name_invalid'' False)
      else Inr (scope_key namespace service_name))"

definition split_scoped_service_key :: "bytes \<Rightarrow> nat \<times> bytes" where
  "split_scoped_service_key key =
     (case split_once_nul key of
        None \<Rightarrow> (0, key)
      | Some (prefix, name) \<Rightarrow>
          (case prefix of
             [] \<Rightarrow> (0, key)
           | b # digits \<Rightarrow>
               if b \<noteq> 64 then (0, key)
               else case u64_from_hex digits of Some namespace \<Rightarrow> (namespace, name) | None \<Rightarrow> (0, key)))"

section \<open>Dispatch\<close>

text \<open>
  Where a connection goes.  A rejection writes the failure to the peer and closes; \<open>Aborted\<close> is the
  panic of an administrator session without fingerprint.
\<close>

datatype route =
    Reject auth_failure
  | ToRegister bytes bool bool nat
  | ToSubscribe bytes
  | ToStream bytes nat nat
  | ToStatus status_req nat
  | ToAdmin admin_req
  | Aborted

fun normalize_request :: "conn_request \<Rightarrow> conn_request \<times> nat option \<times> bool" where
  "normalize_request (RegisterScoped need_codec is_datagram key namespace force version info) =
     (RegisterReq need_codec is_datagram key version info, Some namespace, force)"
| "normalize_request (SubscribeScoped key namespace) = (SubscribeReq key, Some namespace, False)"
| "normalize_request (StatusScoped status namespace) = (StatusReq status, Some namespace, False)"
| "normalize_request (StreamScoped key namespace dst_id gen) = (StreamReq key dst_id gen, Some namespace, False)"
| "normalize_request req = (req, None, False)"

definition is_register_req :: "conn_request \<Rightarrow> bool" where
  "is_register_req req = (case req of RegisterReq _ _ _ _ _ \<Rightarrow> True | _ \<Rightarrow> False)"

definition scope_service_or_reject :: "auth_context \<Rightarrow> nat \<Rightarrow> bytes \<Rightarrow> (bytes \<Rightarrow> auth \<times> route) \<Rightarrow> auth \<Rightarrow> auth \<times> route" where
  "scope_service_or_reject ctx namespace service_name f st =
     (case scoped_service_key ctx namespace service_name of
        Inl failure \<Rightarrow> (st, Reject failure)
      | Inr key \<Rightarrow> f key)"

text \<open>The handler runs until it ends or its credential's token is cancelled.\<close>

definition run_while_credential_active :: "auth_context \<Rightarrow> route \<Rightarrow> auth \<Rightarrow> auth \<times> route" where
  "run_while_credential_active ctx work st =
     (case ensure_active ctx st of
        (st, Inl failure) \<Rightarrow> (st, Reject failure)
      | (st, Inr _) \<Rightarrow> (st, work))"

definition route_admin ::
  "'c env_scheme \<Rightarrow> auth_config \<Rightarrow> auth_context \<Rightarrow> header_protocol \<Rightarrow> bytes option \<Rightarrow> nat option \<Rightarrow>
   admin_req \<Rightarrow> auth \<Rightarrow> auth \<times> route" where
  "route_admin C cfg ctx protocol fingerprint timestamp req st =
     (if \<not> ctx_is_admin ctx then (st, Reject (fail ''admin_permission_required'' False))
      else if protocol \<noteq> V2Protocol then (st, Reject (fail ''admin_protocol_v2_required'' False))
      else if is_mutating req then
        (case (fingerprint, timestamp) of
           (Some fingerprint, Some timestamp) \<Rightarrow>
             (case rt_claim_admin_mutation C cfg ctx fingerprint timestamp st of
                (st, Inl failure) \<Rightarrow> (st, Reject failure)
              | (st, Inr _) \<Rightarrow> (st, ToAdmin req))
         | _ \<Rightarrow> (st, Aborted))
      else (st, ToAdmin req))"

definition route_request ::
  "'c env_scheme \<Rightarrow> auth_config \<Rightarrow> auth_context \<Rightarrow> header_protocol \<Rightarrow> bytes option \<Rightarrow> nat option \<Rightarrow>
   conn_request \<Rightarrow> auth \<Rightarrow> auth \<times> route" where
  "route_request C cfg ctx protocol fingerprint timestamp asked st =
     (let (req, requested_namespace, force) = normalize_request asked in
      case resolve_namespace ctx requested_namespace force (is_register_req req) of
        Inl failure \<Rightarrow> (st, Reject failure)
      | Inr namespace \<Rightarrow>
          (case req of
             RegisterReq need_codec is_datagram key version info \<Rightarrow>
               scope_service_or_reject ctx namespace key (\<lambda>key.
                 run_while_credential_active ctx
                   (ToRegister key need_codec is_datagram (case version of Some v \<Rightarrow> v | None \<Rightarrow> 1)) st) st
           | SubscribeReq key \<Rightarrow>
               scope_service_or_reject ctx namespace key (\<lambda>key.
                 run_while_credential_active ctx (ToSubscribe key) st) st
           | StreamReq key dst_id gen \<Rightarrow>
               scope_service_or_reject ctx namespace key (\<lambda>key. (st, ToStream key dst_id gen)) st
           | StatusReq status \<Rightarrow> run_while_credential_active ctx (ToStatus status namespace) st
           | AdminReq r \<Rightarrow> route_admin C cfg ctx protocol fingerprint timestamp r st
           | _ \<Rightarrow> (st, Aborted)))"

text \<open>
  A whole connection: read and authenticate the first frame, decode the request (\<open>decode\<close> is the
  JSON parser), dispatch.  \<open>None\<close> is a connection that is closed without a reply.
\<close>

definition handle_conn ::
  "'c env_scheme \<Rightarrow> auth_config \<Rightarrow> (bytes \<Rightarrow> conn_request option) \<Rightarrow> relay \<Rightarrow> bytes \<Rightarrow>
   relay \<times> (server_session \<times> route) option" where
  "handle_conn C cfg decode s input =
     (case read_initial C s input of
        (s, Inl e) \<Rightarrow> (s, map_option (\<lambda>session. (session, Reject (ie_failure e))) (ie_session e))
      | (s, Inr msg) \<Rightarrow>
          (case decode (im_payload msg) of
             None \<Rightarrow> (s, Some (im_session msg, Reject (fail ''request_decode_failed'' False)))
           | Some asked \<Rightarrow>
               (case session_context (im_session msg) of
                  Inl _ \<Rightarrow> (s, None)
                | Inr ctx \<Rightarrow>
                    (case s of (g, st) \<Rightarrow>
                     case route_request C cfg ctx (ss_protocol (im_session msg)) (im_fingerprint msg)
                            (im_timestamp msg) asked st of
                       (st, r) \<Rightarrow> ((g, st), Some (im_session msg, r))))))"

end
