(* ===== verification/AdminProps.thy ===== *)
theory AdminProps
  imports Connection AuthProps
begin

text \<open>
  Administration: who reaches it, and that a mutating request is executed at most once while its
  record is kept.
\<close>

section \<open>Claims\<close>

lemma authority_Inr:
  assumes "admin_authority c st = (s, Inr l)"
  shows "s = st \<and> l = ctx_lease c \<and> ctx_is_admin c"
  using assms
  by (auto simp: admin_authority_def and_then_eq_Inr lift_res_def require_admin_def ensure_active_def Let_def
      split: if_splits)

lemma claim_command:
  assumes "rt_claim_admin_mutation C cfg c f t st = (s, Inr x)"
  shows "actor_claim_admin_mutation C f t st = (s, Inr ()) \<and> admin_lease st = ctx_lease c \<and> ctx_is_admin c"
proof -
  obtain s1 l where a: "admin_authority c st = (s1, Inr l)"
      and r: "request C cfg (ClaimAdminMutation l f t) s1 = (s, Inr x)"
    using assms by (auto simp: rt_claim_admin_mutation_def admin_request_def and_then_eq_Inr)
  from authority_Inr [OF a] r have "actor_command C cfg (ClaimAdminMutation (ctx_lease c) f t) st = (s, Inr x)"
    by (auto simp: request_def split: if_splits)
  then show ?thesis
    using authority_Inr [OF a]
    by (auto simp: actor_command_def and_then_eq_Inr lift_res_def validate_admin_authority_def answer_def
        split: if_splits prod.splits sum.splits)
qed

lemma claim_Inr:
  fixes st s :: auth
  assumes "actor_claim_admin_mutation C f t st = (s, Inr ())"
  defines "now \<equiv> clk st (clk_pos st)"
  defines "r \<equiv> \<lparr>ar_fingerprint = f, ar_client_timestamp = t, ar_accepted_at = now\<rparr>"
  shows "f \<notin> admin_replays (prune_expired_admin_replays now st)" "r \<in> set (admin_replay_order s)"
    "clk s = clk st" "admin_lease s = admin_lease st" "lease_objs s = lease_objs st"
proof -
  let ?p = "prune_expired_admin_replays now (st\<lparr>clk_pos := Suc (clk_pos st)\<rparr>)"
  obtain s1 where fresh: "f \<notin> admin_replays ?p"
      and w: "fail_closed_on_uncertain_wal (append_wal C (admin_key ?p) (WalAdminReplay r) ?p) = (s1, Inr ())"
      and s: "s = s1\<lparr>admin_replays := insert f (admin_replays s1), admin_replay_order := admin_replay_order s1 @ [r]\<rparr>"
    using assms(1) by (auto simp: actor_claim_admin_mutation_def unix_seconds_def and_then_eq_Inr now_def r_def
        Let_def split: if_splits)
  have "io_only (mem ?p) (append_wal C (admin_key ?p) (WalAdminReplay r) ?p)"
    by (rule io_frame) simp
  then have "mem s1 = mem ?p"
    using w by (cases "append_wal C (admin_key ?p) (WalAdminReplay r) ?p")
      (auto simp: io_only_def fail_closed_on_uncertain_wal_def split: sum.splits)
  from more_fields [OF this] fresh
  show "f \<notin> admin_replays (prune_expired_admin_replays now st)" "r \<in> set (admin_replay_order s)"
    "clk s = clk st" "admin_lease s = admin_lease st" "lease_objs s = lease_objs st"
    by (simp_all add: s prune_expired_admin_replays_def)
qed

lemma claim_admits:
  assumes "rt_claim_admin_mutation C cfg c f t st = (s, Inr x)" "logs_ok st"
    and "admin_lease st < length (lease_objs st)" "0 < clk st (clk_pos st)"
    and "\<And>n. clk st n \<le> T" "T \<le> clk st (clk_pos st) + ADMIN_REPLAY_RETENTION"
  shows "admitted T (ctx_lease c) f s"
proof -
  from claim_command [OF assms(1)]
  have cl: "actor_claim_admin_mutation C f t st = (s, Inr ())" and lease: "admin_lease st = ctx_lease c"
    by simp_all
  have "logs_ok s"
    using logs.claim_ends [OF assms(2), of C f t] cl by (simp add: ends_def)
  moreover have "T \<le> ar_accepted_at r + ADMIN_REPLAY_RETENTION \<and> ar_accepted_at r \<noteq> 0 \<and> ar_fingerprint r = f"
    if "r = \<lparr>ar_fingerprint = f, ar_client_timestamp = t, ar_accepted_at = clk st (clk_pos st)\<rparr>" for r
    using that assms(4,6) by simp
  ultimately show ?thesis
    using claim_Inr(2-5) [OF cl] assms(3,5) lease unfolding admitted_def logs_ok_def by metis
qed

lemma claim_refused:
  assumes "admitted T (ctx_lease c) f st"
  shows "rt_claim_admin_mutation C cfg c f t st \<noteq> (s, Inr x)"
proof
  assume "rt_claim_admin_mutation C cfg c f t st = (s, Inr x)"
  from claim_command [OF this] have cl: "actor_claim_admin_mutation C f t st = (s, Inr ())"
    and lease: "admin_lease st = ctx_lease c"
    by simp_all
  have "admitted T (ctx_lease c) f (prune_expired_admin_replays (clk st (clk_pos st)) st)"
    using admission.prune [OF assms] by simp
  then have "f \<in> admin_replays (prune_expired_admin_replays (clk st (clk_pos st)) st)"
    using lease by (auto simp: admitted_def replays_ok_def prune_expired_admin_replays_def)
  then show False
    using claim_Inr(1) [OF cl] by simp
qed

section \<open>The dispatch\<close>

lemma route_to_admin:
  assumes "route_request C cfg c protocol fp ts asked st = (s, ToAdmin r)"
  shows "asked = AdminReq r \<and> ctx_is_admin c \<and> protocol = V2Protocol \<and>
    (is_mutating r \<longrightarrow> (\<exists>f t x. fp = Some f \<and> ts = Some t \<and>
       rt_claim_admin_mutation C cfg c f t st = (s, Inr x)))"
  using assms
  by (cases asked)
    (auto simp: route_request_def route_admin_def scope_service_or_reject_def run_while_credential_active_def
      split: sum.splits prod.splits if_splits option.splits)

text \<open>
  C13: Only an administrator context over a protocol v2 session reaches the administration, and only
  with an administration request; a mutating one moreover only after the actor has written its
  fingerprint into the log and admitted it.
\<close>

theorem administration_is_guarded:
  assumes "route_request C cfg c protocol fp ts asked st = (s, ToAdmin r)"
  shows "asked = AdminReq r \<and> ctx_is_admin c \<and> protocol = V2Protocol \<and>
    (is_mutating r \<longrightarrow> (\<exists>f t. fp = Some f \<and> ts = Some t \<and>
       actor_claim_admin_mutation C f t st = (s, Inr ()) \<and> f \<in> ar_fingerprint ` set (admin_replay_order s)))"
proof -
  note r = route_to_admin [OF assms]
  have "f \<in> ar_fingerprint ` set (admin_replay_order s) \<and> actor_claim_admin_mutation C f t st = (s, Inr ())"
    if "rt_claim_admin_mutation C cfg c f t st = (s, Inr x)" for f t x
    using claim_command [OF that] claim_Inr(2) [of C f t st s] by force
  then show ?thesis
    using r by blast
qed

text \<open>
  C11: A mutating administration request runs at most once.  Once the dispatch has let one through,
  then after any commands, timer intervals, authentications and context checks the same first
  flight (the same fingerprint, under the same administrator lease) is never let through again
  while the clock stays within the ten minutes its record is kept; the record is only dropped early
  when a new root key ends the lease.
\<close>

theorem mutation_is_executed_once:
  assumes "logs_ok st" "admin_lease st < length (lease_objs st)" "0 < clk st (clk_pos st)"
    and "\<And>n. clk st n \<le> clk st (clk_pos st) + ADMIN_REPLAY_RETENTION"
    and "route_request C cfg c protocol (Some f) ts asked st = (s, ToAdmin r)" "is_mutating r"
    and "is_mutating r'" "ctx_lease c' = ctx_lease c"
  shows "snd (route_request C cfg c' protocol' (Some f) ts' asked' (service_run C cfg es s)) \<noteq> ToAdmin r'"
proof
  assume "snd (route_request C cfg c' protocol' (Some f) ts' asked' (service_run C cfg es s)) = ToAdmin r'"
  then obtain s' where again:
    "route_request C cfg c' protocol' (Some f) ts' asked' (service_run C cfg es s) = (s', ToAdmin r')"
    by (metis prod.collapse)
  obtain t x where "rt_claim_admin_mutation C cfg c f t st = (s, Inr x)"
    using route_to_admin [OF assms(5)] assms(6) by auto
  from admission.run [OF claim_admits [OF this assms(1-4) order_refl]]
  have "admitted (clk st (clk_pos st) + ADMIN_REPLAY_RETENTION) (ctx_lease c') f (service_run C cfg es s)"
    using assms(8) by simp
  from claim_refused [OF this] route_to_admin [OF again] assms(7) show False
    by blast
qed

text \<open>
  Nothing the service does breaks its bookkeeping of past administration: the audit log never
  exceeds its 4096 records, and the replay set is exactly the fingerprints of the queue that expires
  them, without duplicates and within its capacity.
\<close>

theorem admin_logs_stay_bounded:
  assumes "logs_ok st"
  shows "logs_ok (service_run C cfg es st)"
  by (rule logs.run [OF assms])

section \<open>A concrete run\<close>

lemma claim_succeeds:
  assumes "io_fine st" "seal_ok C"
    and "\<And>r. \<exists>b. wal_json C (WalAdminReplay r) = Some b \<and> length b \<le> WAL_RECORD_MAX"
    and "f \<notin> admin_replays st" "card (admin_replays st) < ADMIN_REPLAY_CAPACITY" "admin_replay_order st = []"
    and "abs_diff (clk st (clk_pos st)) t \<le> ADMIN_REPLAY_RETENTION div 2"
  shows "\<exists>s. actor_claim_admin_mutation C f t st = (s, Inr ())"
proof -
  let ?r = "\<lparr>ar_fingerprint = f, ar_client_timestamp = t, ar_accepted_at = clk st (clk_pos st)\<rparr>"
  let ?p = "prune_expired_admin_replays (clk st (clk_pos st)) (st\<lparr>clk_pos := Suc (clk_pos st)\<rparr>)"
  obtain b where "wal_json C (WalAdminReplay ?r) = Some b" "length b \<le> WAL_RECORD_MAX"
    using assms(3) by blast
  moreover have "io_fine ?p"
    using assms(1) by (simp add: io_fine_def prune_expired_admin_replays_def)
  ultimately have "succeeds (append_wal C (admin_key ?p) (WalAdminReplay ?r) ?p)"
    using append_wal_fine assms(2) by blast
  then obtain s where "append_wal C (admin_key ?p) (WalAdminReplay ?r) ?p = (s, Inr ())"
    by (auto simp: succeeds_def)
  moreover have "admin_replays ?p = admin_replays st"
    by (simp add: prune_expired_admin_replays_def assms(6))
  ultimately show ?thesis
    using assms(4,5,7)
    by (simp add: actor_claim_admin_mutation_def unix_seconds_def Let_def fail_closed_on_uncertain_wal_def)
qed

definition toy_admin :: auth_context where
  "toy_admin = context_from_lease ADMIN_KEY_ID True 0"

lemma toy_admin_route:
  "\<exists>s. route_request toy_env2 toy_cfg toy_admin V2Protocol (Some [3]) (Some 50) (AdminReq KeyGc) toy_state =
     (s, ToAdmin KeyGc)"
proof -
  have "\<exists>s. actor_claim_admin_mutation toy_env2 [3] 50 toy_state = (s, Inr ())"
    by (rule claim_succeeds)
      (use toy_revoke_ready(2,3) in \<open>simp_all add: toy_env2_def WAL_RECORD_MAX_def\<close>,
        simp_all add: toy_state_def abs_diff_def auth_const_defs)
  then obtain s where s: "actor_claim_admin_mutation toy_env2 [3] 50 toy_state = (s, Inr ())"
    by blast
  have lease: "lease_alive toy_state 0" "\<not> is_cancelled (lease_objs toy_state ! 0)" "admin_lease toy_state = 0"
      "running toy_state"
    by (simp_all add: lease_alive_def toy_state_def lease_new_def)
  have "admin_authority toy_admin toy_state = (toy_state, Inr 0)"
    using lease by (simp add: admin_authority_def toy_admin_def context_from_lease_def require_admin_def
        lift_res_def ensure_active_def)
  then have "rt_claim_admin_mutation toy_env2 toy_cfg toy_admin [3] 50 toy_state = (s, Inr AnsUnit)"
    using lease s by (simp add: rt_claim_admin_mutation_def admin_request_def request_def actor_command_def
        validate_admin_authority_def lift_res_def answer_def)
  then show ?thesis
    by (simp add: route_request_def resolve_namespace_def route_admin_def toy_admin_def
        context_from_lease_def is_register_req_def Let_def)
qed

theorem administration_is_guarded_witness:
  "\<exists>s. route_request toy_env2 toy_cfg toy_admin V2Protocol (Some [3]) (Some 50) (AdminReq KeyGc) toy_state =
     (s, ToAdmin KeyGc) \<and> [3] \<in> ar_fingerprint ` set (admin_replay_order s)"
  using toy_admin_route administration_is_guarded [of toy_env2 toy_cfg toy_admin V2Protocol "Some [3]" "Some 50"
      "AdminReq KeyGc" toy_state _ KeyGc] by fastforce

lemma toy_logs_ok: "logs_ok toy_state"
  by (simp add: logs_ok_def audit_bounded_def replays_ok_def toy_state_def)

theorem mutation_is_executed_once_witness:
  "\<exists>s. route_request toy_env2 toy_cfg toy_admin V2Protocol (Some [3]) (Some 50) (AdminReq KeyGc) toy_state =
     (s, ToAdmin KeyGc) \<and>
     snd (route_request toy_env2 toy_cfg toy_admin V2Protocol (Some [3]) (Some 50) (AdminReq KeyGc)
       (service_run toy_env2 toy_cfg [Interval] s)) \<noteq> ToAdmin KeyGc"
proof -
  have "admin_lease toy_state < length (lease_objs toy_state)" "0 < clk toy_state (clk_pos toy_state)"
      "\<And>n. clk toy_state n \<le> clk toy_state (clk_pos toy_state) + ADMIN_REPLAY_RETENTION"
    by (simp_all add: toy_state_def)
  from mutation_is_executed_once [OF toy_logs_ok this] toy_admin_route show ?thesis
    by (metis is_mutating.simps(4))
qed

theorem admin_logs_stay_bounded_witness: "logs_ok (service_run toy_env2 toy_cfg [Interval] toy_state)"
  by (rule admin_logs_stay_bounded [OF toy_logs_ok])

end
