(* ===== verification/ReplayProps.thy ===== *)
theory ReplayProps
  imports Replay Toy
begin

text \<open>
  What the admission guard promises: a first flight is admitted once per window, also across a
  restart of the relay; its budgets hold; and without a working log it admits nothing.
\<close>

section \<open>The filter of a guard\<close>

text \<open>
  The guard's filters are non-empty and of one size, its window is the filter's, and
  twice the window fits a \<^verbatim>\<open>u64\<close>.
\<close>

definition guard_ok :: "nat \<Rightarrow> guard \<Rightarrow> bool" where
  "guard_ok n g \<longleftrightarrow> bloom.both_sized n (g_bloom g) \<and> rb_window (g_bloom g) = window_seconds g \<and>
     0 < window_seconds g \<and> 2 * window_seconds g \<le> u64_max"

definition remembers :: "nat \<Rightarrow> nat \<Rightarrow> bytes \<Rightarrow> guard \<Rightarrow> bool" where
  "remembers n t fp g \<longleftrightarrow> guard_ok n g \<and> bloom.holds_until n t fp (g_bloom g)"

lemma bloom_rotate_window:
  "bloom.both_sized n b \<Longrightarrow> bloom_rotate now b = rotate_window (bloom_empty (Suc n)) now b"
  by (simp add: bloom.both_sized_def filter_sized_def bloom_rotate_def)

lemma guard_rotate:
  "guard_ok n g \<Longrightarrow> bloom_rotate now (g_bloom g) = rotate_window (bloom_empty (Suc n)) now (g_bloom g)"
  by (simp add: guard_ok_def bloom_rotate_window)

lemma rotated_window [simp]: "rb_window (bloom_rotate now b) = rb_window b"
  by (simp add: bloom_rotate_def rotate_window_def Let_def)

lemma bloom_add_remember:
  assumes "bloom.both_sized n b"
  shows "bloom_add fp now b = bloom.remember n now fp b"
  by (simp add: bloom_add_def bloom.remember_def bloom_rotate_window [OF assms])

text \<open>What an operation may do to the filter: rotate it at a time, or insert at that time.\<close>

definition filter_step :: "nat \<Rightarrow> nat \<Rightarrow> guard \<Rightarrow> guard \<Rightarrow> bool" where
  "filter_step n now g g' \<longleftrightarrow> window_seconds g' = window_seconds g \<and> log_path g' = log_path g \<and>
     max_per_key g' = max_per_key g \<and> max_total g' = max_total g \<and>
     (g_bloom g' = g_bloom g \<or> g_bloom g' = bloom_rotate now (g_bloom g) \<or>
      (\<exists>y. g_bloom g' = bloom_add y now (bloom_rotate now (g_bloom g))))"

lemma guard_ok_rotate: "guard_ok n g \<Longrightarrow> bloom.both_sized n (bloom_rotate now (g_bloom g))"
  using bloom.both_sized_rotate [of n "g_bloom g" now] by (simp add: guard_rotate) (simp add: guard_ok_def)

lemma filter_step_ok:
  assumes "guard_ok n g" "filter_step n now g g'"
  shows "guard_ok n g'"
proof -
  let ?b = "bloom_rotate now (g_bloom g)"
  have b: "bloom.both_sized n ?b" "rb_window ?b = window_seconds g"
    using guard_ok_rotate [OF assms(1)] assms(1) by (simp_all add: guard_ok_def)
  moreover have "bloom.both_sized n (bloom_add y now ?b) \<and> rb_window (bloom_add y now ?b) = window_seconds g" for y
    using b by (simp add: bloom_add_remember bloom.both_sized_remember)
  ultimately show ?thesis
    using assms by (auto simp: guard_ok_def filter_step_def)
qed

lemma filter_step_remembers:
  assumes "remembers n t fp g" "filter_step n now g g'" "now \<le> t + window_seconds g"
  shows "remembers n t fp g'"
proof -
  have ok: "guard_ok n g" and w: "rb_window (g_bloom g) = window_seconds g"
    and pos: "0 < rb_window (g_bloom g)" "2 * rb_window (g_bloom g) \<le> u64_max"
    using assms(1) by (simp_all add: remembers_def guard_ok_def)
  let ?b = "bloom_rotate now (g_bloom g)"
  have b: "bloom.both_sized n ?b" "rb_window ?b = window_seconds g"
    using guard_ok_rotate [OF ok] w by simp_all
  have "bloom.holds_until n t fp ?b"
    using assms(1,3) pos w bloom.holds_rotate [of n t fp "g_bloom g" now]
    by (simp add: guard_rotate [OF ok] remembers_def)
  moreover from this have "bloom.holds_until n t fp (bloom_add y now ?b)" for y
    using bloom.holds_remember_other [of n t fp ?b now y] b assms(3) pos w by (simp add: bloom_add_remember)
  ultimately show ?thesis
    using assms(1,2) filter_step_ok [OF ok assms(2)] by (auto simp: remembers_def filter_step_def)
qed

section \<open>Operations as filter steps\<close>

lemma persist_guard:
  assumes "persist fp now (g, st) = ((g', st'), ok)"
  shows "g' = g \<or> g' = g\<lparr>log_failed := True\<rparr>"
  using assms by (auto simp: persist_def split: if_splits option.splits prod.splits sum.splits bool.splits)

lemma compact_guard:
  assumes "compact now (g, st) = (g', st')"
  shows "g' = g\<lparr>log_failed := True\<rparr> \<or> g' = g\<lparr>last_compact_at := now\<rparr>"
  using assms by (auto simp: compact_def split: option.splits prod.splits sum.splits)

lemma reserve_guard:
  assumes "reserve fp now (g, st) = ((g', st'), r)"
  shows "r = Fresh \<and> g_bloom g' = bloom_add fp now (g_bloom g) \<and> total g' = min (total g + 1) u32_max \<or>
      r = Unavailable \<and> g_bloom g' = g_bloom g \<and> total g' = total g"
    and "window_seconds g' = window_seconds g" "log_path g' = log_path g" "max_per_key g' = max_per_key g"
    "max_total g' = max_total g" "g_counts g' = g_counts g" "last_compact_at g' = last_compact_at g"
  using assms by (auto simp: reserve_def split: prod.splits bool.splits dest!: persist_guard)

text \<open>One operation of the guard.\<close>

datatype guard_op = Admit key_id bytes nat | Claim bytes nat

fun op_time :: "guard_op \<Rightarrow> nat" where
  "op_time (Admit k fp now) = now" | "op_time (Claim fp now) = now"

fun op_print :: "guard_op \<Rightarrow> bytes" where
  "op_print (Admit k fp now) = fp" | "op_print (Claim fp now) = fp"

fun guard_step :: "guard_op \<Rightarrow> guard \<times> 'a os_scheme \<Rightarrow> (guard \<times> 'a os_scheme) \<times> first_flight_admit" where
  "guard_step (Admit k fp now) s = admit k fp now s"
| "guard_step (Claim fp now) s = claim fp now s"

lemma rotate_counts_fields [simp]:
  "g_bloom (rotate_counts now g) = g_bloom g" "window_seconds (rotate_counts now g) = window_seconds g"
  "log_path (rotate_counts now g) = log_path g" "max_per_key (rotate_counts now g) = max_per_key g"
  "max_total (rotate_counts now g) = max_total g" "log_failed (rotate_counts now g) = log_failed g"
  by (simp_all add: rotate_counts_def)

lemma reset_total_fields [simp]:
  "g_bloom (reset_total_if_rotated g) = g_bloom g"
  "window_seconds (reset_total_if_rotated g) = window_seconds g"
  "log_path (reset_total_if_rotated g) = log_path g"
  "max_per_key (reset_total_if_rotated g) = max_per_key g"
  "max_total (reset_total_if_rotated g) = max_total g"
  "log_failed (reset_total_if_rotated g) = log_failed g"
  "g_counts (reset_total_if_rotated g) = g_counts g"
  by (simp_all add: reset_total_if_rotated_def)

text \<open>
  The outcome of an operation, with the filter it leaves: a known fingerprint is a replay, a fresh
  one is inserted, and a refusal leaves the filter as the rotation left it.
\<close>

definition op_outcome :: "guard_op \<Rightarrow> guard \<Rightarrow> guard \<Rightarrow> first_flight_admit \<Rightarrow> bool" where
  "op_outcome op g g' r \<longleftrightarrow>
     (let b = bloom_rotate (op_time op) (g_bloom g); found = bloom.seen (op_print op) b in
      window_seconds g' = window_seconds g \<and> log_path g' = log_path g \<and>
      max_per_key g' = max_per_key g \<and> max_total g' = max_total g \<and>
      (found \<longleftrightarrow> r = Replayed) \<and>
      (if r = Fresh then g_bloom g' = bloom_add (op_print op) (op_time op) b else g_bloom g' = b))"

lemma after_reserve:
  assumes "reserve fp now (g1, st) = ((g2, st2), r)" "g_bloom g1 = bloom_rotate now (g_bloom g)"
    and "window_seconds g1 = window_seconds g" "log_path g1 = log_path g" "max_per_key g1 = max_per_key g"
    "max_total g1 = max_total g" "\<not> bloom.seen fp (bloom_rotate now (g_bloom g))"
    and "op_time op = now" "op_print op = fp"
  shows "op_outcome op g g2 r"
  using reserve_guard [OF assms(1)] assms(2-) by (auto simp: op_outcome_def Let_def)

lemma op_outcome_counts: "op_outcome op g g1 r \<Longrightarrow> op_outcome op g (g1\<lparr>g_counts := c\<rparr>) r"
  by (simp add: op_outcome_def Let_def)

lemma op_outcome_compact:
  "op_outcome op g g1 r \<Longrightarrow> compact now (g1, st) = (g2, st2) \<Longrightarrow> op_outcome op g g2 r"
  by (auto simp: op_outcome_def Let_def dest!: compact_guard)

lemma claim_outcome:
  assumes "claim fp now (g, st) = ((g', st'), r)"
  shows "op_outcome (Claim fp now) g g' r"
proof -
  let ?b = "bloom_rotate now (g_bloom g)"
  let ?g = "reset_total_if_rotated (g\<lparr>g_bloom := ?b\<rparr>)"
  consider "bloom.seen fp ?b" "r = Replayed" "g' = g\<lparr>g_bloom := ?b\<rparr>"
    | "\<not> bloom.seen fp ?b" "r = Unavailable" "g' = ?g"
    | "\<not> bloom.seen fp ?b" "reserve fp now (?g, st) = ((g', st'), r)"
    using assms by (auto simp: claim_def bloom_check_def bloom.seen_def Let_def split: if_splits)
  then show ?thesis
  proof cases
    case 3
    then show ?thesis
      using after_reserve [OF 3(2), of g "Claim fp now"] by simp
  qed (simp_all add: op_outcome_def Let_def)
qed

lemma admit_outcome:
  assumes "admit k fp now (g, st) = ((g', st'), r)"
  shows "op_outcome (Admit k fp now) g g' r"
proof -
  let ?b = "bloom_rotate now (g_bloom g)"
  let ?h = "(rotate_counts now g)\<lparr>g_bloom := ?b\<rparr>"
  let ?g = "reset_total_if_rotated ?h"
  obtain g2 st2 r2 where res: "reserve fp now (?g, st) = ((g2, st2), r2)"
    by (metis prod.exhaust)
  note known = bloom.seen_def [symmetric]
  have step: "admit k fp now (g, st) =
    (if bloom.seen fp ?b then ((?h, st), Replayed)
     else if max_per_key ?g \<le> count_of ?g k \<or> max_total ?g \<le> total ?g then ((?g, st), Limited)
     else case ((g2, st2), r2) of
       ((g, st), Fresh) \<Rightarrow>
         (let g = g\<lparr>g_counts := (g_counts g)(k \<mapsto> count_of g k + 1)\<rparr>
          in (if REPLAY_COMPACT_INTERVAL_SECONDS \<le> now - last_compact_at g
              then compact now (g, st) else (g, st), Fresh))
     | (s, result) \<Rightarrow> (s, result))"
    by (simp only: admit_def bloom_check_def Let_def case_prod_conv rotate_counts_fields known res)
  show ?thesis
  proof (cases "bloom.seen fp ?b")
    case True
    then show ?thesis
      using step assms by (simp add: op_outcome_def Let_def)
  next
    case False
    note reserved = after_reserve [OF res, of g "Admit k fp now"]
    show ?thesis
    proof (cases "max_per_key ?g \<le> count_of ?g k \<or> max_total ?g \<le> total ?g")
      case True
      then show ?thesis
        using step assms False by (simp add: op_outcome_def Let_def)
    next
      case room: False
      have out: "op_outcome (Admit k fp now) g g2 r2"
        using reserved False by simp
      define g3 where "g3 = g2\<lparr>g_counts := (g_counts g2)(k \<mapsto> count_of g2 k + 1)\<rparr>"
      have "r = r2 \<and> (g' = g2 \<or> g' = g3 \<or> compact now (g3, st2) = (g', st'))"
        using step assms False room by (cases r2) (auto simp: g3_def Let_def split: if_splits)
      then show ?thesis
        using out op_outcome_counts [OF out] op_outcome_compact unfolding g3_def by blast
    qed
  qed
qed

lemma guard_step_outcome:
  "guard_step op (g, st) = ((g', st'), r) \<Longrightarrow> op_outcome op g g' r"
  by (cases op) (auto dest: admit_outcome claim_outcome)

lemma outcome_step: "op_outcome op g g' r \<Longrightarrow> filter_step n (op_time op) g g'"
  by (auto simp: op_outcome_def filter_step_def Let_def split: if_splits)

lemma outcome_remembered:
  assumes "op_outcome op g g' r" "remembers n t (op_print op) g" "op_time op \<le> t + window_seconds g"
  shows "r = Replayed"
proof -
  have ok: "guard_ok n g"
    using assms(2) by (simp add: remembers_def)
  have "bloom.holds_until n t (op_print op) (bloom_rotate (op_time op) (g_bloom g))"
    using assms(2,3) bloom.holds_rotate [of n t "op_print op" "g_bloom g" "op_time op"]
    by (simp add: guard_rotate [OF ok]) (simp add: remembers_def guard_ok_def)
  from bloom.holds_seen [OF this] show ?thesis
    using assms(1) by (simp add: op_outcome_def Let_def)
qed

lemma outcome_fresh:
  assumes "op_outcome op g g' Fresh" "guard_ok n g"
  shows "remembers n (op_time op) (op_print op) g'"
proof -
  let ?b = "bloom_rotate (op_time op) (g_bloom g)"
  have b: "bloom.both_sized n ?b" "0 < rb_window ?b"
    using guard_ok_rotate [OF assms(2)] assms(2) by (simp_all add: guard_ok_def)
  have "g_bloom g' = bloom.remember n (op_time op) (op_print op) ?b"
    using assms(1) bloom_add_remember [OF b(1)] by (simp add: op_outcome_def Let_def)
  then show ?thesis
    using bloom.holds_remember [OF b] filter_step_ok [OF assms(2) outcome_step [OF assms(1)]]
    by (simp add: remembers_def)
qed

section \<open>Runs\<close>

fun guard_run ::
  "guard_op list \<Rightarrow> guard \<times> 'a os_scheme \<Rightarrow> (guard \<times> 'a os_scheme) \<times> first_flight_admit list" where
  "guard_run [] s = (s, [])"
| "guard_run (op # ops) s =
     (let (s, r) = guard_step op s; (s, rs) = guard_run ops s in (s, r # rs))"

lemma run_remembered:
  assumes "remembers n t fp g" "guard_run ops (g, st) = ((g', st'), rs)"
    and "\<forall>op\<in>set ops. op_time op \<le> t + window_seconds g"
  shows "remembers n t fp g' \<and> window_seconds g' = window_seconds g \<and> length rs = length ops \<and>
    (\<forall>i<length ops. op_print (ops ! i) = fp \<longrightarrow> rs ! i = Replayed)"
  using assms
proof (induction ops arbitrary: g st rs)
  case (Cons op ops)
  obtain g1 st1 r rs1 where s: "guard_step op (g, st) = ((g1, st1), r)"
    and run: "guard_run ops (g1, st1) = ((g', st'), rs1)" and rs: "rs = r # rs1"
    using Cons.prems(2) by (auto split: prod.splits)
  note out = guard_step_outcome [OF s]
  have r1: "remembers n t fp g1" "window_seconds g1 = window_seconds g"
    using filter_step_remembers [OF Cons.prems(1) outcome_step [OF out]] Cons.prems(3) out
    by (simp_all add: op_outcome_def Let_def)
  have "op_print op = fp \<Longrightarrow> r = Replayed"
    using outcome_remembered [OF out] Cons.prems(1,3) by auto
  then show ?case
    using Cons.IH [OF r1(1) run] Cons.prems(3) r1(2) rs by (auto simp: nth_Cons' less_Suc_eq_0_disj)
qed simp

lemma run_ok: "guard_ok n g \<Longrightarrow> guard_run ops (g, st) = ((g', st'), rs) \<Longrightarrow> guard_ok n g'"
proof (induction ops arbitrary: g st rs)
  case (Cons op ops)
  obtain g1 st1 r rs1 where s: "guard_step op (g, st) = ((g1, st1), r)"
    and run: "guard_run ops (g1, st1) = ((g', st'), rs1)"
    using Cons.prems(2) by (auto split: prod.splits)
  show ?case
    using Cons.IH [OF filter_step_ok [OF Cons.prems(1) outcome_step [OF guard_step_outcome [OF s]]] run] .
qed simp

text \<open>
  A first flight is admitted at most once per window: after an operation has found a fingerprint
  fresh, every later operation on that fingerprint in a run whose clock readings stay within a
  window of that moment reports a replay, whatever else is admitted, refused or rotated in between.
\<close>

theorem first_flight_admitted_once:
  assumes "guard_ok n g" "guard_step op (g, st) = ((g1, st1), Fresh)"
    and "guard_run ops (g1, st1) = ((g2, st2), rs)"
    and "\<forall>o'\<in>set ops. op_time o' \<le> op_time op + window_seconds g"
    and "i < length ops" "op_print (ops ! i) = op_print op"
  shows "rs ! i = Replayed"
proof -
  note out = guard_step_outcome [OF assms(2)]
  have "window_seconds g1 = window_seconds g"
    using out by (simp add: op_outcome_def Let_def)
  then show ?thesis
    using run_remembered [OF outcome_fresh [OF out assms(1)] assms(3)] assms(4-) by simp
qed

section \<open>Without a log nothing is admitted\<close>

lemma persist_failed: "log_failed g \<Longrightarrow> persist fp now (g, st) = ((g, st), False)"
  by (simp add: persist_def)

lemma reserve_failed: "log_failed g \<Longrightarrow> reserve fp now (g, st) = ((g, st), Unavailable)"
  by (simp add: reserve_def persist_failed)

lemma claim_failed:
  assumes "log_failed g" "claim fp now (g, st) = ((g', st'), r)"
  shows "r \<noteq> Fresh \<and> log_failed g' \<and> st' = st"
  using assms by (auto simp: claim_def Let_def reserve_failed split: prod.splits if_splits)

lemma admit_failed:
  assumes "log_failed g" "admit k fp now (g, st) = ((g', st'), r)"
  shows "r \<noteq> Fresh \<and> log_failed g' \<and> st' = st"
  using assms by (auto simp: admit_def Let_def reserve_failed split: prod.splits if_splits)

lemma step_failed:
  "log_failed g \<Longrightarrow> guard_step op (g, st) = ((g', st'), r) \<Longrightarrow> r \<noteq> Fresh \<and> log_failed g' \<and> st' = st"
  by (cases op) (auto dest: admit_failed claim_failed)

lemma run_failed:
  "log_failed g \<Longrightarrow> guard_run ops (g, st) = ((g', st'), rs) \<Longrightarrow> Fresh \<notin> set rs \<and> log_failed g' \<and> st' = st"
proof (induction ops arbitrary: g st rs)
  case (Cons op ops)
  obtain g1 st1 r rs1 where s: "guard_step op (g, st) = ((g1, st1), r)"
    and run: "guard_run ops (g1, st1) = ((g', st'), rs1)" "rs = r # rs1"
    using Cons.prems(2) by (auto split: prod.splits)
  show ?case
    using Cons.IH [OF _ run(1)] step_failed [OF Cons.prems(1) s] run(2) by auto
qed simp

text \<open>
  Once the log is known to be damaged the guard fails closed: it admits no first flight, and
  writes nothing, until it is opened again.
\<close>

theorem damaged_log_admits_nothing:
  assumes "log_failed g" "guard_run ops (g, st) = ((g', st'), rs)"
  shows "Fresh \<notin> set rs \<and> log_failed g' \<and> st' = st"
  by (rule run_failed [OF assms])

section \<open>The log\<close>

function log_records :: "bytes \<Rightarrow> bytes list" where
  "log_records bs =
     (if length bs < REPLAY_RECORD_LEN then []
      else take REPLAY_RECORD_LEN bs # log_records (drop REPLAY_RECORD_LEN bs))"
  by pat_completeness auto
termination
  by (relation "measure length") (auto simp: REPLAY_RECORD_LEN_def)

declare log_records.simps [simp del]

definition whole :: "bytes list \<Rightarrow> bool" where
  "whole rs \<longleftrightarrow> (\<forall>r\<in>set rs. length r = REPLAY_RECORD_LEN)"

lemma record_len_pos [simp]: "0 < REPLAY_RECORD_LEN"
  by (simp add: REPLAY_RECORD_LEN_def)

lemma log_records_concat:
  "whole rs \<Longrightarrow> length junk < REPLAY_RECORD_LEN \<Longrightarrow> log_records (concat rs @ junk) = rs"
proof (induction rs)
  case Nil
  then show ?case
    by (simp add: log_records.simps)
next
  case (Cons r rs)
  then show ?case
    by (subst log_records.simps) (simp add: whole_def)
qed

lemma read_complete_records:
  assumes "whole rs" "length junk < REPLAY_RECORD_LEN"
    and "read_complete (concat rs @ junk) acc st = (st', r)"
  shows "r = Inl io_error \<or> junk = [] \<and> r = Inr (rev acc @ rs)"
  using assms
proof (induction rs arbitrary: acc st)
  case Nil
  then show ?case
    by (subst (asm) read_complete.simps) (auto split: prod.splits io_outcome.splits if_splits)
next
  case (Cons r0 rs)
  have r0: "length r0 = REPLAY_RECORD_LEN" "whole rs"
    using Cons.prems(1) by (simp_all add: whole_def)
  then have ne: "concat (r0 # rs) @ junk \<noteq> []"
    by (auto simp: REPLAY_RECORD_LEN_def)
  obtain s o1 where sys: "sys st = (s, o1)"
    by (cases "sys st")
  show ?case
  proof (cases o1)
    case IoOk
    then have "read_complete (concat rs @ junk) (r0 # acc) s = (st', r)"
      using Cons.prems(3) ne r0(1) sys by (subst (asm) read_complete.simps) (auto split: if_splits)
    from Cons.IH [OF r0(2) Cons.prems(2) this] show ?thesis
      by simp
  next
    case (IoErr n)
    then show ?thesis
      using Cons.prems(3) sys by (subst (asm) read_complete.simps) simp
  qed
qed

text \<open>
  The log of a guard: whole records, and a torn tail only after the guard has given up on it.
\<close>

definition log_ok :: "string \<Rightarrow> guard \<Rightarrow> 'a os_scheme \<Rightarrow> bytes list \<Rightarrow> bool" where
  "log_ok p g st rs \<longleftrightarrow> whole rs \<and>
     (\<exists>junk. file_data st p = concat rs @ junk \<and> length junk < REPLAY_RECORD_LEN \<and>
        (junk \<noteq> [] \<longrightarrow> log_failed g))"

definition journal :: "string \<Rightarrow> nat \<Rightarrow> bytes \<Rightarrow> guard \<Rightarrow> 'a os_scheme \<Rightarrow> bool" where
  "journal p t fp g st \<longleftrightarrow> log_path g = Some p \<and> length fp = 32 \<and> t < 2 ^ 64 \<and>
     (\<exists>rs. log_ok p g st rs \<and> replay_record fp t \<in> set rs)"

lemma record_time_record [simp]: "length fp = 32 \<Longrightarrow> t < 2 ^ 64 \<Longrightarrow> record_time (replay_record fp t) = t"
  by (simp add: record_time_def replay_record_def)

lemma length_replay_record [simp]: "length fp = 32 \<Longrightarrow> length (replay_record fp t) = REPLAY_RECORD_LEN"
  by (simp add: replay_record_def REPLAY_RECORD_LEN_def)

lemma log_ok_records: "log_ok p g st rs \<Longrightarrow> log_records (file_data st p) = rs"
  using log_records_concat by (fastforce simp: log_ok_def)

lemma append_record_spec:
  assumes "append_record p r st = (st', ok)"
  shows "\<exists>m. file_data st' p = file_data st p @ take m r \<and> (ok \<longrightarrow> length r \<le> m) \<and> files st' p \<noteq> None"
proof (cases "sys st")
  case (Pair s o1)
  then have f: "files s = files st"
    by (auto simp: sys_def)
  show ?thesis
  proof (cases o1)
    case IoOk
    then have "files st' = files (put_file p (file_data s p @ r) s)"
      using assms Pair by (auto simp: append_record_def append_bytes_def dest: sync_data_files)
    then have "file_data st' p = file_data st p @ take (length r) r \<and> files st' p \<noteq> None"
      using f by (simp add: file_data_def)
    then show ?thesis
      by blast
  next
    case (IoErr n)
    then show ?thesis
      using assms Pair f by (auto simp: append_record_def append_bytes_def file_data_def)
  qed
qed

lemma open_log_spec:
  assumes "open_log p st = (st', r)"
  shows "file_data st' p = file_data st p"
    and "r = Inr (created, len) \<Longrightarrow> len = length (file_data st p) \<and> files st' p \<noteq> None"
  using assms
  by (auto simp: open_log_def open_create_def io_call_def sys_def and_then_def file_data_def Let_def
      split: io_outcome.splits)

lemma log_ok_keep: "log_ok p g st rs \<Longrightarrow> file_data st' p = file_data st p \<Longrightarrow>
    (log_failed g \<Longrightarrow> log_failed g') \<Longrightarrow> log_ok p g' st' rs"
  by (auto simp: log_ok_def)

lemma file_data_io_call: "io_call e st = (st', r) \<Longrightarrow> file_data st' p = file_data st p"
  by (auto dest: files_io_callD simp: file_data_def)

lemma persist_log:
  assumes "persist fp now (g, st) = ((g', st'), ok)" "log_path g = Some p" "length fp = 32" "log_ok p g st rs"
  shows "\<exists>rs'. log_ok p g' st' rs' \<and> set rs \<subseteq> set rs' \<and> (ok \<longrightarrow> replay_record fp now \<in> set rs')"
proof (cases "log_failed g")
  case True
  then show ?thesis
    using assms persist_failed [of g fp now st] by auto
next
  case False
  then have data: "file_data st p = concat rs" "whole rs"
    using assms(4) by (auto simp: log_ok_def)
  obtain s1 r1 where o1: "open_log p st = (s1, r1)"
    by (cases "open_log p st")
  show ?thesis
  proof (cases r1)
    case (Inl e)
    then have "g' = g \<and> st' = s1 \<and> \<not> ok"
      using assms(1,2) False o1 by (simp add: persist_def)
    then show ?thesis
      using log_ok_keep [OF assms(4)] open_log_spec(1) [OF o1] by blast
  next
    case (Inr cl)
    obtain created len where cl: "cl = (created, len)"
      by (cases cl)
    have len: "len = length (concat rs)" and ex: "files s1 p \<noteq> None"
      using open_log_spec(2) [OF o1] Inr cl data by auto
    obtain s2 ok2 where a: "append_record p (replay_record fp now) s1 = (s2, ok2)"
      by (cases "append_record p (replay_record fp now) s1")
    obtain m where m: "file_data s2 p = concat rs @ take m (replay_record fp now)" "files s2 p \<noteq> None"
      "ok2 \<longrightarrow> length (replay_record fp now) \<le> m"
      using append_record_spec [OF a] open_log_spec(1) [OF o1] data(1) by auto
    let ?rs = "rs @ [replay_record fp now]"
    have whole: "whole ?rs"
      using data(2) assms(3) by (auto simp: whole_def)
    show ?thesis
    proof (cases ok2)
      case True
      then have "file_data s2 p = concat ?rs"
        using m by simp
      moreover have "file_data st' p = file_data s2 p"
        using assms(1,2) False o1 Inr cl a True
        by (auto simp: persist_def split: prod.splits sum.splits if_splits dest: file_data_io_call)
      ultimately show ?thesis
        using whole by (intro exI [of _ ?rs]) (auto simp: log_ok_def)
    next
      case no: False
      obtain s3 ok3 where rb: "roll_back p len s2 = (s3, ok3)"
        by (cases "roll_back p len s2")
      have out: "st' = s3" "g' = (if ok3 then g else g\<lparr>log_failed := True\<rparr>)" "\<not> ok"
        using assms(1,2) False o1 Inr cl a no rb by (auto simp: persist_def split: bool.splits)
      have d3: "file_data s3 p = concat rs \<or> \<not> ok3 \<and> file_data s3 p = file_data s2 p"
        using roll_back_spec [OF rb m(2)] m(1) len by auto
      then consider "file_data s3 p = concat rs" | "\<not> ok3" "file_data s3 p = concat ?rs"
        | "\<not> ok3" "file_data s3 p = concat rs @ take m (replay_record fp now)" "m < REPLAY_RECORD_LEN"
        using m(1) assms(3) length_replay_record [of fp now]
        by (cases "m < REPLAY_RECORD_LEN") auto
      then show ?thesis
      proof cases
        case 1
        then show ?thesis
          using data out by (intro exI [of _ rs]) (auto simp: log_ok_def)
      next
        case 2
        then show ?thesis
          using whole out by (intro exI [of _ ?rs]) (auto simp: log_ok_def)
      next
        case 3
        then show ?thesis
          using data out assms(3) by (intro exI [of _ rs]) (auto simp: log_ok_def)
      qed
    qed
  qed
qed

section \<open>The log through a run\<close>

lemma rewrite_live_data:
  assumes "rewrite_live live g st = (st', r)" "log_path g = Some p"
  shows "file_data st' p = file_data st p \<or> file_data st' p = concat live"
  using assms
  by (auto simp: rewrite_live_def random_bytes_def io_call_def sys_def and_then_def file_data_def Let_def
      put_file_def split: io_outcome.splits)

lemma live_record: "r \<in> set (live_records now g rs) \<longleftrightarrow> r \<in> set rs \<and> now - record_time r \<le> window_seconds g"
  by (simp add: live_records_def)

lemma whole_live: "whole rs \<Longrightarrow> whole (live_records now g rs)"
  by (simp add: whole_def live_records_def)

lemma log_ok_whole: "whole rs \<Longrightarrow> file_data st p = concat rs \<Longrightarrow> log_ok p g st rs"
  by (auto simp: log_ok_def)

lemma read_file_data: "read_file e p st = (st', Inr bs) \<Longrightarrow> bs = file_data st p \<and> files st' = files st"
  by (auto simp: read_file_def io_call_def sys_def and_then_def file_data_def split: io_outcome.splits option.splits)

lemma read_file_files: "read_file e p st = (st', r) \<Longrightarrow> files st' = files st"
  by (auto simp: read_file_def io_call_def sys_def and_then_def split: io_outcome.splits option.splits)

lemma read_complete_files: "files (fst (read_complete bs acc st)) = files st"
proof (induction bs acc st rule: read_complete.induct)
  case (1 bs acc st)
  obtain s o1 where sys: "sys st = (s, o1)"
    by (cases "sys st")
  then have f: "files s = files st"
    by (auto simp: sys_def)
  show ?case
    using 1 [OF sys [symmetric]] sys f by (subst read_complete.simps) (auto split: io_outcome.split)
qed

lemma read_records_spec:
  assumes "read_complete_replay_records p st = (st', r)" "log_ok p g st rs"
  shows "files st' = files st \<and> (r = Inr rs' \<longrightarrow> rs' = rs)"
proof -
  obtain s x where f: "read_file io_error p st = (s, x)"
    by (cases "read_file io_error p st")
  obtain junk where j: "whole rs" "file_data st p = concat rs @ junk" "length junk < REPLAY_RECORD_LEN"
    using assms(2) by (auto simp: log_ok_def)
  show ?thesis
  proof (cases x)
    case (Inl e)
    then show ?thesis
      using assms(1) f read_file_files [OF f] by (auto simp: read_complete_replay_records_def)
  next
    case (Inr bs)
    then have bs: "bs = concat rs @ junk" "files s = files st"
      using read_file_data [of io_error p st s bs] f j by auto
    have "read_complete bs [] s = (st', r)"
      using assms(1) f Inr by (simp add: read_complete_replay_records_def)
    then show ?thesis
      using read_complete_records [OF j(1,3), of "[]" s st' r] read_complete_files [of bs "[]" s] bs
      by auto
  qed
qed

lemma compact_log:
  assumes "compact now (g, st) = (g', st')" "log_path g = Some p" "log_ok p g st rs"
  shows "\<exists>rs'. log_ok p g' st' rs' \<and> set (live_records now g rs) \<subseteq> set rs'"
proof -
  obtain s x where rd: "read_complete_replay_records p st = (s, x)"
    by (cases "read_complete_replay_records p st")
  note spec = read_records_spec [OF rd assms(3)]
  have sub: "set (live_records now g rs) \<subseteq> set rs"
    by (simp add: live_records_def)
  have d: "file_data s p = file_data st p"
    using spec by (simp add: file_data_def)
  show ?thesis
  proof (cases x)
    case (Inl e)
    then have "st' = s \<and> g' = g\<lparr>log_failed := True\<rparr>"
      using assms(1,2) rd by (simp add: compact_def)
    then show ?thesis
      using log_ok_keep [OF assms(3) d, of "g\<lparr>log_failed := True\<rparr>"] sub by auto
  next
    case (Inr records)
    then have records: "records = rs"
      using spec by blast
    obtain s2 y where rw: "rewrite_live (live_records now g rs) g s = (s2, y)"
      by (cases "rewrite_live (live_records now g rs) g s")
    have st': "st' = s2" and g': "log_failed g \<Longrightarrow> log_failed g'"
      using assms(1,2) rd Inr records rw by (auto simp: compact_def split: sum.splits)
    have whole: "whole rs"
      using assms(3) by (simp add: log_ok_def)
    from rewrite_live_data [OF rw assms(2)] show ?thesis
    proof
      assume "file_data s2 p = file_data s p"
      then show ?thesis
        using log_ok_keep [OF assms(3), of st' g'] d st' g' sub by auto
    next
      assume "file_data s2 p = concat (live_records now g rs)"
      then show ?thesis
        using log_ok_whole [OF whole_live [OF whole]] st' by blast
    qed
  qed
qed

lemma reserve_log:
  assumes "reserve fp now (g, st) = ((g', st'), r)" "log_path g = Some p" "length fp = 32" "log_ok p g st rs"
  shows "\<exists>rs'. log_ok p g' st' rs' \<and> set rs \<subseteq> set rs' \<and> (r = Fresh \<longrightarrow> replay_record fp now \<in> set rs')"
proof -
  obtain g1 st1 ok where p: "persist fp now (g, st) = ((g1, st1), ok)"
    by (metis prod.exhaust)
  obtain rs' where rs': "log_ok p g1 st1 rs'" "set rs \<subseteq> set rs'" "ok \<longrightarrow> replay_record fp now \<in> set rs'"
    using persist_log [OF p assms(2-4)] by blast
  have "st' = st1 \<and> log_failed g' = log_failed g1 \<and> (r = Fresh \<longrightarrow> ok)"
    using assms(1) p by (auto simp: reserve_def split: bool.splits)
  then show ?thesis
    using rs' log_ok_keep [OF rs'(1), of st' g'] by auto
qed

text \<open>Records that an operation at \<open>now\<close> cannot drop.\<close>

definition kept :: "nat \<Rightarrow> nat \<Rightarrow> bytes list \<Rightarrow> bytes set" where
  "kept now window rs = {r \<in> set rs. now - record_time r \<le> window}"

definition log_step :: "string \<Rightarrow> nat \<Rightarrow> bytes \<Rightarrow> first_flight_admit \<Rightarrow> bytes list \<Rightarrow> guard \<Rightarrow> guard \<Rightarrow> 'a os_scheme \<Rightarrow> bool" where
  "log_step p now fp r rs g g' st' \<longleftrightarrow>
     (\<exists>rs'. log_ok p g' st' rs' \<and> kept now (window_seconds g) rs \<subseteq> set rs' \<and>
        (r = Fresh \<longrightarrow> replay_record fp now \<in> set rs'))"

lemma log_step_same: "log_ok p g' st rs \<Longrightarrow> r \<noteq> Fresh \<Longrightarrow> log_step p now fp r rs g g' st"
  unfolding log_step_def kept_def by (intro exI [of _ rs]) auto

lemma claim_log:
  assumes "claim fp now (g, st) = ((g', st'), r)" "log_path g = Some p" "length fp = 32" "log_ok p g st rs"
  shows "log_step p now fp r rs g g' st'"
proof -
  let ?h = "g\<lparr>g_bloom := bloom_rotate now (g_bloom g)\<rparr>"
  have keep: "log_ok p ?h st rs" "log_ok p (reset_total_if_rotated ?h) st rs"
    using assms(4) by (simp_all add: log_ok_def)
  consider "r \<noteq> Fresh" "st' = st" "g' = ?h \<or> g' = reset_total_if_rotated ?h"
    | "reserve fp now (reset_total_if_rotated ?h, st) = ((g', st'), r)"
    using assms(1) by (auto simp: claim_def bloom_check_def Let_def split: if_splits)
  then show ?thesis
  proof cases
    case 1
    then show ?thesis
      using log_step_same keep by blast
  next
    case 2
    then show ?thesis
      using reserve_log [OF 2 _ assms(3) keep(2)] assms(2) by (auto simp: log_step_def kept_def)
  qed
qed

lemma admit_log:
  assumes "admit k fp now (g, st) = ((g', st'), r)" "log_path g = Some p" "length fp = 32" "log_ok p g st rs"
    and "now < 2 ^ 64"
  shows "log_step p now fp r rs g g' st'"
proof -
  let ?h = "(rotate_counts now g)\<lparr>g_bloom := bloom_rotate now (g_bloom g)\<rparr>"
  let ?h' = "reset_total_if_rotated ?h"
  have keep: "log_ok p ?h st rs" "log_ok p ?h' st rs"
    using assms(4) by (simp_all add: log_ok_def)
  obtain g2 st2 r2 where res: "reserve fp now (?h', st) = ((g2, st2), r2)"
    by (metis prod.exhaust)
  obtain rs2 where rs2: "log_ok p g2 st2 rs2" "set rs \<subseteq> set rs2" "r2 = Fresh \<longrightarrow> replay_record fp now \<in> set rs2"
    using reserve_log [OF res _ assms(3) keep(2)] assms(2) by auto
  have g2: "window_seconds g2 = window_seconds g" "log_path g2 = Some p"
    using reserve_guard(2,3) [OF res] assms(2) by simp_all
  consider "r \<noteq> Fresh" "st' = st" "g' = ?h \<or> g' = ?h'"
    | "r = r2" "st' = st2" "log_failed g' = log_failed g2"
    | c where "r = r2" "r2 = Fresh" "compact now (g2\<lparr>g_counts := c\<rparr>, st2) = (g', st')"
    using assms(1) res by (cases r2) (auto simp: admit_def bloom_check_def Let_def split: if_splits)
  then show ?thesis
  proof cases
    case 1
    then show ?thesis
      using log_step_same keep by blast
  next
    case 2
    then have "log_ok p g' st' rs2"
      using rs2(1) by (simp add: log_ok_def)
    then show ?thesis
      using rs2 2(1) by (auto simp: log_step_def kept_def)
  next
    case (3 c)
    have "log_ok p (g2\<lparr>g_counts := c\<rparr>) st2 rs2"
      using rs2(1) by (simp add: log_ok_def)
    from compact_log [OF 3(3) _ this] obtain rs3 where
      "log_ok p g' st' rs3" "kept now (window_seconds g) rs2 \<subseteq> set rs3"
      using g2 by (auto simp: live_records_def kept_def)
    moreover have "kept now (window_seconds g) rs \<subseteq> kept now (window_seconds g) rs2"
      using rs2(2) by (auto simp: kept_def)
    moreover have "replay_record fp now \<in> kept now (window_seconds g) rs2"
      using rs2(3) 3(2) assms(3,5) by (simp add: kept_def)
    ultimately show ?thesis
      unfolding log_step_def by blast
  qed
qed

lemma step_log:
  assumes "guard_step op (g, st) = ((g', st'), r)" "log_path g = Some p" "length (op_print op) = 32"
    "op_time op < 2 ^ 64" "log_ok p g st rs"
  shows "log_step p (op_time op) (op_print op) r rs g g' st'"
  using assms by (cases op) (auto intro: admit_log claim_log)

text \<open>An admitted fingerprint is in the log, and stays there for a window.\<close>

lemma step_journal:
  assumes "journal p t fp g st" "guard_step op (g, st) = ((g', st'), r)"
    and "length (op_print op) = 32" "op_time op < 2 ^ 64" "op_time op \<le> t + window_seconds g"
  shows "journal p t fp g' st'"
proof -
  obtain rs where rs: "log_ok p g st rs" "replay_record fp t \<in> set rs"
    using assms(1) by (auto simp: journal_def)
  obtain rs' where rs': "log_ok p g' st' rs'" "kept (op_time op) (window_seconds g) rs \<subseteq> set rs'"
    using step_log [OF assms(2) _ assms(3,4) rs(1)] assms(1) by (auto simp: log_step_def journal_def)
  have "replay_record fp t \<in> kept (op_time op) (window_seconds g) rs"
    using rs(2) assms(1,5) by (simp add: kept_def journal_def)
  then show ?thesis
    using rs' assms(1) guard_step_outcome [OF assms(2)] by (auto simp: journal_def op_outcome_def Let_def)
qed

lemma step_fresh_journal:
  assumes "guard_step op (g, st) = ((g', st'), Fresh)" "log_path g = Some p" "log_ok p g st rs"
    and "length (op_print op) = 32" "op_time op < 2 ^ 64"
  shows "journal p (op_time op) (op_print op) g' st'"
  using step_log [OF assms(1,2,4,5,3)] guard_step_outcome [OF assms(1)] assms(2,4,5)
  by (auto simp: journal_def log_step_def op_outcome_def Let_def)

definition sound_op :: "guard_op \<Rightarrow> bool" where
  "sound_op op \<longleftrightarrow> length (op_print op) = 32 \<and> op_time op < 2 ^ 64"

lemma run_journal:
  assumes "journal p t fp g st" "guard_run ops (g, st) = ((g', st'), rs)"
    and "\<forall>op\<in>set ops. sound_op op \<and> op_time op \<le> t + window_seconds g"
  shows "journal p t fp g' st' \<and> window_seconds g' = window_seconds g"
  using assms
proof (induction ops arbitrary: g st rs)
  case (Cons op ops)
  obtain g1 st1 r rs1 where s: "guard_step op (g, st) = ((g1, st1), r)"
    and run: "guard_run ops (g1, st1) = ((g', st'), rs1)"
    using Cons.prems(2) by (auto split: prod.splits)
  have "window_seconds g1 = window_seconds g"
    using guard_step_outcome [OF s] by (simp add: op_outcome_def Let_def)
  then show ?case
    using Cons.IH [OF step_journal [OF Cons.prems(1) s] run] Cons.prems(3) by (simp add: sound_op_def)
qed simp

section \<open>Opening the log again\<close>

lemma reload_holds:
  assumes "bloom.both_sized n b" "0 < rb_window b"
    and live: "\<forall>r\<in>set live. record_time r \<le> rb_started_at b" "x \<in> set live"
    and young: "\<forall>r\<in>set live. \<forall>r'\<in>set live. record_time r < record_time r' + rb_window b"
  shows "bloom.holds_until n (record_time x) (take 32 x) (reload live b)"
proof -
  let ?f = "\<lambda>r. bloom_add (take 32 r) (record_time r)"
  have add: "bloom_add fp t c = c\<lparr>rb_current := bloom_insert (rb_current c) fp\<rparr>"
    if "t \<le> rb_started_at c" "0 < rb_window c" for fp t c
    using that by (simp add: bloom_add_def bloom_rotate_def rotate_window_def)
  have fold: "\<forall>r\<in>set xs. record_time r \<le> rb_started_at c \<Longrightarrow> 0 < rb_window c \<Longrightarrow> bloom.both_sized n c \<Longrightarrow>
      bloom.both_sized n (fold ?f xs c) \<and> rb_window (fold ?f xs c) = rb_window c \<and>
      (\<forall>y. bloom_contains (rb_current c) y \<or> y \<in> (take 32) ` set xs \<longrightarrow> bloom_contains (rb_current (fold ?f xs c)) y)"
    for xs c
  proof (induction xs arbitrary: c)
    case (Cons r xs)
    let ?c = "bloom_add (take 32 r) (record_time r) c"
    have c: "?c = c\<lparr>rb_current := bloom_insert (rb_current c) (take 32 r)\<rparr>"
      using add Cons.prems by simp
    have sized: "filter_sized n (rb_current c)"
      using Cons.prems(3) by (simp add: bloom.both_sized_def)
    then have "bloom.both_sized n ?c"
      using Cons.prems(3) bloom.sized_inserted by (simp add: c bloom.both_sized_def)
    then show ?case
      using Cons.IH [of ?c] Cons.prems bloom.found_inserted [OF sized, of "take 32 r"]
        bloom.found_other [OF sized, of _ "take 32 r"] by (auto simp: c)
  qed simp
  define c where "c = fold ?f live b"
  have c: "bloom.both_sized n c" "rb_window c = rb_window b" "bloom_contains (rb_current c) (take 32 x)"
    using fold [OF live(1) assms(2,1)] live(2) by (auto simp: c_def)
  have "Min (set (map record_time live)) \<in> record_time ` set live"
    using live(2) Min_in [of "record_time ` set live"] by fastforce
  then have "record_time x < Min (set (map record_time live)) + rb_window b"
    using young live(2) by auto
  moreover have "reload live b = c\<lparr>rb_started_at := Min (set (map record_time live))\<rparr>"
    using live(2) by (auto simp: reload_def c_def Let_def)
  ultimately show ?thesis
    using c by (simp add: bloom.holds_until_def bloom.both_sized_def)
qed

text \<open>
  The guard a restarted relay opens on the log of its predecessor.  All clock readings of the opening
  come after the records of the log and within a window of \<open>t\<close>.
\<close>

definition opens_in_time :: "string \<Rightarrow> nat \<Rightarrow> nat \<Rightarrow> 'a os_scheme \<Rightarrow> bool" where
  "opens_in_time p t window st \<longleftrightarrow> (\<forall>i\<ge>clk_pos st. clk st i \<le> t + window \<and>
     (\<forall>r\<in>set (log_records (file_data st p)). record_time r < clk st i))"

lemma journal_record_file: "journal p t fp g st \<Longrightarrow> files st p \<noteq> None"
proof
  assume "journal p t fp g st" "files st p = None"
  then obtain rs where "whole rs" "concat rs = []" "replay_record fp t \<in> set rs" 
    by (auto simp: journal_def log_ok_def file_data_def)
  then have "length (replay_record fp t) = REPLAY_RECORD_LEN" "replay_record fp t = []"
    by (auto simp: whole_def)
  then show False
    by (simp add: REPLAY_RECORD_LEN_def)
qed

lemma reopened_remembers:
  assumes j: "journal p t fp g st" and open': "guard_open env (Some p) (Suc n) window st = (g', st')"
    and time: "opens_in_time p t window st" and window: "0 < window" "2 * window \<le> u64_max"
  shows "log_failed g' \<or> remembers n t fp g'"
proof -
  obtain rs where rs: "log_ok p g st rs" "replay_record fp t \<in> set rs" and fp: "length fp = 32" "t < 2 ^ 64"
    using j by (auto simp: journal_def)
  note recs = log_ok_records [OF rs(1)]
  obtain junk where junk: "whole rs" "file_data st p = concat rs @ junk" "length junk < REPLAY_RECORD_LEN"
    using rs(1) by (auto simp: log_ok_def)
  define now where "now = clk st (clk_pos st)"
  define bnow where "bnow = clk st (Suc (clk_pos st))"
  define s1 where "s1 = fst (unix_seconds (fst (unix_seconds st)))"
  define g0 where "g0 = \<lparr>g_bloom = bloom_new (Suc n) window bnow, g_counts = (\<lambda>_. None), counts_started_at = now,
             window_seconds = window, max_per_key = first_flight_budget env window, total = 0, total_started_at = now,
             max_total = min (first_flight_budget env window) (bloom_insert_capacity (Suc n)), log_path = Some p,
             last_compact_at = now, log_failed = False\<rparr>"
  have run: "load_persisted (g0, s1) = (g', st')"
    using open' by (simp add: guard_open_def g0_def s1_def now_def bnow_def unix_seconds_def Let_def)
  have s1: "files s1 = files st" "clk s1 = clk st" "clk_pos s1 = Suc (Suc (clk_pos st))"
    by (simp_all add: s1_def unix_seconds_def)
  obtain s2 x where call: "io_call io_error s1 = (s2, x)"
    by (cases "io_call io_error s1")
  have s2: "files s2 = files st" "clk s2 = clk st" "clk_pos s2 = Suc (Suc (clk_pos st))"
    using call s1 by (auto simp: io_call_def sys_def split: io_outcome.splits)
  define lnow where "lnow = clk st (Suc (Suc (clk_pos st)))"
  define s3 where "s3 = fst (unix_seconds s2)"
  have s3: "file_data s3 p = concat rs @ junk" and clock: "unix_seconds s2 = (s3, lnow)"
    using s2 junk(2) by (simp_all add: s3_def unix_seconds_def file_data_def lnow_def)
  obtain s4 y where rd: "read_complete (concat rs @ junk) [] s3 = (s4, y)"
    by (cases "read_complete (concat rs @ junk) [] s3")
  have before: "record_time r < bnow" "record_time r < lnow" "lnow \<le> t + window" if "r \<in> set rs" for r
    using time that recs by (simp_all add: opens_in_time_def bnow_def lnow_def)
  show ?thesis
  proof (cases "log_failed g'")
    case False
    have ex: "file_exists s1 p"
      using journal_record_file [OF j] s1 by (simp add: file_exists_def)
    have x: "x = Inr ()" and y: "y = Inr rs"
      using run ex call False clock rd s3 read_complete_records [OF junk(1,3) rd]
      by (auto simp: load_persisted_def g0_def Let_def split: sum.splits)
    let ?live = "live_records lnow g0 rs"
    have "g_bloom g' = reload ?live (bloom_new (Suc n) window bnow) \<and> window_seconds g' = window"
      using run ex call x clock rd s3 y
      by (auto simp: load_persisted_def g0_def Let_def split: prod.splits sum.splits)
    moreover have "bloom.holds_until n t fp (reload ?live (bloom_new (Suc n) window bnow))"
    proof -
      let ?b = "bloom_new (Suc n) window bnow" and ?x = "replay_record fp t"
      have "?x \<in> set ?live"
        using rs(2) before(3) [OF rs(2)] fp by (simp add: live_record g0_def)
      moreover have "record_time r < record_time r' + window" if "r \<in> set ?live" "r' \<in> set ?live" for r r'
        using that before(2) [of r] by (auto simp: live_record g0_def)
      moreover have "bloom.both_sized n ?b" "rb_window ?b = window" "rb_started_at ?b = bnow"
        by (simp_all add: bloom_new_def bloom.both_sized_def filter_sized_def bloom_empty_def)
      ultimately have "bloom.holds_until n (record_time ?x) (take 32 ?x) (reload ?live ?b)"
        using window before(1) by (intro reload_holds) (auto simp: live_record intro: less_imp_le)
      then show ?thesis
        using fp by (simp add: replay_record_def) (simp add: record_time_def)
    qed
    moreover from this have "bloom.both_sized n (g_bloom g')"
      using calculation by (simp add: bloom.holds_until_def)
    moreover have "rb_window (g_bloom g') = window"
    proof -
      have w: "rb_window (fold (\<lambda>r. bloom_add (take 32 r) (record_time r)) xs c) = rb_window c" for xs c
        by (induction xs arbitrary: c) (simp_all add: bloom_add_def Let_def)
      show ?thesis
        using calculation(1) by (simp add: reload_def Let_def w) (simp add: bloom_new_def)
    qed
    ultimately show ?thesis
      using window by (simp add: remembers_def guard_ok_def)
  qed simp
qed

lemma load_persisted_window: "load_persisted (g, st) = (g', st') \<Longrightarrow> window_seconds g' = window_seconds g"
  by (auto simp: load_persisted_def Let_def split: prod.splits if_splits sum.splits option.splits)

lemma guard_open_window: "guard_open env path bs window st = (g, st') \<Longrightarrow> window_seconds g = window"
  by (cases "unix_seconds st"; cases "unix_seconds (fst (unix_seconds st))")
    (auto simp: guard_open_def Let_def dest: load_persisted_window)


section \<open>Availability\<close>

lemma persist_fine:
  assumes "io_fine st" "\<not> log_failed g"
  obtains st' where "persist fp now (g, st) = ((g, st'), True)" "io_fine st'" "clk st' = clk st"
    "log_path g = Some p \<Longrightarrow> file_data st' p = file_data st p @ replay_record fp now"
proof (cases "log_path g")
  case None
  then show ?thesis
    using that [of st] assms by (simp add: persist_def)
next
  case (Some path)
  define st' where "st' = snd (fst (persist fp now (g, st)))"
  have "persist fp now (g, st) = ((g, st'), True) \<and> io_fine st' \<and> clk st' = clk st \<and>
      file_data st' path = file_data st path @ replay_record fp now"
    using assms Some
    by (simp add: st'_def persist_def open_log_def open_create_def io_call_def sys_def io_fine_def
        append_record_def append_bytes_def sync_data_def put_file_def file_data_def Let_def)
  then show ?thesis
    by (intro that [of st']) (use Some in auto)
qed

lemma admit_fresh:
  assumes "io_fine st" "\<not> log_failed g" "\<not> bloom.seen fp (bloom_rotate now (g_bloom g))"
    and "count_of (rotate_counts now g) k < max_per_key g"
    and "total (reset_total_if_rotated (g\<lparr>g_bloom := bloom_rotate now (g_bloom g)\<rparr>)) < max_total g"
  shows "snd (admit k fp now (g, st)) = Fresh"
proof -
  let ?h = "reset_total_if_rotated ((rotate_counts now g)\<lparr>g_bloom := bloom_rotate now (g_bloom g)\<rparr>)"
  have room: "\<not> (max_per_key ?h \<le> count_of ?h k \<or> max_total ?h \<le> total ?h)"
    using assms(4,5) by (simp add: count_of_def reset_total_if_rotated_def rotate_counts_def split: if_splits)
  obtain st' where "persist fp now (?h, st) = ((?h, st'), True)"
    using persist_fine [OF assms(1), of ?h fp now] assms(2) by auto
  then show ?thesis
    using room assms(3)
    by (simp add: admit_def bloom_check_def Let_def bloom.seen_def [symmetric] reserve_def)
qed

text \<open>
  A first flight that has not been seen is admitted while the log works and neither its
  credential's budget nor the total budget of the window is spent.
\<close>

theorem unseen_first_flight_is_admitted:
  assumes "io_fine st" "\<not> log_failed g"
    and "\<not> snd (bloom_check fp now (g_bloom g))"
    and "count_of (rotate_counts now g) k < max_per_key g"
    and "total (reset_total_if_rotated (g\<lparr>g_bloom := fst (bloom_check fp now (g_bloom g))\<rparr>)) < max_total g"
  shows "snd (admit k fp now (g, st)) = Fresh"
  using assms by (intro admit_fresh) (simp_all add: bloom_check_def Let_def bloom.seen_def)

section \<open>Instances\<close>

definition toy_guard :: guard where
  "toy_guard = \<lparr>g_bloom = bloom_new 1 600 40, g_counts = (\<lambda>_. None), counts_started_at = 40,
     window_seconds = 600, max_per_key = 2, total = 0, total_started_at = 40, max_total = 2,
     log_path = Some ''connection.replay'', last_compact_at = 40, log_failed = False\<rparr>"

definition toy_print :: bytes where "toy_print = replicate 32 0"

lemma toy_guard_ok: "guard_ok 0 toy_guard"
  by (simp add: guard_ok_def toy_guard_def bloom_new_def bloom.both_sized_def filter_sized_def
      bloom_empty_def u64_max_def)

lemma toy_unseen: "bloom_rotate 40 (g_bloom toy_guard) = bloom_new 1 600 40"
  "\<not> bloom.seen toy_print (bloom_new 1 600 40)"
proof -
  have "bloom_positions 1 toy_print \<noteq> []"
    by (simp add: bloom_positions_def)
  moreover have "\<not> bit_at [0] q" if "q \<in> set (bloom_positions (Suc 0) toy_print)" for q
    using position_in_range [OF that] by (simp add: bit_at_def)
  ultimately show "\<not> bloom.seen toy_print (bloom_new 1 600 40)"
    by (cases "bloom_positions (Suc 0) toy_print")
      (auto simp: bloom.seen_def bloom_contains_bits bloom_new_def bloom_empty_def)
qed (simp add: toy_guard_def bloom_new_def bloom_rotate_def rotate_window_def)

lemma toy_fine: "io_fine toy_state"
  by (simp add: toy_state_def io_fine_def)

lemma toy_admit:
  obtains g1 st1 where "guard_step (Admit 1 toy_print 40) (toy_guard, toy_state) = ((g1, st1), Fresh)"
    "file_data st1 ''connection.replay'' = replay_record toy_print 40" "clk st1 = clk toy_state"
proof -
  let ?h = "reset_total_if_rotated ((rotate_counts 40 toy_guard)\<lparr>g_bloom := bloom_rotate 40 (g_bloom toy_guard)\<rparr>)"
  have h: "\<not> log_failed ?h" "log_path ?h = Some ''connection.replay''" "max_per_key ?h = 2" "count_of ?h 1 = 0"
    "max_total ?h = 2" "total ?h = 0" "last_compact_at ?h = 40"
    by (simp_all add: toy_unseen)
      (simp_all add: toy_guard_def bloom_new_def reset_total_if_rotated_def rotate_counts_def count_of_def)
  obtain st1 where p: "persist toy_print 40 (?h, toy_state) = ((?h, st1), True)" "clk st1 = clk toy_state"
    "file_data st1 ''connection.replay'' = file_data toy_state ''connection.replay'' @ replay_record toy_print 40"
    using persist_fine [OF toy_fine h(1), of toy_print 40] h(2) by metis
  have unseen: "\<not> bloom.seen toy_print (bloom_rotate 40 (g_bloom toy_guard))"
    using toy_unseen by simp
  have "\<exists>g1. guard_step (Admit 1 toy_print 40) (toy_guard, toy_state) = ((g1, st1), Fresh)"
    using unseen h
    by (simp add: admit_def bloom_check_def Let_def bloom.seen_def [symmetric] reserve_def p(1)
        REPLAY_COMPACT_INTERVAL_SECONDS_def)
  moreover have "file_data toy_state ''connection.replay'' = []"
    by (simp add: file_data_def toy_state_def)
  ultimately show thesis
    using that p(2,3) by auto
qed

theorem first_flight_admitted_once_witness:
  "\<exists>g1 st1. guard_step (Admit 1 toy_print 40) (toy_guard, toy_state) = ((g1, st1), Fresh) \<and>
     snd (guard_run [Claim toy_print 640] (g1, st1)) ! 0 = Replayed"
proof -
  obtain g1 st1 where s: "guard_step (Admit 1 toy_print 40) (toy_guard, toy_state) = ((g1, st1), Fresh)"
    using toy_admit .
  obtain g2 st2 rs where r: "guard_run [Claim toy_print 640] (g1, st1) = ((g2, st2), rs)"
    by (metis prod.exhaust)
  have "rs ! 0 = Replayed"
    by (rule first_flight_admitted_once [OF toy_guard_ok s r]) (simp_all add: toy_guard_def)
  then show ?thesis
    using s r by auto
qed

theorem damaged_log_admits_nothing_witness:
  "Fresh \<notin> set (snd (guard_run [Admit 1 toy_print 40] (toy_guard\<lparr>log_failed := True\<rparr>, toy_state)))"
proof -
  obtain g2 st2 rs where r: "guard_run [Admit 1 toy_print 40] (toy_guard\<lparr>log_failed := True\<rparr>, toy_state) = ((g2, st2), rs)"
    by (metis prod.exhaust)
  then show ?thesis
    using damaged_log_admits_nothing [OF _ r] by simp
qed

theorem unseen_first_flight_is_admitted_witness:
  "snd (admit 1 toy_print 40 (toy_guard, toy_state)) = Fresh"
proof (rule unseen_first_flight_is_admitted [OF toy_fine])
  show "\<not> snd (bloom_check toy_print 40 (g_bloom toy_guard))"
    using toy_unseen by (simp add: bloom_check_def Let_def bloom.seen_def)
  have "fst (bloom_check toy_print 40 (g_bloom toy_guard)) = bloom_new 1 600 40"
    by (simp add: bloom_check_def toy_unseen Let_def)
  then show "total (reset_total_if_rotated (toy_guard\<lparr>g_bloom := fst (bloom_check toy_print 40 (g_bloom toy_guard))\<rparr>))
      < max_total toy_guard"
    by (simp add: reset_total_if_rotated_def) (simp add: toy_guard_def bloom_new_def)
qed (simp_all add: toy_guard_def rotate_counts_def count_of_def)


section \<open>Budgets\<close>

text \<open>While the filter does not rotate, each admission spends one of the window's total.\<close>

definition in_window :: "guard_op \<Rightarrow> guard \<Rightarrow> bool" where
  "in_window op g \<longleftrightarrow> op_time op < rb_started_at (g_bloom g) + window_seconds g"

lemma rotate_in_window:
  assumes "guard_ok n g" "in_window op g"
  shows "bloom_rotate (op_time op) (g_bloom g) = g_bloom g"
  using assms by (auto simp: guard_ok_def in_window_def bloom_rotate_def rotate_window_def Let_def)

lemma reserve_total:
  "reserve fp now (g, st) = ((g', st'), r) \<Longrightarrow> total g < max_total g \<Longrightarrow> max_total g \<le> u32_max \<Longrightarrow>
    total g' = total g + (if r = Fresh then 1 else 0) \<and> total_started_at g' = total_started_at g"
  by (auto simp: reserve_def split: prod.splits bool.splits dest!: persist_guard)

lemma step_total:
  assumes ok: "guard_ok n g" "in_window op g" "total_started_at g = rb_started_at (g_bloom g)"
    and max: "max_total g \<le> u32_max" "total g \<le> max_total g"
    and s: "guard_step op (g, st) = ((g', st'), r)"
  shows "total g' = total g + (if r = Fresh then 1 else 0) \<and> total g' \<le> max_total g \<and>
    total_started_at g' = rb_started_at (g_bloom g') \<and> rb_started_at (g_bloom g') = rb_started_at (g_bloom g)"
proof -
  note out = guard_step_outcome [OF s] and rot = rotate_in_window [OF ok(1,2)]
  have started: "rb_started_at (g_bloom g') = rb_started_at (g_bloom g)"
    using out rot bloom_add_remember [of n "g_bloom g"] ok
    by (auto simp: op_outcome_def Let_def bloom_add_def split: if_splits)
  have "total g' = total g + (if r = Fresh then 1 else 0) \<and> total g' \<le> max_total g \<and>
    total_started_at g' = total_started_at g"
  proof (cases op)
    case (Claim fp now)
    let ?h = "reset_total_if_rotated (g\<lparr>g_bloom := bloom_rotate now (g_bloom g)\<rparr>)"
    have h: "total ?h = total g" "total_started_at ?h = total_started_at g" "max_total ?h = max_total g"
      using rot ok(3) Claim by (simp_all add: reset_total_if_rotated_def)
    consider "r \<noteq> Fresh" "g' = g\<lparr>g_bloom := bloom_rotate now (g_bloom g)\<rparr> \<or> g' = ?h"
      | "total ?h < max_total ?h" "reserve fp now (?h, st) = ((g', st'), r)"
      using s Claim by (auto simp: claim_def bloom_check_def Let_def not_le split: if_splits)
    then show ?thesis
      using h max reserve_total [of fp now ?h st g' st' r] by cases auto
  next
    case (Admit k fp now)
    let ?h = "reset_total_if_rotated ((rotate_counts now g)\<lparr>g_bloom := bloom_rotate now (g_bloom g)\<rparr>)"
    have rc: "total (rotate_counts now g) = total g" "total_started_at (rotate_counts now g) = total_started_at g"
      by (simp_all add: rotate_counts_def)
    have h: "total ?h = total g" "total_started_at ?h = total_started_at g" "max_total ?h = max_total g"
      using rot ok(3) Admit rc by (simp_all add: reset_total_if_rotated_def)
    obtain g2 st2 r2 where res: "reserve fp now (?h, st) = ((g2, st2), r2)"
      by (metis prod.exhaust)
    consider "r \<noteq> Fresh" "total g' = total g" "total_started_at g' = total_started_at g"
      | "total ?h < max_total ?h" "r = r2" "total g' = total g2" "total_started_at g' = total_started_at g2"
      using s Admit res h rc
      by (cases r2) (auto simp: admit_def bloom_check_def Let_def not_le split: if_splits dest!: compact_guard)
    then show ?thesis
      using h max reserve_total [OF res] by cases auto
  qed
  then show ?thesis
    using started ok(3) by simp
qed

lemma run_total:
  assumes "guard_ok n g" "total_started_at g = rb_started_at (g_bloom g)"
    and "max_total g \<le> u32_max" "total g \<le> max_total g"
    and "\<forall>op\<in>set ops. in_window op g" "guard_run ops (g, st) = ((g', st'), rs)"
  shows "total g + count_list rs Fresh = total g' \<and> total g' \<le> max_total g"
  using assms
proof (induction ops arbitrary: g st rs)
  case (Cons op ops)
  obtain g1 st1 r rs1 where s: "guard_step op (g, st) = ((g1, st1), r)"
    and run: "guard_run ops (g1, st1) = ((g', st'), rs1)" "rs = r # rs1"
    using Cons.prems(6) by (auto split: prod.splits)
  note out = guard_step_outcome [OF s]
  have t: "total g1 = total g + (if r = Fresh then 1 else 0)" "total g1 \<le> max_total g"
    "total_started_at g1 = rb_started_at (g_bloom g1)" "rb_started_at (g_bloom g1) = rb_started_at (g_bloom g)"
    using step_total [OF Cons.prems(1) _ Cons.prems(2-4) s] Cons.prems(5) by auto
  have g1: "max_total g1 = max_total g" "window_seconds g1 = window_seconds g"
    using out by (simp_all add: op_outcome_def Let_def)
  show ?case
    using Cons.IH [OF filter_step_ok [OF Cons.prems(1) outcome_step [OF out]] t(3) _ _ _ run(1)]
      Cons.prems(3,5) t g1 run(2) by (auto simp: in_window_def)
qed simp

text \<open>
  Within one window of the filter the guard admits at most \<open>max_total\<close> first flights, counting
  those admitted before, whoever opens them: the shared filter cannot be overfilled.
\<close>

theorem window_total_is_bounded:
  assumes "guard_ok n g" "total_started_at g = rb_started_at (g_bloom g)"
    and "max_total g \<le> u32_max" "total g \<le> max_total g"
    and "\<forall>op\<in>set ops. in_window op g" "guard_run ops (g, st) = ((g', st'), rs)"
  shows "total g + count_list rs Fresh \<le> max_total g"
  using run_total [OF assms] by simp

theorem window_total_is_bounded_witness:
  "count_list (snd (guard_run [Admit 1 toy_print 40, Claim toy_key 41, Claim toy_key2 42] (toy_guard, toy_state))) Fresh \<le> 2"
proof -
  obtain g2 st2 rs where r:
      "guard_run [Admit 1 toy_print 40, Claim toy_key 41, Claim toy_key2 42] (toy_guard, toy_state) = ((g2, st2), rs)"
    by (metis prod.exhaust)
  have "total toy_guard + count_list rs Fresh \<le> max_total toy_guard"
    by (rule window_total_is_bounded [OF toy_guard_ok _ _ _ _ r])
      (simp_all add: toy_guard_def bloom_new_def u32_max_def in_window_def)
  then show ?thesis
    using r by (simp add: toy_guard_def)
qed

end
