(* ===== verification/Buffer.thy ===== *)
theory Buffer
  imports Prelude
begin

text \<open>
  The buffer of raw forwarding (\<^verbatim>\<open>pb-mapper-protocol/src/buffer.rs\<close>): it doubles when a read
  fills it, shrinks when little arrives, and stays between 8 KiB and 8 MiB.  How many bytes a read
  returns is up to the network, at most what the buffer holds.
\<close>

definition INIT_BUF_SIZE :: nat where "INIT_BUF_SIZE = 8 * 1024"
definition MAX_BUF_SIZE :: nat where "MAX_BUF_SIZE = 8 * 1024 * 1024"

record common_buffer =
  buffer :: bytes
  need_size :: nat

definition buffer_new :: common_buffer where
  "buffer_new = \<lparr>buffer = replicate INIT_BUF_SIZE 0, need_size = INIT_BUF_SIZE\<rparr>"

text \<open>\<^verbatim>\<open>Vec::resize(n, 0)\<close>.\<close>

definition fixed_resize :: "nat \<Rightarrow> common_buffer \<Rightarrow> common_buffer" where
  "fixed_resize n b = b\<lparr>buffer := take n (buffer b) @ replicate (n - length (buffer b)) 0\<rparr>"

definition need_resize :: "common_buffer \<Rightarrow> bool" where
  "need_resize b \<longleftrightarrow> length (buffer b) \<noteq> need_size b"

definition dyn_resize :: "common_buffer \<Rightarrow> common_buffer" where
  "dyn_resize b =
     (let b = (if MAX_BUF_SIZE \<le> need_size b then b\<lparr>need_size := MAX_BUF_SIZE\<rparr> else b)
      in fixed_resize (need_size b) b)"

definition update_need_size :: "nat \<Rightarrow> common_buffer \<Rightarrow> common_buffer" where
  "update_need_size n b =
     (if n = length (buffer b) then b\<lparr>need_size := n * 2\<rparr>
      else if n \<noteq> 0 \<and> n < INIT_BUF_SIZE \<and> INIT_BUF_SIZE < need_size b then b\<lparr>need_size := INIT_BUF_SIZE\<rparr>
      else b)"

definition read_inner :: "nat \<Rightarrow> common_buffer \<times> bytes \<Rightarrow> (common_buffer \<times> bytes) \<times> bytes" where
  "read_inner available = (\<lambda>(b, input).
     let b = (if need_resize b then dyn_resize b else b);
         n = min available (min (length (buffer b)) (length input));
         b = b\<lparr>buffer := take n input @ drop n (buffer b)\<rparr>
     in ((update_need_size n b, drop n input), take n (buffer b)))"

fun read_all :: "nat list \<Rightarrow> common_buffer \<times> bytes \<Rightarrow> (common_buffer \<times> bytes) \<times> bytes list" where
  "read_all [] s = (s, [])"
| "read_all (n # ns) s = (let (s, out) = read_inner n s; (s, outs) = read_all ns s in (s, out # outs))"

definition buffer_ok :: "common_buffer \<Rightarrow> bool" where
  "buffer_ok b \<longleftrightarrow> INIT_BUF_SIZE \<le> length (buffer b) \<and> length (buffer b) \<le> MAX_BUF_SIZE \<and>
     INIT_BUF_SIZE \<le> need_size b \<and> need_size b \<le> 2 * MAX_BUF_SIZE"

lemma length_fixed_resize [simp]: "length (buffer (fixed_resize n b)) = n"
  by (simp add: fixed_resize_def)

lemma dyn_resize_ok: "buffer_ok b \<Longrightarrow> buffer_ok (dyn_resize b)"
  by (auto simp: buffer_ok_def dyn_resize_def Let_def INIT_BUF_SIZE_def MAX_BUF_SIZE_def)
     (auto simp: fixed_resize_def)

lemma read_inner_ok:
  assumes "buffer_ok b" "read_inner n (b, input) = ((b', rest), out)"
  shows "buffer_ok b' \<and> input = out @ rest \<and> length out \<le> MAX_BUF_SIZE \<and> length out \<le> n"
proof -
  define c where "c = (if need_resize b then dyn_resize b else b)"
  define m where "m = min n (min (length (buffer c)) (length input))"
  define d where "d = c\<lparr>buffer := take m input @ drop m (buffer c)\<rparr>"
  have c: "buffer_ok c"
    using assms(1) dyn_resize_ok by (simp add: c_def)
  have "length (buffer d) = length (buffer c)"
    by (simp add: d_def m_def)
  then have d: "buffer_ok d"
    using c by (simp add: buffer_ok_def d_def)
  have "buffer_ok (update_need_size m d)"
    using d by (auto simp: update_need_size_def buffer_ok_def INIT_BUF_SIZE_def MAX_BUF_SIZE_def)
  moreover have "read_inner n (b, input) = ((update_need_size m d, drop m input), take m (buffer d))"
    by (simp add: read_inner_def Let_def c_def m_def d_def)
  moreover have "take m (buffer d) = take m input"
    by (simp add: d_def m_def)
  moreover have "m \<le> MAX_BUF_SIZE" "m \<le> n" "m \<le> length input"
    using c by (auto simp: m_def buffer_ok_def)
  ultimately show ?thesis
    using assms(2) by auto
qed

lemma buffer_new_ok: "buffer_ok buffer_new"
  by (simp add: buffer_ok_def buffer_new_def INIT_BUF_SIZE_def MAX_BUF_SIZE_def)

lemma read_all_ok:
  assumes "buffer_ok b" "read_all ns (b, input) = ((b', rest), outs)"
  shows "buffer_ok b' \<and> input = concat outs @ rest \<and> (\<forall>out\<in>set outs. length out \<le> MAX_BUF_SIZE)"
  using assms
proof (induction ns arbitrary: b input outs)
  case (Cons n ns)
  obtain b1 in1 out where step: "read_inner n (b, input) = ((b1, in1), out)"
    by (metis prod.exhaust)
  obtain outs' where rest: "read_all ns (b1, in1) = ((b', rest), outs')" "outs = out # outs'"
    using Cons.prems(2) step by (auto split: prod.splits)
  from read_inner_ok [OF Cons.prems(1) step] Cons.IH [OF _ rest(1)] rest(2) show ?case
    by auto
qed simp

text \<open>
  Whatever the network delivers, the forwarding buffer hands the stream on without losing,
  repeating or reordering a byte, and keeps its size between 8 KiB and 8 MiB.
\<close>

theorem forwarding_buffer_delivers_the_stream:
  "case read_all ns (buffer_new, input) of
     ((b, rest), outs) \<Rightarrow> input = concat outs @ rest \<and>
       8 * 1024 \<le> length (buffer b) \<and> length (buffer b) \<le> 8 * 1024 * 1024"
  using read_all_ok [OF buffer_new_ok, of ns input]
  by (auto simp: buffer_ok_def INIT_BUF_SIZE_def MAX_BUF_SIZE_def split: prod.split)

end
