(* ===== verification/WireProps.thy ===== *)
theory WireProps
  imports Frame Limiter Toy
begin

text \<open>
  Properties of the message framings and of the failure-log limiter.
\<close>

section \<open>Streams of messages\<close>

text \<open>
  Messages arrive as they were sent.  When a v2 writer has sent a list of messages, a reader
  with the same key material, direction and counter reads that list back from the bytes sent, in
  order, and leaves what follows them; the two are in step again afterwards.
\<close>

theorem v2_messages_round_trip:
  assumes "aead_ok C" "send_list (v2_write_msg C) ms (e, k) = ((e', k'), Inr ())"
  shows "\<exists>bs. sent k' = sent k @ bs \<and>
    (\<forall>rest. receive_list (v2_read_msg C) (length ms) (e, bs @ rest) = ((e', rest), Inr ms))"
  using v2.list_round_trip [of C e e ms k e' k'] assms by auto

text \<open>
  C40: Nothing else arrives.  When a reader has accepted some messages, the bytes it took are the
  bytes the writer with its key material, direction and counter sends for these messages: no frame
  can be forged, dropped, repeated, reordered or taken from the other direction.
\<close>

theorem v2_stream_is_the_writers:
  assumes "aead_ok C" "aead_canonical C"
    and "receive_list (v2_read_msg C) n (e, input) = ((e', rest), Inr ms)"
  shows "\<exists>bs w. input = bs @ rest \<and>
    send_list (v2_write_msg C) ms (e, \<lparr>sent = [], room = None\<rparr>) = ((w, \<lparr>sent = bs, room = None\<rparr>), Inr ())"
  using v2_exact.list_accepts_sent [of C e e n input e' rest ms "\<lparr>sent = [], room = None\<rparr>"] assms
  by simp

text \<open>
  The same for the legacy framing, where the nonce counter has 32 bits and wraps: what a writer
  bound to a session key has sent, up to 8 MiB a message, a reader bound to the same key reads back.
\<close>

theorem legacy_messages_round_trip:
  assumes "aead_ok C" "\<forall>m\<in>set ms. length m \<le> MAX_PLAINTEXT_LEN"
    and "send_list (codec_write_msg C p (Some key)) ms (d, k) = ((d', k'), Inr ())"
  shows "\<exists>bs. sent k' = sent k @ bs \<and>
    (\<forall>rest. receive_list (codec_read_msg C p (Some key)) (length ms) (d, bs @ rest) = ((d', rest), Inr ms))"
  using codec.list_round_trip [of C d d ms p key k d' k'] assms by auto

section \<open>Headers\<close>

text \<open>
  A frame that announces another counter, or a length outside the limit, is refused on its
  header alone: no byte of its body is read and no buffer of that length is made.
\<close>

theorem bad_frame_header_is_refused:
  assumes "counter \<le> u64_max" "n \<le> u32_max" "expected \<noteq> counter \<or> n < 16 \<or> limit + 16 < n"
  shows "snd (read_v2_frame expected limit (to_be 8 counter @ to_be 4 n @ body)) = Inl MsgProtocol \<and>
    length body \<le> length (fst (read_v2_frame expected limit (to_be 8 counter @ to_be 4 n @ body)))"
  using assms by (auto simp: read_v2_frame_def u64_max_def u32_max_def TAG_LEN_def)

text \<open>
  The associated data of a frame determines the connection (key id, flags and salt), the
  direction, the counter and the length it was sealed for.
\<close>

theorem associated_data_determines_the_frame:
  assumes "frame_aad m d c n = frame_aad m' d' c' n'" "length (mat_salt m) = length (mat_salt m')"
    and "c \<le> u64_max" "c' \<le> u64_max" "n \<le> u32_max" "n' \<le> u32_max"
  shows "mat_key_id m = mat_key_id m' \<and> mat_flags m = mat_flags m' \<and> mat_salt m = mat_salt m' \<and>
    d = d' \<and> c = c' \<and> n = n'"
proof -
  have "key_id_to_be_bytes (mat_key_id m) = key_id_to_be_bytes (mat_key_id m')"
    and eqs: "mat_flags m = mat_flags m'" "mat_salt m = mat_salt m'" "d = d'"
      "to_be 8 c = to_be 8 c'" "to_be 4 n = to_be 4 n'"
    using assms(1,2) by (auto simp: frame_aad_def first_prefix_def key_id_to_be_bytes_def)
  moreover from this(1) have "mat_key_id m = mat_key_id m'"
    using to_be_inject [of 8 "unat (mat_key_id m)" "unat (mat_key_id m')"]
      unsigned_less [of "mat_key_id m", where ?'a = nat] unsigned_less [of "mat_key_id m'", where ?'a = nat]
    by (simp add: key_id_to_be_bytes_def word_unat_eq_iff)
  moreover have "c = c'" "n = n'"
    using to_be_inject [OF eqs(4)] to_be_inject [OF eqs(5)] assms(3-)
    by (simp_all add: u64_max_def u32_max_def)
  ultimately show ?thesis
    by blast
qed

section \<open>Failure logs\<close>

text \<open>
  Whatever peers, key ids and reasons fail authentication, the limiter keeps at most 4096
  buckets besides the shared one, and within any minute from a fresh start it lets at most 5 lines
  per bucket, 20485 in all, through.
\<close>

theorem failure_log_is_bounded:
  assumes "\<forall>(key, now)\<in>set rs. t \<le> now \<and> now < t + 60"
  shows "length (log_entries (fst (limiter_run rs empty_limiter))) \<le> 4096 \<and>
    emits (snd (limiter_run rs empty_limiter)) \<le> 5 * 4097"
proof -
  obtain l ds where run: "limiter_run rs empty_limiter = (l, ds)"
    by fastforce
  have "started_by t l \<and> let_through l = let_through empty_limiter + emits ds"
    by (rule limiter_run_counts [OF started_by_empty assms run])
  then show ?thesis
    using let_through_le [of t l] run by (simp add: started_by_def limiter_ok_def)
qed

section \<open>Instances\<close>

definition toy_end :: v2_end where
  "toy_end = v2_end_new \<lparr>mat_key_id = 1, mat_flags = 0, mat_salt = replicate 16 3, client_to_server = [1],
     server_to_client = [2]\<rparr> DIRECTION_SERVER_TO_CLIENT 0"

lemma toy_cipher: "aead_ok toy_env" "aead_canonical toy_env"
  by (auto simp: toy_env_def aead_ok_def aead_canonical_def tag16_def split: if_splits)
     (metis append_take_drop_id)

lemma toy_sends:
  obtains w bs where "send_list (v2_write_msg toy_env) [[1, 2], [3]] (toy_end, \<lparr>sent = [], room = None\<rparr>) =
    ((w, \<lparr>sent = bs, room = None\<rparr>), Inr ())"
proof -
  have "\<exists>w bs. send_list (v2_write_msg toy_env) [[1, 2], [3]] (toy_end, \<lparr>sent = [], room = None\<rparr>) =
    ((w, \<lparr>sent = bs, room = None\<rparr>), Inr ())"
    by (simp add: v2_write_msg_def toy_end_def v2_end_new_def write_all_def msg_len_defs TAG_LEN_def u32_max_def
        u64_max_def toy_env_def)
  then show thesis
    using that by blast
qed

theorem v2_messages_round_trip_witness:
  "\<exists>w bs. receive_list (v2_read_msg toy_env) 2 (toy_end, bs @ [9]) = ((w, [9]), Inr [[1, 2], [3]])"
proof -
  obtain w bs where s: "send_list (v2_write_msg toy_env) [[1, 2], [3]] (toy_end, \<lparr>sent = [], room = None\<rparr>) =
    ((w, \<lparr>sent = bs, room = None\<rparr>), Inr ())"
    using toy_sends .
  show ?thesis
    using v2_messages_round_trip [OF toy_cipher(1) s] by (auto simp: numeral_2_eq_2 simp del: receive_list.simps)
qed

theorem v2_stream_is_the_writers_witness:
  "\<exists>w bs rs. receive_list (v2_read_msg toy_env) 2 (toy_end, bs) = (rs, Inr [[1, 2], [3]]) \<and>
     send_list (v2_write_msg toy_env) [[1, 2], [3]] (toy_end, \<lparr>sent = [], room = None\<rparr>) =
       ((w, \<lparr>sent = bs, room = None\<rparr>), Inr ())"
proof -
  obtain w bs where s: "send_list (v2_write_msg toy_env) [[1, 2], [3]] (toy_end, \<lparr>sent = [], room = None\<rparr>) =
    ((w, \<lparr>sent = bs, room = None\<rparr>), Inr ())"
    using toy_sends .
  have "\<forall>rest. receive_list (v2_read_msg toy_env) 2 (toy_end, bs @ rest) = ((w, rest), Inr [[1, 2], [3]])"
    using v2.list_round_trip [of toy_env toy_end toy_end "[[1, 2], [3]]", OF _ _ s] toy_cipher
    by (auto simp: numeral_2_eq_2 simp del: receive_list.simps)
  then have r: "receive_list (v2_read_msg toy_env) 2 (toy_end, bs) = ((w, []), Inr [[1, 2], [3]])"
    by (metis append_Nil2)
  show ?thesis
    using v2_stream_is_the_writers [OF toy_cipher r] r by auto
qed

theorem legacy_messages_round_trip_witness:
  "\<exists>d bs. receive_list (codec_read_msg toy_env (proc toy_state) (Some toy_key)) 1 (codec_new toy_key, bs) = ((d, []), Inr [[5]])"
proof -
  obtain d bs where s: "send_list (codec_write_msg toy_env (proc toy_state) (Some toy_key)) [[5]]
      (codec_new toy_key, \<lparr>sent = [], room = None\<rparr>) = ((d, \<lparr>sent = bs, room = None\<rparr>), Inr ())"
    by (simp add: codec_write_msg_def codec_encrypt_def toy_env_def set_msg_len_key write_all_def codec_new_def)
  show ?thesis
    using legacy_messages_round_trip [OF toy_cipher(1) _ s]
    by (auto simp: MAX_PLAINTEXT_LEN_def)
qed

theorem bad_frame_header_is_refused_witness:
  "snd (read_v2_frame 0 100 (to_be 8 0 @ to_be 4 117 @ [])) = Inl MsgProtocol"
  using bad_frame_header_is_refused [of 0 117 0 100 "[]"] by (simp add: u64_max_def u32_max_def)

theorem associated_data_determines_the_frame_witness:
  "frame_aad (end_material toy_end) 1 2 20 \<noteq> frame_aad (end_material toy_end) 1 3 20"
  using associated_data_determines_the_frame [of "end_material toy_end" 1 2 20 "end_material toy_end" 1 3 20]
  by (auto simp: u64_max_def u32_max_def)

theorem failure_log_is_bounded_witness:
  "emits (snd (limiter_run (replicate 9 (([127, 0, 0, 1], 1, ''temporary_key_expired''), 70)) empty_limiter)) \<le> 5 * 4097"
  using failure_log_is_bounded [of "replicate 9 (([127, 0, 0, 1], 1, ''temporary_key_expired''), 70)" 70] by simp

end
