(* ===== verification/SecureFacts.thy ===== *)
theory SecureFacts
  imports Secure ReplayProps
begin

text \<open>
  Facts about first flights: which operations read the clock, what a connection does to the
  admission guard, and what an accepted frame says of the bytes that carried it.
\<close>

section \<open>The clock\<close>

text \<open>\<open>still t st\<close>: the clock and its position are \<open>t\<close>.  The admission guard never reads it.\<close>

definition still :: "(nat \<Rightarrow> nat) \<times> nat \<Rightarrow> 'a os_scheme \<Rightarrow> bool" where
  "still t st \<longleftrightarrow> (clk st, clk_pos st) = t"

named_theorems still_rules

lemma still_updates [still_rules]:
  "still t st \<Longrightarrow> still t (st\<lparr>files := f\<rparr>)" "still t st \<Longrightarrow> still t (st\<lparr>io_pos := n\<rparr>)"
  "still t st \<Longrightarrow> still t (st\<lparr>rng_pos := n\<rparr>)" "still t st \<Longrightarrow> still t (put_file name d st)"
  by (simp_all add: still_def put_file_def)

lemma still_outcome [still_rules]:
  "ends P r \<Longrightarrow> (\<And>n. ends P (f n)) \<Longrightarrow> ends P (case v of IoOk \<Rightarrow> r | IoErr n \<Rightarrow> f n)"
  by (cases v) simp_all

lemma still_bool [still_rules]:
  "ends P r \<Longrightarrow> ends P r' \<Longrightarrow> ends P (case v of True \<Rightarrow> r | False \<Rightarrow> r')"
  by (cases v) simp_all

lemma still_admit [still_rules]:
  "ends P a \<Longrightarrow> ends P b \<Longrightarrow> ends P c \<Longrightarrow> ends P d \<Longrightarrow>
   ends P (case v of Fresh \<Rightarrow> a | Replayed \<Rightarrow> b | Limited \<Rightarrow> c | Unavailable \<Rightarrow> d)"
  by (cases v) simp_all

lemma still_sys [still_rules]: "still t st \<Longrightarrow> ends (still t) (sys st)"
  by (simp add: sys_def ends_def still_def)

lemma still_io_call [still_rules]: "still t st \<Longrightarrow> ends (still t) (io_call e st)"
  by (simp add: io_call_def sys_def ends_def still_def split: io_outcome.split)

lemma still_random [still_rules]: "still t st \<Longrightarrow> ends (still t) (random_bytes n st)"
  by (simp add: random_bytes_def ends_def still_def)

lemma still_append_bytes [still_rules]: "still t st \<Longrightarrow> ends (still t) (append_bytes n d st)"
  unfolding append_bytes_def by (assumption | rule ends_rules still_rules)+

lemma still_sync_data [still_rules]: "still t st \<Longrightarrow> ends (still t) (sync_data st)"
  unfolding sync_data_def by (assumption | rule ends_rules still_rules)+

lemma still_roll_back [still_rules]: "still t st \<Longrightarrow> ends (still t) (roll_back n l st)"
  unfolding roll_back_def by (assumption | rule ends_rules still_rules)+

lemma still_open_create [still_rules]: "still t st \<Longrightarrow> ends (still t) (open_create e n st)"
  unfolding open_create_def by (assumption | rule ends_rules still_rules)+

lemma still_open_log [still_rules]: "still t st \<Longrightarrow> ends (still t) (open_log p st)"
  unfolding open_log_def Let_def by (assumption | rule ends_rules still_rules)+

lemma still_append_record [still_rules]: "still t st \<Longrightarrow> ends (still t) (append_record p r st)"
  unfolding append_record_def by (assumption | rule ends_rules still_rules)+

lemma still_read_file [still_rules]: "still t st \<Longrightarrow> ends (still t) (read_file e n st)"
  unfolding read_file_def by (assumption | rule ends_rules still_rules)+

lemma still_read_complete [still_rules]: "still t st \<Longrightarrow> ends (still t) (read_complete bs acc st)"
proof (induction bs acc st rule: read_complete.induct)
  case (1 bs acc st)
  obtain s x where s: "sys st = (s, x)" "still t s"
    using still_sys [OF 1(2)] by (cases "sys st") (auto simp: ends_def)
  show ?case
    using 1(1) [OF s(1) [symmetric]] s by (subst read_complete.simps) (auto simp: ends_def split: io_outcome.split)
qed

lemma still_read_records [still_rules]: "still t st \<Longrightarrow> ends (still t) (read_complete_replay_records p st)"
  unfolding read_complete_replay_records_def by (assumption | rule ends_rules still_rules)+

lemma still_rewrite_live [still_rules]: "still t st \<Longrightarrow> ends (still t) (rewrite_live live g st)"
proof -
  assume st: "still t st"
  have tail: "ends (still t) (case r of (st, Inl e) \<Rightarrow> (fst (sys st), Inl e) | (st, Inr _) \<Rightarrow> (st, Inr ()))"
    if "ends (still t) r" for r :: "'a os_scheme \<times> unit res"
    using that by (cases r; cases "snd r") (auto simp: ends_def sys_def still_def)
  show ?thesis
    unfolding rewrite_live_def Let_def
    by (rule ends_option, rule ends_pair, rule st, rule ends_case, rule still_random, rule st, rule tail)
       (assumption | rule ends_rules still_rules)+
qed

abbreviation guard_still :: "(nat \<Rightarrow> nat) \<times> nat \<Rightarrow> guard \<times> 'a os_scheme \<Rightarrow> bool" where
  "guard_still t s \<equiv> still t (snd s)"

lemma guard_still_pair: "still t st \<Longrightarrow> guard_still t (g, st)"
  by simp

lemma still_case:
  "ends (still t) r \<Longrightarrow> (\<And>s x. still t s \<Longrightarrow> ends (guard_still t) (f s x)) \<Longrightarrow>
   ends (guard_still t) (case r of (s, x) \<Rightarrow> f s x)"
  by (cases r) (simp add: ends_def)

lemma still_pair_case: "(\<And>a b. ends P (f a b)) \<Longrightarrow> ends P (case v of (a, b) \<Rightarrow> f a b)"
  by (cases v) simp

lemma still_persist: "still t st \<Longrightarrow> ends (guard_still t) (persist fp now (g, st))"
  unfolding persist_def case_prod_conv
  by (assumption | rule guard_still_pair ends_if ends_pair ends_option ends_sum still_case still_pair_case still_rules)+

lemma still_compact: "still t st \<Longrightarrow> guard_still t (compact now (g, st))"
proof (cases "log_path g")
  case (Some p)
  assume st: "still t st"
  obtain s1 r1 where r1: "read_complete_replay_records p st = (s1, r1)"
    by fastforce
  have s1: "still t s1"
    using still_read_records [OF st, of p] r1 by (simp add: ends_def)
  then have "still t (fst (rewrite_live live g s1))" for live
    using still_rewrite_live [OF s1] by (simp add: ends_def)
  from this [of "live_records now g (projr r1)"] show ?thesis
    using Some r1 s1 by (cases r1) (auto simp: compact_def split: prod.split sum.split)
qed (simp add: compact_def)

lemma still_reserve: "still t st \<Longrightarrow> ends (guard_still t) (reserve fp now (g, st))"
  using still_persist [of t st fp now g]
  by (auto simp: reserve_def ends_def split: prod.splits bool.splits)

lemma still_claim: "still t st \<Longrightarrow> ends (guard_still t) (claim fp now (g, st))"
  unfolding claim_def case_prod_conv Let_def
  by (assumption | rule guard_still_pair ends_if ends_pair still_pair_case still_reserve)+

lemma still_admit_op:
  assumes "still t st"
  shows "ends (guard_still t) (admit k fp now (g, st))"
proof -
  obtain g2 st2 r where res: "reserve fp now (reset_total_if_rotated ((rotate_counts now g)\<lparr>g_bloom :=
      fst (bloom_check fp now (g_bloom (rotate_counts now g)))\<rparr>), st) = ((g2, st2), r)"
    by (metis prod.exhaust)
  have st2: "still t st2"
    using still_reserve [OF assms] res by (metis ends_fst fst_conv snd_conv)
  show ?thesis
    using res assms st2 still_compact [OF st2]
    by (auto simp: admit_def Let_def ends_def split: prod.split first_flight_admit.split)
qed

section \<open>What a first flight does to the guard\<close>

definition later :: "'a os_scheme \<Rightarrow> 'a os_scheme \<Rightarrow> bool" where
  "later st st' \<longleftrightarrow> clk st' = clk st \<and> clk_pos st \<le> clk_pos st'"

lemma later_refl [simp]: "later st st"
  by (simp add: later_def)

lemma later_trans: "later a b \<Longrightarrow> later b c \<Longrightarrow> later a c"
  by (simp add: later_def)

lemma authenticate_later:
  assumes "authenticate_presented C k key st = (st', r)"
  shows "later st st'"
  using assms
  by (auto simp: authenticate_presented_def authenticate_row_def row_failure_def later_def
      count_failure_def count_success_def unix_seconds_def cancel_lease_def Let_def
      split: if_splits option.splits sum.splits prod.splits slot_state.splits)

lemma record_legacy_later:
  assumes "record_legacy_connection st = (st', r)"
  shows "later st st'"
  using assms by (auto simp: record_legacy_connection_def unix_seconds_def later_def Let_def split: if_splits)

text \<open>
  One operation of the guard on \<open>fp\<close>, at a clock reading made since \<open>st\<close>; it found \<open>fp\<close> fresh if
  \<open>fresh\<close> holds.
\<close>

definition consulted :: "bytes \<Rightarrow> bool \<Rightarrow> guard \<Rightarrow> auth \<Rightarrow> guard \<Rightarrow> auth \<Rightarrow> bool" where
  "consulted fp fresh g st g' st' \<longleftrightarrow>
     (\<exists>op s0 r n. guard_step op (g, s0) = ((g', st'), r) \<and> op_print op = fp \<and> op_time op = clk st n \<and>
        clk_pos st \<le> n \<and> n < clk_pos st' \<and> clk st' = clk st \<and> (fresh \<longrightarrow> r = Fresh))"

lemma consulted_later: "later st st1 \<Longrightarrow> consulted fp fresh g st1 g' st' \<Longrightarrow> consulted fp fresh g st g' st'"
  unfolding consulted_def later_def by (metis order_trans)

lemma consulted_weaken: "consulted fp fresh g st g' st' \<Longrightarrow> (fresh' \<longrightarrow> fresh) \<Longrightarrow> consulted fp fresh' g st g' st'"
  unfolding consulted_def by blast

lemma guard_step_clock: "guard_step op (g, st) = ((g', st'), r) \<Longrightarrow> clk st' = clk st \<and> clk_pos st' = clk_pos st"
  using still_admit_op [of "(clk st, clk_pos st)" st] still_claim [of "(clk st, clk_pos st)" st]
  by (cases op) (metis ends_fst fst_conv guard_step.simps snd_conv still_def prod.inject)+

lemma consulted_step:
  assumes "guard_step op (g, st\<lparr>clk_pos := Suc (clk_pos st)\<rparr>) = ((g', st'), r)"
    and "op_print op = fp" "op_time op = clk st (clk_pos st)"
  shows "consulted fp (r = Fresh) g st g' st'"
  unfolding consulted_def using assms guard_step_clock [OF assms(1)]
  by (intro exI [of _ op] exI [of _ "st\<lparr>clk_pos := Suc (clk_pos st)\<rparr>"] exI [of _ r] exI [of _ "clk_pos st"]) auto

lemma reserved_consults:
  assumes "reserved_error_session fp session (g, st) = ((g', st'), x)"
  shows "consulted fp (x \<noteq> None) g st g' st' \<and> (\<forall>y. x = Some y \<longrightarrow> y = session)"
proof -
  obtain r where "guard_step (Claim fp (clk st (clk_pos st))) (g, st\<lparr>clk_pos := Suc (clk_pos st)\<rparr>) = ((g', st'), r)"
    and x: "x = (if r = Fresh then Some session else None)"
    using assms by (auto simp: reserved_error_session_def unix_seconds_def split: prod.splits)
  from consulted_step [OF this(1)] x show ?thesis
    by auto
qed

definition error_session :: "initial_error + 'x \<Rightarrow> server_session option" where
  "error_session r = (case r of Inl e \<Rightarrow> ie_session e | Inr _ \<Rightarrow> None)"

text \<open>The session a work item may answer with.\<close>

fun work_session :: "first_flight_work \<Rightarrow> server_session option" where
  "work_session (Live key payload s) = Some s"
| "work_session (Stale e) = ie_session e"

lemma evaluate_consults:
  assumes "evaluate_first_flight C k fp work (g, st) = ((g', st'), r)"
  shows "(g' = g \<and> later st st' \<and> (\<exists>e. r = Inl e \<and> ie_session e = None)) \<or>
    consulted fp (error_session r \<noteq> None \<or> (\<exists>x. r = Inr x)) g st g' st' \<and>
    (\<forall>s. error_session r = Some s \<longrightarrow> work_session work = Some s)"
proof (cases work)
  case (Live key payload es)
  obtain st1 a where auth: "authenticate_presented C k key st = (st1, a)"
    by fastforce
  note later = authenticate_later [OF auth]
  show ?thesis
  proof (cases a)
    case (Inl f)
    obtain x where "reserved_error_session fp es (g, st1) = ((g', st'), x)"
      and r: "r = Inl \<lparr>ie_failure = f, ie_session = x, ie_key_id = Some k\<rparr>"
      using assms Live auth Inl by (auto simp: evaluate_first_flight_def split: prod.splits)
    from reserved_consults [OF this(1)] r Live show ?thesis
      using consulted_later [OF later] by (auto simp: error_session_def elim!: consulted_weaken)
  next
    case (Inr ctx)
    obtain x where op: "guard_step (Admit k fp (clk st1 (clk_pos st1))) (g, st1\<lparr>clk_pos := Suc (clk_pos st1)\<rparr>) = ((g', st'), x)"
      and r: "(\<exists>y. r = Inr y) \<longrightarrow> x = Fresh" "error_session r = None"
      using assms Live auth Inr
      by (auto simp: evaluate_first_flight_def unix_seconds_def error_session_def first_flight_error_def
          split: prod.splits first_flight_admit.splits)
    have "consulted fp (x = Fresh) g st g' st'"
      by (rule consulted_later [OF later]) (use consulted_step [OF op] in simp)
    then have "consulted fp (error_session r \<noteq> None \<or> (\<exists>x. r = Inr x)) g st g' st'"
      by (rule consulted_weaken) (use r in auto)
    then show ?thesis
      using r(2) by simp
  qed
next
  case (Stale e)
  show ?thesis
  proof (cases "ie_session e")
    case None
    then show ?thesis
      using assms Stale by (auto simp: evaluate_first_flight_def)
  next
    case (Some s)
    obtain x where "reserved_error_session fp s (g, st) = ((g', st'), x)" and r: "r = Inl (e\<lparr>ie_session := x\<rparr>)"
      using assms Stale Some by (auto simp: evaluate_first_flight_def split: prod.splits)
    from reserved_consults [OF this(1)] r Stale Some show ?thesis
      by (auto simp: error_session_def elim!: consulted_weaken)
  qed
qed

text \<open>The fingerprint of the v2 session that an outcome offers its peer, if any.\<close>

definition session_print :: "'c crypto_scheme \<Rightarrow> server_session \<Rightarrow> bytes option" where
  "session_print C s = map_option (\<lambda>m. replay_fingerprint C (mat_key_id m) (mat_salt m)) (ss_v2 s)"

definition offered :: "'c crypto_scheme \<Rightarrow> initial_error + initial_message \<Rightarrow> bytes option" where
  "offered C r =
     (case r of Inr m \<Rightarrow> session_print C (im_session m)
      | Inl e \<Rightarrow> Option.bind (ie_session e) (session_print C))"

lemma derive_material_fields:
  "derive_material C k key salt = Inr m \<Longrightarrow> mat_key_id m = k \<and> mat_salt m = salt \<and> mat_flags m = 0"
  by (auto simp: derive_material_def split: sum.splits)

lemma stale_session:
  assumes "stale_root_first_flight C st k salt c ct = Some e"
  shows "\<exists>s. ie_session e = Some s \<and> session_print C s = Some (replay_fingerprint C k salt)"
  using assms
  by (auto simp: stale_root_first_flight_def session_print_def v2_session_def
      dest!: derive_material_fields split: option.splits sum.splits)

lemma classified_session:
  assumes "classify_first_flight C st k key salt m c ct = Inr work" "derive_material C k key salt = Inr m"
    and "work_session work = Some s"
  shows "session_print C s = Some (replay_fingerprint C k salt)"
  using assms(1,3) derive_material_fields [OF assms(2)] stale_session
  by (fastforce simp: classify_first_flight_def session_print_def v2_session_def session_without_context_def
      split: sum.splits option.splits)

text \<open>What a first flight holds once it is prepared.\<close>

definition prepared :: "'c crypto_scheme \<Rightarrow> first_flight \<Rightarrow> auth \<Rightarrow> bool" where
  "prepared C ff st \<longleftrightarrow> (\<exists>st0 st1 input.
     prepare_first_flight C st0 input = (st1, Inr ff) \<and> clk st1 = clk st \<and> clk_pos st1 \<le> clk_pos st)"

lemma prepare_Inr:
  assumes "prepare_first_flight C st input = (st1, Inr ff)"
  shows "\<exists>remainder input2 rest c. input = remainder @ input2 \<and> length remainder = FIRST_PREFIX_REMAINDER_LEN \<and>
    remainder ! 0 = PROTOCOL_V2_VERSION \<and> remainder ! 1 = 0 \<and> from_be (take 2 (drop 2 remainder)) = 0 \<and>
    ff_key_id ff = prefix_key_id remainder \<and> ff_salt ff = prefix_salt remainder \<and>
    st1 = st\<lparr>clk_pos := Suc (clk_pos st)\<rparr> \<and>
    abs_diff (clk st (clk_pos st)) (salt_timestamp (ff_salt ff)) \<le> MAX_CONNECTION_CLOCK_SKEW_SECONDS \<and>
    derive_key C st1 (ff_key_id ff) = Inr (ff_key ff) \<and>
    derive_material C (ff_key_id ff) (ff_key ff) (ff_salt ff) = Inr (ff_material ff) \<and>
    read_v2_frame 0 MAX_INITIAL_PLAINTEXT_LEN input2 = (rest, Inr (0, c)) \<and>
    classify_first_flight C st1 (ff_key_id ff) (ff_key ff) (ff_salt ff) (ff_material ff) 0 c = Inr (ff_work ff)"
proof -
  from assms obtain input2 remainder where
      hd: "read_exact (error_new (fail ''protocol_v2_header_invalid'' True)) FIRST_PREFIX_REMAINDER_LEN input = (input2, Inr remainder)"
    by (auto simp: prepare_first_flight_def split: prod.splits sum.splits)
  define k where "k = prefix_key_id remainder"
  define salt where "salt = prefix_salt remainder"
  define s1 where "s1 = st\<lparr>clk_pos := Suc (clk_pos st)\<rparr>"
  have v: "remainder ! 0 = PROTOCOL_V2_VERSION" "remainder ! 1 = 0" "from_be (take 2 (drop 2 remainder)) = 0"
    using assms by (simp_all add: prepare_first_flight_def hd split: if_splits)
  define body where "body = (case derive_key C s1 k of
       Inl f \<Rightarrow> (s1, Inl \<lparr>ie_failure = f, ie_session = None, ie_key_id = Some k\<rparr>)
     | Inr key \<Rightarrow>
         (case derive_material C k key salt of
            Inl _ \<Rightarrow> (s1, Inl (first_flight_error ''protocol_v2_key_derivation_failed'' False k))
          | Inr m \<Rightarrow>
              (case read_v2_frame 0 MAX_INITIAL_PLAINTEXT_LEN input2 of
                 (input, Inl _) \<Rightarrow> (s1, Inl (first_flight_error ''protocol_v2_decrypt_failed'' False k))
               | (input, Inr (counter, ciphertext)) \<Rightarrow>
                   (case classify_first_flight C s1 k key salt m counter ciphertext of
                      Inl e \<Rightarrow> (s1, Inl e)
                    | Inr work \<Rightarrow>
                        (s1, Inr \<lparr>ff_key_id = k, ff_salt = salt, ff_key = key, ff_material = m, ff_work = work\<rparr>)))))"
  have step: "prepare_first_flight C st input =
      (if MAX_CONNECTION_CLOCK_SKEW_SECONDS < abs_diff (clk st (clk_pos st)) (salt_timestamp salt)
       then (s1, Inl (first_flight_error ''connection_timestamp_invalid'' False k)) else body)"
    unfolding prepare_first_flight_def hd body_def k_def salt_def s1_def
    by (simp add: v v(2) [simplified] Let_def unix_seconds_def)
  have skew: "abs_diff (clk st (clk_pos st)) (salt_timestamp salt) \<le> MAX_CONNECTION_CLOCK_SKEW_SECONDS"
    and body: "body = (st1, Inr ff)"
    using assms unfolding step by (simp_all split: if_splits)
  obtain key where key: "derive_key C s1 k = Inr key"
    using body unfolding body_def by (cases "derive_key C s1 k") simp_all
  obtain m where m: "derive_material C k key salt = Inr m"
    using body unfolding body_def key sum.case by (cases "derive_material C k key salt") simp_all
  obtain rest x where x: "read_v2_frame 0 MAX_INITIAL_PLAINTEXT_LEN input2 = (rest, x)"
    by fastforce
  obtain counter c where c: "x = Inr (counter, c)"
    using body unfolding body_def key m x sum.case prod.case by (cases x) auto
  obtain work where work: "classify_first_flight C s1 k key salt m counter c = Inr work"
    using body unfolding body_def key m x c sum.case prod.case
    by (cases "classify_first_flight C s1 k key salt m counter c") simp_all
  have made: "st1 = s1 \<and> ff = \<lparr>ff_key_id = k, ff_salt = salt, ff_key = key, ff_material = m, ff_work = work\<rparr>"
    using body unfolding body_def key m x c work sum.case prod.case by simp
  note parts = key m x [unfolded c] work
  have frame: "read_v2_frame 0 MAX_INITIAL_PLAINTEXT_LEN input2 = (rest, Inr (counter, c))"
      "classify_first_flight C st1 (ff_key_id ff) (ff_key ff) (ff_salt ff) (ff_material ff) counter c = Inr (ff_work ff)"
      "remainder ! 0 = PROTOCOL_V2_VERSION" "remainder ! 1 = 0" "from_be (take 2 (drop 2 remainder)) = 0"
      "ff_key_id ff = prefix_key_id remainder" "ff_salt ff = prefix_salt remainder"
      "st1 = st\<lparr>clk_pos := Suc (clk_pos st)\<rparr>"
      "abs_diff (clk st (clk_pos st)) (salt_timestamp (ff_salt ff)) \<le> MAX_CONNECTION_CLOCK_SKEW_SECONDS"
      "derive_key C st1 (ff_key_id ff) = Inr (ff_key ff)"
      "derive_material C (ff_key_id ff) (ff_key ff) (ff_salt ff) = Inr (ff_material ff)"
    using parts skew v made by (simp_all add: k_def salt_def s1_def)
  have "counter = 0"
    using read_v2_frameD [OF frame(1)] by simp
  with frame show ?thesis
    using read_exactD [OF hd]
    by (intro exI [of _ remainder] exI [of _ input2] exI [of _ rest] exI [of _ c]) simp
qed

lemma prepared_session:
  assumes "prepared C ff st" "work_session (ff_work ff) = Some s"
  shows "session_print C s = Some (flight_fingerprint C ff)"
proof -
  from assms(1) obtain st0 st1 input where "prepare_first_flight C st0 input = (st1, Inr ff)"
    by (auto simp: prepared_def)
  from prepare_Inr [OF this] obtain c where
      "derive_material C (ff_key_id ff) (ff_key ff) (ff_salt ff) = Inr (ff_material ff)"
      "classify_first_flight C st1 (ff_key_id ff) (ff_key ff) (ff_salt ff) (ff_material ff) 0 c = Inr (ff_work ff)"
    by blast
  from classified_session [OF this(2,1) assms(2)] show ?thesis
    by (simp add: flight_fingerprint_def)
qed

lemma prepared_material:
  assumes "prepared C ff st"
  shows "mat_key_id (ff_material ff) = ff_key_id ff \<and> mat_salt (ff_material ff) = ff_salt ff"
proof -
  from assms obtain st0 st1 input where "prepare_first_flight C st0 input = (st1, Inr ff)"
    by (auto simp: prepared_def)
  from prepare_Inr [OF this] have "derive_material C (ff_key_id ff) (ff_key ff) (ff_salt ff) = Inr (ff_material ff)"
    by blast
  from derive_material_fields [OF this] show ?thesis
    by simp
qed

text \<open>Its timestamp was within the skew of a clock reading already made.\<close>

lemma prepared_timestamp:
  assumes "prepared C ff st" "mono (clk st)" "clk_pos st \<le> n"
  shows "salt_timestamp (ff_salt ff) \<le> clk st n + MAX_CONNECTION_CLOCK_SKEW_SECONDS"
proof -
  from assms(1) obtain st0 st1 input where p: "prepare_first_flight C st0 input = (st1, Inr ff)"
      "clk st1 = clk st" "clk_pos st1 \<le> clk_pos st"
    by (auto simp: prepared_def)
  from prepare_Inr [OF p(1)] have st1: "st1 = st0\<lparr>clk_pos := Suc (clk_pos st0)\<rparr>"
      "abs_diff (clk st0 (clk_pos st0)) (salt_timestamp (ff_salt ff)) \<le> MAX_CONNECTION_CLOCK_SKEW_SECONDS"
    by blast+
  then have "clk st (clk_pos st0) \<le> clk st n"
    using p(2,3) assms(2,3) by (intro monoD [OF assms(2)]) simp
  then show ?thesis
    using st1 p(2) by (auto simp: abs_diff_le_iff)
qed

text \<open>What finishing it does.\<close>

lemma finish_consults:
  assumes "finish_first_flight C ff (g, st) = ((g', st'), r)" "prepared C ff st"
  shows "(g' = g \<and> later st st' \<and> offered C r = None) \<or>
    consulted (flight_fingerprint C ff) (offered C r \<noteq> None) g st g' st' \<and>
    (offered C r = None \<or> offered C r = Some (flight_fingerprint C ff))"
proof -
  obtain s e where ev: "evaluate_first_flight C (ff_key_id ff) (flight_fingerprint C ff) (ff_work ff) (g, st) = (s, e)"
    by fastforce
  have s: "s = (g', st')" and r: "(\<exists>x. e = Inl x \<and> r = Inl x) \<or> (\<exists>p ctx. e = Inr (p, ctx) \<and>
      r = Inr \<lparr>im_payload = p, im_session = (v2_session (ff_key ff) (ff_material ff))\<lparr>ss_context := Some ctx\<rparr>,
        im_fingerprint = Some (flight_fingerprint C ff), im_timestamp = Some (salt_timestamp (ff_salt ff))\<rparr>)"
    using assms(1) ev by (cases e; auto simp: finish_first_flight_def)+
  have offers: "offered C r = None \<or> offered C r = Some (flight_fingerprint C ff)"
    if "\<forall>s. error_session e = Some s \<longrightarrow> work_session (ff_work ff) = Some s"
    using r that prepared_session [OF assms(2)] prepared_material [OF assms(2)]
    by (auto simp: offered_def error_session_def session_print_def v2_session_def flight_fingerprint_def
        split: bind_splits)
  have fresh: "offered C r \<noteq> None \<longrightarrow> error_session e \<noteq> None \<or> (\<exists>x. e = Inr x)"
    using r by (auto simp: offered_def error_session_def)
  from evaluate_consults [OF ev [unfolded s]] show ?thesis
  proof
    assume "g' = g \<and> later st st' \<and> (\<exists>x. e = Inl x \<and> ie_session x = None)"
    then show ?thesis
      using r by (auto simp: offered_def)
  next
    assume c: "consulted (flight_fingerprint C ff) (error_session e \<noteq> None \<or> (\<exists>x. e = Inr x)) g st g' st' \<and>
      (\<forall>s. error_session e = Some s \<longrightarrow> work_session (ff_work ff) = Some s)"
    from consulted_weaken [OF conjunct1 [OF c] fresh] offers c show ?thesis
      by blast
  qed
qed

end
