(* ===== verification/SecureProps.thy ===== *)
theory SecureProps
  imports SecureFacts WireProps
begin

text \<open>
  What connection security promises: a first flight is answered once, what is accepted is what an
  authenticated client sent, sessions on both sides agree, and failures are logged in moderation.
\<close>

section \<open>One answer per first flight\<close>

text \<open>
  The connections of a relay, in the order in which they pass the admission lock.  A frame may have
  been prepared at any earlier time; between two admissions the credential service may do anything
  but turn back the clock.  The list holds each flight with its outcome.
\<close>

inductive relay_run ::
  "'c crypto_scheme \<Rightarrow> relay \<Rightarrow> (first_flight \<times> (initial_error + initial_message)) list \<Rightarrow> relay \<Rightarrow> bool" for C where
  run_done: "relay_run C s [] s"
| run_finish: "prepared C ff st \<Longrightarrow> finish_first_flight C ff (g, st) = (s1, r) \<Longrightarrow> relay_run C s1 rs s2 \<Longrightarrow>
    relay_run C (g, st) ((ff, r) # rs) s2"
| run_service: "later st st1 \<Longrightarrow> relay_run C (g, st1) rs s2 \<Longrightarrow> relay_run C (g, st) rs s2"

inductive_cases relay_run_NilE: "relay_run C s [] s'"

lemma consulted_filter:
  assumes "consulted fp fresh g st g' st'" "mono (clk st)"
  shows "later st st' \<and> (\<exists>op r. op_outcome op g g' r \<and> op_print op = fp \<and>
    clk st (clk_pos st) \<le> op_time op \<and> op_time op \<le> clk st (clk_pos st' - 1) \<and> (fresh \<longrightarrow> r = Fresh))"
proof -
  from assms(1) obtain op s0 r n where op: "guard_step op (g, s0) = ((g', st'), r)" "op_print op = fp"
      "op_time op = clk st n" "clk_pos st \<le> n" "n < clk_pos st'" "clk st' = clk st" "fresh \<longrightarrow> r = Fresh"
    by (auto simp: consulted_def)
  have "clk st n \<le> clk st (clk_pos st' - 1)" "clk st (clk_pos st) \<le> clk st n"
    using op(4,5) by (auto intro!: monoD [OF assms(2)])
  then have "op_outcome op g g' r \<and> op_print op = fp \<and> clk st (clk_pos st) \<le> op_time op \<and>
      op_time op \<le> clk st (clk_pos st' - 1) \<and> (fresh \<longrightarrow> r = Fresh)"
    using op guard_step_outcome [OF op(1)] by simp
  moreover have "later st st'"
    using op by (simp add: later_def)
  ultimately show ?thesis
    by blast
qed

lemma finish_later:
  assumes "finish_first_flight C ff (g, st) = ((g', st'), r)" "prepared C ff st" "mono (clk st)"
  shows "later st st' \<and> window_seconds g' = window_seconds g"
  using finish_consults [OF assms(1,2)] consulted_filter [OF _ assms(3)]
  by (auto simp: op_outcome_def Let_def)

lemma run_later:
  assumes "relay_run C s rs s'" "mono (clk (snd s))"
  shows "later (snd s) (snd s') \<and> window_seconds (fst s') = window_seconds (fst s)"
  using assms
proof (induction rule: relay_run.induct)
  case (run_finish ff st g s1 r rs s2)
  obtain g1 st1 where s1: "s1 = (g1, st1)"
    by fastforce
  from finish_later [OF run_finish.hyps(2) [unfolded s1] run_finish.hyps(1)] run_finish.prems
  have "later st st1" "window_seconds g1 = window_seconds g"
    by auto
  then show ?case
    using run_finish.IH run_finish.prems s1 by (auto simp: later_def)
qed (auto simp: later_def)

text \<open>A remembered fingerprint stays remembered until a window has passed.\<close>

lemma run_remembers:
  assumes "relay_run C s rs s'" "mono (clk (snd s))" "remembers n t fp (fst s)"
    and "clk (snd s) (clk_pos (snd s') - 1) \<le> t + window_seconds (fst s)"
  shows "remembers n t fp (fst s')"
  using assms
proof (induction rule: relay_run.induct)
  case (run_finish ff st g s1 r rs s2)
  obtain g1 st1 where s1: "s1 = (g1, st1)"
    by fastforce
  note fin = run_finish.hyps(2) [unfolded s1]
  from finish_later [OF fin run_finish.hyps(1)] run_finish.prems
  have l: "later st st1" "window_seconds g1 = window_seconds g"
    by auto
  have l2: "later st1 (snd s2)"
    using run_later [OF run_finish.hyps(3)] l run_finish.prems s1 by (simp add: later_def)
  have bound: "clk st (clk_pos st1 - 1) \<le> t + window_seconds g"
  proof -
    have "clk st (clk_pos st1 - 1) \<le> clk st (clk_pos (snd s2) - 1)"
      using l2 run_finish.prems(1) by (intro monoD [of "clk st"]) (auto simp: later_def)
    then show ?thesis
      using run_finish.prems(3) by simp
  qed
  have "remembers n t fp g1"
    using finish_consults [OF fin run_finish.hyps(1)]
  proof
    assume "g1 = g \<and> later st st1 \<and> offered C r = None"
    then show ?thesis
      using run_finish.prems by simp
  next
    assume "consulted (flight_fingerprint C ff) (offered C r \<noteq> None) g st g1 st1 \<and>
      (offered C r = None \<or> offered C r = Some (flight_fingerprint C ff))"
    then have "consulted (flight_fingerprint C ff) (offered C r \<noteq> None) g st g1 st1" ..
    from consulted_filter [OF this] run_finish.prems(1)
    obtain op x where "op_outcome op g g1 x" "op_time op \<le> clk st (clk_pos st1 - 1)"
      by auto
    then show ?thesis
      using filter_step_remembers [OF _ outcome_step] run_finish.prems(2) bound by fastforce
  qed
  then show ?case
    using run_finish.IH run_finish.prems l s1 by (simp add: later_def)
qed (auto simp: later_def)

text \<open>
  C8: A first flight is answered at most once.  Once the relay has offered a session for a key id
  and salt, whether to accept the connection or to report an error on it, no later connection with
  that key id and salt is offered one, whatever other connections and the credential service do in
  between, as long as that connection passes the admission lock before its timestamp has left the
  accepted clock skew.  No message key and nonce of a reply is therefore ever used twice.
\<close>

theorem first_flight_answered_once:
  assumes "guard_ok n g" "window_seconds g = DEFAULT_REPLAY_WINDOW_SECONDS" "mono (clk st)"
    and first: "prepared C ff st" "finish_first_flight C ff (g, st) = ((g1, st1), r)" "offered C r = Some fp"
    and run: "relay_run C (g1, st1) rs (g2, st2)"
    and second: "prepared C ff' st2" "finish_first_flight C ff' (g2, st2) = ((g3, st3), r')"
    and in_time: "clk st (clk_pos st3 - 1) \<le> salt_timestamp (ff_salt ff) + MAX_CONNECTION_CLOCK_SKEW_SECONDS"
  shows "offered C r' \<noteq> Some fp"
proof
  assume again: "offered C r' = Some fp"
  from finish_consults [OF first(2,1)] first(3)
  have c1: "consulted fp True g st g1 st1"
    by (auto elim: consulted_weaken)
  from consulted_filter [OF this assms(3)] obtain op where op: "later st st1" "op_outcome op g g1 Fresh"
      "op_print op = fp" "clk st (clk_pos st) \<le> op_time op"
    by auto
  let ?t = "op_time op"
  have "salt_timestamp (ff_salt ff) \<le> clk st (clk_pos st) + MAX_CONNECTION_CLOCK_SKEW_SECONDS"
    by (rule prepared_timestamp [OF first(1) assms(3)]) simp
  then have late: "clk st (clk_pos st3 - 1) \<le> ?t + DEFAULT_REPLAY_WINDOW_SECONDS"
    using in_time op(4)
    by (simp add: DEFAULT_REPLAY_WINDOW_SECONDS_def MAX_CONNECTION_CLOCK_SKEW_SECONDS_def sat_mul_def u64_max_def)
  have mono1: "clk st1 = clk st" "mono (clk st1)"
    using op(1) assms(3) by (simp_all add: later_def)
  have w1: "window_seconds g1 = DEFAULT_REPLAY_WINDOW_SECONDS"
    using op(2) assms(2) by (simp add: op_outcome_def Let_def)
  from run_later [OF run] mono1 w1
  have l2: "later st1 st2" "window_seconds g2 = DEFAULT_REPLAY_WINDOW_SECONDS"
    by auto
  then have mono2: "clk st2 = clk st" "mono (clk st2)"
    using mono1 by (simp_all add: later_def)
  from finish_consults [OF second(2,1)] again
  have c2: "consulted fp True g2 st2 g3 st3"
    by (auto elim: consulted_weaken)
  from consulted_filter [OF this mono2(2)] obtain op2 where op2: "later st2 st3" "op_outcome op2 g2 g3 Fresh"
      "op_print op2 = fp" "op_time op2 \<le> clk st2 (clk_pos st3 - 1)"
    by auto
  have "clk st (clk_pos st2 - 1) \<le> clk st (clk_pos st3 - 1)"
    using op2(1) by (intro monoD [OF assms(3)] diff_le_mono) (simp add: later_def)
  then have "remembers n ?t fp g2"
    using run_remembers [OF run, of n ?t fp] outcome_fresh [OF op(2) assms(1)] op(3) mono1 w1 late by simp
  then have "(Fresh :: first_flight_admit) = Replayed"
    using outcome_remembered [OF op2(2), of n ?t] op2(3,4) l2(2) mono2(1) late by simp
  then show False
    by simp
qed

section \<open>The clear prefix\<close>

lemma prefix_fields:
  assumes "length remainder = FIRST_PREFIX_REMAINDER_LEN" "remainder ! 0 = PROTOCOL_V2_VERSION" "remainder ! 1 = 0"
    and "from_be (take 2 (drop 2 remainder)) = 0"
  shows "remainder = [PROTOCOL_V2_VERSION, 0] @ to_be 2 0 @ key_id_to_be_bytes (prefix_key_id remainder) @ prefix_salt remainder"
proof -
  have len: "length remainder = 28"
    using assms(1) by (simp add: FIRST_PREFIX_REMAINDER_LEN_def)
  have head: "take 2 remainder = [PROTOCOL_V2_VERSION, 0]"
    using len assms(2,3) by (cases remainder; cases "tl remainder") auto
  have reserved: "take 2 (drop 2 remainder) = to_be 2 0"
    using to_be_from_be [of "take 2 (drop 2 remainder)"] len assms(4) by simp
  have key: "take 8 (drop 4 remainder) = key_id_to_be_bytes (prefix_key_id remainder)"
  proof -
    have "length (take 8 (drop 4 remainder)) = 8"
      using len by simp
    with from_be_less [of "take 8 (drop 4 remainder)"]
    have "from_be (take 8 (drop 4 remainder)) < 2 ^ 64"
      by simp
    then have "unat (prefix_key_id remainder) = from_be (take 8 (drop 4 remainder))"
      by (simp add: prefix_key_id_def unat_of_nat take_bit_eq_mod)
    then show ?thesis
      using to_be_from_be [of "take 8 (drop 4 remainder)"] len by (simp add: key_id_to_be_bytes_def)
  qed
  have "remainder = take 2 remainder @ take 2 (drop 2 remainder) @ take 8 (drop 4 remainder) @ drop 12 remainder"
  proof -
    have "remainder = take 2 remainder @ drop 2 remainder"
      by simp
    also have "drop 2 remainder = take 2 (drop 2 remainder) @ drop 4 remainder"
      using append_take_drop_id [of 2 "drop 2 remainder"] by simp
    also have "drop 4 remainder = take 8 (drop 4 remainder) @ drop 12 remainder"
      using append_take_drop_id [of 8 "drop 4 remainder"] by simp
    finally show ?thesis
      by simp
  qed
  then show ?thesis
    using head reserved key by (simp add: prefix_salt_def)
qed

lemma prefix_written:
  fixes salt :: bytes and k :: key_id
  assumes "length salt = CONNECTION_SALT_LEN"
  defines "r \<equiv> [PROTOCOL_V2_VERSION, 0] @ to_be 2 0 @ key_id_to_be_bytes k @ salt"
  shows "length r = FIRST_PREFIX_REMAINDER_LEN" "r ! 0 = PROTOCOL_V2_VERSION" "r ! 1 = 0"
    "from_be (take 2 (drop 2 r)) = 0" "prefix_key_id r = k" "prefix_salt r = salt"
proof -
  have key: "length (key_id_to_be_bytes k) = 8"
    by (simp add: key_id_to_be_bytes_def)
  then show "length r = FIRST_PREFIX_REMAINDER_LEN"
    using assms(1) by (simp add: r_def FIRST_PREFIX_REMAINDER_LEN_def CONNECTION_SALT_LEN_def)
  show "r ! 0 = PROTOCOL_V2_VERSION" "r ! 1 = 0" "from_be (take 2 (drop 2 r)) = 0"
    by (simp_all add: r_def)
  have "unat k < 2 ^ 64"
    using unsigned_less [of k, where ?'a = nat] by simp
  then show "prefix_key_id r = k"
    using key by (simp add: r_def prefix_key_id_def key_id_to_be_bytes_def)
  show "prefix_salt r = salt"
    using key by (simp add: r_def prefix_salt_def)
qed

section \<open>Clients and the relay understand each other\<close>

definition v2_client :: "bytes \<Rightarrow> v2_material \<Rightarrow> client_session" where
  "v2_client key m = \<lparr>cs_protocol = V2Protocol, cs_legacy_key = key, cs_v2 = Some m\<rparr>"

lemma first_prefix_fields:
  assumes "derive_material C k key salt = Inr m"
  shows "first_prefix m = PROTOCOL_V2_MAGIC @ [PROTOCOL_V2_VERSION, 0] @ to_be 2 0 @ key_id_to_be_bytes k @ salt"
  using derive_material_fields [OF assms] by (simp add: first_prefix_def)

lemma write_initial_v2:
  assumes "write_initial C p (v2_client key m) payload k = (k', Inr ())" "aead_ok C"
  shows "\<exists>c. aead_seal C (client_to_server m) (frame_nonce 0)
      (frame_aad m DIRECTION_CLIENT_TO_SERVER 0 (length c)) payload = Some c \<and> length c = length payload + TAG_LEN \<and>
    sent k' = sent k @ first_prefix m @ frame_bytes 0 c \<and> length payload \<le> MAX_PLAINTEXT_LEN"
proof -
  obtain k1 where pre: "write_all MsgProtocol (first_prefix m) k = (k1, Inr ())"
    and rest: "(case v2_write_msg C payload (v2_end_new m DIRECTION_CLIENT_TO_SERVER 0, k1) of
      ((w, k), r) \<Rightarrow> (k, r)) = (k', Inr ())"
    using assms(1) by (auto simp: write_initial_def v2_client_def and_then_eq_Inr)
  obtain w where msg: "v2_write_msg C payload (v2_end_new m DIRECTION_CLIENT_TO_SERVER 0, k1) = ((w, k'), Inr ())"
    using rest by (auto split: prod.splits)
  from v2_write_Inr [OF msg] obtain c where c:
      "aead_seal C (client_to_server m) (frame_nonce 0)
        (frame_aad m DIRECTION_CLIENT_TO_SERVER 0 (length payload + TAG_LEN)) payload = Some c"
      "sent k' = sent k1 @ to_be 8 0 @ to_be 4 (length payload + TAG_LEN) @ c" "length payload \<le> MAX_PLAINTEXT_LEN"
    by (auto simp: v2_end_new_def direction_key_def)
  have "length c = length payload + TAG_LEN"
    using c(1) assms(2) by (auto simp: aead_ok_def TAG_LEN_def)
  then show ?thesis
    using c write_all_Inr [OF pre] by (auto simp: frame_bytes_def)
qed

lemma write_initial_open:
  assumes "aead_seal C (client_to_server m) (frame_nonce 0)
      (frame_aad m DIRECTION_CLIENT_TO_SERVER 0 (length c)) payload = Some c"
    and "length c = length payload + TAG_LEN" "length payload \<le> MAX_PLAINTEXT_LEN" "room k = None"
  shows "write_initial C p (v2_client key m) payload k =
    (k\<lparr>sent := sent k @ first_prefix m @ frame_bytes 0 c\<rparr>, Inr ())"
proof -
  let ?w = "v2_end_new m DIRECTION_CLIENT_TO_SERVER 0"
  have "v2_write_msg C payload (?w, k\<lparr>sent := sent k @ first_prefix m\<rparr>) =
    ((?w\<lparr>end_counter := 1\<rparr>, k\<lparr>sent := sent k @ first_prefix m @ frame_bytes 0 c\<rparr>), Inr ())"
    using v2_write_open [of C ?w payload c "k\<lparr>sent := sent k @ first_prefix m\<rparr>"] assms
    by (simp add: v2_end_new_def direction_key_def frame_bytes_def u64_max_def)
  then show ?thesis
    using assms(4) by (simp add: write_initial_def v2_client_def write_all_open)
qed

text \<open>The relay prepares what a client wrote.\<close>

lemma prepare_accepts:
  assumes m: "derive_material C k key salt = Inr m" "length salt = CONNECTION_SALT_LEN"
    and c: "aead_open C (client_to_server m) (frame_nonce 0)
      (frame_aad m DIRECTION_CLIENT_TO_SERVER 0 (length c)) c = Some payload"
      "fits_limit MAX_INITIAL_PLAINTEXT_LEN (length c)"
    and now: "abs_diff (clk st (clk_pos st)) (salt_timestamp salt) \<le> MAX_CONNECTION_CLOCK_SKEW_SECONDS"
    and key: "derive_key C (st\<lparr>clk_pos := Suc (clk_pos st)\<rparr>) k = Inr key"
  shows "prepare_first_flight C st ([PROTOCOL_V2_VERSION, 0] @ to_be 2 0 @ key_id_to_be_bytes k @ salt @
      frame_bytes 0 c @ rest) =
    (st\<lparr>clk_pos := Suc (clk_pos st)\<rparr>,
     Inr \<lparr>ff_key_id = k, ff_salt = salt, ff_key = key, ff_material = m,
          ff_work = Live key payload (v2_session key m)\<rparr>)"
proof -
  define r where "r = [PROTOCOL_V2_VERSION, 0] @ to_be 2 0 @ key_id_to_be_bytes k @ salt"
  note r = prefix_written [OF m(2), of k, folded r_def]
  have hd: "read_exact e FIRST_PREFIX_REMAINDER_LEN (r @ frame_bytes 0 c @ rest) = (frame_bytes 0 c @ rest, Inr r)" for e :: initial_error
    using r(1) by simp
  have frame: "read_v2_frame 0 MAX_INITIAL_PLAINTEXT_LEN (frame_bytes 0 c @ rest) = (rest, Inr (0, c))"
    by (rule read_v2_frame_accepts [OF c(2)]) simp
  have opens: "open_v2_payload C m DIRECTION_CLIENT_TO_SERVER 0 c = Inr payload"
    using c by (simp add: open_v2_payload_def direction_key_def fits_limit_def)
  have "prepare_first_flight C st (r @ frame_bytes 0 c @ rest) =
    (st\<lparr>clk_pos := Suc (clk_pos st)\<rparr>,
     Inr \<lparr>ff_key_id = k, ff_salt = salt, ff_key = key, ff_material = m,
          ff_work = Live key payload (v2_session key m)\<rparr>)"
    unfolding prepare_first_flight_def hd
    using now by (simp add: r r(3) [simplified] unix_seconds_def key m(1) frame classify_first_flight_def opens
        session_without_context_def v2_session_def)
  then show ?thesis
    by (simp add: r_def)
qed

lemma finish_accepts:
  assumes "ff_work ff = Live (ff_key ff) payload es"
    and "authenticate_presented C (ff_key_id ff) (ff_key ff) st = (st1, Inr ctx)"
    and "snd (admit (ff_key_id ff) (flight_fingerprint C ff) (clk st1 (clk_pos st1))
      (g, st1\<lparr>clk_pos := Suc (clk_pos st1)\<rparr>)) = Fresh"
  shows "\<exists>s. finish_first_flight C ff (g, st) = (s, Inr \<lparr>im_payload = payload,
      im_session = (v2_session (ff_key ff) (ff_material ff))\<lparr>ss_context := Some ctx\<rparr>,
      im_fingerprint = Some (flight_fingerprint C ff), im_timestamp = Some (salt_timestamp (ff_salt ff))\<rparr>)"
proof -
  obtain s where "admit (ff_key_id ff) (flight_fingerprint C ff) (clk st1 (clk_pos st1))
      (g, st1\<lparr>clk_pos := Suc (clk_pos st1)\<rparr>) = (s, Fresh)"
    using assms(3) by (metis prod.exhaust snd_conv)
  then have "evaluate_first_flight C (ff_key_id ff) (flight_fingerprint C ff) (ff_work ff) (g, st) = (s, Inr (payload, ctx))"
    using assms(1,2) by (simp add: evaluate_first_flight_def unix_seconds_def)
  then show ?thesis
    by (simp add: finish_first_flight_def)
qed

text \<open>
  C10: A client that holds a credential gets through: the first flight that a v2 session writes is
  read back by the relay with the same payload, provided the credential authenticates, the
  timestamp is within the clock skew, the admission guard finds the flight fresh and the payload has
  at most 64 KiB.  From then on the two sides agree: the relay's reply writer is in step with the
  client's reader, and its continuation reader with the client's continuation writer.
\<close>

theorem first_flight_round_trip:
  assumes "aead_ok C" "derive_material C k key salt = Inr m" "length salt = CONNECTION_SALT_LEN"
    and "write_initial C p (v2_client key m) payload sk = (sk', Inr ())" "length payload \<le> MAX_INITIAL_PLAINTEXT_LEN"
    and "abs_diff (clk st (clk_pos st)) (salt_timestamp salt) \<le> MAX_CONNECTION_CLOCK_SKEW_SECONDS"
    and "derive_key C (st\<lparr>clk_pos := Suc (clk_pos st)\<rparr>) k = Inr key"
    and "authenticate_presented C k key (st\<lparr>clk_pos := Suc (clk_pos st)\<rparr>) = (st1, Inr ctx)"
    and "snd (admit k (replay_fingerprint C k salt) (clk st1 (clk_pos st1))
      (g, st1\<lparr>clk_pos := Suc (clk_pos st1)\<rparr>)) = Fresh"
  shows "\<exists>bs s msg. sent sk' = sent sk @ bs \<and> read_initial C (g, st) (bs @ rest) = (s, Inr msg) \<and>
    im_payload msg = payload \<and> session_context (im_session msg) = Inr ctx \<and>
    server_response_writer (im_session msg) = client_response_reader (v2_client key m) \<and>
    server_continuation_reader (im_session msg) = client_continuation_writer (v2_client key m)"
proof -
  from write_initial_v2 [OF assms(4,1)] obtain c where c:
      "aead_seal C (client_to_server m) (frame_nonce 0)
        (frame_aad m DIRECTION_CLIENT_TO_SERVER 0 (length c)) payload = Some c"
      "length c = length payload + TAG_LEN" "sent sk' = sent sk @ first_prefix m @ frame_bytes 0 c"
    by blast
  let ?bs = "first_prefix m @ frame_bytes 0 c"
  have opens: "aead_open C (client_to_server m) (frame_nonce 0)
      (frame_aad m DIRECTION_CLIENT_TO_SERVER 0 (length c)) c = Some payload"
    using c(1) assms(1) unfolding aead_ok_def by blast
  have fits: "fits_limit MAX_INITIAL_PLAINTEXT_LEN (length c)"
    using c(2) assms(5) by (simp add: fits_limit_def MAX_INITIAL_PLAINTEXT_LEN_def TAG_LEN_def u32_max_def)
  define ff where "ff = \<lparr>ff_key_id = k, ff_salt = salt, ff_key = key, ff_material = m,
      ff_work = Live key payload (v2_session key m)\<rparr>"
  note prep = prepare_accepts [OF assms(2,3) opens fits assms(6,7), of rest, folded ff_def]
  have work: "ff_work ff = Live (ff_key ff) payload (v2_session key m)"
    by (simp add: ff_def)
  have auth: "authenticate_presented C (ff_key_id ff) (ff_key ff) (st\<lparr>clk_pos := Suc (clk_pos st)\<rparr>) = (st1, Inr ctx)"
    using assms(8) by (simp add: ff_def)
  have adm: "snd (admit (ff_key_id ff) (flight_fingerprint C ff) (clk st1 (clk_pos st1))
      (g, st1\<lparr>clk_pos := Suc (clk_pos st1)\<rparr>)) = Fresh"
    using assms(9) by (simp add: ff_def flight_fingerprint_def)
  from finish_accepts [OF work auth adm] obtain s where fin:
      "finish_first_flight C ff (g, st\<lparr>clk_pos := Suc (clk_pos st)\<rparr>) = (s, Inr \<lparr>im_payload = payload,
        im_session = (v2_session key m)\<lparr>ss_context := Some ctx\<rparr>,
        im_fingerprint = Some (flight_fingerprint C ff), im_timestamp = Some (salt_timestamp salt)\<rparr>)"
    by (auto simp: ff_def)
  have magic: "length PROTOCOL_V2_MAGIC = 4"
    by (simp add: PROTOCOL_V2_MAGIC_def ascii_def)
  define msg where "msg = \<lparr>im_payload = payload, im_session = (v2_session key m)\<lparr>ss_context := Some ctx\<rparr>,
      im_fingerprint = Some (flight_fingerprint C ff), im_timestamp = Some (salt_timestamp salt)\<rparr>"
  have "read_initial C (g, st) (?bs @ rest) = (s, Inr msg)"
    using prep fin magic
    by (simp add: read_initial_def read_v2_initial_def first_prefix_fields [OF assms(2)] msg_def)
  moreover have "im_payload msg = payload \<and> session_context (im_session msg) = Inr ctx \<and>
      server_response_writer (im_session msg) = client_response_reader (v2_client key m) \<and>
      server_continuation_reader (im_session msg) = client_continuation_writer (v2_client key m)"
    by (simp add: msg_def session_context_def server_response_writer_def client_response_reader_def
        server_continuation_reader_def client_continuation_writer_def v2_session_def v2_client_def)
  ultimately show ?thesis
    using c(3) by blast
qed

text \<open>
  C9: Nothing but a client's first flight is accepted.  When the relay accepts a v2 connection, the
  bytes it read are exactly those that a client session writes which holds the key the relay
  derives for the key id, with the accepted payload; the credential authenticated at the moment of
  admission, its context is the session's, and the timestamp was within the clock skew.
\<close>

theorem accepted_flight_is_a_clients:
  assumes "aead_ok C" "aead_canonical C"
    and "prepare_first_flight C st input = (st1, Inr ff)"
    and "finish_first_flight C ff (g, st2) = (s, Inr msg)"
  shows "\<exists>bs rest ctx. PROTOCOL_V2_MAGIC @ input = bs @ rest \<and>
      derive_key C st1 (ff_key_id ff) = Inr (ff_key ff) \<and>
      derive_material C (ff_key_id ff) (ff_key ff) (ff_salt ff) = Inr (ff_material ff) \<and>
      write_initial C p (v2_client (ff_key ff) (ff_material ff)) (im_payload msg) \<lparr>sent = [], room = None\<rparr> =
        (\<lparr>sent = bs, room = None\<rparr>, Inr ()) \<and>
      snd (authenticate_presented C (ff_key_id ff) (ff_key ff) st2) = Inr ctx \<and>
      ss_context (im_session msg) = Some ctx \<and>
      abs_diff (clk st (clk_pos st)) (salt_timestamp (ff_salt ff)) \<le> MAX_CONNECTION_CLOCK_SKEW_SECONDS"
proof -
  from prepare_Inr [OF assms(3)] obtain remainder input2 rest c where pre:
      "input = remainder @ input2" "length remainder = FIRST_PREFIX_REMAINDER_LEN"
      "remainder ! 0 = PROTOCOL_V2_VERSION" "remainder ! 1 = 0" "from_be (take 2 (drop 2 remainder)) = 0"
      "ff_key_id ff = prefix_key_id remainder" "ff_salt ff = prefix_salt remainder"
      "abs_diff (clk st (clk_pos st)) (salt_timestamp (ff_salt ff)) \<le> MAX_CONNECTION_CLOCK_SKEW_SECONDS"
      "derive_key C st1 (ff_key_id ff) = Inr (ff_key ff)"
      "derive_material C (ff_key_id ff) (ff_key ff) (ff_salt ff) = Inr (ff_material ff)"
      "read_v2_frame 0 MAX_INITIAL_PLAINTEXT_LEN input2 = (rest, Inr (0, c))"
      "classify_first_flight C st1 (ff_key_id ff) (ff_key ff) (ff_salt ff) (ff_material ff) 0 c = Inr (ff_work ff)"
    by blast
  let ?m = "ff_material ff"
  from read_v2_frameD [OF pre(11)] have frame: "input2 = frame_bytes 0 c @ rest"
      "fits_limit MAX_INITIAL_PLAINTEXT_LEN (length c)"
    by auto
  obtain payload ctx where ev: "evaluate_first_flight C (ff_key_id ff) (flight_fingerprint C ff) (ff_work ff) (g, st2) = (s, Inr (payload, ctx))"
    and msg: "im_payload msg = payload" "ss_context (im_session msg) = Some ctx"
    using assms(4) by (auto simp: finish_first_flight_def and_then_eq_Inr)
  obtain key es where work: "ff_work ff = Live key payload es"
    and auth: "snd (authenticate_presented C (ff_key_id ff) key st2) = Inr ctx"
    using ev by (auto simp: evaluate_first_flight_def split: first_flight_work.splits prod.splits sum.splits
        first_flight_admit.splits option.splits)
  have opens: "open_v2_payload C ?m DIRECTION_CLIENT_TO_SERVER 0 c = Inr payload" and key: "key = ff_key ff"
    using pre(12) work by (auto simp: classify_first_flight_def split: sum.splits option.splits)
  then have "aead_open C (client_to_server ?m) (frame_nonce 0)
      (frame_aad ?m DIRECTION_CLIENT_TO_SERVER 0 (length c)) c = Some payload"
    by (auto simp: open_v2_payload_def direction_key_def split: if_splits option.splits)
  then have seal: "aead_seal C (client_to_server ?m) (frame_nonce 0)
      (frame_aad ?m DIRECTION_CLIENT_TO_SERVER 0 (length c)) payload = Some c"
    using assms(2) unfolding aead_canonical_def by blast
  then have len: "length c = length payload + TAG_LEN"
    using assms(1) by (auto simp: aead_ok_def TAG_LEN_def)
  have small: "length payload \<le> MAX_PLAINTEXT_LEN"
    using frame(2) len
    by (simp add: fits_limit_def MAX_INITIAL_PLAINTEXT_LEN_def MAX_PLAINTEXT_LEN_def)
  have bytes: "PROTOCOL_V2_MAGIC @ input = (first_prefix ?m @ frame_bytes 0 c) @ rest"
    using prefix_fields [OF pre(2-5)] pre(1,6,7) frame(1) first_prefix_fields [OF pre(10)] by simp
  have "write_initial C p (v2_client (ff_key ff) ?m) payload \<lparr>sent = [], room = None\<rparr> =
      (\<lparr>sent = first_prefix ?m @ frame_bytes 0 c, room = None\<rparr>, Inr ())"
    using write_initial_open [OF seal len small, of "\<lparr>sent = [], room = None\<rparr>"] by simp
  then show ?thesis
    using bytes pre(8-10) auth key msg by blast
qed

section \<open>Instances\<close>

text \<open>The administrator's first flight at second 50, as the toy cipher seals it.\<close>

definition toy_salt :: bytes where "toy_salt = to_be 8 50 @ replicate 8 0"

definition toy_material :: v2_material where
  "toy_material = \<lparr>mat_key_id = ADMIN_KEY_ID, mat_flags = 0, mat_salt = toy_salt,
     client_to_server = ascii ''pb-mapper-v2-c2s'' @ toy_salt,
     server_to_client = ascii ''pb-mapper-v2-s2c'' @ toy_salt\<rparr>"

definition toy_frame :: bytes where "toy_frame = [7] @ ascii ''pb-mapper-v2-c2s''"

definition toy_flight :: first_flight where
  "toy_flight = \<lparr>ff_key_id = ADMIN_KEY_ID, ff_salt = toy_salt, ff_key = toy_key,
     ff_material = toy_material, ff_work = Live toy_key [7] (v2_session toy_key toy_material)\<rparr>"

definition toy_now :: auth where "toy_now = toy_state\<lparr>clk_pos := 1\<rparr>"

definition toy_input :: bytes where
  "toy_input = [PROTOCOL_V2_VERSION, 0] @ to_be 2 0 @ key_id_to_be_bytes ADMIN_KEY_ID @ toy_salt @
     frame_bytes 0 toy_frame"

lemma toy_material: "derive_material toy_env ADMIN_KEY_ID toy_key toy_salt = Inr toy_material"
  by (simp add: derive_material_def expand_direction_def toy_env_def toy_material_def ascii_def
      toy_salt_def toy_key_def)

lemma toy_salt: "length toy_salt = CONNECTION_SALT_LEN" "salt_timestamp toy_salt = 50"
  by (simp_all add: toy_salt_def CONNECTION_SALT_LEN_def salt_timestamp_def)

lemma toy_seal:
  "aead_seal toy_env (client_to_server toy_material) n a [7] = Some toy_frame"
  "aead_open toy_env (client_to_server toy_material) n a toy_frame = Some [7]"
  by (simp_all add: toy_env_def toy_material_def toy_frame_def tag16_def ascii_def)

lemma toy_frame_length: "length toy_frame = 17"
  by (simp add: toy_frame_def ascii_def)

lemma toy_key_derives: "derive_key toy_env toy_now ADMIN_KEY_ID = Inr toy_key"
  by (simp add: derive_key_def toy_now_def key_id_is_admin_def) (simp add: toy_state_def)

lemma toy_prepares: "prepare_first_flight toy_env toy_state toy_input = (toy_now, Inr toy_flight)"
proof -
  have "clk toy_state (clk_pos toy_state) = 50" "clk_pos toy_state = 0"
    by (simp_all add: toy_state_def)
  then have "toy_state\<lparr>clk_pos := Suc (clk_pos toy_state)\<rparr> = toy_now"
    and "abs_diff (clk toy_state (clk_pos toy_state)) (salt_timestamp toy_salt) \<le> MAX_CONNECTION_CLOCK_SKEW_SECONDS"
    by (simp_all add: toy_now_def toy_salt abs_diff_def)
  then show ?thesis
    using prepare_accepts [OF toy_material toy_salt(1) toy_seal(2), of toy_state "[]"] toy_key_derives
    by (simp add: toy_input_def toy_flight_def fits_limit_def toy_frame_length TAG_LEN_def
        MAX_INITIAL_PLAINTEXT_LEN_def u32_max_def)
qed

lemma toy_prepared: "prepared toy_env toy_flight toy_now"
  unfolding prepared_def using toy_prepares by blast

definition toy_context :: auth_context where
  "toy_context = context_from_lease ADMIN_KEY_ID True 0"

definition toy_after :: auth where
  "toy_after = toy_now\<lparr>auth_successes := 1\<rparr>"

lemma toy_authenticates: "authenticate_presented toy_env ADMIN_KEY_ID toy_key toy_now = (toy_after, Inr toy_context)"
  by (simp add: authenticate_presented_def toy_now_def key_id_is_admin_def toy_after_def toy_context_def
      lease_alive_def count_success_def) (simp add: toy_state_def)

lemma empty_filter: "\<not> bloom_contains [0] fp"
proof -
  have "bloom_positions 1 fp \<noteq> []"
    by (simp add: bloom_positions_def)
  moreover have "\<not> bit_at [0] q" if "q \<in> set (bloom_positions (Suc 0) fp)" for q
    using position_in_range [OF that] by (simp add: bit_at_def)
  ultimately show ?thesis
    by (cases "bloom_positions (Suc 0) fp") (auto simp: bloom_contains_bits)
qed

lemma toy_admits: "snd (admit k fp 50 (toy_guard, toy_after\<lparr>clk_pos := n\<rparr>)) = Fresh"
proof (rule admit_fresh)
  show "io_fine (toy_after\<lparr>clk_pos := n\<rparr>)"
    by (simp add: toy_after_def toy_now_def toy_state_def io_fine_def)
qed (simp_all add: toy_guard_def bloom_rotate_def rotate_window_def bloom_new_def bloom_empty_def
    bloom.seen_def empty_filter rotate_counts_def count_of_def reset_total_if_rotated_def)

definition toy_message :: initial_message where
  "toy_message = \<lparr>im_payload = [7], im_session = (v2_session toy_key toy_material)\<lparr>ss_context := Some toy_context\<rparr>,
     im_fingerprint = Some (flight_fingerprint toy_env toy_flight), im_timestamp = Some 50\<rparr>"

lemma toy_after_clock: "clk toy_after = (\<lambda>_. 50)" "clk_pos toy_after = 1" "clk toy_now = (\<lambda>_. 50)"
  by (simp_all add: toy_after_def toy_now_def toy_state_def)

lemma toy_finishes:
  obtains s where "finish_first_flight toy_env toy_flight (toy_guard, toy_now) = (s, Inr toy_message)"
proof -
  have "\<exists>s. finish_first_flight toy_env toy_flight (toy_guard, toy_now) = (s, Inr \<lparr>im_payload = [7],
      im_session = (v2_session (ff_key toy_flight) (ff_material toy_flight))\<lparr>ss_context := Some toy_context\<rparr>,
      im_fingerprint = Some (flight_fingerprint toy_env toy_flight),
      im_timestamp = Some (salt_timestamp (ff_salt toy_flight))\<rparr>)"
    by (rule finish_accepts [where ?st1.0 = toy_after])
      (simp_all add: toy_flight_def toy_authenticates toy_after_clock toy_admits)
  then show thesis
    using that by (auto simp: toy_message_def toy_flight_def toy_salt)
qed

lemma toy_offered: "offered toy_env (Inr toy_message) = Some (flight_fingerprint toy_env toy_flight)"
  by (simp add: offered_def toy_message_def session_print_def v2_session_def flight_fingerprint_def
      toy_flight_def toy_material_def)

theorem first_flight_answered_once_witness:
  "\<exists>g1 st1. finish_first_flight toy_env toy_flight (toy_guard, toy_now) = ((g1, st1), Inr toy_message) \<and>
     offered toy_env (snd (finish_first_flight toy_env toy_flight (g1, st1))) \<noteq>
       Some (flight_fingerprint toy_env toy_flight)"
proof -
  obtain g1 st1 where fin: "finish_first_flight toy_env toy_flight (toy_guard, toy_now) = ((g1, st1), Inr toy_message)"
    using toy_finishes by (metis prod.exhaust)
  have clock: "mono (clk toy_now)"
    by (simp add: toy_after_clock mono_def)
  have l: "later toy_now st1"
    using finish_later [OF fin toy_prepared clock] by simp
  then have again: "prepared toy_env toy_flight st1"
    using toy_prepared unfolding prepared_def later_def by (metis order_trans)
  obtain g3 st3 r' where fin2: "finish_first_flight toy_env toy_flight (g1, st1) = ((g3, st3), r')"
    by (metis prod.exhaust)
  have "offered toy_env r' \<noteq> Some (flight_fingerprint toy_env toy_flight)"
    by (rule first_flight_answered_once [OF toy_guard_ok _ clock toy_prepared fin toy_offered run_done again fin2])
      (simp_all add: toy_guard_def toy_flight_def toy_salt toy_after_clock
        DEFAULT_REPLAY_WINDOW_SECONDS_def MAX_CONNECTION_CLOCK_SKEW_SECONDS_def sat_mul_def u64_max_def)
  then show ?thesis
    using fin fin2 by auto
qed

theorem accepted_flight_is_a_clients_witness:
  "\<exists>bs rest. PROTOCOL_V2_MAGIC @ toy_input = bs @ rest \<and>
     write_initial toy_env (proc toy_state) (v2_client toy_key toy_material) [7] \<lparr>sent = [], room = None\<rparr> =
       (\<lparr>sent = bs, room = None\<rparr>, Inr ())"
proof -
  obtain s where fin: "finish_first_flight toy_env toy_flight (toy_guard, toy_now) = (s, Inr toy_message)"
    using toy_finishes .
  show ?thesis
    using accepted_flight_is_a_clients [OF toy_ok(1) toy_cipher(2) toy_prepares fin, of "proc toy_state"]
    by (auto simp: toy_flight_def toy_message_def)
qed

lemma toy_write_initial:
  "write_initial toy_env p (v2_client toy_key toy_material) [7] \<lparr>sent = [], room = None\<rparr> =
    (\<lparr>sent = first_prefix toy_material @ frame_bytes 0 toy_frame, room = None\<rparr>, Inr ())"
  by (subst write_initial_open [OF toy_seal(1)])
     (simp_all add: toy_frame_length TAG_LEN_def MAX_PLAINTEXT_LEN_def)

theorem first_flight_round_trip_witness:
  "\<exists>bs s msg. read_initial toy_env (toy_guard, toy_state) bs = (s, Inr msg) \<and> im_payload msg = [7]"
proof -
  have now: "toy_state\<lparr>clk_pos := Suc (clk_pos toy_state)\<rparr> = toy_now"
    by (simp add: toy_now_def toy_state_def)
  have "\<exists>bs s msg. sent \<lparr>sent = first_prefix toy_material @ frame_bytes 0 toy_frame, room = None\<rparr> =
      sent \<lparr>sent = [], room = None\<rparr> @ bs \<and> read_initial toy_env (toy_guard, toy_state) (bs @ []) = (s, Inr msg) \<and>
      im_payload msg = [7] \<and> session_context (im_session msg) = Inr toy_context \<and>
      server_response_writer (im_session msg) = client_response_reader (v2_client toy_key toy_material) \<and>
      server_continuation_reader (im_session msg) = client_continuation_writer (v2_client toy_key toy_material)"
    by (rule first_flight_round_trip [OF toy_ok(1) toy_material toy_salt(1) toy_write_initial, where ?st1.0 = toy_after])
      (simp_all add: now toy_key_derives toy_authenticates toy_after_clock toy_admits toy_salt abs_diff_def
        MAX_INITIAL_PLAINTEXT_LEN_def MAX_CONNECTION_CLOCK_SKEW_SECONDS_def, simp add: toy_state_def)
  then show ?thesis
    by auto
qed

end
