(* ===== verification/ConnectionProps.thy ===== *)
theory ConnectionProps
  imports Connection SecureProps
begin

text \<open>
  What the dispatch promises: service keys keep namespaces apart, a temporary credential reaches its
  own namespace only, and administration needs an administrator.
\<close>

section \<open>Hexadecimal\<close>

lemma unat_hex_digit:
  assumes "d < 16"
  shows "unat (hex_digit d) = (if d < 10 then 48 + d else 87 + d)"
proof -
  have exact: "unat (word_of_nat n :: u8) = n" if "n < 256" for n
    using that by (simp add: unat_of_nat)
  show ?thesis
    using assms exact [of "48 + d"] exact [of "87 + d"] by (auto simp: hex_digit_def simp del: of_nat_add)
qed

lemma hex_value_digit: "d < 16 \<Longrightarrow> hex_value (hex_digit d) = Some d"
  by (auto simp: hex_value_def word_le_nat_alt unat_hex_digit)

lemma hex_digit_range: "d < 16 \<Longrightarrow> hex_digit d \<noteq> 43 \<and> hex_digit d \<noteq> 0"
  by (auto simp: word_unat_eq_iff unat_hex_digit)

lemma length_hex_pad [simp]: "length (hex_pad k n) = k"
  by (induction k arbitrary: n) auto

lemma hex_pad_range: "b \<in> set (hex_pad k n) \<Longrightarrow> b \<noteq> 43 \<and> b \<noteq> 0"
  by (induction k arbitrary: n) (auto simp: hex_digit_range)

lemma hex_digits_append:
  "hex_digits acc (xs @ ys) = (case hex_digits acc xs of None \<Rightarrow> None | Some a \<Rightarrow> hex_digits a ys)"
  by (induction xs arbitrary: acc) (auto split: option.split)

lemma hex_digits_pad: "n < 16 ^ k \<Longrightarrow> hex_digits acc (hex_pad k n) = Some (acc * 16 ^ k + n)"
proof (induction k arbitrary: n acc)
  case (Suc k)
  have "n div 16 < 16 ^ k"
    using Suc.prems by (simp add: less_mult_imp_div_less mult.commute)
  then have "hex_digits acc (hex_pad k (n div 16)) = Some (acc * 16 ^ k + n div 16)"
    by (rule Suc.IH)
  then show ?case
    by (simp add: hex_digits_append hex_value_digit algebra_simps)
qed simp

lemma u64_from_hex_pad:
  assumes "n \<le> u64_max"
  shows "u64_from_hex (hex_pad 16 n) = Some n"
proof -
  obtain b c rest where p: "hex_pad 16 n = b # c # rest"
    using length_hex_pad [of 16 n] by (cases "hex_pad 16 n"; cases "tl (hex_pad 16 n)") auto
  have "b \<noteq> 43"
    using hex_pad_range [of b 16 n] p by simp
  moreover have "hex_digits 0 (b # c # rest) = Some n"
    using hex_digits_pad [of n 16 0] assms p by (simp add: u64_max_def del: hex_digits.simps)
  ultimately show ?thesis
    using assms by (simp add: u64_from_hex_def p del: hex_digits.simps)
qed

section \<open>Service keys\<close>

lemma split_once_at: "0 \<notin> set xs \<Longrightarrow> split_once_nul (xs @ 0 # ys) = Some (xs, ys)"
proof -
  assume "0 \<notin> set xs"
  then have all: "\<forall>b\<in>set xs. b \<noteq> 0"
    by metis
  have "dropWhile (\<lambda>b. b \<noteq> 0) (xs @ 0 # ys) = 0 # ys" "takeWhile (\<lambda>b. b \<noteq> 0) (xs @ 0 # ys) = xs"
    using all by (simp_all add: dropWhile_append2 takeWhile_append2)
  then show ?thesis
    by (simp add: split_once_nul_def)
qed

lemma split_once_none:
  assumes "0 \<notin> set xs"
  shows "split_once_nul xs = None"
proof -
  have "dropWhile (\<lambda>b. b \<noteq> 0) xs = []"
    unfolding dropWhile_eq_Nil_conv using assms by metis
  then show ?thesis
    unfolding split_once_nul_def by (simp only: list.case)
qed

lemma split_scope_key:
  assumes "namespace \<le> u64_max" "0 \<notin> set name"
  shows "split_scoped_service_key (scope_key namespace name) = (namespace, name)"
proof (cases "namespace = 0")
  case True
  then show ?thesis
    using assms by (simp add: split_scoped_service_key_def scope_key_def split_once_none)
next
  case False
  have "0 \<notin> set ([64] @ hex_pad 16 namespace)"
    using hex_pad_range [of 0 16 namespace] by auto
  from split_once_at [OF this, of name] False show ?thesis
    by (simp add: split_scoped_service_key_def scope_key_def u64_from_hex_pad assms(1))
qed

text \<open>
  The key under which a service is registered determines its namespace and its name: what the
  dispatch builds, the manager's quota and status code takes apart again.  Services of different
  namespaces therefore never share a key, whatever their names.
\<close>

theorem service_key_round_trip:
  assumes "namespace \<le> u64_max" "scoped_service_key ctx namespace name = Inr key"
  shows "split_scoped_service_key key = (namespace, name)"
  using assms split_scope_key [of namespace name] by (auto simp: scoped_service_key_def split: if_splits)

lemma tenant_key: "split_scoped_service_key (scope_key 0x100000000 [97]) = (0x100000000, [97])"
  by (rule split_scope_key) (simp_all add: u64_max_def)

theorem service_key_round_trip_witness:
  "\<exists>key. scoped_service_key (context_from_lease 0x100000000 False 1) 0x100000000 [97] = Inr key \<and>
     split_scoped_service_key key = (0x100000000, [97])"
proof -
  have key: "scoped_service_key (context_from_lease 0x100000000 False 1) 0x100000000 [97] =
      Inr (scope_key 0x100000000 [97])"
    by (simp add: scoped_service_key_def context_from_lease_def is_service_byte_def)
  from service_key_round_trip [OF _ key] show ?thesis
    using key by (simp add: u64_max_def)
qed

section \<open>Tenants\<close>

text \<open>Where a request of the temporary credential of a namespace may end up.\<close>

fun confined :: "nat \<Rightarrow> route \<Rightarrow> bool" where
  "confined namespace (Reject f) = True"
| "confined namespace (ToRegister key need_codec is_datagram version) = (fst (split_scoped_service_key key) = namespace)"
| "confined namespace (ToSubscribe key) = (fst (split_scoped_service_key key) = namespace)"
| "confined namespace (ToStream key dst gen) = (fst (split_scoped_service_key key) = namespace)"
| "confined namespace (ToStatus status n) = (n = namespace)"
| "confined namespace (ToAdmin r) = False"
| "confined namespace Aborted = False"

lemma confined_scope:
  assumes "namespace \<le> u64_max" "confined namespace (Reject undefined)"
    and "\<And>key. fst (split_scoped_service_key key) = namespace \<Longrightarrow> confined namespace (snd (f key))"
  shows "confined namespace (snd (scope_service_or_reject ctx namespace name f st))"
proof (cases "scoped_service_key ctx namespace name")
  case (Inr key)
  then have "split_scoped_service_key key = (namespace, name)"
    using split_scope_key [OF assms(1), of name] by (auto simp: scoped_service_key_def split: if_splits)
  then show ?thesis
    using assms(3) [of key] by (simp add: scope_service_or_reject_def Inr)
qed (simp add: scope_service_or_reject_def)

lemma confined_active:
  "confined namespace r \<Longrightarrow> confined namespace (snd (run_while_credential_active ctx r st))"
  by (auto simp: run_while_credential_active_def split: prod.split sum.split)

lemma normalized:
  "normalize_request asked = (req, n, force) \<Longrightarrow>
   (\<exists>nc dg key v info. req = RegisterReq nc dg key v info) \<or> (\<exists>key. req = SubscribeReq key) \<or>
   (\<exists>s. req = StatusReq s) \<or> (\<exists>key d g. req = StreamReq key d g) \<or> (\<exists>a. req = AdminReq a)"
  by (cases asked) auto

lemma tenant_confined:
  "confined (unat k) (snd (route_request C cfg (context_from_lease k False l) protocol fp ts asked st))"
proof -
  let ?c = "context_from_lease k False l"
  have ns: "ctx_namespace ?c = unat k" "\<not> ctx_is_admin ?c"
    by (simp_all add: context_from_lease_def)
  have max: "unat k \<le> u64_max"
    using unsigned_less [of k, where ?'a = nat] by (simp add: u64_max_def)
  obtain req n force where norm: "normalize_request asked = (req, n, force)"
    by (cases "normalize_request asked") auto
  show ?thesis
  proof (cases "resolve_namespace ?c n force (is_register_req req)")
    case (Inl e)
    then show ?thesis
      by (simp add: route_request_def norm)
  next
    case (Inr namespace)
    then have here: "namespace = unat k"
      using ns by (auto simp: resolve_namespace_def Let_def split: if_splits)
    show ?thesis
      using normalized [OF norm] here Inr max ns
      by (auto simp: route_request_def norm route_admin_def
          intro!: confined_scope confined_active split: option.split)
  qed
qed

text \<open>
  C12: A connection with the temporary credential of key id \<open>k\<close> is confined to the namespace of
  that key: whatever it asks, in a scoped form or not, the dispatch either rejects it or sends it on
  with a service key of namespace \<open>k\<close> (or, for a status query, with that namespace); it never
  reaches the administration and never aborts the handler.
\<close>

theorem tenant_stays_in_its_namespace:
  "confined (unat k) (snd (route_request C cfg (context_from_lease k False l) protocol fp ts asked st))"
  by (rule tenant_confined)

end
