(* ===== verification/RateLimit.thy ===== *)
theory RateLimit
  imports Prelude Complex_Main
begin

text \<open>
  The token bucket that limits the new streams of a namespace
  (\<^verbatim>\<open>NamespaceRateLimit\<close> in \<^verbatim>\<open>pb-mapper-server/src/lib.rs\<close>).  The \<^verbatim>\<open>f64\<close>
  arithmetic of the processor is a parameter of the model; instants and durations are nanoseconds.
\<close>

record 'f float_ops =
  f_of_nat :: "nat \<Rightarrow> 'f"
  f_secs :: "nat \<Rightarrow> 'f"
  f_add :: "'f \<Rightarrow> 'f \<Rightarrow> 'f"
  f_sub :: "'f \<Rightarrow> 'f \<Rightarrow> 'f"
  f_mul :: "'f \<Rightarrow> 'f \<Rightarrow> 'f"
  f_min :: "'f \<Rightarrow> 'f \<Rightarrow> 'f"
  f_less :: "'f \<Rightarrow> 'f \<Rightarrow> bool"

record 'f rate_limit =
  tokens :: 'f
  last_refill :: nat
  rate_per_second :: 'f
  burst :: 'f

definition rate_limit_new :: "'f float_ops \<Rightarrow> nat \<Rightarrow> nat \<Rightarrow> nat \<Rightarrow> 'f rate_limit" where
  "rate_limit_new F rate burst_size now =
     \<lparr>tokens = f_of_nat F burst_size, last_refill = now, rate_per_second = f_of_nat F rate,
      burst = f_of_nat F burst_size\<rparr>"

definition allow :: "'f float_ops \<Rightarrow> nat \<Rightarrow> 'f rate_limit \<Rightarrow> 'f rate_limit \<times> bool" where
  "allow F now l =
     (let refilled = f_min F (f_add F (tokens l)
                        (f_mul F (f_secs F (now - last_refill l)) (rate_per_second l))) (burst l);
          l = l\<lparr>tokens := refilled, last_refill := now\<rparr>
      in if f_less F refilled (f_of_nat F 1) then (l, False)
         else (l\<lparr>tokens := f_sub F refilled (f_of_nat F 1)\<rparr>, True))"

section \<open>The bucket in exact arithmetic\<close>

definition exact_ops :: "rat float_ops" where
  "exact_ops = \<lparr>f_of_nat = of_nat, f_secs = (\<lambda>ns. of_nat ns / 1000000000), f_add = (+), f_sub = (-),
     f_mul = (*), f_min = min, f_less = (<)\<rparr>"

fun allowed :: "'f float_ops \<Rightarrow> nat list \<Rightarrow> 'f rate_limit \<Rightarrow> nat" where
  "allowed F [] l = 0"
| "allowed F (now # later) l =
     (let (l, ok) = allow F now l in (if ok then 1 else 0) + allowed F later l)"

definition refill :: "rat rate_limit \<Rightarrow> nat \<Rightarrow> rat" where
  "refill l now = rate_per_second l * (of_nat (now - last_refill l) / 1000000000)"

lemma allow_spends:
  assumes "allow exact_ops now l = (l', ok)" "0 \<le> tokens l" "0 \<le> rate_per_second l" "tokens l \<le> burst l"
  shows "0 \<le> tokens l' \<and> tokens l' \<le> burst l' \<and> burst l' = burst l \<and> rate_per_second l' = rate_per_second l \<and>
    last_refill l' = now \<and> tokens l' + (if ok then 1 else 0) \<le> tokens l + refill l now"
proof -
  let ?t = "min (tokens l + refill l now) (burst l)"
  have refill: "0 \<le> refill l now"
    using assms(3) by (simp add: refill_def)
  have "l' = (if ?t < 1 then l\<lparr>tokens := ?t, last_refill := now\<rparr> else l\<lparr>tokens := ?t - 1, last_refill := now\<rparr>)"
      "ok = (\<not> ?t < 1)"
    using assms(1) by (auto simp: allow_def exact_ops_def refill_def Let_def mult.commute split: if_splits)
  then show ?thesis
    using refill assms(2,4) by auto
qed

text \<open>
  However requests arrive, the bucket lets through at most its burst plus the rate times the seconds
  from its last refill to the last request.
\<close>

lemma allowed_bound:
  assumes "sorted (last_refill l # calls)" "0 \<le> tokens l" "0 \<le> rate_per_second l" "tokens l \<le> burst l"
  shows "of_nat (allowed exact_ops calls l) \<le> tokens l + refill l (last (last_refill l # calls))"
  using assms
proof (induction calls arbitrary: l)
  case (Cons now later)
  obtain l' ok where a: "allow exact_ops now l = (l', ok)"
    by (cases "allow exact_ops now l")
  note s = allow_spends [OF a Cons.prems(2-4)]
  have "of_nat (allowed exact_ops later l') \<le> tokens l' + refill l' (last (now # later))"
    using Cons.IH [of l'] s Cons.prems by simp
  moreover have "refill l now + refill l' (last (now # later)) = refill l (last (now # later))"
  proof -
    have "last_refill l \<le> now" "now \<le> last (now # later)"
      using Cons.prems(1) by auto
    then show ?thesis
      using s by (simp add: refill_def of_nat_diff field_simps)
  qed
  ultimately have "(if ok then 1 else 0) + of_nat (allowed exact_ops later l') \<le>
      tokens l + refill l (last (now # later))"
    using s by linarith
  moreover have "of_nat (allowed exact_ops (now # later) l) =
      (if ok then 1 else 0) + (of_nat (allowed exact_ops later l') :: rat)"
    by (simp add: a)
  ultimately show ?case
    by simp
qed (simp add: refill_def)

end
