(* ===== verification/Registry.thy ===== *)
theory Registry
  imports RateLimit Connection AuthConfig "HOL-Library.AList" "HOL-Library.Product_Lexorder"
    "HOL-Library.List_Lexorder"
begin

text \<open>
  The relay's connection manager: the single task that owns connection ids, registrations, pending
  streams, stream counts and rate limits (\<^verbatim>\<open>pb-mapper-server/src/manager.rs\<close>, the state and
  helpers of \<^verbatim>\<open>lib.rs\<close> and the loop of \<^verbatim>\<open>runtime.rs\<close>).  A connection's task
  channel is a handle.  Whether a send on it succeeds is decided by an oracle, one outcome per
  attempt, and so are the instants the manager reads.  Hash maps are association lists: the order of
  their iteration is the order of insertion.  What the loop sends, spawns and answers is appended to
  a log of effects.
\<close>

section \<open>Connection ids and tasks\<close>

type_synonym conn_id = "32 word"
type_synonym chan = nat
type_synonym socket = nat

text \<open>\<^verbatim>\<open>ForwardMessage\<close>; no sender of it is left in the program.\<close>

record forward_message =
  fm_from :: "conn_id \<times> conn_id"
  fm_to :: "conn_id \<times> conn_id"
  fm_msg :: bytes

record service_conn_status =
  scs_conn_id :: nat
  scs_generation :: nat
  scs_protocol_version :: nat
  scs_healthy :: bool
  scs_last_rx_age_ms :: nat

datatype server_health = Healthy | Suspect

record server_conn =
  sc_conn_id :: conn_id
  sc_generation :: nat
  sc_health :: server_health
  sc_need_codec :: bool
  sc_is_datagram :: bool
  sc_protocol_version :: nat
  sc_last_rx_at :: nat

text \<open>
  The remote-id answer prints the registrations, their connection ids and the pending clients of the
  namespace; the model keeps the values that are printed.
\<close>

datatype status_resp =
    RemoteIdResp "(bytes \<times> server_conn list) list" "conn_id list" "conn_id list"
  | KeysResp "bytes list"
  | ServiceResp bytes "service_conn_status list"

datatype conn_task =
    Forward forward_message
  | RegisterResp nat nat nat
  | RegisterFailed string bool
  | SubscribeResp conn_id nat bool bool
  | SubscribeFailed string bool
  | SubscribeRetry
  | TaskStreamReq conn_id nat
  | RetireTask bytes
  | TaskStreamAck conn_id nat
  | TaskStreamResp conn_id nat socket server_session
  | TaskStatusResp status_resp

datatype manager_task =
    Accept socket
  | Register bytes conn_id bool bool nat chan
  | ServerConnActivity bytes conn_id
  | Subscribe bytes conn_id chan "(conn_id \<times> nat) list"
  | Stream bytes socket server_session conn_id conn_id nat
  | StreamAck conn_id conn_id nat
  | StatusTask chan status_req nat conn_id
  | StatusQuery nat
  | AdminServiceList "nat option" nat nat nat
  | AdminConnectionList "nat option" nat nat nat
  | DeRegisterServerConn bytes conn_id
  | RetireServerConn bytes conn_id bytes
  | DeRegisterClientConn "conn_id option" conn_id
  | ShutdownTask

section \<open>Administrator inventories\<close>

record service_info =
  as_namespace :: nat
  as_service_name :: bytes
  as_transport :: string
  as_codec_enabled :: bool
  as_connection_count :: nat

record connection_info =
  ac_namespace :: nat
  ac_service_name :: bytes
  ac_conn_id :: nat
  ac_generation :: nat
  ac_protocol_version :: nat
  ac_healthy :: bool
  ac_transport :: string
  ac_codec_enabled :: bool
  ac_last_rx_age_ms :: nat

text \<open>The key id of an inventory row always equals its namespace.\<close>

record 'i page =
  pg_items :: "'i list"
  pg_next :: "nat option"

record server_status =
  ss_active_connections :: nat
  ss_registered_services :: nat
  ss_uptime_seconds :: nat

datatype effect =
    Sent chan conn_task
  | SpawnConn conn_id socket
  | AnswerStatus nat server_status
  | AnswerServices nat "service_info page"
  | AnswerConnections nat "connection_info page"

section \<open>State\<close>

record relay_limits =
  max_services_per_namespace :: nat
  max_register_connections_per_service :: nat
  max_streams_per_namespace :: nat
  new_streams_per_second :: nat
  new_streams_burst :: nat
  lease_ttl_ms :: nat

text \<open>\<^verbatim>\<open>usize\<close> has 64 bits.\<close>

definition env_limit :: "environment \<Rightarrow> string \<Rightarrow> nat \<Rightarrow> nat" where
  "env_limit env name fallback =
     (case env name of
        Some (Some raw) \<Rightarrow>
          (case parse_unsigned u64_max raw of
             Some value \<Rightarrow> if 0 < value then value else fallback
           | None \<Rightarrow> fallback)
      | _ \<Rightarrow> fallback)"

definition limits_from_env :: "environment \<Rightarrow> nat \<Rightarrow> relay_limits" where
  "limits_from_env env lease =
     \<lparr>max_services_per_namespace = env_limit env ''PB_MAPPER_MAX_SERVICES_PER_NAMESPACE'' 256,
      max_register_connections_per_service =
        env_limit env ''PB_MAPPER_MAX_REGISTER_CONNECTIONS_PER_SERVICE'' 16,
      max_streams_per_namespace = env_limit env ''PB_MAPPER_MAX_STREAMS_PER_NAMESPACE'' 1024,
      new_streams_per_second = env_limit env ''PB_MAPPER_NEW_STREAMS_PER_SECOND'' 100,
      new_streams_burst = env_limit env ''PB_MAPPER_NEW_STREAMS_BURST'' 200,
      lease_ttl_ms = lease\<rparr>"

type_synonym service_map = "(bytes \<times> server_conn list) list"
type_synonym pending_map = "(conn_id \<times> conn_id \<times> nat \<times> bytes) list"

record 'f registry =
  next_id :: conn_id
  idle_ids :: "conn_id list"
  active_conns :: "conn_id \<Rightarrow> chan option"
  services :: service_map
  pending :: pending_map
  stream_counts :: "nat \<Rightarrow> nat option"
  rate_limits :: "nat \<Rightarrow> 'f rate_limit option"
  next_generation :: nat
  started_at :: nat
  effects :: "effect list"
  outcomes :: "nat \<Rightarrow> bool"
  outcome_pos :: nat
  instants :: "nat \<Rightarrow> nat"
  instant_pos :: nat

definition registry_new :: "(nat \<Rightarrow> bool) \<Rightarrow> (nat \<Rightarrow> nat) \<Rightarrow> 'f registry" where
  "registry_new outcome clock =
     \<lparr>next_id = 0, idle_ids = [], active_conns = (\<lambda>_. None), services = [], pending = [],
      stream_counts = (\<lambda>_. None), rate_limits = (\<lambda>_. None), next_generation = 1,
      started_at = clock 0, effects = [], outcomes = outcome, outcome_pos = 0, instants = clock,
      instant_pos = 1\<rparr>"

definition instant_now :: "'f registry \<Rightarrow> 'f registry \<times> nat" where
  "instant_now s = (s\<lparr>instant_pos := Suc (instant_pos s)\<rparr>, instants s (instant_pos s))"

definition send_task :: "chan \<Rightarrow> conn_task \<Rightarrow> 'f registry \<Rightarrow> 'f registry \<times> bool" where
  "send_task ch t s =
     (let ok = outcomes s (outcome_pos s); s = s\<lparr>outcome_pos := Suc (outcome_pos s)\<rparr>
      in (if ok then s\<lparr>effects := effects s @ [Sent ch t]\<rparr> else s, ok))"

definition emit :: "effect \<Rightarrow> 'f registry \<Rightarrow> 'f registry" where
  "emit e s = s\<lparr>effects := effects s @ [e]\<rparr>"

section \<open>The id table\<close>

text \<open>The counter wraps as \<^verbatim>\<open>u32\<close> does in a release build.\<close>

definition get_next_id :: "'f registry \<Rightarrow> 'f registry \<times> conn_id" where
  "get_next_id s = (s\<lparr>next_id := next_id s + 1\<rparr>, next_id s)"

definition is_valid_id :: "conn_id \<Rightarrow> 'f registry \<Rightarrow> bool" where
  "is_valid_id i s \<longleftrightarrow> i < next_id s"

definition deregister_conn :: "conn_id \<Rightarrow> 'f registry \<Rightarrow> 'f registry \<times> bool" where
  "deregister_conn i s =
     (if active_conns s i = None then (s, False)
      else (s\<lparr>active_conns := (active_conns s)(i := None),
              idle_ids := (if i \<in> set (idle_ids s) then idle_ids s else idle_ids s @ [i])\<rparr>, True))"

text \<open>The idle list is popped from its end; here it is traversed in that order.\<close>

fun pop_idle :: "conn_id list \<Rightarrow> conn_id list \<Rightarrow> 'f registry \<Rightarrow> conn_id list \<times> conn_id option" where
  "pop_idle registered [] s = ([], None)"
| "pop_idle registered (i # rest) s =
     (if is_valid_id i s \<and> active_conns s i = None \<and> i \<notin> set registered then (rest, Some i)
      else pop_idle registered rest s)"

definition get_conn_id :: "conn_id list \<Rightarrow> 'f registry \<Rightarrow> 'f registry \<times> conn_id" where
  "get_conn_id registered s =
     (case pop_idle registered (rev (idle_ids s)) s of
        (rest, Some i) \<Rightarrow> (s\<lparr>idle_ids := rev rest\<rparr>, i)
      | (rest, None) \<Rightarrow> get_next_id (s\<lparr>idle_ids := rev rest\<rparr>))"

definition sign_up_conn_sender :: "conn_id \<Rightarrow> chan \<Rightarrow> 'f registry \<Rightarrow> 'f registry" where
  "sign_up_conn_sender i ch s =
     (if \<not> is_valid_id i s then s else s\<lparr>active_conns := (active_conns s)(i \<mapsto> ch)\<rparr>)"

section \<open>Registrations\<close>

fun remove_conn :: "conn_id \<Rightarrow> server_conn list \<Rightarrow> server_conn list" where
  "remove_conn i [] = []"
| "remove_conn i (c # cs) = (if sc_conn_id c = i then cs else c # remove_conn i cs)"

definition remove_server_conn :: "bytes \<Rightarrow> conn_id \<Rightarrow> service_map \<Rightarrow> service_map" where
  "remove_server_conn key i m =
     (case map_of m key of
        None \<Rightarrow> m
      | Some cs \<Rightarrow>
          if i \<notin> sc_conn_id ` set cs then m
          else if remove_conn i cs = [] then AList.delete key m
          else AList.update key (remove_conn i cs) m)"

text \<open>The ids of all registered connections, in map order.\<close>

definition registered_ids :: "service_map \<Rightarrow> conn_id list" where
  "registered_ids m = concat (map (\<lambda>(key, cs). map sc_conn_id cs) m)"

fun touch_first :: "(server_conn \<Rightarrow> bool) \<Rightarrow> (server_conn \<Rightarrow> server_conn) \<Rightarrow> server_conn list \<Rightarrow> server_conn list" where
  "touch_first p f [] = []"
| "touch_first p f (c # cs) = (if p c then f c # cs else c # touch_first p f cs)"

text \<open>The first matching connection over all services.\<close>

fun touch_map :: "(server_conn \<Rightarrow> bool) \<Rightarrow> (server_conn \<Rightarrow> server_conn) \<Rightarrow> service_map \<Rightarrow> service_map" where
  "touch_map p f [] = []"
| "touch_map p f ((key, cs) # m) =
     (if list_ex p cs then (key, touch_first p f cs) # m else (key, cs) # touch_map p f m)"

definition record_server_conn_activity :: "bytes \<Rightarrow> conn_id \<Rightarrow> 'f registry \<Rightarrow> 'f registry" where
  "record_server_conn_activity key i s =
     (case map_of (services s) key of
        None \<Rightarrow> s
      | Some cs \<Rightarrow>
          if i \<notin> sc_conn_id ` set cs then s
          else let (s, now) = instant_now s
               in s\<lparr>services := AList.update key
                      (touch_first (\<lambda>c. sc_conn_id c = i) (\<lambda>c. c\<lparr>sc_last_rx_at := now, sc_health := Healthy\<rparr>) cs)
                      (services s)\<rparr>)"

definition record_server_conn_activity_by_conn_id :: "conn_id \<Rightarrow> 'f registry \<Rightarrow> 'f registry" where
  "record_server_conn_activity_by_conn_id i s =
     (if i \<notin> set (registered_ids (services s)) then s
      else let (s, now) = instant_now s
           in s\<lparr>services := touch_map (\<lambda>c. sc_conn_id c = i)
                  (\<lambda>c. c\<lparr>sc_last_rx_at := now, sc_health := Healthy\<rparr>) (services s)\<rparr>)"

definition key_namespace :: "bytes \<Rightarrow> nat" where
  "key_namespace key = fst (split_scoped_service_key key)"

definition decrement_namespace_stream_count :: "nat \<Rightarrow> (nat \<Rightarrow> nat option) \<Rightarrow> nat \<Rightarrow> nat option" where
  "decrement_namespace_stream_count namespace counts =
     (case counts namespace of
        None \<Rightarrow> counts
      | Some n \<Rightarrow> if n - 1 = 0 then counts(namespace := None) else counts(namespace \<mapsto> n - 1))"

definition release_namespace_rate_limit_if_idle :: "nat \<Rightarrow> 'f registry \<Rightarrow> 'f registry" where
  "release_namespace_rate_limit_if_idle namespace s =
     (if \<not> list_ex (\<lambda>(key, cs). key_namespace key = namespace) (services s) \<and>
         \<not> list_ex (\<lambda>(client, server, gen, key). key_namespace key = namespace) (pending s)
      then s\<lparr>rate_limits := (rate_limits s)(namespace := None)\<rparr> else s)"

end
