(* ===== verification/Manager.thy ===== *)
theory Manager
  imports Registry
begin

text \<open>
  The handlers of the connection manager, one per task, and its loop
  (\<^verbatim>\<open>run_server_on_listener\<close> in \<^verbatim>\<open>pb-mapper-server/src/runtime.rs\<close>).
\<close>

section \<open>Views\<close>

definition clamp_page_size :: "nat \<Rightarrow> nat" where
  "clamp_page_size n = max 1 (min n 1000)"

definition paginate :: "nat \<Rightarrow> nat \<Rightarrow> 'i list \<Rightarrow> 'i page" where
  "paginate pg page_size items =
     (let size = clamp_page_size page_size; start = sat_mul pg size
      in \<lparr>pg_items = take size (drop start items),
          pg_next = (if sat_add start size < length items then Some (min (pg + 1) u32_max) else None)\<rparr>)"

definition transport :: "bool \<Rightarrow> string" where
  "transport is_datagram = (if is_datagram then ''udp'' else ''tcp'')"

definition wanted :: "nat option \<Rightarrow> nat \<Rightarrow> bool" where
  "wanted key_id namespace = (case key_id of None \<Rightarrow> True | Some k \<Rightarrow> k = namespace)"

definition service_row :: "bytes \<times> server_conn list \<Rightarrow> service_info list" where
  "service_row = (\<lambda>(key, cs). case cs of
       [] \<Rightarrow> []
     | c # _ \<Rightarrow> [\<lparr>as_namespace = fst (split_scoped_service_key key),
                 as_service_name = snd (split_scoped_service_key key),
                 as_transport = transport (sc_is_datagram c), as_codec_enabled = sc_need_codec c,
                 as_connection_count = length cs mod 2 ^ 32\<rparr>])"

definition list_services :: "nat option \<Rightarrow> service_map \<Rightarrow> service_info list" where
  "list_services key_id m =
     sort_key (\<lambda>i. (as_namespace i, as_service_name i))
       (concat (map service_row (filter (\<lambda>(key, cs). wanted key_id (key_namespace key)) m)))"

definition rx_age_ms :: "nat \<Rightarrow> server_conn \<Rightarrow> nat" where
  "rx_age_ms now c = ((now - sc_last_rx_at c) div 1000000) mod 2 ^ 64"

definition connection_row :: "nat \<Rightarrow> bytes \<Rightarrow> server_conn \<Rightarrow> connection_info" where
  "connection_row now key c =
     \<lparr>ac_namespace = fst (split_scoped_service_key key),
      ac_service_name = snd (split_scoped_service_key key), ac_conn_id = unat (sc_conn_id c),
      ac_generation = sc_generation c, ac_protocol_version = sc_protocol_version c,
      ac_healthy = (sc_health c = Healthy), ac_transport = transport (sc_is_datagram c),
      ac_codec_enabled = sc_need_codec c, ac_last_rx_age_ms = rx_age_ms now c\<rparr>"

definition list_connections :: "nat option \<Rightarrow> nat \<Rightarrow> service_map \<Rightarrow> connection_info list" where
  "list_connections key_id now m =
     sort_key (\<lambda>i. (ac_namespace i, ac_service_name i, ac_conn_id i))
       (concat (map (\<lambda>(key, cs). map (connection_row now key) cs)
          (filter (\<lambda>(key, cs). wanted key_id (key_namespace key)) m)))"

definition service_status_connections :: "nat \<Rightarrow> service_map \<Rightarrow> bytes \<Rightarrow> service_conn_status list" where
  "service_status_connections now m key =
     (case map_of m key of
        None \<Rightarrow> []
      | Some cs \<Rightarrow> map (\<lambda>c. \<lparr>scs_conn_id = unat (sc_conn_id c), scs_generation = sc_generation c,
                             scs_protocol_version = sc_protocol_version c,
                             scs_healthy = (sc_health c = Healthy),
                             scs_last_rx_age_ms = rx_age_ms now c\<rparr>) cs)"

definition status_query :: "'f registry \<Rightarrow> 'f registry \<times> server_status" where
  "status_query s =
     (let (s, now) = instant_now s
      in (s, \<lparr>ss_active_connections = (\<Sum>(key, cs)\<leftarrow>services s. length cs mod 2 ^ 32) mod 2 ^ 32,
              ss_registered_services = length (services s) mod 2 ^ 32,
              ss_uptime_seconds = (now - started_at s) div 1000000000\<rparr>))"

definition status_answer :: "status_req \<Rightarrow> nat \<Rightarrow> 'f registry \<Rightarrow> 'f registry \<times> status_resp" where
  "status_answer req namespace s =
     (case req of
        StatusRemoteId \<Rightarrow>
          (let scoped = filter (\<lambda>(key, cs). key_namespace key = namespace) (services s)
           in (s, RemoteIdResp (map (\<lambda>(key, cs). (snd (split_scoped_service_key key), cs)) scoped)
                    (registered_ids scoped)
                    (map fst (filter (\<lambda>(client, server, gen, key). key_namespace key = namespace) (pending s)))))
      | StatusKeys \<Rightarrow>
          (s, KeysResp (map (\<lambda>(key, cs). snd (split_scoped_service_key key))
                (filter (\<lambda>(key, cs). key_namespace key = namespace) (services s))))
      | StatusService name \<Rightarrow>
          (let (s, now) = instant_now s
           in (s, ServiceResp name (service_status_connections now (services s) (scope_key namespace name)))))"

section \<open>Connections and registrations\<close>

definition manage_accept :: "socket \<Rightarrow> 'f registry \<Rightarrow> 'f registry" where
  "manage_accept stream s =
     (let (s, i) = get_conn_id (registered_ids (services s)) s in emit (SpawnConn i stream) s)"

definition register_failure :: "relay_limits \<Rightarrow> bytes \<Rightarrow> bool \<Rightarrow> 'f registry \<Rightarrow> (string \<times> bool) option" where
  "register_failure L key is_datagram s =
     (let namespace = key_namespace key; existing = map_of (services s) key in
      if (case existing of Some (c # _) \<Rightarrow> sc_is_datagram c \<noteq> is_datagram | _ \<Rightarrow> False)
      then Some (''service_transport_mismatch'', False)
      else if (case existing of Some cs \<Rightarrow> max_register_connections_per_service L \<le> length cs | None \<Rightarrow> False)
      then Some (''service_connection_limit_exceeded'', True)
      else if existing = None \<and>
              max_services_per_namespace L
                \<le> length (filter (\<lambda>(k, cs). key_namespace k = namespace) (services s))
      then Some (''namespace_service_limit_exceeded'', True)
      else None)"

definition manage_register ::
  "relay_limits \<Rightarrow> bytes \<Rightarrow> conn_id \<Rightarrow> bool \<Rightarrow> bool \<Rightarrow> nat \<Rightarrow> chan \<Rightarrow> 'f registry \<Rightarrow> 'f registry" where
  "manage_register L key i need_codec is_datagram version ch s =
     (case register_failure L key is_datagram s of
        Some (code, retry) \<Rightarrow> fst (send_task ch (RegisterFailed code retry) s)
      | None \<Rightarrow>
          let gen = next_generation s;
              s = s\<lparr>next_generation := max 1 (sat_add gen 1)\<rparr>;
              (s, now) = instant_now s;
              s = sign_up_conn_sender i ch s;
              conn = \<lparr>sc_conn_id = i, sc_generation = gen, sc_health = Healthy, sc_need_codec = need_codec,
                      sc_is_datagram = is_datagram, sc_protocol_version = version, sc_last_rx_at = now\<rparr>;
              cs = (case map_of (services s) key of Some cs \<Rightarrow> cs | None \<Rightarrow> []);
              s = s\<lparr>services := AList.update key (cs @ [conn]) (services s)\<rparr>
          in fst (send_task ch (RegisterResp gen version (lease_ttl_ms L)) s))"

definition manage_deregister_server :: "bytes \<Rightarrow> conn_id \<Rightarrow> 'f registry \<Rightarrow> 'f registry" where
  "manage_deregister_server key i s =
     (let s = s\<lparr>services := remove_server_conn key i (services s)\<rparr>;
          (s, removed) = deregister_conn i s
      in release_namespace_rate_limit_if_idle (key_namespace key) s)"

definition manage_retire_server :: "bytes \<Rightarrow> conn_id \<Rightarrow> bytes \<Rightarrow> 'f registry \<Rightarrow> 'f registry" where
  "manage_retire_server key i reason s =
     (let conn_sender = active_conns s i;
          s = manage_deregister_server key i s
      in case conn_sender of None \<Rightarrow> s | Some ch \<Rightarrow> fst (send_task ch (RetireTask reason) s))"

definition manage_deregister_client :: "conn_id option \<Rightarrow> conn_id \<Rightarrow> 'f registry \<Rightarrow> 'f registry" where
  "manage_deregister_client server_id client_id s =
     (let removed = map_of (pending s) client_id;
          s = (case removed of
                 None \<Rightarrow> s
               | Some (server, gen, key) \<Rightarrow>
                   s\<lparr>pending := AList.delete client_id (pending s),
                      stream_counts :=
                        decrement_namespace_stream_count (key_namespace key) (stream_counts s)\<rparr>);
          s = (case server_id of None \<Rightarrow> s | Some server \<Rightarrow> fst (deregister_conn server s));
          s = fst (deregister_conn client_id s)
      in case removed of
           None \<Rightarrow> s
         | Some (server, gen, key) \<Rightarrow> release_namespace_rate_limit_if_idle (key_namespace key) s)"

section \<open>Streams\<close>

definition mark_healthy :: "conn_id \<Rightarrow> nat \<Rightarrow> service_map \<Rightarrow> service_map" where
  "mark_healthy i gen m =
     touch_map (\<lambda>c. sc_conn_id c = i \<and> sc_generation c = gen) (\<lambda>c. c\<lparr>sc_health := Healthy\<rparr>) m"

definition manage_stream ::
  "bytes \<Rightarrow> socket \<Rightarrow> server_session \<Rightarrow> conn_id \<Rightarrow> conn_id \<Rightarrow> nat \<Rightarrow> 'f registry \<Rightarrow> 'f registry" where
  "manage_stream key stream session server_id client_id gen s =
     (case map_of (pending s) client_id of
        None \<Rightarrow> s
      | Some (expected_conn, expected_gen, expected_key) \<Rightarrow>
          if key \<noteq> expected_key then s
          else if gen \<noteq> 0 \<and> expected_gen \<noteq> gen then s
          else let s = s\<lparr>services := mark_healthy expected_conn expected_gen (services s)\<rparr>
               in case active_conns s client_id of
                    None \<Rightarrow> s
                  | Some ch \<Rightarrow>
                      fst (send_task ch (TaskStreamResp server_id expected_gen stream session) s))"

definition manage_stream_ack :: "conn_id \<Rightarrow> conn_id \<Rightarrow> nat \<Rightarrow> 'f registry \<Rightarrow> 'f registry" where
  "manage_stream_ack server_id client_id gen s =
     (let s = record_server_conn_activity_by_conn_id server_id s in
      case map_of (pending s) client_id of
        None \<Rightarrow> s
      | Some (expected_conn, expected_gen, key) \<Rightarrow>
          if expected_conn \<noteq> server_id \<or> expected_gen \<noteq> gen then s
          else let s = s\<lparr>services := mark_healthy server_id gen (services s)\<rparr>
               in case active_conns s client_id of
                    None \<Rightarrow> s
                  | Some ch \<Rightarrow> fst (send_task ch (TaskStreamAck server_id gen) s))"

definition take_rate_token :: "'f float_ops \<Rightarrow> relay_limits \<Rightarrow> nat \<Rightarrow> 'f registry \<Rightarrow> 'f registry \<times> bool" where
  "take_rate_token F L namespace s =
     (let (s, bucket) = (case rate_limits s namespace of
                           Some bucket \<Rightarrow> (s, bucket)
                         | None \<Rightarrow> let (s, now) = instant_now s
                                   in (s, rate_limit_new F (new_streams_per_second L) (new_streams_burst L) now));
          (s, now) = instant_now s;
          (bucket, ok) = allow F now bucket
      in (s\<lparr>rate_limits := (rate_limits s)(namespace \<mapsto> bucket)\<rparr>, ok))"

definition candidates :: "(conn_id \<times> nat) list \<Rightarrow> server_conn list \<Rightarrow> server_conn list" where
  "candidates excluded cs =
     filter (\<lambda>c. sc_health c = Healthy \<and> (sc_conn_id c, sc_generation c) \<notin> set excluded) (rev cs)"

text \<open>A registered connection that cannot be reached any more is dropped from both tables.\<close>

definition drop_server_conn :: "bytes \<Rightarrow> conn_id \<Rightarrow> 'f registry \<Rightarrow> 'f registry" where
  "drop_server_conn key i s =
     fst (deregister_conn i (s\<lparr>services := remove_server_conn key i (services s)\<rparr>))"

definition add_pending :: "conn_id \<Rightarrow> conn_id \<Rightarrow> nat \<Rightarrow> bytes \<Rightarrow> 'f registry \<Rightarrow> 'f registry" where
  "add_pending client server gen key s =
     (let is_new = (map_of (pending s) client = None);
          s = s\<lparr>pending := AList.update client (server, gen, key) (pending s)\<rparr>
      in if is_new
         then s\<lparr>stream_counts := (stream_counts s)(key_namespace key \<mapsto>
                  (case stream_counts s (key_namespace key) of Some n \<Rightarrow> n | None \<Rightarrow> 0) + 1)\<rparr>
         else s)"

text \<open>The server connection has been asked for a stream: the subscriber becomes pending and is told.\<close>

definition subscribe_selected :: "bytes \<Rightarrow> conn_id \<Rightarrow> chan \<Rightarrow> server_conn \<Rightarrow> 'f registry \<Rightarrow> 'f registry" where
  "subscribe_selected key client ch c s =
     (let s = (if active_conns s client = None then sign_up_conn_sender client ch s else s);
          s = add_pending client (sc_conn_id c) (sc_generation c) key s
      in case send_task ch (SubscribeResp (sc_conn_id c) (sc_generation c) (sc_need_codec c) (sc_is_datagram c)) s of
           (s, True) \<Rightarrow> s
         | (s, False) \<Rightarrow> fst (deregister_conn client s))"

fun try_candidates ::
  "bytes \<Rightarrow> conn_id \<Rightarrow> chan \<Rightarrow> server_conn list \<Rightarrow> 'f registry \<Rightarrow> 'f registry \<times> bool" where
  "try_candidates key client ch [] s = (s, False)"
| "try_candidates key client ch (c # cs) s =
     (case active_conns s (sc_conn_id c) of
        None \<Rightarrow> try_candidates key client ch cs (drop_server_conn key (sc_conn_id c) s)
      | Some server_ch \<Rightarrow>
          (case send_task server_ch (TaskStreamReq client (sc_generation c)) s of
             (s, False) \<Rightarrow> try_candidates key client ch cs (drop_server_conn key (sc_conn_id c) s)
           | (s, True) \<Rightarrow> (subscribe_selected key client ch c s, True)))"

definition send_subscribe_failed :: "chan \<Rightarrow> 'f registry \<Rightarrow> 'f registry" where
  "send_subscribe_failed ch s = fst (send_task ch (SubscribeFailed ''service_not_available'' True) s)"

definition send_subscribe_retry :: "chan \<Rightarrow> 'f registry \<Rightarrow> 'f registry" where
  "send_subscribe_retry ch s = fst (send_task ch SubscribeRetry s)"

definition subscribe_unavailable :: "chan \<Rightarrow> (conn_id \<times> nat) list \<Rightarrow> 'f registry \<Rightarrow> 'f registry" where
  "subscribe_unavailable ch excluded s =
     (if excluded = [] then send_subscribe_failed ch s else send_subscribe_retry ch s)"

definition manage_subscribe ::
  "'f float_ops \<Rightarrow> relay_limits \<Rightarrow> bytes \<Rightarrow> conn_id \<Rightarrow> chan \<Rightarrow> (conn_id \<times> nat) list \<Rightarrow> 'f registry \<Rightarrow> 'f registry" where
  "manage_subscribe F L key client ch excluded s =
     (let namespace = key_namespace key in
      if max_streams_per_namespace L \<le> (case stream_counts s namespace of Some n \<Rightarrow> n | None \<Rightarrow> 0)
      then fst (send_task ch (SubscribeFailed ''namespace_stream_limit_exceeded'' True) s)
      else case map_of (services s) key of
        None \<Rightarrow> subscribe_unavailable ch excluded s
      | Some cs \<Rightarrow>
          (case take_rate_token F L namespace s of
             (s, False) \<Rightarrow> fst (send_task ch (SubscribeFailed ''namespace_stream_rate_exceeded'' True) s)
           | (s, True) \<Rightarrow>
               (case try_candidates key client ch (candidates excluded cs) s of
                  (s, True) \<Rightarrow> s
                | (s, False) \<Rightarrow> subscribe_unavailable ch excluded s)))"

section \<open>The loop\<close>

fun manage :: "'f float_ops \<Rightarrow> relay_limits \<Rightarrow> manager_task \<Rightarrow> 'f registry \<Rightarrow> 'f registry" where
  "manage F L (Accept stream) s = manage_accept stream s"
| "manage F L (Register key i need_codec is_datagram version ch) s =
     manage_register L key i need_codec is_datagram version ch s"
| "manage F L (ServerConnActivity key i) s = record_server_conn_activity key i s"
| "manage F L (Subscribe key client ch excluded) s = manage_subscribe F L key client ch excluded s"
| "manage F L (Stream key stream session server client gen) s =
     manage_stream key stream session server client gen s"
| "manage F L (StreamAck server client gen) s = manage_stream_ack server client gen s"
| "manage F L (StatusTask ch req namespace i) s =
     (let (s, resp) = status_answer req namespace s in fst (send_task ch (TaskStatusResp resp) s))"
| "manage F L (StatusQuery reply) s = (let (s, st) = status_query s in emit (AnswerStatus reply st) s)"
| "manage F L (AdminServiceList key_id pg n reply) s =
     emit (AnswerServices reply (paginate pg n (list_services key_id (services s)))) s"
| "manage F L (AdminConnectionList key_id pg n reply) s =
     (let (s, now) = instant_now s
      in emit (AnswerConnections reply (paginate pg n (list_connections key_id now (services s)))) s)"
| "manage F L (DeRegisterServerConn key i) s = manage_deregister_server key i s"
| "manage F L (RetireServerConn key i reason) s = manage_retire_server key i reason s"
| "manage F L (DeRegisterClientConn server client) s = manage_deregister_client server client s"
| "manage F L ShutdownTask s = s"

text \<open>The tasks are handled in the order of the queue; a shutdown task ends the loop.\<close>

fun manager_run :: "'f float_ops \<Rightarrow> relay_limits \<Rightarrow> manager_task list \<Rightarrow> 'f registry \<Rightarrow> 'f registry" where
  "manager_run F L [] s = s"
| "manager_run F L (t # ts) s = (if t = ShutdownTask then s else manager_run F L ts (manage F L t s))"

end
