(* ===== verification/RegistryFacts.thy ===== *)
theory RegistryFacts
  imports Manager
begin

text \<open>
  Frame rules of the manager's helpers, and a locale for invariants: a predicate that survives the
  few primitive updates of the state survives every task and every run of the loop.
\<close>

section \<open>Frames\<close>

text \<open>Everything but the effects, the outcome oracle and the clock is the state proper.\<close>

definition core :: "'f registry \<Rightarrow> 'f registry" where
  "core s = s\<lparr>effects := [], outcome_pos := 0, instant_pos := 0\<rparr>"

lemma core_fields:
  assumes "core s = core s'"
  shows "next_id s = next_id s'" "idle_ids s = idle_ids s'" "active_conns s = active_conns s'"
    "services s = services s'" "pending s = pending s'" "stream_counts s = stream_counts s'"
    "rate_limits s = rate_limits s'" "next_generation s = next_generation s'"
  using assms unfolding core_def by (cases s; cases s'; simp)+

lemma core_updates [simp]:
  "core (s\<lparr>effects := e\<rparr>) = core s" "core (s\<lparr>outcome_pos := n\<rparr>) = core s"
  "core (s\<lparr>instant_pos := n\<rparr>) = core s"
  by (simp_all add: core_def)

lemma core_send [simp]: "core (fst (send_task ch t s)) = core s"
  by (simp add: send_task_def Let_def)

lemma send_core: "send_task ch t s = (s', ok) \<Longrightarrow> core s' = core s"
  using core_send [of ch t s] by simp

lemma core_emit [simp]: "core (emit e s) = core s"
  by (simp add: emit_def)

lemma core_instant [simp]: "core (fst (instant_now s)) = core s"
  by (simp add: instant_now_def)

lemma instant_fields: "instant_now s = (s', now) \<Longrightarrow> s' = s\<lparr>instant_pos := Suc (instant_pos s)\<rparr>"
  by (simp add: instant_now_def)

lemma send_fields:
  assumes "send_task ch t s = (s', ok)"
  shows "next_id s' = next_id s" "idle_ids s' = idle_ids s" "active_conns s' = active_conns s"
    "services s' = services s" "pending s' = pending s" "stream_counts s' = stream_counts s"
    "rate_limits s' = rate_limits s" "next_generation s' = next_generation s"
    "effects s' = effects s @ (if ok then [Sent ch t] else [])"
  using assms by (auto simp: send_task_def Let_def split: if_splits)

lemma deregister_fields:
  assumes "deregister_conn i s = (s', r)"
  shows "next_id s' = next_id s" "active_conns s' = (active_conns s)(i := None)"
    "services s' = services s" "pending s' = pending s" "stream_counts s' = stream_counts s"
    "rate_limits s' = rate_limits s" "next_generation s' = next_generation s" "effects s' = effects s"
    "r = (active_conns s i \<noteq> None)" "outcomes s' = outcomes s" "outcome_pos s' = outcome_pos s"
  using assms by (auto simp: deregister_conn_def split: if_splits)

lemma sign_up_fields:
  "next_id (sign_up_conn_sender i ch s) = next_id s" "services (sign_up_conn_sender i ch s) = services s"
  "pending (sign_up_conn_sender i ch s) = pending s" "idle_ids (sign_up_conn_sender i ch s) = idle_ids s"
  "stream_counts (sign_up_conn_sender i ch s) = stream_counts s"
  "rate_limits (sign_up_conn_sender i ch s) = rate_limits s" "effects (sign_up_conn_sender i ch s) = effects s"
  "next_generation (sign_up_conn_sender i ch s) = next_generation s"
  "outcomes (sign_up_conn_sender i ch s) = outcomes s" "outcome_pos (sign_up_conn_sender i ch s) = outcome_pos s"
  by (simp_all add: sign_up_conn_sender_def)

lemma add_pending_fields:
  "next_id (add_pending i j g k s) = next_id s" "services (add_pending i j g k s) = services s"
  "active_conns (add_pending i j g k s) = active_conns s" "idle_ids (add_pending i j g k s) = idle_ids s"
  "pending (add_pending i j g k s) = AList.update i (j, g, k) (pending s)"
  "rate_limits (add_pending i j g k s) = rate_limits s" "effects (add_pending i j g k s) = effects s"
  "next_generation (add_pending i j g k s) = next_generation s"
  "outcomes (add_pending i j g k s) = outcomes s" "outcome_pos (add_pending i j g k s) = outcome_pos s"
  by (simp_all add: add_pending_def Let_def)

lemma register_failure_cong:
  "services s' = services s \<Longrightarrow> register_failure L key dg s' = register_failure L key dg s"
  unfolding register_failure_def by (erule ssubst) (rule refl)

definition stream_count :: "'f registry \<Rightarrow> nat \<Rightarrow> nat" where
  "stream_count s n = (case stream_counts s n of Some k \<Rightarrow> k | None \<Rightarrow> 0)"

lemma stream_count_drop [simp]: "stream_count (drop_server_conn key i s) = stream_count s"
  using deregister_fields [of i "s\<lparr>services := remove_server_conn key i (services s)\<rparr>"]
  by (cases "deregister_conn i (s\<lparr>services := remove_server_conn key i (services s)\<rparr>)")
    (simp add: drop_server_conn_def stream_count_def fun_eq_iff)

text \<open>Activity changes the health and the time of a registration, nothing else.\<close>

definition keeps_conn :: "(server_conn \<Rightarrow> server_conn) \<Rightarrow> bool" where
  "keeps_conn f \<longleftrightarrow> (\<forall>c. sc_conn_id (f c) = sc_conn_id c \<and> sc_generation (f c) = sc_generation c \<and>
     sc_is_datagram (f c) = sc_is_datagram c \<and> sc_need_codec (f c) = sc_need_codec c)"

lemma keeps_conn_updates [simp]:
  "keeps_conn (\<lambda>c. c\<lparr>sc_health := h\<rparr>)" "keeps_conn (\<lambda>c. c\<lparr>sc_last_rx_at := t, sc_health := h\<rparr>)"
  by (simp_all add: keeps_conn_def)

section \<open>Invariants of the loop\<close>

locale registry_invariant =
  fixes P :: "'f registry \<Rightarrow> bool" and F :: "'f float_ops" and L :: relay_limits and T :: "manager_task set"
  assumes frame: "core s' = core s \<Longrightarrow> P s \<Longrightarrow> P s'"
    and accepted: "Accept stream \<in> T \<Longrightarrow> P s \<Longrightarrow> P (fst (get_conn_id (registered_ids (services s)) s))"
    and registered: "Register key i nc dg v ch \<in> T \<Longrightarrow> P s \<Longrightarrow> register_failure L key dg s = None \<Longrightarrow>
      P ((sign_up_conn_sender i ch s)\<lparr>next_generation := max 1 (sat_add (next_generation s) 1),
          services := AList.update key
            ((case map_of (services s) key of Some cs \<Rightarrow> cs | None \<Rightarrow> []) @
             [\<lparr>sc_conn_id = i, sc_generation = next_generation s, sc_health = Healthy, sc_need_codec = nc,
               sc_is_datagram = dg, sc_protocol_version = v, sc_last_rx_at = now\<rparr>]) (services s)\<rparr>)"
    and removed: "P s \<Longrightarrow> P (s\<lparr>services := remove_server_conn key i (services s)\<rparr>)"
    and touched: "P s \<Longrightarrow> keeps_conn f \<Longrightarrow>
      P (s\<lparr>services := touch_map p f (services s)\<rparr>)"
    and touched_key: "P s \<Longrightarrow> map_of (services s) key = Some cs \<Longrightarrow> keeps_conn f \<Longrightarrow>
      P (s\<lparr>services := AList.update key (touch_first p f cs) (services s)\<rparr>)"
    and signed_off: "P s \<Longrightarrow> P (fst (deregister_conn i s))"
    and signed_up: "P s \<Longrightarrow> P (sign_up_conn_sender i ch s)"
    and limited: "P s \<Longrightarrow> P (s\<lparr>rate_limits := r\<rparr>)"
    and waiting: "Subscribe key client ch ex \<in> T \<Longrightarrow> P s \<Longrightarrow> P s0 \<Longrightarrow> map_of (services s0) key = Some cs \<Longrightarrow>
      c \<in> set (candidates ex cs) \<Longrightarrow> stream_count s (key_namespace key) < max_streams_per_namespace L \<Longrightarrow>
      P (add_pending client (sc_conn_id c) (sc_generation c) key s)"
    and ended: "P s \<Longrightarrow> map_of (pending s) client = Some (server, gen, key) \<Longrightarrow>
      P (s\<lparr>pending := AList.delete client (pending s),
           stream_counts := decrement_namespace_stream_count (key_namespace key) (stream_counts s)\<rparr>)"
begin

lemma send: "P s \<Longrightarrow> send_task ch t s = (s', ok) \<Longrightarrow> P s'"
  by (rule frame [OF send_core])

lemma send_fst: "P s \<Longrightarrow> P (fst (send_task ch t s))"
  by (rule frame [OF core_send])

lemma emits: "P s \<Longrightarrow> P (emit e s)"
  by (rule frame [OF core_emit])

lemma instant: "P s \<Longrightarrow> instant_now s = (s', now) \<Longrightarrow> P s'"
  using frame [of s' s] core_instant [of s] by simp

lemma release: "P s \<Longrightarrow> P (release_namespace_rate_limit_if_idle n s)"
  by (simp add: release_namespace_rate_limit_if_idle_def limited)

lemma accept: "Accept stream \<in> T \<Longrightarrow> P s \<Longrightarrow> P (manage_accept stream s)"
  using accepted [of stream s] by (auto simp: manage_accept_def Let_def split: prod.split intro: emits)

lemma register: "Register key i nc dg v ch \<in> T \<Longrightarrow> P s \<Longrightarrow> P (manage_register L key i nc dg v ch s)"
proof -
  assume T: "Register key i nc dg v ch \<in> T" and P: "P s"
  show ?thesis
  proof (cases "register_failure L key dg s")
    case None
    let ?s = "(sign_up_conn_sender i ch s)\<lparr>next_generation := max 1 (sat_add (next_generation s) 1),
        services := AList.update key ((case map_of (services s) key of Some cs \<Rightarrow> cs | None \<Rightarrow> []) @
          [\<lparr>sc_conn_id = i, sc_generation = next_generation s, sc_health = Healthy, sc_need_codec = nc,
            sc_is_datagram = dg, sc_protocol_version = v, sc_last_rx_at = instants s (instant_pos s)\<rparr>]) (services s)\<rparr>"
    have "core (manage_register L key i nc dg v ch s) = core ?s"
      unfolding core_def
      by (rule registry.equality)
        (simp_all add: manage_register_def None instant_now_def Let_def sign_up_conn_sender_def is_valid_id_def
          send_task_def)
    then show ?thesis
      by (rule frame) (rule registered [OF T P None])
  qed (auto simp: manage_register_def send_fst P)
qed

lemma deregister_server: "P s \<Longrightarrow> P (manage_deregister_server key i s)"
  unfolding manage_deregister_server_def Let_def
  using signed_off [OF removed] by (auto split: prod.split intro!: release) (metis fst_conv)

lemma retire_server: "P s \<Longrightarrow> P (manage_retire_server key i reason s)"
  unfolding manage_retire_server_def Let_def
  by (auto split: option.split intro: send_fst deregister_server)

lemma deregister_client: "P s \<Longrightarrow> P (manage_deregister_client server client s)"
  unfolding manage_deregister_client_def Let_def
  by (auto split: option.split intro!: release signed_off ended)

lemma stream: "P s \<Longrightarrow> P (manage_stream key sock ses server client gen s)"
  unfolding manage_stream_def Let_def mark_healthy_def
  by (auto split: option.split intro!: send_fst touched)

lemma activity_by_id: "P s \<Longrightarrow> P (record_server_conn_activity_by_conn_id i s)"
  unfolding record_server_conn_activity_by_conn_id_def instant_now_def Let_def
  using touched [OF frame [of "s\<lparr>instant_pos := Suc (instant_pos s)\<rparr>" s]] by auto

lemma activity: "P s \<Longrightarrow> P (record_server_conn_activity key i s)"
  unfolding record_server_conn_activity_def instant_now_def Let_def
  using touched_key [OF frame [of "s\<lparr>instant_pos := Suc (instant_pos s)\<rparr>" s]]
  by (auto split: option.split)

lemma stream_ack: "P s \<Longrightarrow> P (manage_stream_ack server client gen s)"
  unfolding manage_stream_ack_def Let_def mark_healthy_def
  by (auto split: option.split intro!: send_fst touched activity_by_id)

lemma rate_token: "P s \<Longrightarrow> take_rate_token F L n s = (s', ok) \<Longrightarrow> P s'"
  unfolding take_rate_token_def Let_def
  by (auto split: option.splits prod.splits intro!: limited dest: instant)

lemma drop_conn: "P s \<Longrightarrow> P (drop_server_conn key i s)"
  unfolding drop_server_conn_def by (intro signed_off removed)

lemma selected:
  assumes "Subscribe key client ch ex \<in> T" "P s0" "map_of (services s0) key = Some all" "c \<in> set (candidates ex all)"
    and "P s" "stream_count s (key_namespace key) < max_streams_per_namespace L"
  shows "P (subscribe_selected key client ch c s)"
proof -
  let ?s = "if active_conns s client = None then sign_up_conn_sender client ch s else s"
  have "P (add_pending client (sc_conn_id c) (sc_generation c) key ?s)"
    using assms by (intro waiting [OF assms(1) _ assms(2-4)]) (auto simp: signed_up sign_up_fields stream_count_def)
  then show ?thesis
    unfolding subscribe_selected_def Let_def
    by (auto split: prod.split bool.split intro!: signed_off dest: send)
qed

lemma tried:
  assumes "Subscribe key client ch ex \<in> T" "P s0" "map_of (services s0) key = Some all"
    and "P s" "stream_count s (key_namespace key) < max_streams_per_namespace L" "set cs \<subseteq> set (candidates ex all)"
  shows "P (fst (try_candidates key client ch cs s))"
  using assms(4-)
proof (induction cs arbitrary: s)
  case (Cons c cs)
  have next_one: "P (fst (try_candidates key client ch cs (drop_server_conn key (sc_conn_id c) s)))"
    if "P s" "stream_count s (key_namespace key) < max_streams_per_namespace L" for s
    using that Cons.prems(3) by (intro Cons.IH drop_conn) (simp_all add: stream_count_drop)
  show ?case
  proof (cases "active_conns s (sc_conn_id c)")
    case None
    then show ?thesis
      using next_one Cons.prems by simp
  next
    case (Some server_ch)
    obtain s' ok where sent: "send_task server_ch (TaskStreamReq client (sc_generation c)) s = (s', ok)"
      by (cases "send_task server_ch (TaskStreamReq client (sc_generation c)) s")
    have "P s'" "stream_count s' (key_namespace key) < max_streams_per_namespace L"
      using send [OF Cons.prems(1) sent] send_fields [OF sent] Cons.prems(2) by (simp_all add: stream_count_def)
    then show ?thesis
      using next_one selected [OF assms(1-3)] Cons.prems(3) by (cases ok) (simp_all add: Some sent)
  qed
qed simp

lemma unavailable: "P s \<Longrightarrow> P (subscribe_unavailable ch excluded s)"
  by (simp add: subscribe_unavailable_def send_subscribe_failed_def send_subscribe_retry_def send_fst)

lemma subscribe:
  "Subscribe key client ch excluded \<in> T \<Longrightarrow> P s \<Longrightarrow> P (manage_subscribe F L key client ch excluded s)"
proof (cases "map_of (services s) key")
  case (Some cs)
  assume T: "Subscribe key client ch excluded \<in> T" and P: "P s"
  obtain s1 ok where t: "take_rate_token F L (key_namespace key) s = (s1, ok)"
    by (cases "take_rate_token F L (key_namespace key) s")
  obtain s2 sel where c: "try_candidates key client ch (candidates excluded cs) s1 = (s2, sel)"
    by (cases "try_candidates key client ch (candidates excluded cs) s1")
  have P1: "P s1"
    by (rule rate_token [OF P t])
  have "stream_count s1 n = stream_count s n" for n
    using t by (auto simp: take_rate_token_def Let_def instant_now_def stream_count_def split: option.splits prod.splits)
  then have "P s2" if "stream_count s (key_namespace key) < max_streams_per_namespace L"
    using tried [OF T P Some P1, of "candidates excluded cs"] that c by simp
  then show ?thesis
    using P P1 send_fst unavailable
    by (cases ok; cases sel) (auto simp: manage_subscribe_def Let_def Some t c stream_count_def not_le)
next
  case None
  assume "P s"
  with None show ?thesis
    by (simp add: manage_subscribe_def Let_def send_fst unavailable)
qed

lemma status: "P s \<Longrightarrow> status_answer req n s = (s', r) \<Longrightarrow> P s'"
  unfolding status_answer_def Let_def by (auto split: status_req.splits prod.splits dest: instant)

lemma task: "t \<in> T \<Longrightarrow> P s \<Longrightarrow> P (manage F L t s)"
proof (cases t)
  case (StatusTask ch req n i)
  assume "P s"
  then show ?thesis
    unfolding StatusTask using status [of s req n] by (auto split: prod.split intro: send_fst)
next
  case (StatusQuery reply)
  assume "P s"
  then show ?thesis
    unfolding StatusQuery by (auto simp: status_query_def Let_def split: prod.split intro: emits dest: instant)
next
  case (AdminConnectionList key_id pg n reply)
  assume "P s"
  then show ?thesis
    unfolding AdminConnectionList by (auto split: prod.split intro: emits dest: instant)
qed (simp_all add: accept register activity subscribe stream stream_ack emits deregister_server
    retire_server deregister_client)

lemma run: "set ts \<subseteq> T \<Longrightarrow> P s \<Longrightarrow> P (manager_run F L ts s)"
  by (induction ts arbitrary: s) (simp_all add: task)

end

end
