(* ===== verification/RegistryInv.thy ===== *)
theory RegistryInv
  imports RegistryFacts
begin

text \<open>
  The invariants of the connection manager: the shape and the limits of the service table, the
  generations of registrations, the stream limit, and where registrations and pending streams come
  from.
\<close>

section \<open>Tables\<close>

lemma touch_first_map: "(\<And>c. g (f c) = g c) \<Longrightarrow> map g (touch_first p f cs) = map g cs"
  by (induction cs) auto

lemma touch_first_length [simp]: "length (touch_first p f cs) = length cs"
  by (induction cs) auto

lemma touch_map_keys [simp]: "map fst (touch_map p f m) = map fst m"
  by (induction p f m rule: touch_map.induct) auto

lemma map_of_touch_map:
  "map_of (touch_map p f m) key = Some cs' \<Longrightarrow>
   \<exists>cs. map_of m key = Some cs \<and> (cs' = cs \<or> cs' = touch_first p f cs)"
  by (induction p f m rule: touch_map.induct) (auto split: if_splits)

lemma remove_conn_absent: "i \<notin> sc_conn_id ` set cs \<Longrightarrow> remove_conn i cs = cs"
  by (induction cs) auto

lemma remove_conn_subset: "set (remove_conn i cs) \<subseteq> set cs"
  by (induction cs) auto

lemma remove_conn_length: "length (remove_conn i cs) \<le> length cs"
  by (induction cs) auto

lemma remove_conn_sorted: "sorted_wrt r (map g cs) \<Longrightarrow> sorted_wrt r (map g (remove_conn i cs))"
  using remove_conn_subset by (induction cs) (auto dest!: subsetD)

lemma map_of_remove:
  "map_of (remove_server_conn key i m) k = Some cs' \<Longrightarrow>
   \<exists>cs. map_of m k = Some cs \<and> (cs' = cs \<or> cs' = remove_conn i cs \<and> cs' \<noteq> [])"
  by (auto simp: remove_server_conn_def AList.update_conv' AList.delete_conv' split: option.splits if_splits)

lemma remove_server_keys:
  "map fst (remove_server_conn key i m) = map fst m \<or> map fst (remove_server_conn key i m) = removeAll key (map fst m)"
proof (cases "map_of m key")
  case (Some cs)
  then have "key \<in> set (map fst m)"
    by (metis map_of_eq_None_iff option.distinct(1) list.set_map)
  then show ?thesis
    using Some by (simp add: remove_server_conn_def AList.update_keys AList.delete_keys)
qed (simp add: remove_server_conn_def)

section \<open>The service table\<close>

definition conns_ok :: "relay_limits \<Rightarrow> server_conn list \<Rightarrow> bool" where
  "conns_ok L cs \<longleftrightarrow> cs \<noteq> [] \<and> length cs \<le> max 1 (max_register_connections_per_service L) \<and>
     (\<exists>dg. sc_is_datagram ` set cs \<subseteq> {dg})"

definition services_ok :: "relay_limits \<Rightarrow> 'f registry \<Rightarrow> bool" where
  "services_ok L s \<longleftrightarrow> distinct (map fst (services s)) \<and>
     (\<forall>key cs. map_of (services s) key = Some cs \<longrightarrow> conns_ok L cs) \<and>
     (\<forall>n. length (filter (\<lambda>k. key_namespace k = n) (map fst (services s))) \<le> max_services_per_namespace L)"

lemma conns_ok_touch:
  assumes "conns_ok L cs" "\<And>c. sc_is_datagram (f c) = sc_is_datagram c"
  shows "conns_ok L (touch_first p f cs)"
proof -
  have "map sc_is_datagram (touch_first p f cs) = map sc_is_datagram cs"
    by (rule touch_first_map) (rule assms(2))
  then have "sc_is_datagram ` set (touch_first p f cs) = sc_is_datagram ` set cs"
    by (metis list.set_map)
  moreover have "length (touch_first p f cs) = length cs"
    by simp
  ultimately show ?thesis
    using assms(1) unfolding conns_ok_def by (metis length_0_conv)
qed

lemma conns_ok_remove:
  assumes "conns_ok L cs" "remove_conn i cs \<noteq> []"
  shows "conns_ok L (remove_conn i cs)"
proof -
  have "sc_is_datagram ` set (remove_conn i cs) \<subseteq> sc_is_datagram ` set cs"
    using remove_conn_subset by (rule image_mono)
  then show ?thesis
    using assms remove_conn_length [of i cs] unfolding conns_ok_def by (meson order_trans)
qed

lemma conns_ok_snoc:
  assumes "register_failure L key dg s = None" "\<And>cs. map_of (services s) key = Some cs \<Longrightarrow> conns_ok L cs"
    and "sc_is_datagram c = dg"
  shows "conns_ok L ((case map_of (services s) key of Some cs \<Rightarrow> cs | None \<Rightarrow> []) @ [c])"
proof (cases "map_of (services s) key")
  case (Some cs)
  then obtain a bs where cs: "cs = a # bs"
    using assms(2) [OF Some] by (cases cs) (auto simp: conns_ok_def)
  have "sc_is_datagram a = dg" "length cs < max_register_connections_per_service L"
    using assms(1) by (simp_all add: register_failure_def Some cs Let_def split: if_splits)
  moreover obtain dg' where "sc_is_datagram ` set cs \<subseteq> {dg'}"
    using assms(2) [OF Some] by (auto simp: conns_ok_def)
  ultimately have "sc_is_datagram ` set (cs @ [c]) \<subseteq> {dg}"
    using assms(3) by (auto simp: cs)
  then show ?thesis
    using \<open>length cs < _\<close> unfolding Some conns_ok_def by (auto intro: exI [of _ dg])
qed (simp add: conns_ok_def)

lemma services_ok_cong: "services s' = services s \<Longrightarrow> services_ok L s \<Longrightarrow> services_ok L s'"
  by (simp add: services_ok_def)

lemma services_ok_update:
  assumes "services_ok L s" "map_of (services s) key \<noteq> None" "conns_ok L cs"
  shows "services_ok L (s\<lparr>services := AList.update key cs (services s)\<rparr>)"
proof -
  have "key \<in> set (map fst (services s))"
    using assms(2) by (metis map_of_eq_None_iff list.set_map)
  then show ?thesis
    using assms(1,3) by (auto simp: services_ok_def AList.update_keys AList.update_conv')
qed

lemma services_ok_new:
  assumes "services_ok L s" "register_failure L key dg s = None" "sc_is_datagram c = dg"
  shows "services_ok L (s\<lparr>services :=
    AList.update key ((case map_of (services s) key of Some cs \<Rightarrow> cs | None \<Rightarrow> []) @ [c]) (services s)\<rparr>)"
    (is "services_ok L (s\<lparr>services := AList.update key ?cs (services s)\<rparr>)")
proof -
  have cs: "conns_ok L ?cs"
    by (rule conns_ok_snoc [OF assms(2) _ assms(3)]) (use assms(1) in \<open>simp add: services_ok_def\<close>)
  show ?thesis
  proof (cases "map_of (services s) key")
    case None
    have "length (filter (\<lambda>(k, cs). key_namespace k = key_namespace key) (services s)) < max_services_per_namespace L"
      using assms(2) by (simp add: register_failure_def None Let_def split: if_splits)
    then have room: "length (filter (\<lambda>k. key_namespace k = key_namespace key) (map fst (services s)))
        < max_services_per_namespace L"
      by (simp add: filter_map comp_def case_prod_beta')
    have "key \<notin> set (map fst (services s))"
      using None by (metis map_of_eq_None_iff list.set_map)
    then show ?thesis
      using assms(1) cs room by (auto simp: services_ok_def AList.update_keys AList.update_conv')
  qed (use services_ok_update [OF assms(1) _ cs] in simp)
qed

interpretation table: registry_invariant "services_ok L" F L T for F L T
proof
  fix s s' :: "'f registry"
  show "core s' = core s \<Longrightarrow> services_ok L s \<Longrightarrow> services_ok L s'"
    using core_fields(4) [of s' s] by (simp add: services_ok_def)
next
  fix s :: "'f registry" and key i
  assume ok: "services_ok L s"
  let ?m = "remove_server_conn key i (services s)"
  have fewer: "length (filter P (removeAll key ks)) \<le> length (filter P ks)" for P :: "bytes \<Rightarrow> bool" and ks
    by (induction ks) auto
  have "distinct (map fst ?m)"
    using ok remove_server_keys [of key i "services s"] unfolding services_ok_def by (metis distinct_removeAll)
  moreover have "length (filter P (map fst ?m)) \<le> length (filter P (map fst (services s)))" for P
    using remove_server_keys [of key i "services s"] fewer [of P] by (elim disjE) (simp_all only: order_refl)
  moreover have "conns_ok L cs" if "map_of ?m k = Some cs" for k cs
    using map_of_remove [OF that] ok conns_ok_remove unfolding services_ok_def by metis
  ultimately show "services_ok L (s\<lparr>services := ?m\<rparr>)"
    using ok order_trans unfolding services_ok_def by fastforce
next
  fix s :: "'f registry" and p f
  assume ok: "services_ok L s" and f: "keeps_conn f"
  have "conns_ok L cs" if "map_of (touch_map p f (services s)) k = Some cs" for k cs
    using map_of_touch_map [OF that] ok f conns_ok_touch unfolding services_ok_def keeps_conn_def by metis
  then show "services_ok L (s\<lparr>services := touch_map p f (services s)\<rparr>)"
    using ok unfolding services_ok_def by (simp del: map_of_eq_Some_iff)
next
  fix s :: "'f registry" and key cs p f
  assume ok: "services_ok L s" and cs: "map_of (services s) key = Some cs"
    and f: "keeps_conn f"
  have "conns_ok L cs"
    using ok cs by (simp add: services_ok_def)
  then show "services_ok L (s\<lparr>services := AList.update key (touch_first p f cs) (services s)\<rparr>)"
    using services_ok_update [OF ok, of key] conns_ok_touch f cs by (auto simp: keeps_conn_def)
next
  fix s :: "'f registry" and key i nc dg v ch now
  assume "services_ok L s" "register_failure L key dg s = None"
  from services_ok_new [OF this, of "\<lparr>sc_conn_id = i, sc_generation = next_generation s, sc_health = Healthy,
      sc_need_codec = nc, sc_is_datagram = dg, sc_protocol_version = v, sc_last_rx_at = now\<rparr>"]
  show "services_ok L ((sign_up_conn_sender i ch s)\<lparr>next_generation := max 1 (sat_add (next_generation s) 1),
      services := AList.update key ((case map_of (services s) key of Some cs \<Rightarrow> cs | None \<Rightarrow> []) @
        [\<lparr>sc_conn_id = i, sc_generation = next_generation s, sc_health = Healthy, sc_need_codec = nc,
          sc_is_datagram = dg, sc_protocol_version = v, sc_last_rx_at = now\<rparr>]) (services s)\<rparr>)"
    by (rule services_ok_cong [rotated]) simp_all
next
  fix s :: "'f registry"
  show "services_ok L s \<Longrightarrow> services_ok L (fst (get_conn_id (registered_ids (services s)) s))"
    by (erule services_ok_cong [rotated]) (auto simp: get_conn_id_def get_next_id_def split: prod.split option.split)
next
  fix s :: "'f registry" and i
  show "services_ok L s \<Longrightarrow> services_ok L (fst (deregister_conn i s))"
    by (erule services_ok_cong [rotated]) (simp add: deregister_conn_def)
next
  fix s :: "'f registry" and client key c
  show "services_ok L s \<Longrightarrow> services_ok L (add_pending client (sc_conn_id c) (sc_generation c) key s)"
    by (erule services_ok_cong [rotated]) (simp add: add_pending_fields)
qed (simp_all add: services_ok_def sign_up_fields)

section \<open>Generations\<close>

text \<open>
  A property of the service table and the generation counter alone needs to survive only what changes
  those.
\<close>

locale table_invariant =
  fixes Q :: "service_map \<Rightarrow> nat \<Rightarrow> bool" and T :: "manager_task set"
  assumes new_conn: "Register key i nc dg v ch \<in> T \<Longrightarrow> Q m g \<Longrightarrow> sc_conn_id c = i \<Longrightarrow> sc_generation c = g \<Longrightarrow>
      Q (AList.update key ((case map_of m key of Some cs \<Rightarrow> cs | None \<Rightarrow> []) @ [c]) m) (max 1 (sat_add g 1))"
    and less: "Q m g \<Longrightarrow> (\<And>k cs'. map_of m' k = Some cs' \<Longrightarrow> \<exists>cs. map_of m k = Some cs \<and>
        set (map (\<lambda>c. (sc_conn_id c, sc_generation c)) cs') \<subseteq> set (map (\<lambda>c. (sc_conn_id c, sc_generation c)) cs) \<and>
        (sorted_wrt (<) (map sc_generation cs) \<longrightarrow> sorted_wrt (<) (map sc_generation cs'))) \<Longrightarrow> Q m' g"
begin

lemma touch_less:
  assumes "keeps_conn f"
  shows "set (map (\<lambda>c. (sc_conn_id c, sc_generation c)) (touch_first p f cs)) \<subseteq>
      set (map (\<lambda>c. (sc_conn_id c, sc_generation c)) cs) \<and>
    (sorted_wrt (<) (map sc_generation cs) \<longrightarrow> sorted_wrt (<) (map sc_generation (touch_first p f cs)))"
proof -
  have "map (\<lambda>c. (sc_conn_id c, sc_generation c)) (touch_first p f cs) = map (\<lambda>c. (sc_conn_id c, sc_generation c)) cs"
      "map sc_generation (touch_first p f cs) = map sc_generation cs"
    using assms by (auto intro!: touch_first_map simp: keeps_conn_def)
  then show ?thesis
    by (simp only: order_refl simp_thms)
qed

lemma remove_less:
  "set (map (\<lambda>c. (sc_conn_id c, sc_generation c)) (remove_conn i cs)) \<subseteq>
      set (map (\<lambda>c. (sc_conn_id c, sc_generation c)) cs) \<and>
    (sorted_wrt (<) (map sc_generation cs) \<longrightarrow> sorted_wrt (<) (map sc_generation (remove_conn i cs)))"
  using remove_conn_subset [of i cs] remove_conn_sorted [of "(<)" sc_generation cs i] by auto

end

sublocale table_invariant \<subseteq> registry_invariant "\<lambda>s. Q (services s) (next_generation s)" F L T for F L
proof
  fix s s' :: "'f registry"
  show "core s' = core s \<Longrightarrow> Q (services s) (next_generation s) \<Longrightarrow> Q (services s') (next_generation s')"
    using core_fields(4,8) [of s' s] by simp
next
  fix s :: "'f registry" and key i
  assume "Q (services s) (next_generation s)"
  then have "Q (remove_server_conn key i (services s)) (next_generation s)"
    by (rule less) (use remove_less in \<open>blast dest: map_of_remove\<close>)
  then show "Q (services (s\<lparr>services := remove_server_conn key i (services s)\<rparr>))
      (next_generation (s\<lparr>services := remove_server_conn key i (services s)\<rparr>))"
    by simp
next
  fix s :: "'f registry" and p f
  assume "Q (services s) (next_generation s)" "keeps_conn f"
  then have "Q (touch_map p f (services s)) (next_generation s)"
    by (elim less) (use touch_less in \<open>blast dest: map_of_touch_map\<close>)
  then show "Q (services (s\<lparr>services := touch_map p f (services s)\<rparr>))
      (next_generation (s\<lparr>services := touch_map p f (services s)\<rparr>))"
    by simp
next
  fix s :: "'f registry" and key cs p f
  assume q: "Q (services s) (next_generation s)" and cs: "map_of (services s) key = Some cs" and f: "keeps_conn f"
  have "Q (AList.update key (touch_first p f cs) (services s)) (next_generation s)"
  proof (rule less [OF q])
    fix k cs'
    assume k: "map_of (AList.update key (touch_first p f cs) (services s)) k = Some cs'"
    show "\<exists>cs. map_of (services s) k = Some cs \<and>
        set (map (\<lambda>c. (sc_conn_id c, sc_generation c)) cs') \<subseteq> set (map (\<lambda>c. (sc_conn_id c, sc_generation c)) cs) \<and>
        (sorted_wrt (<) (map sc_generation cs) \<longrightarrow> sorted_wrt (<) (map sc_generation cs'))"
    proof (cases "k = key")
      case True
      with k have "cs' = touch_first p f cs"
        by (simp add: AList.update_conv')
      with True cs touch_less [OF f, of p cs] show ?thesis
        by blast
    next
      case False
      with k show ?thesis
        by (simp add: AList.update_conv')
    qed
  qed
  then show "Q (services (s\<lparr>services := AList.update key (touch_first p f cs) (services s)\<rparr>))
      (next_generation (s\<lparr>services := AList.update key (touch_first p f cs) (services s)\<rparr>))"
    by simp
next
  fix s :: "'f registry"
  show "Q (services s) (next_generation s) \<Longrightarrow>
      Q (services (fst (get_conn_id (registered_ids (services s)) s)))
        (next_generation (fst (get_conn_id (registered_ids (services s)) s)))"
    by (simp add: get_conn_id_def get_next_id_def split: prod.split option.split)
next
  fix s :: "'f registry" and i
  show "Q (services s) (next_generation s) \<Longrightarrow>
      Q (services (fst (deregister_conn i s))) (next_generation (fst (deregister_conn i s)))"
    by (simp add: deregister_conn_def)
next
  fix s :: "'f registry" and key i nc dg v ch now
  assume "Register key i nc dg v ch \<in> T" "Q (services s) (next_generation s)"
  from new_conn [OF this, where c = "\<lparr>sc_conn_id = i, sc_generation = next_generation s, sc_health = Healthy,
      sc_need_codec = nc, sc_is_datagram = dg, sc_protocol_version = v, sc_last_rx_at = now\<rparr>"]
  show "Q (services ((sign_up_conn_sender i ch s)\<lparr>next_generation := max 1 (sat_add (next_generation s) 1),
        services := AList.update key ((case map_of (services s) key of Some cs \<Rightarrow> cs | None \<Rightarrow> []) @
          [\<lparr>sc_conn_id = i, sc_generation = next_generation s, sc_health = Healthy, sc_need_codec = nc,
            sc_is_datagram = dg, sc_protocol_version = v, sc_last_rx_at = now\<rparr>]) (services s)\<rparr>))
      (next_generation ((sign_up_conn_sender i ch s)\<lparr>next_generation := max 1 (sat_add (next_generation s) 1),
        services := AList.update key ((case map_of (services s) key of Some cs \<Rightarrow> cs | None \<Rightarrow> []) @
          [\<lparr>sc_conn_id = i, sc_generation = next_generation s, sc_health = Healthy, sc_need_codec = nc,
            sc_is_datagram = dg, sc_protocol_version = v, sc_last_rx_at = now\<rparr>]) (services s)\<rparr>))"
    by simp
qed (simp_all add: sign_up_fields add_pending_fields)

text \<open>
  Until the counter saturates, every registration has a generation of its own below the counter, and
  within a service the generations increase: the newest registration is the last.
\<close>

definition generations_ok :: "service_map \<Rightarrow> nat \<Rightarrow> bool" where
  "generations_ok m g \<longleftrightarrow> (g < u64_max \<longrightarrow> 1 \<le> g \<and>
     (\<forall>key cs. map_of m key = Some cs \<longrightarrow> sorted_wrt (<) (map sc_generation cs) \<and>
        (\<forall>c\<in>set cs. 1 \<le> sc_generation c \<and> sc_generation c < g)) \<and>
     (\<forall>k1 k2 cs1 cs2 c1 c2. map_of m k1 = Some cs1 \<longrightarrow> map_of m k2 = Some cs2 \<longrightarrow> c1 \<in> set cs1 \<longrightarrow>
        c2 \<in> set cs2 \<longrightarrow> sc_generation c1 = sc_generation c2 \<longrightarrow> k1 = k2))"

lemma generations_new:
  assumes ok: "generations_ok m g" and c: "sc_generation c = g"
  shows "generations_ok (AList.update key ((case map_of m key of Some cs \<Rightarrow> cs | None \<Rightarrow> []) @ [c]) m)
    (max 1 (sat_add g 1))"
  unfolding generations_ok_def
proof (intro impI)
  assume "max 1 (sat_add g 1) < u64_max"
  then have g: "g < u64_max" and next_g: "max 1 (sat_add g 1) = g + 1"
    by (auto simp: sat_add_def split: if_splits)
  let ?old = "case map_of m key of Some cs \<Rightarrow> cs | None \<Rightarrow> []"
  let ?m = "AList.update key (?old @ [c]) m"
  have low: "1 \<le> g" and sorted: "\<And>k cs. map_of m k = Some cs \<Longrightarrow> sorted_wrt (<) (map sc_generation cs)"
    and below: "\<And>k cs x. map_of m k = Some cs \<Longrightarrow> x \<in> set cs \<Longrightarrow> 1 \<le> sc_generation x \<and> sc_generation x < g"
    and apart: "\<And>k1 k2 cs1 cs2 c1 c2. map_of m k1 = Some cs1 \<Longrightarrow> map_of m k2 = Some cs2 \<Longrightarrow> c1 \<in> set cs1 \<Longrightarrow>
        c2 \<in> set cs2 \<Longrightarrow> sc_generation c1 = sc_generation c2 \<Longrightarrow> k1 = k2"
    using ok g unfolding generations_ok_def by blast+
  have old: "\<And>x. x \<in> set ?old \<Longrightarrow> 1 \<le> sc_generation x \<and> sc_generation x < g"
    using below [of key] by (cases "map_of m key") auto
  have "sorted_wrt (<) (map sc_generation ?old)"
    using sorted by (simp split: option.split)
  then have s: "sorted_wrt (<) (map sc_generation (?old @ [c]))"
    using old c by (auto simp: sorted_wrt_append)
  have part: "(k = key \<and> x = c) \<or> (\<exists>cs'. map_of m k = Some cs' \<and> x \<in> set cs')"
    if "map_of ?m k = Some cs" "x \<in> set cs" for k cs x
    using that by (auto simp: AList.update_conv' split: if_splits option.splits)
  have all: "1 \<le> sc_generation x \<and> sc_generation x < g + 1" if "map_of ?m k = Some cs" "x \<in> set cs" for k cs x
    using part [OF that] below low c by (metis less_Suc_eq Suc_eq_plus1)
  have sorted': "sorted_wrt (<) (map sc_generation cs)" if "map_of ?m k = Some cs" for k cs
    using that s sorted by (cases "k = key") (auto simp: AList.update_conv')
  have apart': "k1 = k2" if "map_of ?m k1 = Some cs1" "map_of ?m k2 = Some cs2" "c1 \<in> set cs1"
      "c2 \<in> set cs2" "sc_generation c1 = sc_generation c2" for k1 k2 cs1 cs2 c1 c2
    using part [OF that(1,3)] part [OF that(2,4)] that(5) apart below c by (metis less_irrefl)
  show "1 \<le> max 1 (sat_add g 1) \<and>
     (\<forall>key' cs. map_of ?m key' = Some cs \<longrightarrow> sorted_wrt (<) (map sc_generation cs) \<and>
        (\<forall>c\<in>set cs. 1 \<le> sc_generation c \<and> sc_generation c < max 1 (sat_add g 1))) \<and>
     (\<forall>k1 k2 cs1 cs2 c1 c2. map_of ?m k1 = Some cs1 \<longrightarrow> map_of ?m k2 = Some cs2 \<longrightarrow> c1 \<in> set cs1 \<longrightarrow>
        c2 \<in> set cs2 \<longrightarrow> sc_generation c1 = sc_generation c2 \<longrightarrow> k1 = k2)"
    unfolding next_g by (intro conjI allI impI ballI) (simp_all only: sorted' all apart')
qed

interpretation generations: table_invariant generations_ok T for T
proof
  fix m m' :: service_map and g
  assume ok: "generations_ok m g" and sub: "\<And>k cs'. map_of m' k = Some cs' \<Longrightarrow> \<exists>cs. map_of m k = Some cs \<and>
        set (map (\<lambda>c. (sc_conn_id c, sc_generation c)) cs') \<subseteq> set (map (\<lambda>c. (sc_conn_id c, sc_generation c)) cs) \<and>
        (sorted_wrt (<) (map sc_generation cs) \<longrightarrow> sorted_wrt (<) (map sc_generation cs'))"
  have member: "\<exists>cs c. map_of m k = Some cs \<and> c \<in> set cs \<and> sc_generation c = sc_generation c'"
    if "map_of m' k = Some cs'" "c' \<in> set cs'" for k cs' c'
    using sub [OF that(1)] that(2) by (fastforce simp: subset_iff image_iff)
  have sorted: "\<exists>cs. map_of m k = Some cs \<and> (sorted_wrt (<) (map sc_generation cs) \<longrightarrow> sorted_wrt (<) (map sc_generation cs'))"
    if "map_of m' k = Some cs'" for k cs'
    using sub [OF that] by blast
  show "generations_ok m' g"
    unfolding generations_ok_def
  proof (intro impI conjI allI ballI)
    assume g: "g < u64_max"
    note ok' = ok [unfolded generations_ok_def, rule_format, OF g]
    show "1 \<le> g"
      using ok' by blast
    fix k cs'
    assume k: "map_of m' k = Some cs'"
    show "sorted_wrt (<) (map sc_generation cs')"
      using sorted [OF k] ok' by blast
    fix c'
    assume "c' \<in> set cs'"
    from member [OF k this] show "1 \<le> sc_generation c'" "sc_generation c' < g"
      using ok' by metis+
  next
    fix k1 k2 cs1 cs2 c1 c2
    assume g: "g < u64_max" and "map_of m' k1 = Some cs1" "map_of m' k2 = Some cs2" "c1 \<in> set cs1" "c2 \<in> set cs2"
      "sc_generation c1 = sc_generation c2"
    with member [of k1 cs1 c1] member [of k2 cs2 c2] ok [unfolded generations_ok_def, rule_format, OF g]
    show "k1 = k2"
      by metis
  qed
qed (rule generations_new)

section \<open>Where registrations and pending streams come from\<close>

definition conns_from :: "manager_task set \<Rightarrow> service_map \<Rightarrow> nat \<Rightarrow> bool" where
  "conns_from T m g \<longleftrightarrow> (\<forall>key cs c. map_of m key = Some cs \<longrightarrow> c \<in> set cs \<longrightarrow>
     (\<exists>nc dg v ch. Register key (sc_conn_id c) nc dg v ch \<in> T))"

interpretation conns: table_invariant "conns_from T" T for T
proof
  fix key i nc dg v ch m g and c :: server_conn
  assume t: "Register key i nc dg v ch \<in> T" and m: "conns_from T m g" and c: "sc_conn_id c = i"
  let ?old = "case map_of m key of Some cs \<Rightarrow> cs | None \<Rightarrow> []"
  show "conns_from T (AList.update key (?old @ [c]) m) (max 1 (sat_add g 1))"
    unfolding conns_from_def
  proof (intro allI impI)
    fix k cs x
    assume "map_of (AList.update key (?old @ [c]) m) k = Some cs" "x \<in> set cs"
    then have "k = key \<and> x = c \<or> (\<exists>cs'. map_of m k = Some cs' \<and> x \<in> set cs')"
      by (cases "map_of m key") (auto simp: AList.update_conv' split: if_splits)
    then show "\<exists>nc dg v ch. Register k (sc_conn_id x) nc dg v ch \<in> T"
      using m t c unfolding conns_from_def by blast
  qed
next
  fix m m' :: service_map and g
  assume m: "conns_from T m g" and sub: "\<And>k cs'. map_of m' k = Some cs' \<Longrightarrow> \<exists>cs. map_of m k = Some cs \<and>
        set (map (\<lambda>c. (sc_conn_id c, sc_generation c)) cs') \<subseteq> set (map (\<lambda>c. (sc_conn_id c, sc_generation c)) cs) \<and>
        (sorted_wrt (<) (map sc_generation cs) \<longrightarrow> sorted_wrt (<) (map sc_generation cs'))"
  have "\<exists>cs c. map_of m k = Some cs \<and> c \<in> set cs \<and> sc_conn_id c = sc_conn_id c'"
    if "map_of m' k = Some cs'" "c' \<in> set cs'" for k cs' c'
    using sub [OF that(1)] that(2) by (fastforce simp: subset_iff image_iff)
  then show "conns_from T m' g"
    using m unfolding conns_from_def by metis
qed

definition pending_from :: "manager_task set \<Rightarrow> pending_map \<Rightarrow> bool" where
  "pending_from T m \<longleftrightarrow> (\<forall>client server gen key. map_of m client = Some (server, gen, key) \<longrightarrow>
     (\<exists>ch ex. Subscribe key client ch ex \<in> T) \<and> (\<exists>nc dg v ch. Register key server nc dg v ch \<in> T))"

definition from_tasks :: "manager_task set \<Rightarrow> 'f registry \<Rightarrow> bool" where
  "from_tasks T s \<longleftrightarrow> conns_from T (services s) (next_generation s) \<and> pending_from T (pending s)"

lemma conns_from_any: "conns_from T m g \<Longrightarrow> conns_from T m g'"
  by (simp add: conns_from_def)

lemma set_candidates: "c \<in> set (candidates ex cs) \<longleftrightarrow>
    c \<in> set cs \<and> sc_health c = Healthy \<and> (sc_conn_id c, sc_generation c) \<notin> set ex"
  by (auto simp: candidates_def)

interpretation origin: registry_invariant "from_tasks T" F L T for F L T
proof
  fix s s' :: "'f registry"
  show "core s' = core s \<Longrightarrow> from_tasks T s \<Longrightarrow> from_tasks T s'"
    using core_fields(4,5,8) [of s' s] by (simp add: from_tasks_def)
next
  fix s :: "'f registry" and key i
  show "from_tasks T s \<Longrightarrow> from_tasks T (s\<lparr>services := remove_server_conn key i (services s)\<rparr>)"
    using conns.removed [of T s key i] by (simp add: from_tasks_def)
next
  fix s :: "'f registry" and p f
  show "from_tasks T s \<Longrightarrow> keeps_conn f \<Longrightarrow> from_tasks T (s\<lparr>services := touch_map p f (services s)\<rparr>)"
    using conns.touched [of T s f p] by (simp add: from_tasks_def)
next
  fix s :: "'f registry" and key cs p f
  show "from_tasks T s \<Longrightarrow> map_of (services s) key = Some cs \<Longrightarrow> keeps_conn f \<Longrightarrow>
      from_tasks T (s\<lparr>services := AList.update key (touch_first p f cs) (services s)\<rparr>)"
    using conns.touched_key [of T s key cs f p] by (simp add: from_tasks_def)
next
  fix s :: "'f registry" and L :: relay_limits and key i nc dg v ch now
  assume "Register key i nc dg v ch \<in> T" "from_tasks T s" "register_failure L key dg s = None"
  then show "from_tasks T ((sign_up_conn_sender i ch s)\<lparr>next_generation := max 1 (sat_add (next_generation s) 1),
        services := AList.update key ((case map_of (services s) key of Some cs \<Rightarrow> cs | None \<Rightarrow> []) @
          [\<lparr>sc_conn_id = i, sc_generation = next_generation s, sc_health = Healthy, sc_need_codec = nc,
            sc_is_datagram = dg, sc_protocol_version = v, sc_last_rx_at = now\<rparr>]) (services s)\<rparr>)"
    using conns.registered [of key i nc dg v ch T s L now] by (simp add: from_tasks_def sign_up_fields)
next
  fix s :: "'f registry"
  show "from_tasks T s \<Longrightarrow> from_tasks T (fst (get_conn_id (registered_ids (services s)) s))"
    by (simp add: from_tasks_def get_conn_id_def get_next_id_def split: prod.split option.split)
next
  fix s :: "'f registry" and i
  show "from_tasks T s \<Longrightarrow> from_tasks T (fst (deregister_conn i s))"
    by (simp add: from_tasks_def deregister_conn_def)
next
  fix s s0 :: "'f registry" and key client ch ex cs c
  assume t: "Subscribe key client ch ex \<in> T" and s: "from_tasks T s" and s0: "from_tasks T s0"
    and cs: "map_of (services s0) key = Some cs" and c: "c \<in> set (candidates ex cs)"
  have "\<exists>nc dg v ch. Register key (sc_conn_id c) nc dg v ch \<in> T"
    using s0 cs c unfolding from_tasks_def conns_from_def set_candidates by blast
  then have "pending_from T (AList.update client (sc_conn_id c, sc_generation c, key) (pending s))"
    using s t by (auto simp: from_tasks_def pending_from_def AList.update_Some_unfold)
  then show "from_tasks T (add_pending client (sc_conn_id c) (sc_generation c) key s)"
    using s by (simp add: from_tasks_def add_pending_fields)
next
  fix s :: "'f registry" and client server gen key
  assume "from_tasks T s"
  then show "from_tasks T (s\<lparr>pending := AList.delete client (pending s),
      stream_counts := decrement_namespace_stream_count (key_namespace key) (stream_counts s)\<rparr>)"
    by (auto simp: from_tasks_def pending_from_def AList.delete_conv' split: if_splits)
qed (simp_all add: from_tasks_def sign_up_fields)

section \<open>The stream limit\<close>

definition streams_bounded :: "relay_limits \<Rightarrow> 'f registry \<Rightarrow> bool" where
  "streams_bounded L s \<longleftrightarrow> (\<forall>n. stream_count s n \<le> max_streams_per_namespace L)"

lemma stream_count_cong: "stream_counts s' = stream_counts s \<Longrightarrow> stream_count s' = stream_count s"
  by (simp add: stream_count_def fun_eq_iff)

lemma streams_bounded_cong: "stream_counts s' = stream_counts s \<Longrightarrow> streams_bounded L s \<Longrightarrow> streams_bounded L s'"
  using stream_count_cong [of s' s] by (simp add: streams_bounded_def)

lemma stream_count_add_pending:
  "stream_count (add_pending client server gen key s) n =
     stream_count s n + (if n = key_namespace key \<and> map_of (pending s) client = None then 1 else 0)"
  by (auto simp: add_pending_def Let_def stream_count_def split: option.split)

lemma stream_count_decrement:
  "(case decrement_namespace_stream_count m counts n of Some k \<Rightarrow> k | None \<Rightarrow> 0) =
     (case counts n of Some k \<Rightarrow> k | None \<Rightarrow> 0) - (if n = m then 1 else 0)"
  by (auto simp: decrement_namespace_stream_count_def Let_def split: option.split)

interpretation streams: registry_invariant "streams_bounded L" F L T for F L T
proof
  fix s s' :: "'f registry"
  show "core s' = core s \<Longrightarrow> streams_bounded L s \<Longrightarrow> streams_bounded L s'"
    by (rule streams_bounded_cong) (auto dest: core_fields)
next
  fix s :: "'f registry" and key client c
  assume "streams_bounded L s" "stream_count s (key_namespace key) < max_streams_per_namespace L"
  then show "streams_bounded L (add_pending client (sc_conn_id c) (sc_generation c) key s)"
    by (auto simp: streams_bounded_def stream_count_add_pending)
next
  fix s :: "'f registry" and client server gen key
  assume "streams_bounded L s"
  then show "streams_bounded L (s\<lparr>pending := AList.delete client (pending s),
      stream_counts := decrement_namespace_stream_count (key_namespace key) (stream_counts s)\<rparr>)"
    by (auto simp: streams_bounded_def stream_count_def stream_count_decrement intro: le_trans [OF diff_le_self])
next
  fix s :: "'f registry"
  show "streams_bounded L s \<Longrightarrow> streams_bounded L (fst (get_conn_id (registered_ids (services s)) s))"
    by (erule streams_bounded_cong [rotated]) (simp add: get_conn_id_def get_next_id_def split: prod.split option.split)
next
  fix s :: "'f registry" and i
  show "streams_bounded L s \<Longrightarrow> streams_bounded L (fst (deregister_conn i s))"
    by (erule streams_bounded_cong [rotated]) (simp add: deregister_conn_def)
qed (simp_all add: streams_bounded_def stream_count_def sign_up_fields)

end
