(* ===== verification/RegistryProps.thy ===== *)
theory RegistryProps
  imports RegistryInv ConnectionProps
begin

text \<open>
  What the connection manager promises: its tables stay well formed and within the limits, stream
  counts are the pending streams, streams only join the subscriber they were requested for, and a
  subscriber gets the newest registration that can be reached.
\<close>

section \<open>The tables\<close>

lemma env_limit_positive: "0 < fallback \<Longrightarrow> 0 < env_limit env name fallback"
  by (auto simp: env_limit_def split: option.split)

definition registry_ok :: "relay_limits \<Rightarrow> 'f registry \<Rightarrow> bool" where
  "registry_ok L s \<longleftrightarrow> 0 < max_register_connections_per_service L \<and> services_ok L s \<and> generations_ok (services s) (next_generation s) \<and> streams_bounded L s"

text \<open>
  C17: Whatever tasks reach the connection manager of a freshly started relay, in any order and with
  any outcome of its sends, its tables stay well formed: no service is without a connection, all
  connections of a service have its transport, a service has at most its limit of connections and a
  namespace at most its limit of services and of counted streams; and until the 64-bit generation counter is
  exhausted every registration has a generation of its own, increasing within the service.
\<close>

theorem registry_stays_well_formed:
  fixes F :: "'f float_ops"
  shows "registry_ok (limits_from_env env lease) (manager_run F (limits_from_env env lease) ts (registry_new outcome clock))"
proof -
  let ?L = "limits_from_env env lease" and ?s0 = "registry_new outcome clock :: 'f registry"
  have "services_ok ?L ?s0" "generations_ok (services ?s0) (next_generation ?s0)" "streams_bounded ?L ?s0"
    by (simp_all add: registry_new_def services_ok_def generations_ok_def streams_bounded_def stream_count_def)
  from table.run [OF subset_UNIV this(1)] generations.run [OF subset_UNIV this(2)] streams.run [OF subset_UNIV this(3)]
  moreover have "0 < max_register_connections_per_service ?L"
    by (simp add: limits_from_env_def env_limit_positive)
  ultimately show ?thesis
    unfolding registry_ok_def by blast
qed

section \<open>Stream counts\<close>

lemma count_update_old:
  assumes "map_of m k = Some v0" "distinct (map fst m)" "Q v = Q v0"
  shows "length (filter (\<lambda>(i, v). Q v) (AList.update k v m)) = length (filter (\<lambda>(i, v). Q v) m)"
  using assms by (induction m) (auto split: if_splits)

lemma update_new: "map_of m k = None \<Longrightarrow> AList.update k v m = m @ [(k, v)]"
  by (induction m) (auto split: if_splits)

lemma count_delete:
  assumes "map_of m k = Some v0" "distinct (map fst m)"
  shows "length (filter (\<lambda>(i, v). Q v) (AList.delete k m)) + (if Q v0 then 1 else 0) = length (filter (\<lambda>(i, v). Q v) m)"
  using assms
proof (induction m)
  case (Cons p m)
  then show ?case
    by (cases "fst p = k") (auto split: if_splits simp: case_prod_beta)
qed simp

definition pending_in :: "nat \<Rightarrow> 'f registry \<Rightarrow> nat" where
  "pending_in n s = length (filter (\<lambda>(client, server, gen, key). key_namespace key = n) (pending s))"

definition streams_exact :: "'f registry \<Rightarrow> bool" where
  "streams_exact s \<longleftrightarrow> distinct (map fst (pending s)) \<and> (\<forall>n. stream_count s n = pending_in n s)"

lemma streams_exact_cong:
  "pending s' = pending s \<Longrightarrow> stream_counts s' = stream_counts s \<Longrightarrow> streams_exact s \<Longrightarrow> streams_exact s'"
  by (simp add: streams_exact_def stream_count_def pending_in_def)

lemma streams_exact_ended:
  assumes "streams_exact s" "map_of (pending s) client = Some (server, gen, key)"
  shows "streams_exact (s\<lparr>pending := AList.delete client (pending s),
      stream_counts := decrement_namespace_stream_count (key_namespace key) (stream_counts s)\<rparr>)"
proof -
  have step: "length (filter (\<lambda>(i, sv, g, k). key_namespace k = n) (AList.delete client (pending s))) +
      (if key_namespace key = n then 1 else 0) = pending_in n s" for n
    using count_delete [OF assms(2), of "\<lambda>(sv, g, k). key_namespace k = n"] assms(1)
    by (simp add: streams_exact_def pending_in_def)
  have "length (filter (\<lambda>(i, sv, g, k). key_namespace k = n) (AList.delete client (pending s))) =
      pending_in n s - (if n = key_namespace key then 1 else 0)" for n
    using step [of n] by (simp split: if_splits)
  moreover have "stream_count s n = pending_in n s" for n
    using assms(1) by (simp add: streams_exact_def)
  ultimately have "length (filter (\<lambda>(i, sv, g, k). key_namespace k = n) (AList.delete client (pending s))) =
      stream_count s n - (if n = key_namespace key then 1 else 0)" for n
    by simp
  then show ?thesis
    using assms(1) unfolding streams_exact_def pending_in_def
    by (simp add: distinct_delete stream_count_def stream_count_decrement)
qed

text \<open>
  A subscriber that is already waiting asks again only within its namespace: it is the same
  connection, with the one service it named.
\<close>

definition orderly_task :: "'f registry \<Rightarrow> manager_task \<Rightarrow> bool" where
  "orderly_task s t = (case t of
       Subscribe key client ch ex \<Rightarrow>
         (case map_of (pending s) client of
            None \<Rightarrow> True
          | Some (server, gen, key') \<Rightarrow> key_namespace key' = key_namespace key)
     | _ \<Rightarrow> True)"

fun orderly :: "'f float_ops \<Rightarrow> relay_limits \<Rightarrow> manager_task list \<Rightarrow> 'f registry \<Rightarrow> bool" where
  "orderly F L [] s = True"
| "orderly F L (t # ts) s = (orderly_task s t \<and> orderly F L ts (manage F L t s))"

definition no_subscribe :: "manager_task set" where
  "no_subscribe = {t. \<forall>key client ch ex. t \<noteq> Subscribe key client ch ex}"

interpretation counted: registry_invariant streams_exact F L no_subscribe for F L
proof
  fix s s' :: "'f registry"
  show "core s' = core s \<Longrightarrow> streams_exact s \<Longrightarrow> streams_exact s'"
    by (rule streams_exact_cong) (auto dest: core_fields)
next
  fix s :: "'f registry"
  show "streams_exact s \<Longrightarrow> streams_exact (fst (get_conn_id (registered_ids (services s)) s))"
    by (erule streams_exact_cong [rotated 2]) (simp_all add: get_conn_id_def get_next_id_def split: prod.split option.split)
next
  fix s :: "'f registry" and i
  show "streams_exact s \<Longrightarrow> streams_exact (fst (deregister_conn i s))"
    by (erule streams_exact_cong [rotated 2]) (simp_all add: deregister_conn_def)
next
  fix s :: "'f registry" and client server gen key
  show "streams_exact s \<Longrightarrow> map_of (pending s) client = Some (server, gen, key) \<Longrightarrow>
      streams_exact (s\<lparr>pending := AList.delete client (pending s),
        stream_counts := decrement_namespace_stream_count (key_namespace key) (stream_counts s)\<rparr>)"
    by (rule streams_exact_ended)
qed (auto simp: no_subscribe_def sign_up_fields elim!: streams_exact_cong [rotated 2])

lemma streams_exact_waiting:
  assumes ex: "streams_exact s"
    and same: "\<And>server' gen' key'. map_of (pending s) client = Some (server', gen', key') \<Longrightarrow>
      key_namespace key' = key_namespace key"
  shows "streams_exact (add_pending client server gen key s)"
proof (cases "map_of (pending s) client")
  case None
  then show ?thesis
    using ex map_of_eq_None_iff [of "pending s" client]
    by (auto simp: streams_exact_def pending_in_def stream_count_add_pending add_pending_fields update_new)
next
  case (Some v0)
  obtain sv g k where v0: "v0 = (sv, g, k)"
    by (cases v0)
  have "length (filter (\<lambda>(i, sv, g, k). key_namespace k = n) (AList.update client (server, gen, key) (pending s))) =
      pending_in n s" for n
    using count_update_old [OF Some, of "\<lambda>(sv, g, k). key_namespace k = n" "(server, gen, key)"] ex same
    by (simp add: streams_exact_def pending_in_def Some v0)
  then show ?thesis
    using ex by (simp add: streams_exact_def pending_in_def stream_count_add_pending add_pending_fields Some
        distinct_update)
qed

lemma add_pending_cong:
  "pending s' = pending s \<Longrightarrow> stream_counts s' = stream_counts s \<Longrightarrow>
   pending (add_pending client server gen key s') = pending (add_pending client server gen key s) \<and>
   stream_counts (add_pending client server gen key s') = stream_counts (add_pending client server gen key s)"
  by (simp add: add_pending_def Let_def)

section \<open>Selecting a registration\<close>

text \<open>The candidates \<open>ds\<close> turned out to be unreachable: they are signed off, and nothing was sent.\<close>

definition passed :: "server_conn list \<Rightarrow> 'f registry \<Rightarrow> 'f registry \<Rightarrow> bool" where
  "passed ds s s0 \<longleftrightarrow> pending s0 = pending s \<and> stream_counts s0 = stream_counts s \<and> effects s0 = effects s \<and>
     next_id s0 = next_id s \<and> (\<forall>d\<in>set ds. active_conns s0 (sc_conn_id d) = None) \<and>
     (\<forall>i. i \<notin> sc_conn_id ` set ds \<longrightarrow> active_conns s0 i = active_conns s i)"

lemma passed_refl [simp]: "passed [] s s"
  by (simp add: passed_def)

lemma passed_drop:
  assumes "passed ds (drop_server_conn key (sc_conn_id c) s1) s0"
    and "pending s1 = pending s" "stream_counts s1 = stream_counts s" "effects s1 = effects s"
      "next_id s1 = next_id s" "active_conns s1 = active_conns s"
  shows "passed (c # ds) s s0"
proof -
  let ?s = "s1\<lparr>services := remove_server_conn key (sc_conn_id c) (services s1)\<rparr>"
  have d: "deregister_conn (sc_conn_id c) ?s = (drop_server_conn key (sc_conn_id c) s1, snd (deregister_conn (sc_conn_id c) ?s))"
    by (simp add: drop_server_conn_def)
  note f = deregister_fields [OF d]
  have others: "\<forall>i. i \<notin> sc_conn_id ` set ds \<longrightarrow> active_conns s0 i = ((active_conns s)(sc_conn_id c := None)) i"
      and gone: "\<forall>x\<in>set ds. active_conns s0 (sc_conn_id x) = None"
    using assms f unfolding passed_def by simp_all
  have "active_conns s0 (sc_conn_id c) = None"
    using others gone by (cases "sc_conn_id c \<in> sc_conn_id ` set ds") auto
  then show ?thesis
    using assms f others gone unfolding passed_def by simp
qed

lemma try_outcome:
  assumes "try_candidates key client ch cs s = (s', picked)"
  shows "if picked
    then \<exists>pre c post s0 sch s1. cs = pre @ c # post \<and> passed pre s s0 \<and> active_conns s0 (sc_conn_id c) = Some sch \<and>
      send_task sch (TaskStreamReq client (sc_generation c)) s0 = (s1, True) \<and> s' = subscribe_selected key client ch c s1
    else passed cs s s'"
  using assms
proof (induction cs arbitrary: s)
  case (Cons c cs)
  have skip: ?case
    if rest: "try_candidates key client ch cs (drop_server_conn key (sc_conn_id c) s1) = (s', picked)"
      and s1: "pending s1 = pending s" "stream_counts s1 = stream_counts s" "effects s1 = effects s"
        "next_id s1 = next_id s" "active_conns s1 = active_conns s" for s1
  proof (cases picked)
    case True
    from Cons.IH [OF rest] True obtain pre d post s0 sch s2 where "cs = pre @ d # post"
        "passed pre (drop_server_conn key (sc_conn_id c) s1) s0" "active_conns s0 (sc_conn_id d) = Some sch"
        "send_task sch (TaskStreamReq client (sc_generation d)) s0 = (s2, True)"
        "s' = subscribe_selected key client ch d s2"
      by auto
    moreover from this have "passed (c # pre) s s0"
      using passed_drop [of pre key c s1 s0 s] s1 by simp
    ultimately have "\<exists>pre d post s0 sch s1. c # cs = pre @ d # post \<and> passed pre s s0 \<and>
        active_conns s0 (sc_conn_id d) = Some sch \<and>
        send_task sch (TaskStreamReq client (sc_generation d)) s0 = (s1, True) \<and>
        s' = subscribe_selected key client ch d s1"
      by (metis append_Cons)
    then show ?thesis
      using True by simp
  next
    case False
    then show ?thesis
      using Cons.IH [OF rest] passed_drop [of cs key c s1 s' s] s1 by simp
  qed
  show ?case
  proof (cases "active_conns s (sc_conn_id c)")
    case None
    then show ?thesis
      using skip [of s] Cons.prems by simp
  next
    case (Some sch)
    obtain s1 ok where sent: "send_task sch (TaskStreamReq client (sc_generation c)) s = (s1, ok)"
      by (cases "send_task sch (TaskStreamReq client (sc_generation c)) s")
    show ?thesis
    proof (cases ok)
      case True
      then have "picked" "s' = subscribe_selected key client ch c s1"
        using Cons.prems Some sent by simp_all
      then show ?thesis
        using Some sent True by (auto intro!: exI [of _ "[]"] exI [of _ s])
    next
      case False
      then show ?thesis
        using skip [of s1] send_fields [OF sent] Cons.prems Some sent by simp
    qed
  qed
qed simp

lemma rate_token_fields:
  assumes "take_rate_token F L n s = (s1, ok)"
  shows "pending s1 = pending s" "stream_counts s1 = stream_counts s" "effects s1 = effects s"
    "next_id s1 = next_id s" "active_conns s1 = active_conns s" "services s1 = services s"
  using assms by (auto simp: take_rate_token_def Let_def instant_now_def split: option.splits prod.splits)

lemma subscribe_selected_fields:
  assumes "subscribe_selected key client ch c s = s'"
  defines "s0 \<equiv> if active_conns s client = None then sign_up_conn_sender client ch s else s"
  shows "pending s' = pending (add_pending client (sc_conn_id c) (sc_generation c) key s)"
    "stream_counts s' = stream_counts (add_pending client (sc_conn_id c) (sc_generation c) key s)"
    "\<exists>ok. effects s' = effects s @ (if ok then [Sent ch (SubscribeResp (sc_conn_id c) (sc_generation c) (sc_need_codec c)
       (sc_is_datagram c))] else [])"
    "\<And>i. i \<noteq> client \<Longrightarrow> active_conns s' i = active_conns s i"
proof -
  let ?a = "add_pending client (sc_conn_id c) (sc_generation c) key s0"
  have s0: "pending s0 = pending s" "stream_counts s0 = stream_counts s" "effects s0 = effects s"
      "\<And>i. i \<noteq> client \<Longrightarrow> active_conns s0 i = active_conns s i"
    by (simp_all add: s0_def sign_up_conn_sender_def)
  obtain s2 ok where sent: "send_task ch (SubscribeResp (sc_conn_id c) (sc_generation c) (sc_need_codec c)
      (sc_is_datagram c)) ?a = (s2, ok)"
    by (cases "send_task ch (SubscribeResp (sc_conn_id c) (sc_generation c) (sc_need_codec c) (sc_is_datagram c)) ?a")
  have s': "s' = (if ok then s2 else fst (deregister_conn client s2))"
    using assms(1) sent by (cases ok) (simp_all add: subscribe_selected_def Let_def s0_def)
  note f = send_fields [OF sent] add_pending_cong [OF s0(1,2), of client "sc_conn_id c" "sc_generation c" key]
  obtain s3 r where d: "deregister_conn client s2 = (s3, r)"
    by (cases "deregister_conn client s2")
  note g = deregister_fields [OF d]
  show "pending s' = pending (add_pending client (sc_conn_id c) (sc_generation c) key s)"
    "stream_counts s' = stream_counts (add_pending client (sc_conn_id c) (sc_generation c) key s)"
    "\<And>i. i \<noteq> client \<Longrightarrow> active_conns s' i = active_conns s i"
    using f g s0(4) by (simp_all add: s' d add_pending_fields)
  show "\<exists>ok. effects s' = effects s @ (if ok then [Sent ch (SubscribeResp (sc_conn_id c) (sc_generation c)
      (sc_need_codec c) (sc_is_datagram c))] else [])"
    using f g s0(3) by (intro exI [of _ ok]) (simp add: s' d add_pending_fields)
qed

lemma subscribe_streams:
  assumes "manage_subscribe F L key client ch ex s = s'"
  shows "(pending s' = pending s \<and> stream_counts s' = stream_counts s) \<or>
    (\<exists>server gen. pending s' = pending (add_pending client server gen key s) \<and>
       stream_counts s' = stream_counts (add_pending client server gen key s))"
proof (cases "map_of (services s) key")
  case None
  then show ?thesis
    using assms by (auto simp: manage_subscribe_def Let_def subscribe_unavailable_def send_subscribe_failed_def
        send_subscribe_retry_def send_task_def)
next
  case (Some cs)
  obtain s1 ok where t: "take_rate_token F L (key_namespace key) s = (s1, ok)"
    by (cases "take_rate_token F L (key_namespace key) s")
  obtain s2 picked where c: "try_candidates key client ch (candidates ex cs) s1 = (s2, picked)"
    by (cases "try_candidates key client ch (candidates ex cs) s1")
  note r = rate_token_fields [OF t]
  have out: "s' = fst (send_task ch (SubscribeFailed ''namespace_stream_limit_exceeded'' True) s) \<or>
      s' = fst (send_task ch (SubscribeFailed ''namespace_stream_rate_exceeded'' True) s1) \<or>
      picked \<and> s' = s2 \<or> \<not> picked \<and> s' = subscribe_unavailable ch ex s2"
    using assms Some t c by (auto simp: manage_subscribe_def Let_def split: if_splits bool.splits)
  show ?thesis
  proof (cases picked)
    case True
    from try_outcome [OF c] True obtain pre c post s0 sch s3 where "passed pre s1 s0"
        "send_task sch (TaskStreamReq client (sc_generation c)) s0 = (s3, True)"
        "s2 = subscribe_selected key client ch c s3"
      by auto
    then have "pending s2 = pending (add_pending client (sc_conn_id c) (sc_generation c) key s)"
        "stream_counts s2 = stream_counts (add_pending client (sc_conn_id c) (sc_generation c) key s)"
      using subscribe_selected_fields [of key client ch c s3 s2] send_fields [of sch _ s0 s3 True] r
        add_pending_cong [of s3 s client "sc_conn_id c" "sc_generation c" key] by (auto simp: passed_def)
    then show ?thesis
      using out r True by (auto simp: send_task_def Let_def)
  next
    case False
    then have "pending s2 = pending s" "stream_counts s2 = stream_counts s"
      using try_outcome [OF c] r by (simp_all add: passed_def)
    then show ?thesis
      using out r False by (auto simp: send_task_def Let_def subscribe_unavailable_def send_subscribe_failed_def
        send_subscribe_retry_def)
  qed
qed

lemma streams_exact_task:
  assumes "streams_exact s" "orderly_task s t"
  shows "streams_exact (manage F L t s)"
proof (cases "t \<in> no_subscribe")
  case True
  then show ?thesis
    using counted.task assms(1) by blast
next
  case False
  then obtain key client ch ex where t: "t = Subscribe key client ch ex"
    by (auto simp: no_subscribe_def)
  have "streams_exact (add_pending client server gen key s)" for server gen
    using assms by (intro streams_exact_waiting) (auto simp: orderly_task_def t split: option.splits)
  then show ?thesis
    using subscribe_streams [of F L key client ch ex s] assms(1) streams_exact_cong
    unfolding t manage.simps by blast
qed


text \<open>A relay with one service and one waiting subscriber.\<close>

lemmas manager_defs =
  manage_accept_def manage_register_def manage_subscribe_def manage_stream_def register_failure_def
  get_conn_id_def get_next_id_def is_valid_id_def sign_up_conn_sender_def send_task_def emit_def
  instant_now_def take_rate_token_def rate_limit_new_def allow_def exact_ops_def candidates_def
  subscribe_selected_def add_pending_def registered_ids_def registry_new_def Let_def mark_healthy_def

definition toy_limits :: relay_limits where
  "toy_limits = limits_from_env (\<lambda>_. None) 15000"

definition toy_tasks :: "manager_task list" where
  "toy_tasks = [Accept 100, Accept 101, Register [97] 0 False False 2 10, Subscribe [97] 1 11 []]"

abbreviation toy_registry :: "rat registry" where
  "toy_registry \<equiv> manager_run exact_ops toy_limits toy_tasks (registry_new (\<lambda>_. True) (\<lambda>_. 0))"

lemma toy_limits_simps [simp]:
  "max_streams_per_namespace toy_limits = 1024" "max_services_per_namespace toy_limits = 256"
  "max_register_connections_per_service toy_limits = 16" "new_streams_burst toy_limits = 200"
  "new_streams_per_second toy_limits = 100" "lease_ttl_ms toy_limits = 15000"
  by (simp_all add: toy_limits_def limits_from_env_def env_limit_def)


lemma toy_pending: "map_of (pending toy_registry) 1 = Some (0, 1, [97])" "active_conns toy_registry 1 = Some 11"
  by (simp_all add: toy_tasks_def manager_defs key_namespace_def split_scoped_service_key_def split_once_nul_def)

section \<open>Streams\<close>

lemma stream_effect:
  assumes "effects (manage F L (Stream key stream session server client gen) s) \<noteq> effects s"
  shows "\<exists>ch srv g. map_of (pending s) client = Some (srv, g, key) \<and> (gen = 0 \<or> gen = g) \<and>
    active_conns s client = Some ch \<and>
    effects (manage F L (Stream key stream session server client gen) s) =
      effects s @ [Sent ch (TaskStreamResp server g stream session)]"
  using assms by (auto simp: manage_stream_def send_task_def Let_def split: option.splits if_splits)

lemma pending_provenance:
  "pending_from (set ts) (pending (manager_run F L ts (registry_new outcome clock)))"
  using origin.run [OF order_refl, of ts "registry_new outcome clock" F L]
  by (simp add: registry_new_def from_tasks_def conns_from_def pending_from_def)

text \<open>
  C14: A stream connection is handed on only to the subscriber it was requested for: if the manager
  reacts to it at all, it sends the stream to the channel of the client it names, that client is
  waiting for exactly this service key, a subscription of that client to that key and a registration
  of the asked connection under that key were made before, and the generation presented is the one
  the request was made with (or the zero of the old protocol).
\<close>

theorem stream_reaches_its_subscriber:
  fixes F :: "'f float_ops" and outcome clock
  defines "start \<equiv> registry_new outcome clock"
  assumes "effects (manage F L (Stream key stream session server client gen) (manager_run F L ts start)) \<noteq>
      effects (manager_run F L ts start)"
  shows "\<exists>ch srv g. effects (manage F L (Stream key stream session server client gen) (manager_run F L ts start)) =
        effects (manager_run F L ts start) @ [Sent ch (TaskStreamResp server g stream session)] \<and>
      active_conns (manager_run F L ts start) client = Some ch \<and>
      map_of (pending (manager_run F L ts start)) client = Some (srv, g, key) \<and> (gen = 0 \<or> gen = g) \<and>
      (\<exists>sch ex. Subscribe key client sch ex \<in> set ts) \<and> (\<exists>nc dg v rch. Register key srv nc dg v rch \<in> set ts)"
  using stream_effect [OF assms(2)] pending_provenance [of ts F L outcome clock]
  unfolding start_def pending_from_def by blast

theorem stream_reaches_its_subscriber_witness:
  "\<exists>ch g. effects (manage exact_ops toy_limits (Stream [97] 102 undefined 2 1 0) toy_registry) =
     effects toy_registry @ [Sent ch (TaskStreamResp 2 g 102 undefined)]"
proof -
  have "effects (manage exact_ops toy_limits (Stream [97] 102 undefined 2 1 0) toy_registry) \<noteq> effects toy_registry"
    using toy_pending by (simp add: toy_tasks_def manager_defs key_namespace_def split_scoped_service_key_def
        split_once_nul_def)
  from stream_reaches_its_subscriber [OF this] show ?thesis
    by blast
qed


lemma toy_tenant:
  "snd (route_request toy_env toy_cfg (context_from_lease 0x100000000 False 1) V2Protocol None None
     (SubscribeReq [97]) toy_state) = ToSubscribe (scope_key 0x100000000 [97])"
  "snd (route_request toy_env toy_cfg (context_from_lease 7 False 1) V2Protocol None None
     (StreamReq [97] 1 0) toy_state) = ToStream (scope_key 7 [97]) 1 0"
  by (simp_all add: route_request_def resolve_namespace_def context_from_lease_def Let_def is_register_req_def
      scope_service_or_reject_def scoped_service_key_def is_service_byte_def run_while_credential_active_def
      ensure_active_def lease_alive_def toy_state_def lease_new_def unix_seconds_def)


end
