(* ===== verification/RelayProps.thy ===== *)
theory RelayProps
  imports RegistryProps
begin

text \<open>
  More of what the connection manager promises: which registration a subscriber gets, that accepted
  connections get unused ids, complete inventories and the bound of the rate limiter; and a trace in
  which a late deregistration hits the successor of a retired connection.
\<close>

section \<open>Which registration a subscriber gets\<close>

lemma filter_split:
  assumes "filter P xs = pre @ d # post"
  shows "\<exists>us vs. xs = us @ d # vs \<and> (\<forall>u\<in>set us. P u \<longrightarrow> u \<in> set pre) \<and> P d"
  using assms
proof (induction xs arbitrary: pre)
  case (Cons x xs)
  show ?case
  proof (cases "P x \<and> pre = []")
    case True
    then show ?thesis
      using Cons.prems by (intro exI [of _ "[]"] exI [of _ xs]) auto
  next
    case False
    then obtain pre' where "filter P xs = pre' @ d # post" "set pre' \<subseteq> set pre" "P x \<longrightarrow> x \<in> set pre"
      using Cons.prems by (cases "P x"; cases pre) auto
    with Cons.IH [of pre'] obtain us vs where "xs = us @ d # vs" "\<forall>u\<in>set us. P u \<longrightarrow> u \<in> set pre" "P d"
      by blast
    then show ?thesis
      using \<open>P x \<longrightarrow> x \<in> set pre\<close> by (intro exI [of _ "x # us"] exI [of _ vs]) auto
  qed
qed simp

text \<open>
  C16: When the manager asks a registered connection for a stream, it is the newest one of the service
  that can serve: it is healthy and not excluded by the subscriber, its channel is the one signed up
  for it, every newer connection of the service was unhealthy, excluded, or unreachable and has been
  signed off, and the subscriber is now waiting for exactly this connection and generation.
\<close>

theorem subscriber_gets_the_newest_reachable:
  assumes "effects (manage F L (Subscribe key client ch ex) s) = effects s @ out"
    and "Sent sch (TaskStreamReq client' gen) \<in> set out"
  shows "\<exists>cs pre c post. map_of (services s) key = Some cs \<and> rev cs = pre @ c # post \<and>
      client' = client \<and> gen = sc_generation c \<and> sc_health c = Healthy \<and> (sc_conn_id c, gen) \<notin> set ex \<and>
      active_conns s (sc_conn_id c) = Some sch \<and>
      (\<forall>d\<in>set pre. sc_health d = Healthy \<longrightarrow> (sc_conn_id d, sc_generation d) \<in> set ex \<or>
         sc_conn_id d = client \<or> active_conns (manage F L (Subscribe key client ch ex) s) (sc_conn_id d) = None) \<and>
      map_of (pending (manage F L (Subscribe key client ch ex) s)) client = Some (sc_conn_id c, gen, key)"
proof -
  let ?s' = "manage_subscribe F L key client ch ex s"
  let ?P = "\<lambda>c. sc_health c = Healthy \<and> (sc_conn_id c, sc_generation c) \<notin> set ex"
  have out: "effects ?s' = effects s @ out"
    using assms(1) by simp
  have noise: False if "effects (fst (send_task ch t s1)) = effects s @ out" "effects s1 = effects s"
      "t \<noteq> TaskStreamReq client' gen" for t s1
    using that assms(2) by (auto simp: send_task_def Let_def split: if_splits)
  have silent: False if "subscribe_unavailable ch ex s1 = ?s'" "effects s1 = effects s" for s1
    using noise [of SubscribeRetry s1] noise [of "SubscribeFailed ''service_not_available'' True" s1] that out
    by (auto simp: subscribe_unavailable_def send_subscribe_failed_def send_subscribe_retry_def split: if_splits)
  obtain cs where cs: "map_of (services s) key = Some cs"
    using silent [of s] noise [of "SubscribeFailed ''namespace_stream_limit_exceeded'' True" s] out
    by (cases "map_of (services s) key") (auto simp: manage_subscribe_def Let_def split: if_splits)
  obtain s1 ok where t: "take_rate_token F L (key_namespace key) s = (s1, ok)"
    by (cases "take_rate_token F L (key_namespace key) s")
  obtain s2 picked where c: "try_candidates key client ch (candidates ex cs) s1 = (s2, picked)"
    by (cases "try_candidates key client ch (candidates ex cs) s1")
  note r = rate_token_fields [OF t]
  have "\<not> max_streams_per_namespace L \<le> stream_count s (key_namespace key)"
    using noise [of "SubscribeFailed ''namespace_stream_limit_exceeded'' True" s] out
    by (auto simp: manage_subscribe_def Let_def stream_count_def)
  moreover have ok
    using noise [of "SubscribeFailed ''namespace_stream_rate_exceeded'' True" s1] out r t cs calculation
    by (cases ok) (auto simp: manage_subscribe_def Let_def stream_count_def)
  ultimately have s': "?s' = (if picked then s2 else subscribe_unavailable ch ex s2)"
    by (simp add: manage_subscribe_def Let_def stream_count_def t c cs split: bool.split)
  have picked: picked
    using silent [of s2] try_outcome [OF c] r s' by (auto simp: passed_def split: if_splits)
  with try_outcome [OF c] obtain pre d post s0 dch s3 where d: "candidates ex cs = pre @ d # post"
      and pre: "passed pre s1 s0" and dch: "active_conns s0 (sc_conn_id d) = Some dch"
      and sent: "send_task dch (TaskStreamReq client (sc_generation d)) s0 = (s3, True)"
      and sel: "s2 = subscribe_selected key client ch d s3"
    by auto
  note f = subscribe_selected_fields [OF sel [symmetric]] send_fields [OF sent]
  have eff: "out = [Sent dch (TaskStreamReq client (sc_generation d))] \<or>
      out = [Sent dch (TaskStreamReq client (sc_generation d)),
        Sent ch (SubscribeResp (sc_conn_id d) (sc_generation d) (sc_need_codec d) (sc_is_datagram d))]"
    using f(3) f(13) out s' picked pre r by (auto simp: passed_def split: if_splits)
  then have same: "sch = dch" "client' = client" "gen = sc_generation d"
    using assms(2) by auto
  have active: "active_conns s (sc_conn_id d) = Some dch"
    using pre dch r by (cases "sc_conn_id d \<in> sc_conn_id ` set pre") (auto simp: passed_def)
  from filter_split [OF d [unfolded candidates_def]] obtain us vs
    where uv: "rev cs = us @ d # vs" "\<forall>u\<in>set us. ?P u \<longrightarrow> u \<in> set pre" "?P d"
    by blast
  have gone: "active_conns ?s' (sc_conn_id x) = None \<or> sc_conn_id x = client" if "x \<in> set pre" for x
    using that pre f(4) f(7) s' picked by (auto simp: passed_def)
  have "\<forall>x\<in>set us. sc_health x = Healthy \<longrightarrow> (sc_conn_id x, sc_generation x) \<in> set ex \<or>
      sc_conn_id x = client \<or> active_conns ?s' (sc_conn_id x) = None"
    using uv(2) gone by (intro ballI impI) metis
  moreover have "map_of (pending ?s') client = Some (sc_conn_id d, gen, key)"
    using f(1) s' picked by (simp add: add_pending_fields AList.update_conv' same)
  ultimately show ?thesis
    unfolding manage.simps using cs uv same active by blast
qed

theorem subscriber_gets_the_newest_reachable_witness:
  "\<exists>out sch. effects (manage exact_ops toy_limits (Subscribe [97] 1 11 []) toy_registry) = effects toy_registry @ out \<and>
     Sent sch (TaskStreamReq 1 1) \<in> set out \<and> active_conns toy_registry 0 = Some sch"
proof -
  have eff: "effects (manage exact_ops toy_limits (Subscribe [97] 1 11 []) toy_registry) =
      effects toy_registry @ [Sent 10 (TaskStreamReq 1 1), Sent 11 (SubscribeResp 0 1 False False)]"
    and cs: "map_of (services toy_registry) [97] = Some [\<lparr>sc_conn_id = 0, sc_generation = 1, sc_health = Healthy,
      sc_need_codec = False, sc_is_datagram = False, sc_protocol_version = 2, sc_last_rx_at = 0\<rparr>]"
    by (simp_all add: toy_tasks_def manager_defs key_namespace_def split_scoped_service_key_def
        split_once_nul_def sat_add_def u64_max_def)
  from subscriber_gets_the_newest_reachable [OF eff, of 10 1 1] cs show ?thesis
    using eff by (auto simp: append_eq_Cons_conv Cons_eq_append_conv)
qed

section \<open>Connection ids\<close>

definition ids_ok :: "'f registry \<Rightarrow> bool" where
  "ids_ok s \<longleftrightarrow> (\<forall>i. active_conns s i \<noteq> None \<longrightarrow> i < next_id s) \<and>
     (\<forall>i\<in>set (registered_ids (services s)). i < next_id s)"

lemma pop_idle_unused:
  "pop_idle registered ids s = (rest, Some i) \<Longrightarrow> i < next_id s \<and> active_conns s i = None \<and> i \<notin> set registered"
  by (induction registered ids s rule: pop_idle.induct) (auto simp: is_valid_id_def split: if_splits)

lemma word_step:
  fixes n :: "32 word"
  assumes "n + 1 \<noteq> 0"
  shows "unat (n + 1) = Suc (unat n)" "i \<le> n \<Longrightarrow> i < n + 1"
  using assms unatSuc [of n] by (auto simp: add.commute word_less_nat_alt word_le_nat_alt)

lemma accept_unused:
  assumes ok: "ids_ok s" and get: "get_conn_id (registered_ids (services s)) s = (s', i)" and room: "next_id s + 1 \<noteq> 0"
  shows "active_conns s i = None" "i \<notin> set (registered_ids (services s))" "ids_ok s'" "effects s' = effects s"
    "unat (next_id s') \<le> unat (next_id s) + 1"
proof -
  have fields: "effects s' = effects s" "active_conns s' = active_conns s" "services s' = services s"
    using get by (auto simp: get_conn_id_def get_next_id_def split: prod.splits option.splits)
  have new: "(active_conns s i = None \<and> i \<notin> set (registered_ids (services s)) \<and> next_id s' = next_id s) \<or>
      (i = next_id s \<and> next_id s' = next_id s + 1)"
    using get by (auto simp: get_conn_id_def get_next_id_def split: prod.splits option.splits dest: pop_idle_unused)
  show "effects s' = effects s"
    by (rule fields)
  show "active_conns s i = None" "i \<notin> set (registered_ids (services s))"
    using new ok by (auto simp: ids_ok_def)
  show "ids_ok s'"
    using new ok fields word_step(2) [OF room] by (auto simp: ids_ok_def less_imp_le)
  show "unat (next_id s') \<le> unat (next_id s) + 1"
    using new word_step(1) [OF room] by auto
qed

lemma registered_ids_simps [simp]:
  "registered_ids [] = []" "registered_ids ((key, cs) # m) = map sc_conn_id cs @ registered_ids m"
  by (simp_all add: registered_ids_def)

lemma registered_ids_touch: "keeps_conn f \<Longrightarrow> registered_ids (touch_map p f m) = registered_ids m"
proof (induction p f m rule: touch_map.induct)
  case (2 p f key cs m)
  have "map sc_conn_id (touch_first p f cs) = map sc_conn_id cs"
    by (rule touch_first_map) (use 2(2) in \<open>simp add: keeps_conn_def\<close>)
  then show ?case
    using 2 by simp
qed simp

lemma registered_ids_update:
  "set (registered_ids (AList.update key cs m)) \<subseteq> sc_conn_id ` set cs \<union> set (registered_ids m)"
  by (induction m rule: list.induct) (simp, case_tac x1, auto)

lemma registered_ids_delete: "set (registered_ids (AList.delete key m)) \<subseteq> set (registered_ids m)"
  by (induction m rule: list.induct) (simp, case_tac x1, auto)

lemma registered_ids_found: "map_of m key = Some cs \<Longrightarrow> sc_conn_id ` set cs \<subseteq> set (registered_ids m)"
  by (induction m rule: list.induct) (simp, case_tac x1, auto split: if_splits)

lemma registered_ids_remove: "set (registered_ids (remove_server_conn key i m)) \<subseteq> set (registered_ids m)"
proof (cases "map_of m key")
  case (Some cs)
  have "sc_conn_id ` set (remove_conn i cs) \<subseteq> set (registered_ids m)"
    using registered_ids_found [OF Some] image_mono [OF remove_conn_subset, of sc_conn_id i cs] by blast
  then have "set (registered_ids (AList.update key (remove_conn i cs) m)) \<subseteq> set (registered_ids m)"
    using registered_ids_update [of key "remove_conn i cs" m] by blast
  then show ?thesis
    using Some registered_ids_delete [of key m] by (simp add: remove_server_conn_def)
qed (simp add: remove_server_conn_def)

lemma registered_ids_snoc:
  assumes "sc_conn_id ` set old \<subseteq> set (registered_ids m)"
  shows "set (registered_ids (AList.update key (old @ [c]) m)) \<subseteq> insert (sc_conn_id c) (set (registered_ids m))"
proof
  fix x
  assume "x \<in> set (registered_ids (AList.update key (old @ [c]) m))"
  then have "x \<in> sc_conn_id ` set (old @ [c]) \<or> x \<in> set (registered_ids m)"
    by (rule UnE [OF subsetD [OF registered_ids_update]]) blast+
  then show "x \<in> insert (sc_conn_id c) (set (registered_ids m))"
    using subsetD [OF assms, of x] by (auto simp del: registered_ids_simps)
qed

text \<open>Tasks that accept no connection and register only ids handed out below \<open>n\<close>.\<close>

definition known_tasks :: "conn_id \<Rightarrow> manager_task set" where
  "known_tasks n = {t. (\<forall>stream. t \<noteq> Accept stream) \<and>
     (\<forall>key i nc dg v ch. t = Register key i nc dg v ch \<longrightarrow> i < n)}"

lemma ids_ok_less:
  assumes "ids_ok s" "next_id s' = next_id s" "set (registered_ids (services s')) \<subseteq> set (registered_ids (services s))"
    and "\<And>i. active_conns s' i \<noteq> None \<Longrightarrow> active_conns s i \<noteq> None \<or> i < next_id s"
  shows "ids_ok s'"
  using assms unfolding ids_ok_def by (simp add: subset_iff) blast

interpretation ids: registry_invariant "\<lambda>s. next_id s = n \<and> ids_ok s" F L "known_tasks n" for F L n
proof
  fix s s' :: "'f registry"
  show "core s' = core s \<Longrightarrow> next_id s = n \<and> ids_ok s \<Longrightarrow> next_id s' = n \<and> ids_ok s'"
    using core_fields(1,3,4) [of s' s] unfolding ids_ok_def by auto
next
  fix s :: "'f registry" and key i
  assume ok: "next_id s = n \<and> ids_ok s"
  then show "next_id (s\<lparr>services := remove_server_conn key i (services s)\<rparr>) = n \<and>
      ids_ok (s\<lparr>services := remove_server_conn key i (services s)\<rparr>)"
    using registered_ids_remove [of key i "services s"] ids_ok_less [of s "s\<lparr>services := remove_server_conn key i (services s)\<rparr>"]
    by simp
next
  fix s :: "'f registry" and p f
  assume "next_id s = n \<and> ids_ok s" "keeps_conn f"
  then show "next_id (s\<lparr>services := touch_map p f (services s)\<rparr>) = n \<and>
      ids_ok (s\<lparr>services := touch_map p f (services s)\<rparr>)"
    using ids_ok_less [of s "s\<lparr>services := touch_map p f (services s)\<rparr>"] by (simp add: registered_ids_touch)
next
  fix s :: "'f registry" and key cs p f
  assume ok: "next_id s = n \<and> ids_ok s" and cs: "map_of (services s) key = Some cs" and f: "keeps_conn f"
  have "map sc_conn_id (touch_first p f cs) = map sc_conn_id cs"
    by (rule touch_first_map) (use f in \<open>simp add: keeps_conn_def\<close>)
  then have same: "sc_conn_id ` set (touch_first p f cs) = sc_conn_id ` set cs"
    by (metis list.set_map)
  have sub: "set (registered_ids (AList.update key (touch_first p f cs) (services s))) \<subseteq>
      set (registered_ids (services s))"
    using registered_ids_update [of key "touch_first p f cs" "services s"] registered_ids_found [OF cs]
    unfolding same by (meson Un_least order_refl order_trans)
  have "ids_ok (s\<lparr>services := AList.update key (touch_first p f cs) (services s)\<rparr>)"
    by (rule ids_ok_less [of s]) (use ok sub in simp_all)
  then show "next_id (s\<lparr>services := AList.update key (touch_first p f cs) (services s)\<rparr>) = n \<and>
      ids_ok (s\<lparr>services := AList.update key (touch_first p f cs) (services s)\<rparr>)"
    using ok by simp
next
  fix s :: "'f registry" and L :: relay_limits and key i nc dg v ch now
  assume known: "Register key i nc dg v ch \<in> known_tasks n" and ok: "next_id s = n \<and> ids_ok s"
  let ?old = "case map_of (services s) key of Some cs \<Rightarrow> cs | None \<Rightarrow> []"
  let ?c = "\<lparr>sc_conn_id = i, sc_generation = next_generation s, sc_health = Healthy, sc_need_codec = nc,
            sc_is_datagram = dg, sc_protocol_version = v, sc_last_rx_at = now\<rparr>"
  have "sc_conn_id ` set ?old \<subseteq> set (registered_ids (services s))"
    using registered_ids_found [of "services s" key] by (cases "map_of (services s) key") simp_all
  from registered_ids_snoc [OF this, of key ?c]
  have "set (registered_ids (AList.update key (?old @ [?c]) (services s))) \<subseteq>
      insert i (set (registered_ids (services s)))"
    by (simp only: server_conn.select_convs)
  moreover have "i < n"
    using known by (simp add: known_tasks_def)
  ultimately show "next_id ((sign_up_conn_sender i ch s)\<lparr>next_generation := max 1 (sat_add (next_generation s) 1),
        services := AList.update key (?old @ [?c]) (services s)\<rparr>) = n \<and>
      ids_ok ((sign_up_conn_sender i ch s)\<lparr>next_generation := max 1 (sat_add (next_generation s) 1),
        services := AList.update key (?old @ [?c]) (services s)\<rparr>)"
    using ok by (auto simp: ids_ok_def sign_up_conn_sender_def)
next
  fix s :: "'f registry" and i
  show "next_id s = n \<and> ids_ok s \<Longrightarrow> next_id (fst (deregister_conn i s)) = n \<and> ids_ok (fst (deregister_conn i s))"
    by (auto simp: ids_ok_def deregister_conn_def split: if_splits)
next
  fix s :: "'f registry" and i ch
  show "next_id s = n \<and> ids_ok s \<Longrightarrow>
      next_id (sign_up_conn_sender i ch s) = n \<and> ids_ok (sign_up_conn_sender i ch s)"
    by (auto simp: ids_ok_def sign_up_conn_sender_def is_valid_id_def split: if_splits)
qed (auto simp: known_tasks_def ids_ok_def add_pending_fields)

fun known_run :: "'f float_ops \<Rightarrow> relay_limits \<Rightarrow> manager_task list \<Rightarrow> 'f registry \<Rightarrow> bool" where
  "known_run F L [] s = True"
| "known_run F L (t # ts) s =
     ((case t of Accept stream \<Rightarrow> True | Register key i nc dg v ch \<Rightarrow> i < next_id s | _ \<Rightarrow> True) \<and>
      known_run F L ts (manage F L t s))"

definition accepts :: "manager_task list \<Rightarrow> nat" where
  "accepts ts = length (filter (\<lambda>t. case t of Accept stream \<Rightarrow> True | _ \<Rightarrow> False) ts)"

lemma accept_effect:
  assumes "ids_ok s" "next_id s + 1 \<noteq> 0"
  shows "\<exists>i. effects (manage F L (Accept stream) s) = effects s @ [SpawnConn i stream] \<and>
    active_conns s i = None \<and> i \<notin> set (registered_ids (services s))"
    and "ids_ok (manage F L (Accept stream) s)"
    and "unat (next_id (manage F L (Accept stream) s)) \<le> unat (next_id s) + 1"
proof -
  obtain s' i where get: "get_conn_id (registered_ids (services s)) s = (s', i)"
    by (cases "get_conn_id (registered_ids (services s)) s")
  have m: "manage F L (Accept stream) s = emit (SpawnConn i stream) s'"
    by (simp add: manage_accept_def get)
  note u = accept_unused [OF assms(1) get assms(2)]
  show "\<exists>i. effects (manage F L (Accept stream) s) = effects s @ [SpawnConn i stream] \<and>
    active_conns s i = None \<and> i \<notin> set (registered_ids (services s))"
    using u(1,2,4) unfolding m by (auto simp: emit_def)
  show "ids_ok (manage F L (Accept stream) s)"
    and "unat (next_id (manage F L (Accept stream) s)) \<le> unat (next_id s) + 1"
    using u(3,5) unfolding m by (simp_all add: emit_def ids_ok_def)
qed

lemma room: "unat (n :: conn_id) + 1 < 2 ^ 32 \<Longrightarrow> n + 1 \<noteq> 0"
proof
  assume less: "unat n + 1 < 2 ^ 32" and "n + 1 = 0"
  then have "n = - 1"
    by (simp add: eq_neg_iff_add_eq_0)
  then show False
    using less by (simp add: unsigned_minus_1_eq_mask mask_eq_exp_minus_1)
qed

lemma known_run_ids:
  "known_run F L ts s \<Longrightarrow> ids_ok s \<Longrightarrow> unat (next_id s) + accepts ts + 1 < 2 ^ 32 \<Longrightarrow>
   ids_ok (manager_run F L ts s) \<and> unat (next_id (manager_run F L ts s)) \<le> unat (next_id s) + accepts ts"
proof (induction ts arbitrary: s)
  case (Cons t ts)
  let ?s = "manage F L t s"
  have step: "ids_ok ?s \<and> unat (next_id ?s) + accepts ts \<le> unat (next_id s) + accepts (t # ts)"
  proof (cases "\<exists>stream. t = Accept stream")
    case True
    then obtain stream where t: "t = Accept stream"
      by blast
    have "next_id s + 1 \<noteq> 0"
      by (rule room) (use Cons.prems(3) in \<open>simp add: accepts_def t\<close>)
    from accept_effect(2,3) [OF Cons.prems(2) this, of F L stream] show ?thesis
      unfolding t by (simp add: accepts_def)
  next
    case False
    then have "t \<in> known_tasks (next_id s)"
      using Cons.prems(1) by (auto simp: known_tasks_def)
    from ids.task [OF this conjI [OF refl Cons.prems(2)]] False show ?thesis
      by (auto simp: accepts_def split: manager_task.split)
  qed
  then have "known_run F L ts ?s \<and> ids_ok ?s \<and> unat (next_id ?s) + accepts ts + 1 < 2 ^ 32"
    using Cons.prems by simp
  with Cons.IH [of ?s] step Cons.prems(2) show ?case
    by (auto simp: accepts_def)
qed (simp add: accepts_def)

text \<open>
  C19: An accepted connection never gets the id of a connection that is signed up or registered:
  as long as registrations use ids the manager has handed out and fewer than $2^{32} - 1$
  connections have been accepted (so the id counter has not wrapped), the id of the next accepted
  connection is used by nobody.
\<close>

theorem accepted_connection_gets_an_unused_id:
  fixes F :: "'f float_ops" and outcome clock
  defines "start \<equiv> registry_new outcome clock"
  assumes "known_run F L ts start" "accepts ts + 1 < 2 ^ 32"
  shows "\<exists>i. effects (manage F L (Accept stream) (manager_run F L ts start)) =
        effects (manager_run F L ts start) @ [SpawnConn i stream] \<and>
      active_conns (manager_run F L ts start) i = None \<and>
      i \<notin> set (registered_ids (services (manager_run F L ts start)))"
proof -
  have "ids_ok start" "next_id start = 0"
    by (simp_all add: start_def registry_new_def ids_ok_def)
  with known_run_ids [OF assms(2)] assms(3)
  have "ids_ok (manager_run F L ts start)" "unat (next_id (manager_run F L ts start)) + 1 < 2 ^ 32"
    by auto
  from accept_effect(1) [OF this(1) room [OF this(2)]] show ?thesis .
qed

theorem accepted_connection_gets_an_unused_id_witness:
  "\<exists>i. effects (manage exact_ops toy_limits (Accept 102) toy_registry) = effects toy_registry @ [SpawnConn i 102] \<and>
     active_conns toy_registry i = None \<and> i \<notin> set (registered_ids (services toy_registry))"
proof -
  have "known_run exact_ops toy_limits toy_tasks (registry_new (\<lambda>_. True) (\<lambda>_. 0))"
    by (simp add: toy_tasks_def manager_defs)
  from accepted_connection_gets_an_unused_id [OF this] show ?thesis
    by (simp add: toy_tasks_def accepts_def)
qed

section \<open>Inventories\<close>

text \<open>
  An administrator walks an inventory page by page, starting at page 0 and following the next page
  of every answer; the fuel counts the requests.
\<close>

fun walk_pages :: "nat \<Rightarrow> nat \<Rightarrow> nat \<Rightarrow> 'i list \<Rightarrow> 'i list option" where
  "walk_pages 0 pg n items = None"
| "walk_pages (Suc fuel) pg n items =
     (let p = paginate pg n items
      in case pg_next p of
           None \<Rightarrow> Some (pg_items p)
         | Some nxt \<Rightarrow>
             (case walk_pages fuel nxt n items of
                None \<Rightarrow> None
              | Some rest \<Rightarrow> Some (pg_items p @ rest)))"

lemma clamp_bounds: "1 \<le> clamp_page_size n" "clamp_page_size n \<le> 1000"
  by (simp_all add: clamp_page_size_def)

lemma paginate_exact:
  assumes len: "length items \<le> u32_max" and start: "pg * clamp_page_size n \<le> length items"
  shows "paginate pg n items =
     \<lparr>pg_items = take (clamp_page_size n) (drop (pg * clamp_page_size n) items),
      pg_next = (if Suc pg * clamp_page_size n < length items then Some (Suc pg) else None)\<rparr>"
proof -
  let ?z = "clamp_page_size n"
  have "pg \<le> pg * ?z"
    using clamp_bounds [of n] by simp
  then have "pg \<le> u32_max"
    using start len by (rule order_trans [OF order_trans])
  moreover have "pg * ?z + ?z \<le> u64_max" "pg * ?z \<le> u64_max"
    using clamp_bounds [of n] len start by (simp_all add: u64_max_def u32_max_def)
  moreover have "Suc pg * ?z < length items \<Longrightarrow> Suc pg \<le> u32_max"
  proof -
    assume less: "Suc pg * ?z < length items"
    have "Suc pg \<le> Suc pg * ?z"
      using clamp_bounds [of n] mult_le_mono2 [of 1 ?z "Suc pg"] by simp
    then show ?thesis
      using less len by linarith
  qed
  ultimately show ?thesis
    by (auto simp: paginate_def Let_def sat_mul_def sat_add_def add.commute)
qed

lemma walk_rest:
  assumes len: "length items \<le> u32_max" and start: "pg * clamp_page_size n \<le> length items"
    and fuel: "length items < fuel + pg * clamp_page_size n"
  shows "walk_pages fuel pg n items = Some (drop (pg * clamp_page_size n) items)"
  using start fuel
proof (induction fuel arbitrary: pg)
  case (Suc fuel)
  let ?z = "clamp_page_size n"
  note page = paginate_exact [OF len Suc.prems(1)]
  show ?case
  proof (cases "Suc pg * ?z < length items")
    case True
    have "walk_pages fuel (Suc pg) n items = Some (drop (Suc pg * ?z) items)"
      by (rule Suc.IH) (use True Suc.prems clamp_bounds [of n] in simp_all)
    moreover have "drop (Suc pg * ?z) items = drop ?z (drop (pg * ?z) items)"
      by (simp add: add.commute)
    ultimately show ?thesis
      using True page by (simp del: mult_Suc drop_drop)
  next
    case False
    then show ?thesis
      using page by simp
  qed
qed simp

text \<open>
  An administrator who walks the service inventory of an unchanged table from page 0, with any
  page size, is done after at most one request more than there are services (fewer requests for
  larger pages), and has then seen the whole inventory, in order, every service once.
\<close>

theorem inventory_pages_are_complete:
  assumes "length (list_services key_id m) \<le> u32_max"
  shows "walk_pages (Suc (length (list_services key_id m))) 0 n (list_services key_id m) =
    Some (list_services key_id m)"
  using walk_rest [of "list_services key_id m" 0 n "Suc (length (list_services key_id m))"] assms
  by (simp del: walk_pages.simps)

theorem inventory_pages_are_complete_witness:
  "walk_pages (Suc (length (list_services None (services toy_registry)))) 0 1
     (list_services None (services toy_registry)) = Some (list_services None (services toy_registry))"
proof -
  have "length (services toy_registry) = 1"
    by (simp add: toy_tasks_def manager_defs)
  then have "length (list_services None (services toy_registry)) \<le> 1"
    by (cases "services toy_registry") (auto simp: list_services_def service_row_def wanted_def split: list.split)
  then show ?thesis
    by (intro inventory_pages_are_complete) (simp add: u32_max_def)
qed

section \<open>The rate of new streams\<close>

text \<open>
  C20: In exact arithmetic, a namespace's token bucket lets through, over any run of requests at
  non-decreasing instants, at most its burst plus its rate times the seconds that have passed.
\<close>

theorem new_streams_are_rate_limited:
  assumes "sorted (start # calls)"
  shows "of_nat (allowed exact_ops calls (rate_limit_new exact_ops rate burst_size start)) \<le>
    (of_nat burst_size + of_nat rate * (of_nat (last (start # calls) - start) / 1000000000) :: rat)"
  using allowed_bound [of "rate_limit_new exact_ops rate burst_size start" calls] assms
  by (simp add: rate_limit_new_def exact_ops_def refill_def)

theorem new_streams_are_rate_limited_witness:
  "of_nat (allowed exact_ops [5, 5, 1000000005] (rate_limit_new exact_ops 1 1 5)) \<le> (2 :: rat) \<and>
   allowed exact_ops [5, 5, 1000000005] (rate_limit_new exact_ops 1 1 5) = 2"
  using new_streams_are_rate_limited [of 5 "[5, 5, 1000000005]" 1 1]
  by (simp add: rate_limit_new_def exact_ops_def allow_def Let_def)

section \<open>A reused connection id\<close>

text \<open>
  Retiring a server connection frees its id at once, but its task is still to end and then signs
  off by key and id, without a generation.  If the id has been handed out again for a registration of
  the same service in between, the late sign-off removes the successor.
\<close>

definition retired_and_reused :: "rat registry" where
  "retired_and_reused = manager_run exact_ops toy_limits [Accept 100, Register [97] 0 False False 2 10,
     RetireServerConn [97] 0 [], Accept 101, Register [97] 0 False False 2 12] (registry_new (\<lambda>_. True) (\<lambda>_. 0))"

lemmas sign_off_defs =
  manage_retire_server_def manage_deregister_server_def deregister_conn_def remove_server_conn_def
  release_namespace_rate_limit_if_idle_def key_namespace_def split_scoped_service_key_def split_once_nul_def

lemma reused_fields:
  "services retired_and_reused = [([97], [\<lparr>sc_conn_id = 0, sc_generation = 2, sc_health = Healthy,
     sc_need_codec = False, sc_is_datagram = False, sc_protocol_version = 2, sc_last_rx_at = 0\<rparr>])]"
  "active_conns retired_and_reused 0 = Some 12"
  unfolding retired_and_reused_def by (simp_all add: manager_defs sign_off_defs sat_add_def u64_max_def)

lemma late_sign_off_hits_the_successor:
  "services (manage exact_ops toy_limits (DeRegisterServerConn [97] 0) retired_and_reused) = [] \<and>
   active_conns (manage exact_ops toy_limits (DeRegisterServerConn [97] 0) retired_and_reused) 0 = None"
  by (simp add: sign_off_defs reused_fields Let_def)

end
