(* ===== verification/Reply.thy ===== *)
theory Reply
  imports Manager
begin

text \<open>
  What the handlers of the relay share (\<^verbatim>\<open>pb-mapper-protocol/src/command.rs\<close>,
  \<^verbatim>\<open>pb-mapper-server/src/error.rs\<close> and the connection guards): the messages of the relay, the
  errors of the handlers, the guard that signs a connection off, and the writing of one reply.
  JSON is a parameter, an encoder from a message to bytes.
\<close>

section \<open>Messages\<close>

datatype admin_resp =
    KeyIssuedResp issued_key
  | KeyListResp key_page
  | KeyShownResp issued_key
  | KeyRenewedResp issued_key
  | KeyRevokedResp key_metadata
  | KeyGcResp nat
  | AuthStatusResp auth_status
  | ServicesResp "service_info page"
  | ConnectionsResp "connection_info page"
  | OkResp string

text \<open>An error carries its code and whether to retry; its text and the time of day are left out.\<close>

datatype conn_resp =
    ConnRegister nat
  | ConnRegisterV2 nat nat nat
  | ConnSubscribe "bytes option" nat nat
  | ConnStream "bytes option"
  | ConnStatus status_resp
  | ConnAdmin admin_resp
  | ConnError string bool

datatype server_req =
    Ping
  | PingV2 nat
  | PeerStreamAck nat nat

datatype local_msg =
    LocalStream nat nat
  | Pong
  | PongV2 nat
  | LocalRetire bytes nat nat

section \<open>Errors\<close>

text \<open>The name of a header tool is \<^verbatim>\<open>reader\<close> or \<^verbatim>\<open>writer\<close>; sources and key names are left out.\<close>

datatype server_error =
    AdminOperation
  | TaskCenterInitRequestTimeout
  | TaskCenterSendListener
  | TaskCenterClientSendStream
  | TaskCenterSendStreamRespToManager
  | TaskCenterSendStreamRespToClient
  | TaskCenterStreamTaskConnIdNotExist
  | TaskCenterSendStatusResp
  | TaskCenterSendRegisterResp
  | TaskCenterStreamConnIdNotExist
  | TaskCenterSubcribeServerConnKeyNotExist
  | TaskCenterSubcribeServerConnIdNotExist
  | TaskCenterSendSubcribeResp
  | TaskCenterSetKeepAlive
  | ServerConnCreateHeaderTool string
  | ServerConnRecvServerRegisteredResp
  | ServerConnRegisteredRespNotMatch
  | ServerConnEncodeRegisterResp
  | ServerConnWriteRegisteredOk
  | ServerConnRecvConnTask
  | ServerConnWriteStreamRequest
  | ServerConnWritePongResp
  | ServerConnControlWriterClosed
  | ServerConnSendStreamAck
  | ServerConnDecodeStreamRequest
  | ServerConnSendRegister
  | ClientConnCreateHeaderTool string
  | ClientConnAuthInactive
  | ClientConnSendSubcribe
  | ClientConnRecvSubcribeResp
  | ClientConnRecvSubcribeRespTimeout
  | ClientConnRecvStream
  | ClientConnRecvStreamTimeout
  | ClientConnSubcribeRespNotMatch
  | ClientConnSubcribeFailed
  | ClientConnStreamRespNotMatch
  | ClientConnEncodeSubcribeResp
  | ClientConnEncodeStreamResp
  | ClientConnWriteSubcribeResp
  | ClientConnWriteStreamResp
  | StatusCreateHeaderTool string
  | StatusSendManagerTask
  | StatusRecvConnTask
  | StatusConnTaskNotMatch
  | StatusEncodeResp
  | StatusWriteResp
  | ServerListen

section \<open>Guards\<close>

text \<open>
  Every handler of a connection holds a guard with the task that signs the connection off.  The
  handler sends the task itself at its end; a guard that is dropped before that (its task is
  cancelled or returns early) tries to send it at once and, when the queue is full, leaves it to a
  task of its own.
\<close>

record conn_guard =
  sign_off :: manager_task
  guard_active :: bool

definition guard_new :: "manager_task \<Rightarrow> conn_guard" where
  "guard_new t = \<lparr>sign_off = t, guard_active = True\<rparr>"

text \<open>The result of a send: delivered, the channel is closed, or (for \<^verbatim>\<open>try_send\<close>) full.\<close>

datatype send_outcome = Delivered | ChanClosed | ChanFull

definition guard_deregister :: "bool \<Rightarrow> conn_guard \<Rightarrow> conn_guard \<times> manager_task list" where
  "guard_deregister manager_open g =
     (if \<not> guard_active g then (g, [])
      else (g\<lparr>guard_active := False\<rparr>, if manager_open then [sign_off g] else []))"

text \<open>The deferred send needs a runtime and an open channel when its turn comes.\<close>

definition guard_drop :: "send_outcome \<Rightarrow> bool \<Rightarrow> conn_guard \<Rightarrow> manager_task list" where
  "guard_drop attempt deferred_delivered g =
     (if \<not> guard_active g then []
      else case attempt of
             Delivered \<Rightarrow> [sign_off g]
           | ChanClosed \<Rightarrow> []
           | ChanFull \<Rightarrow> if deferred_delivered then [sign_off g] else [])"

section \<open>Replies\<close>

text \<open>Encode a message, make the writer of the session, write the message.\<close>

definition write_reply ::
  "'c crypto_scheme \<Rightarrow> proc_cred \<Rightarrow> (conn_resp \<Rightarrow> bytes option) \<Rightarrow> server_error \<Rightarrow> server_error \<Rightarrow> server_error \<Rightarrow>
   server_session \<Rightarrow> conn_resp \<Rightarrow> sink \<Rightarrow> sink \<times> (server_error + unit)" where
  "write_reply C p enc encode_error tool_error write_error session m k =
     (case enc m of
        None \<Rightarrow> (k, Inl encode_error)
      | Some message \<Rightarrow>
          (case server_response_writer session of
             Inl _ \<Rightarrow> (k, Inl tool_error)
           | Inr w \<Rightarrow>
               (case header_write_msg C p message (w, k) of
                  ((w, k), Inl _) \<Rightarrow> (k, Inl write_error)
                | ((w, k), Inr _) \<Rightarrow> (k, Inr ()))))"

section \<open>The status handler\<close>

datatype recv = Got conn_task | RecvClosed | RecvElapsed

text \<open>
  \<^verbatim>\<open>handle_show_status\<close>: the query to the manager (\<open>asked\<close>: the manager takes it), its answer
  (\<open>got\<close>), the reply to the peer, and the sign-off.  The result is what was sent to the manager,
  what the peer got, and the outcome.
\<close>

definition show_status ::
  "'c crypto_scheme \<Rightarrow> proc_cred \<Rightarrow> (conn_resp \<Rightarrow> bytes option) \<Rightarrow> status_req \<Rightarrow> nat \<Rightarrow> chan \<Rightarrow> conn_id \<Rightarrow>
   server_session \<Rightarrow> bool \<Rightarrow> recv \<Rightarrow> sink \<Rightarrow> manager_task list \<times> sink \<times> (server_error + unit)" where
  "show_status C p enc status namespace ch i session asked got k =
     (if \<not> asked then ([], k, Inl StatusSendManagerTask)
      else ([StatusTask ch status namespace i],
            case got of
              Got (TaskStatusResp resp) \<Rightarrow>
                write_reply C p enc StatusEncodeResp (StatusCreateHeaderTool ''writer'') StatusWriteResp session
                  (ConnStatus resp) k
            | Got _ \<Rightarrow> (k, Inl StatusConnTaskNotMatch)
            | _ \<Rightarrow> (k, Inl StatusRecvConnTask)))"

definition handle_show_status ::
  "'c crypto_scheme \<Rightarrow> proc_cred \<Rightarrow> (conn_resp \<Rightarrow> bytes option) \<Rightarrow> status_req \<Rightarrow> nat \<Rightarrow> chan \<Rightarrow> conn_id \<Rightarrow>
   server_session \<Rightarrow> bool \<Rightarrow> recv \<Rightarrow> bool \<Rightarrow> sink \<Rightarrow> manager_task list \<times> sink \<times> (server_error + unit)" where
  "handle_show_status C p enc status namespace ch i session asked got still_open k =
     (case show_status C p enc status namespace ch i session asked got k of
        (tasks, k, result) \<Rightarrow>
          (tasks @ snd (guard_deregister still_open (guard_new (DeRegisterClientConn None i))), k, result))"

end
