(* ===== verification/Subscriber.thy ===== *)
theory Subscriber
  imports Reply
begin

text \<open>
  The handler of a subscriber's connection (\<^verbatim>\<open>pb-mapper-server/src/client.rs\<close>): it asks the
  connection manager for a stream to the service, moves on to the next registration when one does not
  deliver, answers the subscriber, and hands both connections to the forwarder.

  What the handler receives on its task channel, one result per receive, is a list (\<open>inbox\<close>); when it
  is used up the handler is still waiting.  The manager's channel takes a number of tasks, or any
  number.  Random codec keys and the instants the handler reads are oracles.
\<close>

section \<open>State\<close>

record subscriber =
  sb_tasks :: "manager_task list"
  sb_room :: "nat option"
  sb_sink :: sink
  sb_excluded :: "(conn_id \<times> nat) list"
  sb_keys :: "nat \<Rightarrow> bytes"
  sb_key_pos :: nat
  sb_clock :: "nat \<Rightarrow> nat"
  sb_clock_pos :: nat

record ready_stream =
  rs_socket :: socket
  rs_session :: server_session
  rs_server_id :: conn_id
  rs_codec_key :: "bytes option"
  rs_is_datagram :: bool

text \<open>What a subscriber's handler is about: its service, its connection and its session.\<close>

record subscription =
  su_key :: bytes
  su_conn_id :: conn_id
  su_chan :: chan
  su_session :: server_session

definition subscriber_new :: "nat option \<Rightarrow> sink \<Rightarrow> (nat \<Rightarrow> bytes) \<Rightarrow> (nat \<Rightarrow> nat) \<Rightarrow> subscriber" where
  "subscriber_new capacity k keys clock =
     \<lparr>sb_tasks = [], sb_room = capacity, sb_sink = k, sb_excluded = [], sb_keys = keys, sb_key_pos = 0,
      sb_clock = clock, sb_clock_pos = 0\<rparr>"

definition sb_send :: "manager_task \<Rightarrow> subscriber \<Rightarrow> subscriber \<times> bool" where
  "sb_send t s =
     (case sb_room s of
        None \<Rightarrow> (s\<lparr>sb_tasks := sb_tasks s @ [t]\<rparr>, True)
      | Some 0 \<Rightarrow> (s, False)
      | Some (Suc n) \<Rightarrow> (s\<lparr>sb_tasks := sb_tasks s @ [t], sb_room := Some n\<rparr>, True))"

definition random_key :: "subscriber \<Rightarrow> subscriber \<times> bytes" where
  "random_key s = (s\<lparr>sb_key_pos := Suc (sb_key_pos s)\<rparr>, sb_keys s (sb_key_pos s))"

definition sb_now :: "subscriber \<Rightarrow> subscriber \<times> nat" where
  "sb_now s = (s\<lparr>sb_clock_pos := Suc (sb_clock_pos s)\<rparr>, sb_clock s (sb_clock_pos s))"

section \<open>Replies to the subscriber\<close>

definition write_subscribe_response ::
  "'c crypto_scheme \<Rightarrow> proc_cred \<Rightarrow> (conn_resp \<Rightarrow> bytes option) \<Rightarrow> subscription \<Rightarrow> conn_id \<Rightarrow> bytes option \<Rightarrow>
   sink \<Rightarrow> sink \<times> (server_error + unit)" where
  "write_subscribe_response C p enc u server_id stream_key k =
     (case server_response_writer (su_session u) of
        Inl _ \<Rightarrow> (k, Inl (ClientConnCreateHeaderTool ''writer''))
      | Inr w \<Rightarrow>
          (case enc (ConnSubscribe stream_key (unat (su_conn_id u)) (unat server_id)) of
             None \<Rightarrow> (k, Inl ClientConnEncodeSubcribeResp)
           | Some message \<Rightarrow>
               (case header_write_msg C p message (w, k) of
                  ((w, k), Inl _) \<Rightarrow> (k, Inl ClientConnWriteSubcribeResp)
                | ((w, k), Inr _) \<Rightarrow> (k, Inr ()))))"

definition write_subscribe_error ::
  "'c crypto_scheme \<Rightarrow> proc_cred \<Rightarrow> (conn_resp \<Rightarrow> bytes option) \<Rightarrow> subscription \<Rightarrow> string \<Rightarrow> bool \<Rightarrow>
   sink \<Rightarrow> sink \<times> (server_error + unit)" where
  "write_subscribe_error C p enc u code retry k =
     write_reply C p enc ClientConnEncodeSubcribeResp (ClientConnCreateHeaderTool ''writer'')
       ClientConnWriteSubcribeResp (su_session u) (ConnError code retry) k"

section \<open>One attempt\<close>

datatype attempt =
    Finished subscriber "server_error + ready_stream"
  | Blocked subscriber
  | Again "recv list" subscriber

definition exclude :: "conn_id \<times> nat \<Rightarrow> subscriber \<Rightarrow> subscriber" where
  "exclude c s = s\<lparr>sb_excluded := sb_excluded s @ [c]\<rparr>"

text \<open>A registration that did not react in time is retired; a closed manager is ignored here.\<close>

definition retire_server_conn :: "subscription \<Rightarrow> conn_id \<Rightarrow> string \<Rightarrow> subscriber \<Rightarrow> subscriber" where
  "retire_server_conn u server_id reason s = fst (sb_send (RetireServerConn (su_key u) server_id (ascii reason)) s)"

definition deliver ::
  "'c crypto_scheme \<Rightarrow> proc_cred \<Rightarrow> (conn_resp \<Rightarrow> bytes option) \<Rightarrow> subscription \<Rightarrow> ready_stream \<Rightarrow> subscriber \<Rightarrow> attempt" where
  "deliver C p enc u r s =
     (case write_subscribe_response C p enc u (rs_server_id r) (rs_codec_key r) (sb_sink s) of
        (k, Inl e) \<Rightarrow> Finished (s\<lparr>sb_sink := k\<rparr>) (Inl e)
      | (k, Inr _) \<Rightarrow> Finished (s\<lparr>sb_sink := k\<rparr>) (Inr r))"

text \<open>The server has acknowledged; its stream is to arrive.\<close>

definition await_stream ::
  "'c crypto_scheme \<Rightarrow> proc_cred \<Rightarrow> (conn_resp \<Rightarrow> bytes option) \<Rightarrow> subscription \<Rightarrow> conn_id \<Rightarrow> nat \<Rightarrow>
   bytes option \<Rightarrow> bool \<Rightarrow> recv list \<Rightarrow> subscriber \<Rightarrow> attempt" where
  "await_stream C p enc u server_id gen stream_key is_datagram inbox s =
     (case inbox of
        [] \<Rightarrow> Blocked s
      | RecvClosed # _ \<Rightarrow> Finished s (Inl ClientConnRecvStream)
      | RecvElapsed # inbox \<Rightarrow>
          Again inbox (exclude (server_id, gen)
            (retire_server_conn u server_id ''timed out waiting for stream connection'' s))
      | Got t # inbox \<Rightarrow>
          (case t of
             TaskStreamResp stream_id response_gen stream session \<Rightarrow>
               if response_gen = gen
               then deliver C p enc u \<lparr>rs_socket = stream, rs_session = session, rs_server_id = stream_id,
                      rs_codec_key = stream_key, rs_is_datagram = is_datagram\<rparr> s
               else Again inbox (exclude (server_id, gen) s)
           | _ \<Rightarrow> Finished s (Inl ClientConnStreamRespNotMatch)))"

text \<open>The manager has asked a server connection; an acknowledgement, or at once a stream, is to arrive.\<close>

definition await_ack ::
  "'c crypto_scheme \<Rightarrow> proc_cred \<Rightarrow> (conn_resp \<Rightarrow> bytes option) \<Rightarrow> subscription \<Rightarrow> conn_id \<Rightarrow> nat \<Rightarrow>
   bytes option \<Rightarrow> bool \<Rightarrow> recv list \<Rightarrow> subscriber \<Rightarrow> attempt" where
  "await_ack C p enc u server_id gen stream_key is_datagram inbox s =
     (case inbox of
        [] \<Rightarrow> Blocked s
      | RecvClosed # _ \<Rightarrow> Finished s (Inl ClientConnRecvStream)
      | RecvElapsed # inbox \<Rightarrow>
          Again inbox (exclude (server_id, gen)
            (retire_server_conn u server_id ''timed out waiting for stream ack'' s))
      | Got t # inbox \<Rightarrow>
          (case t of
             TaskStreamResp stream_id response_gen stream session \<Rightarrow>
               if response_gen = gen
               then deliver C p enc u \<lparr>rs_socket = stream, rs_session = session, rs_server_id = stream_id,
                      rs_codec_key = stream_key, rs_is_datagram = is_datagram\<rparr> s
               else Again inbox (exclude (server_id, gen) s)
           | TaskStreamAck ack_id response_gen \<Rightarrow>
               if ack_id = server_id \<and> response_gen = gen
               then await_stream C p enc u server_id gen stream_key is_datagram inbox s
               else Again inbox (exclude (server_id, gen) s)
           | _ \<Rightarrow> Again inbox (exclude (server_id, gen) s)))"

definition stream_attempt ::
  "'c crypto_scheme \<Rightarrow> proc_cred \<Rightarrow> (conn_resp \<Rightarrow> bytes option) \<Rightarrow> subscription \<Rightarrow> nat \<Rightarrow> recv list \<Rightarrow>
   subscriber \<Rightarrow> attempt" where
  "stream_attempt C p enc u recovery_deadline inbox s =
     (case sb_send (Subscribe (su_key u) (su_conn_id u) (su_chan u) (sb_excluded s)) s of
        (s, False) \<Rightarrow> Finished s (Inl ClientConnSendSubcribe)
      | (s, True) \<Rightarrow>
          (case inbox of
             [] \<Rightarrow> Blocked s
           | RecvClosed # _ \<Rightarrow> Finished s (Inl ClientConnRecvSubcribeResp)
           | RecvElapsed # _ \<Rightarrow> Finished s (Inl ClientConnRecvSubcribeRespTimeout)
           | Got t # inbox \<Rightarrow>
               (case t of
                  SubscribeResp server_id gen need_codec is_datagram \<Rightarrow>
                    let (s, stream_key) = (if need_codec then let (s, key) = random_key s in (s, Some key)
                                          else (s, None))
                    in await_ack C p enc u server_id gen stream_key is_datagram inbox s
                | SubscribeFailed code retry \<Rightarrow>
                    (case write_subscribe_error C p enc u code retry (sb_sink s) of
                       (k, Inl e) \<Rightarrow> Finished (s\<lparr>sb_sink := k\<rparr>) (Inl e)
                     | (k, Inr _) \<Rightarrow> Finished (s\<lparr>sb_sink := k\<rparr>) (Inl ClientConnSubcribeFailed))
                | SubscribeRetry \<Rightarrow>
                    let (s, now) = sb_now s
                    in if recovery_deadline \<le> now then Finished s (Inl ClientConnSubcribeFailed)
                       else Again inbox s
                | _ \<Rightarrow> Finished s (Inl ClientConnSubcribeRespNotMatch))))"

lemma retry_reads: "stream_attempt C p enc u d inbox s = Again rest s' \<Longrightarrow> length rest < length inbox"
  by (auto simp: stream_attempt_def await_ack_def await_stream_def deliver_def Let_def
      split: prod.splits bool.splits list.splits recv.splits conn_task.splits if_splits sum.splits)

text \<open>Every attempt that is repeated has read something, so the handler never spins.\<close>

function get_server_stream ::
  "'c crypto_scheme \<Rightarrow> proc_cred \<Rightarrow> (conn_resp \<Rightarrow> bytes option) \<Rightarrow> subscription \<Rightarrow> nat \<Rightarrow> recv list \<Rightarrow>
   subscriber \<Rightarrow> subscriber \<times> (server_error + ready_stream) option" where
  "get_server_stream C p enc u recovery_deadline inbox s =
     (case stream_attempt C p enc u recovery_deadline inbox s of
        Finished s r \<Rightarrow> (s, Some r)
      | Blocked s \<Rightarrow> (s, None)
      | Again inbox s \<Rightarrow> get_server_stream C p enc u recovery_deadline inbox s)"
  by auto
termination
  by (relation "measure (\<lambda>(C, p, enc, u, d, inbox, s). length inbox)") (auto intro: retry_reads)

declare get_server_stream.simps [simp del]

section \<open>The handler\<close>

text \<open>
  How the data is forwarded: datagrams keep their framing (one framing key per side), streams are
  framed only under a codec.
\<close>

datatype forwarding =
    CodecDatagram bytes bytes bytes
  | PlainDatagram bytes bytes
  | CodecForward bytes bytes bytes
  | PlainForward

definition forwarding_of :: "server_session \<Rightarrow> ready_stream \<Rightarrow> forwarding" where
  "forwarding_of session r =
     (let client_framing = ss_legacy_key session; server_framing = ss_legacy_key (rs_session r) in
      if rs_is_datagram r
      then (case rs_codec_key r of
              Some key \<Rightarrow> CodecDatagram key client_framing server_framing
            | None \<Rightarrow> PlainDatagram client_framing server_framing)
      else (case rs_codec_key r of
              Some key \<Rightarrow> CodecForward key client_framing server_framing
            | None \<Rightarrow> PlainForward))"

text \<open>
  What ends the handler's second half: the forwarder (or the reply to the server before it), or the
  cancellation of the credential the server's connection was made with, before or after that reply.
\<close>

datatype forward_end = ForwardEnded | CancelledBeforeReply | CancelledAfterReply

record client_outcome =
  co_tasks :: "manager_task list"
  co_client :: sink
  co_server :: "sink option"
  co_forwarding :: "forwarding option"
  co_result :: "server_error + unit"

definition forward_stream ::
  "'c crypto_scheme \<Rightarrow> proc_cred \<Rightarrow> (conn_resp \<Rightarrow> bytes option) \<Rightarrow> server_session \<Rightarrow> ready_stream \<Rightarrow> forward_end \<Rightarrow>
   sink \<Rightarrow> sink \<times> forwarding option \<times> (server_error + unit)" where
  "forward_stream C p enc session r ended k =
     (if ended = CancelledBeforeReply then (k, None, Inr ())
      else case server_response_writer (rs_session r) of
        Inl _ \<Rightarrow> (k, None, Inl (ClientConnCreateHeaderTool ''writer''))
      | Inr w \<Rightarrow>
          (case enc (ConnStream (rs_codec_key r)) of
             None \<Rightarrow> (k, None, Inl ClientConnEncodeStreamResp)
           | Some message \<Rightarrow>
               (case header_write_msg C p message (w, k) of
                  ((w, k), Inl _) \<Rightarrow> (k, None, Inl ClientConnWriteStreamResp)
                | ((w, k), Inr _) \<Rightarrow> (k, Some (forwarding_of session r), Inr ()))))"

definition client_guard :: "subscription \<Rightarrow> conn_id option \<Rightarrow> conn_guard" where
  "client_guard u server_id = guard_new (DeRegisterClientConn server_id (su_conn_id u))"

text \<open>
  The outcome of a handler that ends by itself; \<open>None\<close> while it waits for a stream.  A data connection
  whose credential is gone makes the handler return early, and its guard signs off as it is dropped.
  \<open>dropped\<close> is the outcome of that attempt and \<open>deferred\<close> whether a deferred sign-off arrives.
\<close>

definition handle_client_conn ::
  "'c crypto_scheme \<Rightarrow> proc_cred \<Rightarrow> (conn_resp \<Rightarrow> bytes option) \<Rightarrow> subscription \<Rightarrow> nat \<Rightarrow> recv list \<Rightarrow> forward_end \<Rightarrow>
   send_outcome \<Rightarrow> bool \<Rightarrow> auth \<Rightarrow> sink \<Rightarrow> subscriber \<Rightarrow> client_outcome option" where
  "handle_client_conn C p enc u recovery_deadline inbox ended dropped deferred st server_sink s =
     (case get_server_stream C p enc u recovery_deadline inbox s of
        (s, None) \<Rightarrow> None
      | (s, Some (Inl e)) \<Rightarrow>
          Some \<lparr>co_tasks = sb_tasks s @ snd (guard_deregister (sb_room s \<noteq> Some 0) (client_guard u None)),
                co_client = sb_sink s, co_server = None, co_forwarding = None, co_result = Inl e\<rparr>
      | (s, Some (Inr r)) \<Rightarrow>
          let guard = client_guard u (Some (rs_server_id r)) in
          (case session_context (rs_session r) of
             Inl _ \<Rightarrow>
               Some \<lparr>co_tasks = sb_tasks s @ guard_drop dropped deferred guard, co_client = sb_sink s,
                     co_server = None, co_forwarding = None, co_result = Inl ClientConnAuthInactive\<rparr>
           | Inr ctx \<Rightarrow>
               (case ensure_active ctx st of
                  (st, Inl _) \<Rightarrow>
                    Some \<lparr>co_tasks = sb_tasks s @ guard_drop dropped deferred guard, co_client = sb_sink s,
                          co_server = None, co_forwarding = None, co_result = Inl ClientConnAuthInactive\<rparr>
                | (st, Inr _) \<Rightarrow>
                    (case forward_stream C p enc (su_session u) r ended server_sink of
                       (k, plan, result) \<Rightarrow>
                         Some \<lparr>co_tasks = sb_tasks s @ snd (guard_deregister (sb_room s \<noteq> Some 0) guard),
                               co_client = sb_sink s, co_server = Some k, co_forwarding = plan,
                               co_result = result\<rparr>))))"

text \<open>
  The tasks of a handler that is dropped while it waits for a stream, as the connection's own credential
  is revoked or the relay stops.
\<close>

definition dropped_client_conn ::
  "'c crypto_scheme \<Rightarrow> proc_cred \<Rightarrow> (conn_resp \<Rightarrow> bytes option) \<Rightarrow> subscription \<Rightarrow> nat \<Rightarrow> recv list \<Rightarrow>
   send_outcome \<Rightarrow> bool \<Rightarrow> subscriber \<Rightarrow> manager_task list" where
  "dropped_client_conn C p enc u recovery_deadline inbox dropped deferred s =
     sb_tasks (fst (get_server_stream C p enc u recovery_deadline inbox s)) @
     guard_drop dropped deferred (client_guard u None)"

end
