(* ===== verification/Control.thy ===== *)
theory Control
  imports Reply
begin

text \<open>
  The handler of a registering server's connection (\<^verbatim>\<open>pb-mapper-server/src/server.rs\<close>).  After
  the registration it runs two loops at once: one reads control messages, the other writes to the
  peer what the manager's tasks and the first loop ask for.  Their interleaving is a list of events;
  each event is one receive of one of the loops, or what ends it.
\<close>

section \<open>State\<close>

text \<open>
  A registering connection.  \<open>cn_out\<close> is the writer (absent until the writing loop has made it),
  \<open>cn_pongs\<close> the unbounded queue from the reading to the writing loop, \<open>cn_written\<close> the messages that
  have been written, \<open>cn_writer_end\<close> how the writing loop has ended and \<open>cn_result\<close> how the handler has.
\<close>

datatype out_msg = OutResp conn_resp | OutLocal local_msg

record registration =
  rg_key :: bytes
  rg_need_codec :: bool
  rg_is_datagram :: bool
  rg_protocol_version :: nat
  rg_conn_id :: conn_id

record control =
  cn_tasks :: "manager_task list"
  cn_open :: bool
  cn_out :: "header_end option"
  cn_sink :: sink
  cn_pongs :: "local_msg list"
  cn_written :: "out_msg list"
  cn_writer_end :: "(server_error + unit) option"
  cn_result :: "(server_error + unit) option"

text \<open>
  The reading loop receives a message, breaks or idles out; the writing loop starts, takes a task
  (or finds the channel closed) or a pong; the handler notices that the writing loop has ended; the
  manager goes away.
\<close>

datatype control_event =
    ReadControl bytes
  | ReadBroken
  | ReadIdle
  | WriterStarts
  | WriteTask conn_task
  | TasksClosed
  | WritePong
  | JoinWriter
  | ManagerGone

type_synonym codecs = "(out_msg \<Rightarrow> bytes option) \<times> (bytes \<Rightarrow> server_req option)"

definition ctl_send :: "manager_task \<Rightarrow> control \<Rightarrow> control \<times> bool" where
  "ctl_send t s = (if cn_open s then (s\<lparr>cn_tasks := cn_tasks s @ [t]\<rparr>, True) else (s, False))"

definition finish :: "server_error + unit \<Rightarrow> control \<Rightarrow> control" where
  "finish r s = s\<lparr>cn_result := Some r\<rparr>"

definition writer_ends :: "server_error + unit \<Rightarrow> control \<Rightarrow> control" where
  "writer_ends r s = s\<lparr>cn_writer_end := Some r\<rparr>"

definition ctl_write ::
  "'c crypto_scheme \<Rightarrow> proc_cred \<Rightarrow> codecs \<Rightarrow> server_error \<Rightarrow> server_error \<Rightarrow> header_end \<Rightarrow> out_msg \<Rightarrow> control \<Rightarrow> control" where
  "ctl_write C p enc encode_error write_error w m s =
     (case fst enc m of
        None \<Rightarrow> writer_ends (Inl encode_error) s
      | Some message \<Rightarrow>
          (case header_write_msg C p message (w, cn_sink s) of
             ((w, k), Inl _) \<Rightarrow> writer_ends (Inl write_error) (s\<lparr>cn_out := Some w, cn_sink := k\<rparr>)
           | ((w, k), Inr _) \<Rightarrow> s\<lparr>cn_out := Some w, cn_sink := k, cn_written := cn_written s @ [m]\<rparr>))"

section \<open>The reading loop\<close>

text \<open>
  A pong that cannot be encoded is dropped, as is a message that cannot be decoded.  The queue to the
  writing loop is closed once that loop has ended.
\<close>

definition queue_pong :: "codecs \<Rightarrow> local_msg \<Rightarrow> control \<Rightarrow> control" where
  "queue_pong enc m s =
     (case fst enc (OutLocal m) of
        None \<Rightarrow> s
      | Some _ \<Rightarrow>
          if cn_writer_end s \<noteq> None then finish (Inl ServerConnControlWriterClosed) s
          else s\<lparr>cn_pongs := cn_pongs s @ [m]\<rparr>)"

definition handle_ping :: "codecs \<Rightarrow> registration \<Rightarrow> local_msg \<Rightarrow> control \<Rightarrow> control" where
  "handle_ping enc r pong s =
     (case ctl_send (ServerConnActivity (rg_key r) (rg_conn_id r)) s of
        (s, False) \<Rightarrow> finish (Inl ServerConnSendStreamAck) s
      | (s, True) \<Rightarrow> queue_pong enc pong s)"

definition handle_control_message :: "codecs \<Rightarrow> registration \<Rightarrow> bytes \<Rightarrow> control \<Rightarrow> control" where
  "handle_control_message enc r msg s =
     (case snd enc msg of
        None \<Rightarrow> s
      | Some Ping \<Rightarrow> handle_ping enc r Pong s
      | Some (PingV2 seq) \<Rightarrow> handle_ping enc r (PongV2 seq) s
      | Some (PeerStreamAck client_id gen) \<Rightarrow>
          (case ctl_send (StreamAck (rg_conn_id r) (word_of_nat client_id) gen) s of
             (s, False) \<Rightarrow> finish (Inl ServerConnSendStreamAck) s
           | (s, True) \<Rightarrow> s))"

section \<open>The writing loop\<close>

text \<open>It makes its writer and writes the response to the registration first.\<close>

definition writer_starts ::
  "'c crypto_scheme \<Rightarrow> proc_cred \<Rightarrow> codecs \<Rightarrow> server_session \<Rightarrow> conn_resp \<Rightarrow> control \<Rightarrow> control" where
  "writer_starts C p enc session resp s =
     (case server_response_writer session of
        Inl _ \<Rightarrow> writer_ends (Inl (ServerConnCreateHeaderTool ''writer'')) s
      | Inr w \<Rightarrow> ctl_write C p enc ServerConnEncodeRegisterResp ServerConnWriteRegisteredOk w (OutResp resp) s)"

text \<open>A task other than a stream request is logged and skipped; a retirement ends the loop.\<close>

definition handle_stream_req ::
  "'c crypto_scheme \<Rightarrow> proc_cred \<Rightarrow> codecs \<Rightarrow> conn_task \<Rightarrow> header_end \<Rightarrow> control \<Rightarrow> control" where
  "handle_stream_req C p enc t w s =
     (case t of
        TaskStreamReq client_id gen \<Rightarrow>
          ctl_write C p enc ServerConnDecodeStreamRequest ServerConnWriteStreamRequest w
            (OutLocal (LocalStream (unat client_id) gen)) s
      | _ \<Rightarrow> s)"

definition write_task :: "'c crypto_scheme \<Rightarrow> proc_cred \<Rightarrow> codecs \<Rightarrow> conn_task \<Rightarrow> header_end \<Rightarrow> control \<Rightarrow> control" where
  "write_task C p enc t w s =
     (case t of RetireTask reason \<Rightarrow> writer_ends (Inr ()) s | _ \<Rightarrow> handle_stream_req C p enc t w s)"

text \<open>The pong was encoded by the reading loop; here it can only fail to be written.\<close>

definition write_pong :: "'c crypto_scheme \<Rightarrow> proc_cred \<Rightarrow> codecs \<Rightarrow> header_end \<Rightarrow> control \<Rightarrow> control" where
  "write_pong C p enc w s =
     (case cn_pongs s of
        [] \<Rightarrow> s
      | m # rest \<Rightarrow>
          ctl_write C p enc ServerConnWritePongResp ServerConnWritePongResp w (OutLocal m) (s\<lparr>cn_pongs := rest\<rparr>))"

text \<open>A step of the writing loop is possible while it has its writer and has not ended.\<close>

definition in_writer :: "(header_end \<Rightarrow> control \<Rightarrow> control) \<Rightarrow> control \<Rightarrow> control" where
  "in_writer f s =
     (case cn_out s of None \<Rightarrow> s | Some w \<Rightarrow> if cn_writer_end s \<noteq> None then s else f w s)"

section \<open>Both loops\<close>

fun control_step ::
  "'c crypto_scheme \<Rightarrow> proc_cred \<Rightarrow> codecs \<Rightarrow> registration \<Rightarrow> server_session \<Rightarrow> conn_resp \<Rightarrow> control_event \<Rightarrow>
   control \<Rightarrow> control" where
  "control_step C p enc r session resp (ReadControl msg) s = handle_control_message enc r msg s"
| "control_step C p enc r session resp ReadBroken s = finish (Inr ()) s"
| "control_step C p enc r session resp ReadIdle s = finish (Inr ()) s"
| "control_step C p enc r session resp WriterStarts s =
     (if cn_out s = None \<and> cn_writer_end s = None then writer_starts C p enc session resp s else s)"
| "control_step C p enc r session resp (WriteTask t) s = in_writer (write_task C p enc t) s"
| "control_step C p enc r session resp TasksClosed s =
     in_writer (\<lambda>w s. writer_ends (Inl ServerConnRecvConnTask) s) s"
| "control_step C p enc r session resp WritePong s = in_writer (write_pong C p enc) s"
| "control_step C p enc r session resp JoinWriter s =
     (case cn_writer_end s of None \<Rightarrow> s | Some x \<Rightarrow> finish x s)"
| "control_step C p enc r session resp ManagerGone s = s\<lparr>cn_open := False\<rparr>"

fun control_loop ::
  "'c crypto_scheme \<Rightarrow> proc_cred \<Rightarrow> codecs \<Rightarrow> registration \<Rightarrow> server_session \<Rightarrow> conn_resp \<Rightarrow> control_event list \<Rightarrow>
   control \<Rightarrow> control" where
  "control_loop C p enc r session resp [] s = s"
| "control_loop C p enc r session resp (e # es) s =
     (if cn_result s \<noteq> None then s
      else control_loop C p enc r session resp es (control_step C p enc r session resp e s))"

section \<open>The handler\<close>

definition CONTROL_PROTOCOL_V2 :: nat where "CONTROL_PROTOCOL_V2 = 2"

definition SERVER_TIMEOUT :: nat where "SERVER_TIMEOUT = 60 * 11"

text \<open>How long the reading loop waits for a control message.\<close>

definition idle_timeout :: "nat \<Rightarrow> nat \<Rightarrow> nat" where
  "idle_timeout protocol_version server_lease_timeout =
     (if CONTROL_PROTOCOL_V2 \<le> protocol_version then server_lease_timeout else SERVER_TIMEOUT)"

definition register_response :: "registration \<Rightarrow> nat \<Rightarrow> nat \<Rightarrow> nat \<Rightarrow> conn_resp" where
  "register_response r gen protocol_version lease_ms =
     (if CONTROL_PROTOCOL_V2 \<le> protocol_version
      then ConnRegisterV2 (unat (rg_conn_id r)) gen lease_ms
      else ConnRegister (unat (rg_conn_id r)))"

definition accepted_conn ::
  "'c crypto_scheme \<Rightarrow> proc_cred \<Rightarrow> codecs \<Rightarrow> registration \<Rightarrow> server_session \<Rightarrow> nat \<Rightarrow> nat \<Rightarrow> nat \<Rightarrow>
   control_event list \<Rightarrow> control \<Rightarrow> control" where
  "accepted_conn C p enc r session gen protocol_version lease_ms es s =
     (case server_continuation_reader session of
        Inl _ \<Rightarrow> finish (Inl (ServerConnCreateHeaderTool ''reader'')) s
      | Inr _ \<Rightarrow>
          let resp = register_response r gen protocol_version lease_ms in
          (case fst enc (OutResp resp) of
             None \<Rightarrow> finish (Inl ServerConnEncodeRegisterResp) s
           | Some _ \<Rightarrow> control_loop C p enc r session resp es s))"

text \<open>A refused registration is answered with its error, and the connection ends.\<close>

definition refused_conn ::
  "'c crypto_scheme \<Rightarrow> proc_cred \<Rightarrow> codecs \<Rightarrow> server_session \<Rightarrow> string \<Rightarrow> bool \<Rightarrow> control \<Rightarrow> control" where
  "refused_conn C p enc session code retry s =
     (case write_reply C p (fst enc \<circ> OutResp) ServerConnEncodeRegisterResp (ServerConnCreateHeaderTool ''writer'')
             ServerConnWriteRegisteredOk session (ConnError code retry) (cn_sink s) of
        (k, Inl e) \<Rightarrow> finish (Inl e) (s\<lparr>cn_sink := k\<rparr>)
      | (k, Inr _) \<Rightarrow>
          finish (Inr ()) (s\<lparr>cn_sink := k, cn_written := cn_written s @ [OutResp (ConnError code retry)]\<rparr>))"

definition control_new :: "bool \<Rightarrow> sink \<Rightarrow> control" where
  "control_new manager_open k =
     \<lparr>cn_tasks = [], cn_open = manager_open, cn_out = None, cn_sink = k, cn_pongs = [], cn_written = [],
      cn_writer_end = None, cn_result = None\<rparr>"

definition registered_conn ::
  "'c crypto_scheme \<Rightarrow> proc_cred \<Rightarrow> codecs \<Rightarrow> registration \<Rightarrow> server_session \<Rightarrow> recv list \<Rightarrow> control_event list \<Rightarrow>
   control \<Rightarrow> control" where
  "registered_conn C p enc r session inbox es s =
     (case inbox of
        [] \<Rightarrow> s
      | Got (RegisterResp gen protocol_version lease_ms) # _ \<Rightarrow>
          accepted_conn C p enc r session gen protocol_version lease_ms es s
      | Got (RegisterFailed code retry) # _ \<Rightarrow> refused_conn C p enc session code retry s
      | Got _ # _ \<Rightarrow> finish (Inl ServerConnRegisteredRespNotMatch) s
      | _ \<Rightarrow> finish (Inl ServerConnRecvServerRegisteredResp) s)"

text \<open>
  The whole handler.  The guard is made once the registration has been sent; it signs off when the
  handler ends, or as it is dropped.
\<close>

definition server_guard :: "registration \<Rightarrow> conn_guard" where
  "server_guard r = guard_new (DeRegisterServerConn (rg_key r) (rg_conn_id r))"

definition handle_server_conn ::
  "'c crypto_scheme \<Rightarrow> proc_cred \<Rightarrow> codecs \<Rightarrow> registration \<Rightarrow> server_session \<Rightarrow> chan \<Rightarrow> recv list \<Rightarrow>
   control_event list \<Rightarrow> send_outcome \<Rightarrow> bool \<Rightarrow> control \<Rightarrow> control" where
  "handle_server_conn C p enc r session ch inbox es dropped deferred s =
     (case ctl_send (Register (rg_key r) (rg_conn_id r) (rg_need_codec r) (rg_is_datagram r)
                       (rg_protocol_version r) ch) s of
        (s, False) \<Rightarrow> finish (Inl ServerConnSendRegister) s
      | (s, True) \<Rightarrow>
          let s = registered_conn C p enc r session inbox es s
          in if cn_result s = None
             then s\<lparr>cn_tasks := cn_tasks s @ guard_drop dropped deferred (server_guard r)\<rparr>
             else s\<lparr>cn_tasks := cn_tasks s @ snd (guard_deregister (cn_open s) (server_guard r))\<rparr>)"

end
