(* ===== verification/HandlerProps.thy ===== *)
theory HandlerProps
  imports RelayProps SecureProps Subscriber Control "HOL-Library.Sublist"
begin

text \<open>
  What the handlers of connections promise, alone and together with the connection manager.
\<close>

section \<open>Signing off at the manager\<close>

text \<open>Nothing but a subscription of the connection itself makes it wait for a stream.\<close>

definition not_waiting :: "conn_id \<Rightarrow> 'f registry \<Rightarrow> bool" where
  "not_waiting i s \<longleftrightarrow> map_of (pending s) i = None"

definition subscribes :: "conn_id \<Rightarrow> manager_task \<Rightarrow> bool" where
  "subscribes i t = (case t of Subscribe key c ch ex \<Rightarrow> c = i | _ \<Rightarrow> False)"

interpretation idle: registry_invariant "not_waiting i" F L "{t. \<not> subscribes i t}" for i F L
proof
  fix s s' :: "'f registry"
  show "core s' = core s \<Longrightarrow> not_waiting i s \<Longrightarrow> not_waiting i s'"
    using core_fields(5) [of s' s] by (simp add: not_waiting_def)
next
  fix s :: "'f registry"
  show "not_waiting i s \<Longrightarrow> not_waiting i (fst (get_conn_id (registered_ids (services s)) s))"
    by (simp add: not_waiting_def get_conn_id_def get_next_id_def split: prod.split option.split)
next
  fix s :: "'f registry" and j
  show "not_waiting i s \<Longrightarrow> not_waiting i (fst (deregister_conn j s))"
    by (simp add: not_waiting_def deregister_conn_def)
next
  fix s s0 :: "'f registry" and key client ch ex cs c
  assume "Subscribe key client ch ex \<in> {t. \<not> subscribes i t}" "not_waiting i s"
  then show "not_waiting i (add_pending client (sc_conn_id c) (sc_generation c) key s)"
    by (simp add: not_waiting_def subscribes_def add_pending_fields AList.update_conv')
next
  fix s :: "'f registry" and client server gen key
  assume "not_waiting i s"
  then show "not_waiting i (s\<lparr>pending := AList.delete client (pending s),
      stream_counts := decrement_namespace_stream_count (key_namespace key) (stream_counts s)\<rparr>)"
    by (simp add: not_waiting_def AList.delete_conv')
qed (auto simp: not_waiting_def sign_up_fields)

lemma signed_off_waits_no_more: "not_waiting i (manage_deregister_client server i s)"
proof -
  have "pending (fst (deregister_conn j s1)) = pending s1" for j and s1 :: "'a registry"
    by (simp add: deregister_conn_def)
  moreover have "pending (release_namespace_rate_limit_if_idle n s1) = pending s1" for n and s1 :: "'a registry"
    by (simp add: release_namespace_rate_limit_if_idle_def)
  ultimately show ?thesis
    by (simp add: not_waiting_def manage_deregister_client_def Let_def AList.delete_conv' split: option.split)
qed

text \<open>Nor does anything but a registration of the connection itself register it.\<close>

definition ids_of :: "bytes \<Rightarrow> service_map \<Rightarrow> conn_id list" where
  "ids_of key m = map sc_conn_id (case map_of m key of Some cs \<Rightarrow> cs | None \<Rightarrow> [])"

definition at_most :: "nat \<Rightarrow> bytes \<Rightarrow> conn_id \<Rightarrow> 'f registry \<Rightarrow> bool" where
  "at_most n key i s \<longleftrightarrow> count_list (ids_of key (services s)) i \<le> n"

definition registers :: "bytes \<Rightarrow> conn_id \<Rightarrow> manager_task \<Rightarrow> bool" where
  "registers key i t = (case t of Register k c nc dg v ch \<Rightarrow> k = key \<and> c = i | _ \<Rightarrow> False)"

lemma ids_of_update: "ids_of key (AList.update k cs m) = (if k = key then map sc_conn_id cs else ids_of key m)"
  by (simp add: ids_of_def AList.update_conv')

lemma count_remove_conn:
  "count_list (map sc_conn_id (remove_conn i cs)) j = count_list (map sc_conn_id cs) j - (if i = j then 1 else 0)"
  by (induction cs) auto

lemma ids_of_remove:
  "count_list (ids_of key (remove_server_conn k i m)) j =
     count_list (ids_of key m) j - (if k = key \<and> i = j then 1 else 0)"
proof (cases "map_of m k")
  case (Some cs)
  show ?thesis
  proof (cases "i \<in> sc_conn_id ` set cs")
    case True
    have "count_list (map sc_conn_id (remove_conn i cs)) j = 0" if "remove_conn i cs = []"
      using that by simp
    then show ?thesis
      using Some True count_remove_conn [of i cs j]
      by (auto simp: remove_server_conn_def ids_of_def AList.update_conv' AList.delete_conv')
  next
    case False
    then have "count_list (map sc_conn_id cs) i = 0"
      by (simp add: count_list_0_iff)
    then show ?thesis
      using Some False by (auto simp: remove_server_conn_def ids_of_def)
  qed
qed (auto simp: remove_server_conn_def ids_of_def)

lemma ids_of_touch_map: "keeps_conn f \<Longrightarrow> ids_of key (touch_map p f m) = ids_of key m"
proof (induction p f m rule: touch_map.induct)
  case (2 p f k cs m)
  have "map sc_conn_id (touch_first p f cs) = map sc_conn_id cs"
    by (rule touch_first_map) (use 2(2) in \<open>simp add: keeps_conn_def\<close>)
  then show ?case
    using 2 by (auto simp: ids_of_def)
qed simp

interpretation few: registry_invariant "at_most n key i" F L "{t. \<not> registers key i t}" for n key i F L
proof
  fix s s' :: "'f registry"
  show "core s' = core s \<Longrightarrow> at_most n key i s \<Longrightarrow> at_most n key i s'"
    using core_fields(4) [of s' s] by (simp add: at_most_def)
next
  fix s :: "'f registry"
  show "at_most n key i s \<Longrightarrow> at_most n key i (fst (get_conn_id (registered_ids (services s)) s))"
    by (simp add: at_most_def get_conn_id_def get_next_id_def split: prod.split option.split)
next
  fix s :: "'f registry" and k j
  assume "at_most n key i s"
  then show "at_most n key i (s\<lparr>services := remove_server_conn k j (services s)\<rparr>)"
    by (simp add: at_most_def ids_of_remove)
next
  fix s :: "'f registry" and p f
  show "at_most n key i s \<Longrightarrow> keeps_conn f \<Longrightarrow> at_most n key i (s\<lparr>services := touch_map p f (services s)\<rparr>)"
    by (simp add: at_most_def ids_of_touch_map)
next
  fix s :: "'f registry" and k cs p f
  assume s: "at_most n key i s" "map_of (services s) k = Some cs" and f: "keeps_conn f"
  have "map sc_conn_id (touch_first p f cs) = map sc_conn_id cs"
    by (rule touch_first_map) (use f in \<open>simp add: keeps_conn_def\<close>)
  then show "at_most n key i (s\<lparr>services := AList.update k (touch_first p f cs) (services s)\<rparr>)"
    using s by (cases "k = key") (simp_all add: at_most_def ids_of_update, simp_all add: ids_of_def)
next
  fix s :: "'f registry" and L :: relay_limits and k j nc dg v ch now
  assume "Register k j nc dg v ch \<in> {t. \<not> registers key i t}" "at_most n key i s"
  then show "at_most n key i ((sign_up_conn_sender j ch s)\<lparr>next_generation := max 1 (sat_add (next_generation s) 1),
        services := AList.update k ((case map_of (services s) k of Some cs \<Rightarrow> cs | None \<Rightarrow> []) @
          [\<lparr>sc_conn_id = j, sc_generation = next_generation s, sc_health = Healthy, sc_need_codec = nc,
            sc_is_datagram = dg, sc_protocol_version = v, sc_last_rx_at = now\<rparr>]) (services s)\<rparr>)"
    by (simp add: at_most_def registers_def ids_of_update) (auto simp: ids_of_def)
next
  fix s :: "'f registry" and j
  show "at_most n key i s \<Longrightarrow> at_most n key i (fst (deregister_conn j s))"
    by (simp add: at_most_def deregister_conn_def)
qed (auto simp: at_most_def sign_up_fields add_pending_fields)

lemma registering_adds_one:
  assumes "at_most 0 key i s"
  shows "at_most 1 key i (manage_register L key i nc dg v ch s)"
proof (cases "register_failure L key dg s")
  case None
  then have "ids_of key (services (manage_register L key i nc dg v ch s)) = ids_of key (services s) @ [i]"
    by (simp add: manage_register_def instant_now_def Let_def sign_up_conn_sender_def send_task_def ids_of_update)
      (simp add: ids_of_def)
  then show ?thesis
    using assms by (simp add: at_most_def)
next
  case (Some r)
  then show ?thesis
    using assms by (cases r) (simp add: manage_register_def send_task_def Let_def at_most_def)
qed

lemma signing_off_removes_one:
  assumes "at_most 1 key i s"
  shows "at_most 0 key i (manage_deregister_server key i s)"
proof -
  have "services (manage_deregister_server key i s) = remove_server_conn key i (services s)"
    by (simp add: manage_deregister_server_def Let_def deregister_conn_def release_namespace_rate_limit_if_idle_def)
  then show ?thesis
    using assms by (simp add: at_most_def ids_of_remove)
qed

lemma manager_run_append:
  "ShutdownTask \<notin> set us \<Longrightarrow> manager_run F L (us @ ts) s = manager_run F L ts (manager_run F L us s)"
  by (induction us arbitrary: s) auto

section \<open>Subscribers\<close>

text \<open>What an attempt sends to the manager.\<close>

definition about :: "subscription \<Rightarrow> manager_task \<Rightarrow> bool" where
  "about u t = (case t of
       Subscribe key c ch ex \<Rightarrow> key = su_key u \<and> c = su_conn_id u \<and> ch = su_chan u
     | RetireServerConn key server reason \<Rightarrow> key = su_key u
     | _ \<Rightarrow> False)"

lemma about_shutdown: "list_all (about u) ts \<Longrightarrow> ShutdownTask \<notin> set ts"
  by (induction ts) (auto simp: about_def)

fun after_attempt :: "attempt \<Rightarrow> subscriber" where
  "after_attempt (Finished s r) = s"
| "after_attempt (Blocked s) = s"
| "after_attempt (Again inbox s) = s"

definition grows :: "subscription \<Rightarrow> subscriber \<Rightarrow> subscriber \<Rightarrow> bool" where
  "grows u s s' \<longleftrightarrow> (\<exists>new. sb_tasks s' = sb_tasks s @ new \<and> list_all (about u) new) \<and> (sb_room s = None \<longrightarrow> sb_room s' = None)"

lemma grows_refl [simp]: "grows u s s"
  by (simp add: grows_def)

lemma grows_trans: "grows u a b \<Longrightarrow> grows u b c \<Longrightarrow> grows u a c"
  unfolding grows_def by fastforce

lemma grows_cong: "sb_tasks s' = sb_tasks b \<Longrightarrow> sb_room s' = sb_room b \<Longrightarrow> grows u a b \<Longrightarrow> grows u a s'"
  by (simp add: grows_def)

lemma grows_send: "about u t \<Longrightarrow> sb_send t s = (s', ok) \<Longrightarrow> grows u s s'"
  by (auto simp: sb_send_def grows_def split: option.splits nat.splits)

lemma grows_exclude: "grows u a s \<Longrightarrow> grows u a (exclude c s)"
  by (erule grows_cong [rotated 2]) (simp_all add: exclude_def)

lemma grows_retire: "grows u a s \<Longrightarrow> grows u a (retire_server_conn u i reason s)"
  unfolding retire_server_conn_def
  by (erule grows_trans) (rule grows_send [OF _ prod.collapse [symmetric]], simp add: about_def)

lemma grows_deliver: "grows u a s \<Longrightarrow> grows u a (after_attempt (deliver C p enc u r s))"
  by (auto simp: deliver_def elim: grows_cong [rotated 2] split: prod.split sum.split)

lemmas attempt_rules = grows_deliver grows_exclude grows_retire

lemma await_stream_grows:
  "grows u a s \<Longrightarrow> grows u a (after_attempt (await_stream C p enc u i g key dg inbox s))"
  unfolding await_stream_def
  by (auto split: list.split recv.split conn_task.split intro: attempt_rules)

lemma await_ack_grows:
  "grows u a s \<Longrightarrow> grows u a (after_attempt (await_ack C p enc u i g key dg inbox s))"
  unfolding await_ack_def
  by (auto split: list.split recv.split conn_task.split intro: attempt_rules await_stream_grows)

lemma attempt_grows: "grows u s (after_attempt (stream_attempt C p enc u d inbox s))"
proof -
  obtain s1 ok where sent: "sb_send (Subscribe (su_key u) (su_conn_id u) (su_chan u) (sb_excluded s)) s = (s1, ok)"
    by (cases "sb_send (Subscribe (su_key u) (su_conn_id u) (su_chan u) (sb_excluded s)) s")
  have s1: "grows u s s1"
    by (rule grows_send [OF _ sent]) (simp add: about_def)
  have same: "grows u s s2" if "sb_tasks s2 = sb_tasks s1" "sb_room s2 = sb_room s1" for s2
    by (rule grows_cong [OF that s1])
  show ?thesis
    using s1 unfolding stream_attempt_def sent
    by (auto simp: random_key_def sb_now_def intro!: same await_ack_grows
        split: bool.split list.split recv.split conn_task.split prod.split sum.split)
qed

lemma get_server_stream_grows: "grows u s (fst (get_server_stream C p enc u d inbox s))"
proof (induction C p enc u d inbox s rule: get_server_stream.induct)
  case (1 C p enc u d inbox s)
  show ?case
    using attempt_grows [of u s C p enc d inbox] 1
    by (subst get_server_stream.simps) (auto split: attempt.split intro: grows_trans)
qed

text \<open>What the subscriber has been told, on a stream in state \<open>k\<close> before.\<close>

definition told ::
  "'c crypto_scheme \<Rightarrow> proc_cred \<Rightarrow> (conn_resp \<Rightarrow> bytes option) \<Rightarrow> subscription \<Rightarrow> ready_stream \<Rightarrow> sink \<Rightarrow> sink \<Rightarrow> bool" where
  "told C p enc u r k k' \<longleftrightarrow> (\<exists>w w' message. server_response_writer (su_session u) = Inr w \<and>
     enc (ConnSubscribe (rs_codec_key r) (unat (su_conn_id u)) (unat (rs_server_id r))) = Some message \<and>
     header_write_msg C p message (w, k) = ((w', k'), Inr ()))"

definition answers :: "ready_stream \<Rightarrow> recv list \<Rightarrow> bool" where
  "answers r inbox \<longleftrightarrow> (\<exists>sid gen nc pre mid post.
     inbox = pre @ Got (SubscribeResp sid gen nc (rs_is_datagram r)) # mid @
       Got (TaskStreamResp (rs_server_id r) gen (rs_socket r) (rs_session r)) # post \<and>
     (mid = [] \<or> mid = [Got (TaskStreamAck sid gen)]) \<and> (rs_codec_key r \<noteq> None \<longleftrightarrow> nc))"

lemma deliver_ready:
  "deliver C p enc u r0 s = Finished s' (Inr r) \<Longrightarrow> r = r0 \<and> told C p enc u r (sb_sink s) (sb_sink s')"
  by (auto simp: deliver_def told_def write_subscribe_response_def split: prod.splits sum.splits option.splits)

lemma deliver_again: "deliver C p enc u r0 s \<noteq> Again inbox s'"
  by (simp add: deliver_def split: prod.split sum.split)

lemma keeps_sink [simp]:
  "sb_sink (exclude c s) = sb_sink s" "sb_sink (retire_server_conn u i reason s) = sb_sink s"
  by (simp_all add: exclude_def retire_server_conn_def sb_send_def split: option.split nat.split)

lemma sink_sent: "sb_send t s = (s', ok) \<Longrightarrow> sb_sink s' = sb_sink s"
  by (auto simp: sb_send_def split: option.splits nat.splits)

lemma await_stream_ready:
  assumes "await_stream C p enc u sid gen key dg inbox s = Finished s' (Inr r)"
  shows "\<exists>post. inbox = Got (TaskStreamResp (rs_server_id r) gen (rs_socket r) (rs_session r)) # post \<and>
    rs_codec_key r = key \<and> rs_is_datagram r = dg \<and> told C p enc u r (sb_sink s) (sb_sink s')"
  using assms by (auto simp: await_stream_def dest!: deliver_ready
      split: list.splits recv.splits conn_task.splits if_splits)

lemma await_stream_again:
  assumes "await_stream C p enc u sid gen key dg inbox s = Again rest s'"
  shows "suffix rest inbox \<and> sb_sink s' = sb_sink s"
  using assms by (auto simp: await_stream_def deliver_again intro: suffix_ConsI split: list.splits recv.splits conn_task.splits if_splits)

lemma await_ack_ready:
  assumes "await_ack C p enc u sid gen key dg inbox s = Finished s' (Inr r)"
  shows "(\<exists>mid\<in>{[], [Got (TaskStreamAck sid gen)]}. \<exists>post.
      inbox = mid @ Got (TaskStreamResp (rs_server_id r) gen (rs_socket r) (rs_session r)) # post) \<and>
    rs_codec_key r = key \<and> rs_is_datagram r = dg \<and> told C p enc u r (sb_sink s) (sb_sink s')"
  using assms by (auto simp: await_ack_def dest!: deliver_ready await_stream_ready
      split: list.splits recv.splits conn_task.splits if_splits)

lemma await_ack_again:
  assumes "await_ack C p enc u sid gen key dg inbox s = Again rest s'"
  shows "suffix rest inbox \<and> sb_sink s' = sb_sink s"
  using assms by (auto simp: await_ack_def deliver_again dest!: await_stream_again intro: suffix_ConsI
      split: list.splits recv.splits conn_task.splits if_splits)

lemma attempt_offer:
  assumes "stream_attempt C p enc u d inbox s = Finished s' (Inr r)"
  shows "\<exists>sid gen nc dg rest s1 key. inbox = Got (SubscribeResp sid gen nc dg) # rest \<and>
    sb_sink s1 = sb_sink s \<and> (key \<noteq> None) = nc \<and> await_ack C p enc u sid gen key dg rest s1 = Finished s' (Inr r)"
proof -
  obtain s1 ok where sent: "sb_send (Subscribe (su_key u) (su_conn_id u) (su_chan u) (sb_excluded s)) s = (s1, ok)"
    by (cases "sb_send (Subscribe (su_key u) (su_conn_id u) (su_chan u) (sb_excluded s)) s")
  note step = assms [unfolded stream_attempt_def sent]
  then have ok
    by (cases ok) simp_all
  obtain t rest where inbox: "inbox = Got t # rest"
    using step \<open>ok\<close> by (auto split: list.splits recv.splits)
  show ?thesis
  proof (cases t)
    case (SubscribeResp sid gen nc dg)
    obtain s2 key where s2: "(if nc then let (s, key) = random_key s1 in (s, Some key) else (s1, None)) = (s2, key)"
      by (cases "if nc then let (s, key) = random_key s1 in (s, Some key) else (s1, None)")
    then have "sb_sink s2 = sb_sink s" "(key \<noteq> None) = nc"
      using sink_sent [OF sent] by (auto simp: random_key_def split: if_splits)
    moreover have "await_ack C p enc u sid gen key dg rest s2 = Finished s' (Inr r)"
      using step \<open>ok\<close> inbox SubscribeResp s2 by simp
    ultimately show ?thesis
      using inbox SubscribeResp by blast
  qed (use step \<open>ok\<close> inbox in \<open>auto simp: sb_now_def Let_def split: prod.splits sum.splits if_splits\<close>)
qed

lemma attempt_ready:
  assumes "stream_attempt C p enc u d inbox s = Finished s' (Inr r)"
  shows "answers r inbox \<and> told C p enc u r (sb_sink s) (sb_sink s')"
proof -
  from attempt_offer [OF assms] obtain sid gen nc dg rest s1 key
    where inbox: "inbox = Got (SubscribeResp sid gen nc dg) # rest" and s1: "sb_sink s1 = sb_sink s"
      and key: "(key \<noteq> None) = nc" and ack: "await_ack C p enc u sid gen key dg rest s1 = Finished s' (Inr r)"
    by blast
  from await_ack_ready [OF ack] obtain mid post where ready:
      "rest = mid @ Got (TaskStreamResp (rs_server_id r) gen (rs_socket r) (rs_session r)) # post"
      "mid = [] \<or> mid = [Got (TaskStreamAck sid gen)]" "rs_codec_key r = key" "rs_is_datagram r = dg"
      "told C p enc u r (sb_sink s1) (sb_sink s')"
    by blast
  have "inbox = [] @ Got (SubscribeResp sid gen nc (rs_is_datagram r)) # mid @
      Got (TaskStreamResp (rs_server_id r) gen (rs_socket r) (rs_session r)) # post"
    using inbox ready by simp
  then have "answers r inbox"
    unfolding answers_def using ready(2,3) key
    by (intro exI [of _ sid] exI [of _ gen] exI [of _ nc] exI [of _ "[]"] exI [of _ mid] exI [of _ post] conjI) simp_all
  then show ?thesis
    using ready(5) s1 by simp
qed

lemma attempt_again:
  assumes "stream_attempt C p enc u d inbox s = Again rest s'"
  shows "suffix rest inbox \<and> sb_sink s' = sb_sink s"
proof -
  obtain s1 ok where sent: "sb_send (Subscribe (su_key u) (su_conn_id u) (su_chan u) (sb_excluded s)) s = (s1, ok)"
    by (cases "sb_send (Subscribe (su_key u) (su_conn_id u) (su_chan u) (sb_excluded s)) s")
  then have "sb_sink s1 = sb_sink s"
    by (rule sink_sent)
  then show ?thesis
    using assms unfolding stream_attempt_def sent
    by (auto simp: random_key_def sb_now_def Let_def dest!: await_ack_again intro: suffix_ConsI
        split: bool.splits list.splits recv.splits conn_task.splits sum.splits prod.splits if_splits)
qed

lemma answers_later: "answers r rest \<Longrightarrow> suffix rest inbox \<Longrightarrow> answers r inbox"
  unfolding answers_def suffix_def by (metis append.assoc)

text \<open>
  C23: When a subscriber's handler has a stream for it, that stream answers one of its own
  subscriptions: the manager had named a registration and its generation, at most that registration's
  acknowledgement came in between, and then a stream of that generation arrived.  A codec key exists exactly when the
  registration asked for a codec, and all the subscriber was written is the one reply with that key
  and the ids of both connections.
\<close>

theorem subscriber_is_told_its_stream:
  assumes "get_server_stream C p enc u d inbox s = (s', Some (Inr r))"
  shows "answers r inbox \<and> told C p enc u r (sb_sink s) (sb_sink s')"
  using assms
proof (induction C p enc u d inbox s rule: get_server_stream.induct)
  case (1 C p enc u d inbox s)
  show ?case
  proof (cases "stream_attempt C p enc u d inbox s")
    case (Finished s1 x)
    then show ?thesis
      using "1.prems" attempt_ready by (subst (asm) get_server_stream.simps) fastforce
  next
    case (Blocked s1)
    then show ?thesis
      using "1.prems" by (subst (asm) get_server_stream.simps) simp
  next
    case (Again rest s1)
    then have "get_server_stream C p enc u d rest s1 = (s', Some (Inr r))"
      using "1.prems" by (subst (asm) get_server_stream.simps) simp
    from "1.IH" [OF Again this] attempt_again [OF Again] show ?thesis
      by (auto intro: answers_later)
  qed
qed

text \<open>A subscriber over a v2 session that gets a stream with a codec on its first attempt.\<close>

definition toy_session :: server_session where "toy_session = v2_session toy_key toy_material"

definition toy_subscription :: subscription where
  "toy_subscription = \<lparr>su_key = [97], su_conn_id = 1, su_chan = 11, su_session = toy_session\<rparr>"

definition toy_subscriber :: subscriber where
  "toy_subscriber = subscriber_new None \<lparr>sent = [], room = None\<rparr> (\<lambda>_. toy_key) (\<lambda>_. 0)"

definition toy_inbox :: "recv list" where
  "toy_inbox = [Got (SubscribeResp 0 1 True False), Got (TaskStreamAck 0 1), Got (TaskStreamResp 2 1 102 toy_session)]"

lemma toy_write:
  "header_write_msg toy_env p [7] (V2End (v2_end_new toy_material DIRECTION_SERVER_TO_CLIENT 0), \<lparr>sent = [], room = None\<rparr>) =
     ((V2End ((v2_end_new toy_material DIRECTION_SERVER_TO_CLIENT 0)\<lparr>end_counter := 1\<rparr>),
       \<lparr>sent = to_be 8 0 @ to_be 4 17 @ [7] @ ascii ''pb-mapper-v2-s2c'', room = None\<rparr>), Inr ())"
  by (simp add: header_write_msg_def v2_write_msg_def Let_def TAG_LEN_def u32_max_def MAX_MSG_LEN_def MAX_PLAINTEXT_LEN_def
      CODEC_TAG_LEN_def toy_env_def tag16_def
      v2_end_new_def direction_key_def toy_material_def write_all_def u64_max_def ascii_def
      DIRECTION_SERVER_TO_CLIENT_def DIRECTION_CLIENT_TO_SERVER_def)

definition toy_ready :: ready_stream where
  "toy_ready = \<lparr>rs_socket = 102, rs_session = toy_session, rs_server_id = 2, rs_codec_key = Some toy_key,
     rs_is_datagram = False\<rparr>"

lemma toy_stream:
  "\<exists>s'. get_server_stream toy_env p (\<lambda>_. Some [7]) toy_subscription 0 toy_inbox toy_subscriber = (s', Some (Inr toy_ready)) \<and>
     sb_tasks s' = [Subscribe [97] 1 11 []]"
proof -
  have w: "server_response_writer toy_session = Inr (V2End (v2_end_new toy_material DIRECTION_SERVER_TO_CLIENT 0))"
    by (simp add: server_response_writer_def session_end_def toy_session_def v2_session_def)
  have "\<exists>s'. stream_attempt toy_env p (\<lambda>_. Some [7]) toy_subscription 0 toy_inbox toy_subscriber = Finished s' (Inr toy_ready) \<and>
     sb_tasks s' = [Subscribe [97] 1 11 []]"
    by (simp add: stream_attempt_def toy_subscription_def toy_inbox_def toy_subscriber_def subscriber_new_def
        sb_send_def random_key_def await_ack_def await_stream_def deliver_def write_subscribe_response_def w toy_write
        toy_ready_def Let_def)
  then show ?thesis
    by (subst get_server_stream.simps) auto
qed

theorem subscriber_is_told_its_stream_witness:
  "\<exists>s'. get_server_stream toy_env (proc toy_state) (\<lambda>_. Some [7]) toy_subscription 0 toy_inbox toy_subscriber = (s', Some (Inr toy_ready)) \<and>
     answers toy_ready toy_inbox \<and>
     told toy_env (proc toy_state) (\<lambda>_. Some [7]) toy_subscription toy_ready (sb_sink toy_subscriber) (sb_sink s')"
  using toy_stream subscriber_is_told_its_stream by blast

section \<open>Every subscriber signs off\<close>

definition signs_off :: "conn_id \<Rightarrow> manager_task \<Rightarrow> bool" where
  "signs_off i t = (case t of DeRegisterClientConn server c \<Rightarrow> c = i | _ \<Rightarrow> False)"

definition arrives :: "send_outcome \<Rightarrow> bool \<Rightarrow> bool" where
  "arrives attempted deferred \<longleftrightarrow> attempted = Delivered \<or> attempted = ChanFull \<and> deferred"

lemma guard_drop_arrives: "arrives attempted deferred \<Longrightarrow> guard_drop attempted deferred (guard_new t) = [t]"
  by (auto simp: arrives_def guard_drop_def guard_new_def)

lemma guard_deregister_new [simp]: "snd (guard_deregister True (guard_new t)) = [t]"
  by (simp add: guard_deregister_def guard_new_def)

text \<open>The tasks of a subscriber's handler, whether it ends by itself or is dropped.\<close>

definition client_tasks ::
  "'c crypto_scheme \<Rightarrow> proc_cred \<Rightarrow> (conn_resp \<Rightarrow> bytes option) \<Rightarrow> subscription \<Rightarrow> nat \<Rightarrow> recv list \<Rightarrow> forward_end \<Rightarrow>
   send_outcome \<Rightarrow> bool \<Rightarrow> auth \<Rightarrow> sink \<Rightarrow> subscriber \<Rightarrow> manager_task list" where
  "client_tasks C p enc u d inbox ended dropped deferred st k s =
     (case handle_client_conn C p enc u d inbox ended dropped deferred st k s of
        Some co \<Rightarrow> co_tasks co
      | None \<Rightarrow> dropped_client_conn C p enc u d inbox dropped deferred s)"

lemma client_tasks_end:
  assumes "arrives dropped deferred" "sb_room s = None" "sb_tasks s = []"
  shows "\<exists>ts server. client_tasks C p enc u d inbox ended dropped deferred st k s =
      ts @ [DeRegisterClientConn server (su_conn_id u)] \<and> list_all (about u) ts"
proof -
  obtain s' r where g: "get_server_stream C p enc u d inbox s = (s', r)"
    by (cases "get_server_stream C p enc u d inbox s")
  have s': "list_all (about u) (sb_tasks s')" "sb_room s' = None"
    using get_server_stream_grows [of u s C p enc d inbox] assms(2,3) by (auto simp: g grows_def)
  show ?thesis
    using s' assms(1)
    by (auto simp: client_tasks_def handle_client_conn_def dropped_client_conn_def g client_guard_def Let_def
        guard_drop_arrives split: option.split sum.split prod.split)
qed

lemma filter_snoc:
  "filter P xs = ys @ [d] \<Longrightarrow> \<exists>us vs. xs = us @ d # vs \<and> filter P us = ys \<and> filter P vs = []"
proof (induction xs arbitrary: ys)
  case (Cons x xs)
  show ?case
  proof (cases "P x \<and> ys = []")
    case True
    then show ?thesis
      using Cons.prems by (intro exI [of _ "[]"] exI [of _ xs]) auto
  next
    case False
    then obtain ys' where "filter P xs = ys' @ [d]" "ys = (if P x then x # ys' else ys')"
      using Cons.prems by (cases "P x"; cases ys) auto
    with Cons.IH obtain us vs where "xs = us @ d # vs" "filter P us = ys'" "filter P vs = []"
      by blast
    then show ?thesis
      using \<open>ys = _\<close> by (intro exI [of _ "x # us"] exI [of _ vs]) auto
  qed
qed simp

text \<open>
  C21: No stream outlives its subscriber.  Once everything a subscriber's handler sends has reached
  the manager, in any interleaving with whatever else it is told, the subscriber is waiting for no
  stream.  The handler may have ended with an error, after forwarding, early
  because the data connection's credential is gone, or by being dropped in the middle, with the
  sign-off sent at once or deferred because the queue was full.
\<close>

theorem no_stream_outlives_its_subscriber:
  assumes "filter (\<lambda>t. subscribes (su_conn_id u) t \<or> signs_off (su_conn_id u) t) ts =
      filter (\<lambda>t. subscribes (su_conn_id u) t \<or> signs_off (su_conn_id u) t)
        (client_tasks C p enc u d inbox ended dropped deferred st k (subscriber_new None sink keys clock))"
    and "arrives dropped deferred" "ShutdownTask \<notin> set ts"
  shows "map_of (pending (manager_run F L ts s)) (su_conn_id u) = None"
proof -
  let ?i = "su_conn_id u"
  let ?P = "\<lambda>t. subscribes ?i t \<or> signs_off ?i t"
  from client_tasks_end [OF assms(2), of "subscriber_new None sink keys clock" C p enc u d inbox ended st k]
  obtain ts0 server where "filter ?P ts = filter ?P ts0 @ [DeRegisterClientConn server ?i]"
    using assms(1) by (auto simp: subscriber_new_def signs_off_def)
  from filter_snoc [OF this] obtain us vs where ts: "ts = us @ DeRegisterClientConn server ?i # vs"
      and vs: "filter ?P vs = []"
    by blast
  have "not_waiting ?i (manager_run F L vs (manage_deregister_client server ?i (manager_run F L us s)))"
    by (rule idle.run [OF _ signed_off_waits_no_more]) (use vs in \<open>auto simp: filter_empty_conv\<close>)
  then show ?thesis
    using assms(3) ts by (simp add: manager_run_append not_waiting_def)
qed

theorem no_stream_outlives_its_subscriber_witness:
  "map_of (pending (manager_run exact_ops toy_limits (client_tasks toy_env (proc toy_state) (\<lambda>_. Some [7])
     toy_subscription 0 toy_inbox ForwardEnded ChanFull True toy_state \<lparr>sent = [], room = None\<rparr> toy_subscriber)
     toy_registry)) (su_conn_id toy_subscription) = None \<and> map_of (pending toy_registry) (su_conn_id toy_subscription) \<noteq> None"
proof -
  have arrives: "arrives ChanFull True"
    by (simp add: arrives_def)
  from client_tasks_end [OF this, of toy_subscriber toy_env "proc toy_state" "\<lambda>_. Some [7]" toy_subscription 0 toy_inbox
      ForwardEnded toy_state "\<lparr>sent = [], room = None\<rparr>"]
  have "ShutdownTask \<notin> set (client_tasks toy_env (proc toy_state) (\<lambda>_. Some [7])
      toy_subscription 0 toy_inbox ForwardEnded ChanFull True toy_state \<lparr>sent = [], room = None\<rparr> toy_subscriber)"
    by (auto simp: toy_subscriber_def subscriber_new_def dest: about_shutdown)
  from no_stream_outlives_its_subscriber [OF _ arrives this, of toy_subscription toy_env "proc toy_state" "\<lambda>_. Some [7]" 0
      toy_inbox ForwardEnded toy_state "\<lparr>sent = [], room = None\<rparr>" "\<lparr>sent = [], room = None\<rparr>" "\<lambda>_. toy_key" "\<lambda>_. 0"]
  show ?thesis
    using toy_pending by (simp add: toy_subscriber_def toy_subscription_def)
qed

section \<open>Every registration is signed off\<close>

definition signs_off_server :: "bytes \<Rightarrow> conn_id \<Rightarrow> manager_task \<Rightarrow> bool" where
  "signs_off_server key i t = (case t of DeRegisterServerConn k c \<Rightarrow> k = key \<and> c = i | _ \<Rightarrow> False)"

text \<open>What the two loops send to the manager.\<close>

definition reports :: "registration \<Rightarrow> manager_task \<Rightarrow> bool" where
  "reports r t = (case t of
       ServerConnActivity key i \<Rightarrow> key = rg_key r \<and> i = rg_conn_id r
     | StreamAck i client gen \<Rightarrow> i = rg_conn_id r
     | _ \<Rightarrow> False)"

definition tells :: "registration \<Rightarrow> control \<Rightarrow> control \<Rightarrow> bool" where
  "tells r s s' \<longleftrightarrow> (\<exists>new. cn_tasks s' = cn_tasks s @ new \<and> list_all (reports r) new)"

lemma tells_refl [simp]: "tells r s s"
  by (simp add: tells_def)

lemma tells_trans: "tells r a b \<Longrightarrow> tells r b c \<Longrightarrow> tells r a c"
  unfolding tells_def by fastforce

lemma tells_same: "cn_tasks s' = cn_tasks s \<Longrightarrow> tells r s s'"
  by (simp add: tells_def)

lemma keeps_tasks [simp]:
  "cn_tasks (finish x s) = cn_tasks s" "cn_tasks (writer_ends x s) = cn_tasks s"
  "cn_tasks (ctl_write C p enc e1 e2 w m s) = cn_tasks s" "cn_tasks (queue_pong enc pong s) = cn_tasks s"
  "cn_tasks (writer_starts C p enc session resp s) = cn_tasks s"
  "cn_tasks (write_task C p enc t w s) = cn_tasks s" "cn_tasks (write_pong C p enc w s) = cn_tasks s"
  by (auto simp: finish_def writer_ends_def ctl_write_def queue_pong_def writer_starts_def write_task_def
      handle_stream_req_def write_pong_def split: option.split prod.split sum.split conn_task.split list.split)

lemma tells_message: "tells r s (handle_control_message enc r msg s)"
  by (auto simp: handle_control_message_def handle_ping_def ctl_send_def tells_def reports_def
      split: option.split server_req.split prod.split bool.split)

lemma tells_step: "tells r s (control_step C p enc r session resp e s)"
  by (cases e) (auto simp: tells_message in_writer_def intro: tells_same split: option.split)

lemma tells_loop: "tells r s (control_loop C p enc r session resp es s)"
  by (induction es arbitrary: s) (auto intro: tells_trans [OF tells_step])

lemma tells_registered: "tells r s (registered_conn C p enc r session inbox es s)"
  unfolding registered_conn_def accepted_conn_def refused_conn_def Let_def
  by (auto simp: tells_loop intro: tells_same split: list.split recv.split conn_task.split sum.split option.split prod.split)

lemma cn_open_loop:
  "ManagerGone \<notin> set es \<Longrightarrow> cn_open (control_loop C p enc r session resp es s) = cn_open s"
proof (induction es arbitrary: s)
  case (Cons e es)
  have "cn_open (control_step C p enc r session resp e s) = cn_open s"
    using Cons.prems
    by (cases e) (auto simp: handle_control_message_def handle_ping_def ctl_send_def queue_pong_def finish_def
        writer_ends_def in_writer_def writer_starts_def ctl_write_def write_task_def handle_stream_req_def write_pong_def
        split: option.split server_req.split prod.split bool.split sum.split conn_task.split list.split)
  then show ?case
    using Cons by simp
qed simp

lemma cn_open_registered:
  "ManagerGone \<notin> set es \<Longrightarrow> cn_open (registered_conn C p enc r session inbox es s) = cn_open s"
  unfolding registered_conn_def accepted_conn_def refused_conn_def Let_def
  by (auto simp: cn_open_loop finish_def split: list.split recv.split conn_task.split sum.split option.split prod.split)

lemma server_tasks_end:
  assumes "arrives dropped deferred" "ManagerGone \<notin> set es"
  shows "\<exists>ts. cn_tasks (handle_server_conn C p enc r session ch inbox es dropped deferred (control_new True k)) =
      Register (rg_key r) (rg_conn_id r) (rg_need_codec r) (rg_is_datagram r) (rg_protocol_version r) ch #
      ts @ [DeRegisterServerConn (rg_key r) (rg_conn_id r)] \<and> list_all (reports r) ts"
proof -
  let ?reg = "Register (rg_key r) (rg_conn_id r) (rg_need_codec r) (rg_is_datagram r) (rg_protocol_version r) ch"
  let ?s = "(control_new True k)\<lparr>cn_tasks := [?reg]\<rparr>"
  have send: "ctl_send ?reg (control_new True k) = (?s, True)"
    by (simp add: ctl_send_def control_new_def)
  have "cn_open (registered_conn C p enc r session inbox es ?s)"
    unfolding cn_open_registered [OF assms(2)] by (simp add: control_new_def)
  moreover obtain ts where "cn_tasks (registered_conn C p enc r session inbox es ?s) = ?reg # ts" "list_all (reports r) ts"
    using tells_registered [of r ?s C p enc session inbox es] by (auto simp: tells_def)
  ultimately show ?thesis
    using assms(1) by (auto simp: handle_server_conn_def send Let_def server_guard_def guard_drop_arrives)
qed

text \<open>
  C22: No registration outlives its connection.  Once everything a registering connection's handler
  sends has reached the manager, in any interleaving with what other connections send, the connection
  is not registered any more: whether its registration was refused, a loop failed or idled out, it was
  retired, or its task was dropped.
\<close>

theorem no_registration_outlives_its_connection:
  assumes "filter (\<lambda>t. registers (rg_key r) (rg_conn_id r) t \<or> signs_off_server (rg_key r) (rg_conn_id r) t) ts =
      filter (\<lambda>t. registers (rg_key r) (rg_conn_id r) t \<or> signs_off_server (rg_key r) (rg_conn_id r) t)
        (cn_tasks (handle_server_conn C p enc r session ch inbox es dropped deferred (control_new True k)))"
    and "rg_conn_id r \<notin> set (ids_of (rg_key r) (services s))"
    and "arrives dropped deferred" "ManagerGone \<notin> set es" "ShutdownTask \<notin> set ts"
  shows "rg_conn_id r \<notin> set (ids_of (rg_key r) (services (manager_run F L ts s)))"
proof -
  let ?key = "rg_key r" and ?i = "rg_conn_id r"
  let ?P = "\<lambda>t. registers ?key ?i t \<or> signs_off_server ?key ?i t"
  let ?reg = "Register ?key ?i (rg_need_codec r) (rg_is_datagram r) (rg_protocol_version r) ch"
  from server_tasks_end [OF assms(3,4), of C p enc r session ch inbox k] obtain ts0
    where "filter ?P ts = filter ?P (?reg # ts0 @ [DeRegisterServerConn ?key ?i])" "list_all (reports r) ts0"
    using assms(1) by auto
  moreover have "filter ?P ts0 = []" if "list_all (reports r) ts0" for ts0
    using that by (auto simp: filter_empty_conv list_all_iff reports_def registers_def signs_off_server_def
        split: manager_task.splits)
  ultimately have "filter ?P ts = [?reg] @ [DeRegisterServerConn ?key ?i]"
    by (simp add: registers_def signs_off_server_def)
  from filter_snoc [OF this] obtain us vs where ts: "ts = us @ DeRegisterServerConn ?key ?i # vs"
      and us: "filter ?P us = [] @ [?reg]" and vs: "filter ?P vs = []"
    by auto
  from filter_snoc [OF us] obtain us1 us2 where us12: "us = us1 @ ?reg # us2" "filter ?P us1 = []" "filter ?P us2 = []"
    by auto
  have quiet: "set xs \<subseteq> {t. \<not> registers ?key ?i t}" if "filter ?P xs = []" for xs
    using that by (auto simp: filter_empty_conv)
  have "at_most 0 ?key ?i s"
    using assms(2) by (simp add: at_most_def count_list_0_iff)
  then have "at_most 1 ?key ?i (manage F L ?reg (manager_run F L us1 s))"
    using registering_adds_one [OF few.run [OF quiet [OF us12(2)]]] by simp
  from few.run [OF quiet [OF us12(3)] this, of F L] have "at_most 1 ?key ?i (manager_run F L us s)"
    using assms(5) ts us12(1) by (simp add: manager_run_append)
  then have "at_most 0 ?key ?i (manage_deregister_server ?key ?i (manager_run F L us s))"
    by (rule signing_off_removes_one)
  from few.run [OF quiet [OF vs] this] show ?thesis
    using assms(5) ts by (simp add: manager_run_append at_most_def count_list_0_iff)
qed

definition toy_codecs :: codecs where
  "toy_codecs = (\<lambda>m. Some [7], \<lambda>msg. if msg = [1] then Some (PingV2 5) else None)"

definition toy_registration :: registration where
  "toy_registration = \<lparr>rg_key = [98], rg_need_codec = False, rg_is_datagram = False, rg_protocol_version = 2,
     rg_conn_id = 3\<rparr>"

definition toy_server_conn :: "control_event list \<Rightarrow> control" where
  "toy_server_conn es = handle_server_conn toy_env (proc toy_state) toy_codecs toy_registration toy_session 12
     [Got (RegisterResp 2 2 60000)] es Delivered False (control_new True \<lparr>sent = [], room = None\<rparr>)"

theorem no_registration_outlives_its_connection_witness:
  "rg_conn_id toy_registration \<notin> set (ids_of (rg_key toy_registration) (services (manager_run exact_ops toy_limits
     (cn_tasks (toy_server_conn [ReadControl [1], WriterStarts, WritePong, ReadIdle])) toy_registry)))"
proof -
  have reports: "ShutdownTask \<notin> set ts" if "list_all (reports toy_registration) ts" for ts
    using that by (induction ts) (auto simp: reports_def)
  have arrives: "arrives Delivered False"
    by (simp add: arrives_def)
  have stays: "ManagerGone \<notin> set [ReadControl [1], WriterStarts, WritePong, ReadIdle]"
    by simp
  from server_tasks_end [OF arrives stays, of toy_env "proc toy_state" toy_codecs toy_registration toy_session 12
      "[Got (RegisterResp 2 2 60000)]" "\<lparr>sent = [], room = None\<rparr>"]
  have quiet: "ShutdownTask \<notin> set (cn_tasks (toy_server_conn [ReadControl [1], WriterStarts, WritePong, ReadIdle]))"
    by (auto simp: toy_server_conn_def dest: reports)
  have "rg_conn_id toy_registration \<notin> set (ids_of (rg_key toy_registration) (services toy_registry))"
    by (simp add: toy_registration_def ids_of_def toy_tasks_def manager_defs key_namespace_def
        split_scoped_service_key_def split_once_nul_def)
  from no_registration_outlives_its_connection [OF refl this arrives stays quiet [unfolded toy_server_conn_def]]
  show ?thesis
    unfolding toy_server_conn_def .
qed

end
