(* ===== verification/ControlProps.thy ===== *)
theory ControlProps
  imports HandlerProps
begin

text \<open>
  What a registering server is written: the answer to its registration, then pongs and stream
  requests, each in the order they were asked for.
\<close>

fun pong :: "out_msg \<Rightarrow> local_msg list" where
  "pong (OutLocal Pong) = [Pong]"
| "pong (OutLocal (PongV2 n)) = [PongV2 n]"
| "pong m = []"

fun stream_request :: "out_msg \<Rightarrow> local_msg list" where
  "stream_request (OutLocal (LocalStream c g)) = [LocalStream c g]"
| "stream_request m = []"

text \<open>The pong a message asks for, and the stream request a task asks for.\<close>

fun asked :: "codecs \<Rightarrow> control_event \<Rightarrow> local_msg list" where
  "asked enc (ReadControl msg) =
     (case snd enc msg of
        Some Ping \<Rightarrow> if fst enc (OutLocal Pong) = None then [] else [Pong]
      | Some (PingV2 n) \<Rightarrow> if fst enc (OutLocal (PongV2 n)) = None then [] else [PongV2 n]
      | _ \<Rightarrow> [])"
| "asked enc e = []"

fun requested :: "control_event \<Rightarrow> local_msg list" where
  "requested (WriteTask (TaskStreamReq c g)) = [LocalStream (unat c) g]"
| "requested e = []"

abbreviation each :: "('a \<Rightarrow> 'b list) \<Rightarrow> 'a list \<Rightarrow> 'b list" where
  "each f xs \<equiv> concat (map f xs)"

section \<open>The shape of what is written\<close>

definition shaped :: "conn_resp \<Rightarrow> control \<Rightarrow> bool" where
  "shaped resp s \<longleftrightarrow> (cn_out s = None \<longrightarrow> cn_written s = []) \<and>
     (cn_written s = [] \<and> (cn_out s \<noteq> None \<longrightarrow> cn_writer_end s \<noteq> None) \<or>
      (\<exists>ms. cn_written s = OutResp resp # map OutLocal ms)) \<and> list_all (\<lambda>m. pong (OutLocal m) = [m]) (cn_pongs s)"

lemma written_more:
  "\<exists>ms. w = OutResp resp # map OutLocal ms \<Longrightarrow> \<exists>ms. w @ [OutLocal m] = OutResp resp # map OutLocal ms"
  by (metis append_Cons list.map(1,2) map_append)

lemma shaped_step: "shaped resp s \<Longrightarrow> shaped resp (control_step C p enc r session resp e s)"
proof (cases e)
  case WriterStarts
  assume "shaped resp s"
  then show ?thesis
    unfolding WriterStarts
    by (auto simp: shaped_def writer_starts_def writer_ends_def ctl_write_def
        split: option.split sum.split prod.split)
next
  case (WriteTask t)
  assume "shaped resp s"
  then show ?thesis
    unfolding WriteTask
    by (auto simp: shaped_def in_writer_def write_task_def handle_stream_req_def writer_ends_def ctl_write_def
        intro!: written_more split: option.split sum.split prod.split conn_task.split)
next
  case WritePong
  assume "shaped resp s"
  then show ?thesis
    unfolding WritePong
    by (auto simp: shaped_def in_writer_def write_pong_def writer_ends_def ctl_write_def
        intro!: written_more split: option.split sum.split prod.split list.split)
next
  case (ReadControl msg)
  assume "shaped resp s"
  then show ?thesis
    unfolding ReadControl
    by (auto simp: shaped_def handle_control_message_def handle_ping_def ctl_send_def queue_pong_def finish_def
        split: option.split server_req.split prod.split bool.split)
qed (auto simp: shaped_def finish_def in_writer_def writer_ends_def split: option.split)

lemma shaped_loop: "shaped resp s \<Longrightarrow> shaped resp (control_loop C p enc r session resp es s)"
  by (induction es arbitrary: s) (auto intro: shaped_step)

section \<open>The order of what is written\<close>

text \<open>The pongs that are still to come, given those that will be asked for.\<close>

definition coming :: "control \<Rightarrow> local_msg list \<Rightarrow> local_msg list" where
  "coming s rest = (if cn_writer_end s \<noteq> None then [] else cn_pongs s @ rest)"

lemma pongs_step:
  assumes "shaped resp s" and s'_def: "s' = control_step C p enc r session resp e s"
  shows "prefix (each pong (cn_written s') @ (if cn_result s' \<noteq> None then [] else coming s' rest))
    (each pong (cn_written s) @ coming s (asked enc e @ rest))"
proof -
  have queue: "list_all (\<lambda>m. pong (OutLocal m) = [m]) (cn_pongs s)"
    using assms(1) by (simp add: shaped_def)
  show ?thesis
  proof (cases e)
    case WriterStarts
    then show ?thesis
      unfolding s'_def by (auto simp: coming_def writer_starts_def writer_ends_def ctl_write_def
          split: option.split sum.split prod.split)
  next
    case (WriteTask t)
    then show ?thesis
      unfolding s'_def by (auto simp: coming_def in_writer_def write_task_def handle_stream_req_def writer_ends_def
          ctl_write_def split: option.split sum.split prod.split conn_task.split)
  next
    case WritePong
    then show ?thesis
      using queue unfolding s'_def
      by (auto simp: coming_def in_writer_def write_pong_def writer_ends_def ctl_write_def
          split: option.split sum.split prod.split list.split)
  next
    case (ReadControl msg)
    then show ?thesis
      unfolding s'_def by (auto simp: coming_def handle_control_message_def handle_ping_def ctl_send_def queue_pong_def
          finish_def split: option.split server_req.split prod.split bool.split)
  qed (auto simp: s'_def coming_def finish_def in_writer_def writer_ends_def split: option.split)
qed

lemma pongs_loop:
  assumes "shaped resp s" "cn_result s = None"
  shows "prefix (each pong (cn_written (control_loop C p enc r session resp es s)))
    (each pong (cn_written s) @ coming s (each (asked enc) es))"
  using assms
proof (induction es arbitrary: s)
  case (Cons e es)
  let ?s = "control_step C p enc r session resp e s"
  note step = pongs_step [OF Cons.prems(1) refl, of C p enc r session e "each (asked enc) es"]
  show ?case
  proof (cases "cn_result ?s = None")
    case True
    then show ?thesis
      using Cons.IH [OF shaped_step [OF Cons.prems(1)] True] step Cons.prems(2) by (simp add: prefix_order.trans)
  next
    case False
    then have "control_loop C p enc r session resp es ?s = ?s"
      by (cases es) auto
    then show ?thesis
      using step False Cons.prems(2) by simp
  qed
qed (simp add: coming_def)

lemma all_pongs_step:
  assumes "shaped resp s" and s': "s' = control_step C p enc r session resp e s"
    and "cn_result s' = None" "cn_writer_end s' = None"
  shows "each pong (cn_written s') @ cn_pongs s' = each pong (cn_written s) @ cn_pongs s @ asked enc e"
    and "cn_writer_end s = None"
proof -
  have queue: "list_all (\<lambda>m. pong (OutLocal m) = [m]) (cn_pongs s)"
    using assms(1) by (simp add: shaped_def)
  have "each pong (cn_written s') @ cn_pongs s' = each pong (cn_written s) @ cn_pongs s @ asked enc e \<and>
      cn_writer_end s = None"
  proof (cases e)
    case WriterStarts
    then show ?thesis
      using assms(3,4) unfolding s' by (auto simp: writer_starts_def writer_ends_def ctl_write_def
          split: option.splits sum.splits prod.splits if_splits)
  next
    case (WriteTask t)
    then show ?thesis
      using assms(3,4) unfolding s' by (auto simp: in_writer_def write_task_def handle_stream_req_def
          writer_ends_def ctl_write_def split: option.splits sum.splits prod.splits conn_task.splits if_splits)
  next
    case WritePong
    then show ?thesis
      using queue assms(3,4) unfolding s'
      by (auto simp: in_writer_def write_pong_def writer_ends_def ctl_write_def
          split: option.splits sum.splits prod.splits list.splits if_splits)
  next
    case (ReadControl msg)
    then show ?thesis
      using assms(3,4) unfolding s' by (auto simp: handle_control_message_def handle_ping_def ctl_send_def
          queue_pong_def finish_def split: option.splits server_req.splits prod.splits bool.splits if_splits)
  qed (use assms(3,4) in \<open>auto simp: s' finish_def in_writer_def writer_ends_def split: option.splits if_splits\<close>)
  then show "each pong (cn_written s') @ cn_pongs s' = each pong (cn_written s) @ cn_pongs s @ asked enc e"
    and "cn_writer_end s = None"
    by simp_all
qed

lemma all_pongs_loop:
  assumes "shaped resp s" "cn_result (control_loop C p enc r session resp es s) = None"
    and "cn_writer_end (control_loop C p enc r session resp es s) = None"
  shows "each pong (cn_written (control_loop C p enc r session resp es s)) @
      cn_pongs (control_loop C p enc r session resp es s) = each pong (cn_written s) @ cn_pongs s @ each (asked enc) es \<and>
    cn_writer_end s = None \<and> cn_result s = None"
  using assms
proof (induction es arbitrary: s)
  case (Cons e es)
  let ?s = "control_step C p enc r session resp e s"
  have run: "cn_result s = None"
    using Cons.prems(2) by (auto split: if_splits)
  then have IH: "each pong (cn_written (control_loop C p enc r session resp es ?s)) @
      cn_pongs (control_loop C p enc r session resp es ?s) = each pong (cn_written ?s) @ cn_pongs ?s @ each (asked enc) es \<and>
      cn_writer_end ?s = None \<and> cn_result ?s = None"
    using Cons.IH [OF shaped_step [OF Cons.prems(1)]] Cons.prems(2,3) by simp
  then have "each pong (cn_written ?s) @ cn_pongs ?s = each pong (cn_written s) @ cn_pongs s @ asked enc e"
      "cn_writer_end s = None"
    using all_pongs_step [OF Cons.prems(1) refl, of C p enc r session e] by blast+
  then have "each pong (cn_written ?s) @ cn_pongs ?s @ each (asked enc) es =
      each pong (cn_written s) @ cn_pongs s @ each (asked enc) (e # es)"
    by (metis append_assoc concat.simps(2) list.map(2))
  then show ?case
    using IH run \<open>cn_writer_end s = None\<close> by simp
qed simp

lemma requests_step:
  "each stream_request (cn_written (control_step C p enc r session resp e s)) = each stream_request (cn_written s) \<or>
   each stream_request (cn_written (control_step C p enc r session resp e s)) =
     each stream_request (cn_written s) @ requested e"
  if "shaped resp s"
proof (cases e)
  case WriterStarts
  then show ?thesis
    by (auto simp: writer_starts_def writer_ends_def ctl_write_def split: option.split sum.split prod.split)
next
  case (WriteTask t)
  then show ?thesis
    by (auto simp: in_writer_def write_task_def handle_stream_req_def writer_ends_def
        ctl_write_def split: option.split sum.split prod.split conn_task.split)
next
  case WritePong
  have "stream_request (OutLocal m) = []" if "m \<in> set (cn_pongs s)" for m
    using \<open>shaped resp s\<close> that by (cases m) (auto simp: shaped_def list_all_iff)
  then show ?thesis
    using WritePong by (auto simp: in_writer_def write_pong_def writer_ends_def ctl_write_def
        split: option.split sum.split prod.split list.split)
next
  case (ReadControl msg)
  then show ?thesis
    by (auto simp: handle_control_message_def handle_ping_def ctl_send_def queue_pong_def
        finish_def split: option.split server_req.split prod.split bool.split)
qed (auto simp: finish_def in_writer_def writer_ends_def split: option.split)

lemma requests_loop:
  "shaped resp s \<Longrightarrow> subseq (each stream_request (cn_written (control_loop C p enc r session resp es s)))
    (each stream_request (cn_written s) @ each requested es)"
proof (induction es arbitrary: s)
  case (Cons e es)
  let ?s = "control_step C p enc r session resp e s"
  have "subseq (each stream_request (cn_written ?s) @ each requested es)
      (each stream_request (cn_written s) @ each requested (e # es))"
    using requests_step [OF Cons.prems, of C p enc r session e] by (auto simp: list_emb_append_mono list_emb_append2)
  from subseq_order.trans [OF Cons.IH [OF shaped_step [OF Cons.prems]] this] show ?case
    by (auto intro: prefix_imp_subseq)
qed simp

text \<open>
  C24: Whatever the two loops of a registered connection do and in whatever order, the first message its
  peer gets is the answer to its registration; after it come only pongs and stream requests.  The pongs are
  those that its pings ask for, each with the sequence number of its ping and in their order, and the
  stream requests are the manager's, in their order; nothing is written twice.  As long as both loops
  run, every pong asked for has been written or is in the queue to the writer.
\<close>

theorem control_replies_in_order:
  assumes "s = control_loop C p enc r session resp es (control_new manager_open k)"
  shows "(cn_written s = [] \<or> (\<exists>ms. cn_written s = OutResp resp # map OutLocal ms \<and>
      prefix (each (pong \<circ> OutLocal) ms) (each (asked enc) es) \<and>
      subseq (each (stream_request \<circ> OutLocal) ms) (each requested es))) \<and>
    (cn_result s = None \<and> cn_writer_end s = None \<longrightarrow> each pong (cn_written s) @ cn_pongs s = each (asked enc) es)"
proof -
  have new: "shaped resp (control_new manager_open k)" "cn_result (control_new manager_open k) = None"
    by (simp_all add: shaped_def control_new_def)
  from pongs_loop [OF new, of C p enc r session es] requests_loop [OF new(1), of C p enc r session es]
  have "prefix (each pong (cn_written s)) (each (asked enc) es)"
      "subseq (each stream_request (cn_written s)) (each requested es)"
    unfolding assms by (simp_all add: control_new_def coming_def)
  moreover have "shaped resp s"
    unfolding assms by (rule shaped_loop [OF new(1)])
  ultimately have "cn_written s = [] \<or> (\<exists>ms. cn_written s = OutResp resp # map OutLocal ms \<and>
      prefix (each (pong \<circ> OutLocal) ms) (each (asked enc) es) \<and>
      subseq (each (stream_request \<circ> OutLocal) ms) (each requested es))"
    by (auto simp: shaped_def comp_def)
  moreover have "each pong (cn_written s) @ cn_pongs s = each (asked enc) es"
    if "cn_result s = None" "cn_writer_end s = None"
    using all_pongs_loop [OF new(1), of C p enc r session es] that unfolding assms by (simp add: control_new_def)
  ultimately show ?thesis
    by blast
qed

theorem control_replies_in_order_witness:
  "\<exists>s. s = control_loop toy_env (proc toy_state) toy_codecs toy_registration toy_session (ConnRegisterV2 3 1 60000)
      [ReadControl [1], WriterStarts, WriteTask (TaskStreamReq 4 1), WritePong] (control_new True \<lparr>sent = [], room = None\<rparr>) \<and>
    (cn_written s = [] \<or> (\<exists>ms. cn_written s = OutResp (ConnRegisterV2 3 1 60000) # map OutLocal ms \<and>
      prefix (each (pong \<circ> OutLocal) ms) [PongV2 5] \<and> subseq (each (stream_request \<circ> OutLocal) ms) [LocalStream 4 1]))"
  using control_replies_in_order [OF refl, of toy_env "proc toy_state" toy_codecs toy_registration toy_session
      "ConnRegisterV2 3 1 60000" "[ReadControl [1], WriterStarts, WriteTask (TaskStreamReq 4 1), WritePong]" True
      "\<lparr>sent = [], room = None\<rparr>"] by (simp add: toy_codecs_def)

end
