(* ===== verification/Administration.thy ===== *)
theory Administration
  imports Reply
begin

text \<open>
  The execution of an administrator's request (\<^verbatim>\<open>pb-mapper-server/src/admin.rs\<close>): credential
  requests go to the authentication service, inventory requests to the connection manager.  What else
  the service does while a handler waits is an argument of the model.
\<close>

section \<open>Waiting\<close>

text \<open>
  \<open>w_audit\<close> happens between the audit of a read and the read, \<open>w_send\<close> until the manager takes the
  query (\<open>w_taken\<close>) and \<open>w_answer\<close> until it has answered.
\<close>

record admin_waits =
  w_audit :: "auth \<Rightarrow> auth"
  w_send :: "auth \<Rightarrow> auth"
  w_taken :: bool
  w_answer :: "auth \<Rightarrow> auth"

definition cancelled_authorization :: "auth_context \<Rightarrow> auth \<Rightarrow> auth \<times> 'a res" where
  "cancelled_authorization ctx st =
     (case ensure_active ctx st of
        (st, Inl e) \<Rightarrow> (st, Inl e)
      | (st, Inr _) \<Rightarrow> (st, Inl admin_rotated))"

text \<open>
  Both selects are biased: a cancelled token wins over a send or an answer that is ready too.
  No answer means the manager dropped the query.
\<close>

definition query_inventory :: "auth_context \<Rightarrow> admin_waits \<Rightarrow> 'i option \<Rightarrow> auth \<Rightarrow> auth \<times> 'i res" where
  "query_inventory ctx w response st =
     and_then (admin_cancellation_token ctx st) (\<lambda>st token.
     let st = w_send w st in
     if is_cancelled (lease_objs st ! token) then cancelled_authorization ctx st
     else if \<not> w_taken w then (st, Inl (fail ''server_state_unavailable'' True))
     else let st = w_answer w st in
       if is_cancelled (lease_objs st ! token) then cancelled_authorization ctx st
       else case response of
              None \<Rightarrow> (st, Inl (fail ''server_state_unavailable'' True))
            | Some items \<Rightarrow> and_then (ensure_active ctx st) (\<lambda>st _. (st, Inr items)))"

section \<open>Requests\<close>

text \<open>A read whose audit record cannot be written is carried out all the same.\<close>

definition audit_read ::
  "'c env_scheme \<Rightarrow> auth_config \<Rightarrow> auth_context \<Rightarrow> string \<Rightarrow> key_id option \<Rightarrow> bytes option \<Rightarrow> auth \<Rightarrow> auth" where
  "audit_read C cfg ctx action key_id detail st = fst (rt_audit_admin C cfg ctx action key_id detail st)"

definition page_detail :: "nat \<Rightarrow> nat \<Rightarrow> bytes option" where
  "page_detail pg page_size =
     Some (ascii ''page='' @ decimal pg @ ascii '',page_size='' @ decimal page_size)"

text \<open>
  The response to the answer of the authentication service.  Every command is answered with a value
  of its own type; the last case cannot arise.
\<close>

fun key_response :: "admin_req \<Rightarrow> answer \<Rightarrow> admin_resp option" where
  "key_response (KeyIssue ttl label) (AnsIssued k) = Some (KeyIssuedResp k)"
| "key_response (KeyList pg n) (AnsPage p) = Some (KeyListResp p)"
| "key_response (KeyShow k) (AnsIssued i) = Some (KeyShownResp i)"
| "key_response (KeyReveal k) (AnsIssued i) = Some (KeyShownResp i)"
| "key_response (KeyRenew k ttl) (AnsIssued i) = Some (KeyRenewedResp i)"
| "key_response (KeyRevoke k) (AnsMetadata m) = Some (KeyRevokedResp m)"
| "key_response KeyGc (AnsCount n) = Some (KeyGcResp n)"
| "key_response AuthStatusReq (AnsStatus s) = Some (AuthStatusResp s)"
| "key_response (AuthStateReset confirm) AnsUnit = Some (OkResp ''auth_state_reset'')"
| "key_response (RootKeyRotate key) AnsUnit = Some (OkResp ''administrator_key_rotated'')"
| "key_response (LegacyProtocolSet p) AnsUnit = Some (OkResp ''legacy_protocol_updated'')"
| "key_response _ _ = None"

definition respond :: "admin_req \<Rightarrow> auth \<times> answer res \<Rightarrow> auth \<times> admin_resp res" where
  "respond req r =
     (case r of
        (st, Inl e) \<Rightarrow> (st, Inl e)
      | (st, Inr a) \<Rightarrow> (st, case key_response req a of Some resp \<Rightarrow> Inr resp | None \<Rightarrow> Inl unavailable))"

fun execute ::
  "'c env_scheme \<Rightarrow> auth_config \<Rightarrow> auth_context \<Rightarrow> admin_waits \<Rightarrow> service_info page option \<Rightarrow>
   connection_info page option \<Rightarrow> admin_req \<Rightarrow> auth \<Rightarrow> auth \<times> admin_resp res" where
  "execute C cfg ctx w ss cs (KeyIssue ttl label) st =
     respond (KeyIssue ttl label) (rt_issue C cfg ctx (from_secs ttl) label st)"
| "execute C cfg ctx w ss cs (KeyList pg page_size) st =
     (let st = w_audit w (audit_read C cfg ctx ''temporary_key_list'' None (page_detail pg page_size) st)
      in respond (KeyList pg page_size) (rt_list C cfg ctx pg page_size st))"
| "execute C cfg ctx w ss cs (KeyShow k) st = respond (KeyShow k) (rt_show C cfg ctx k False st)"
| "execute C cfg ctx w ss cs (KeyReveal k) st = respond (KeyReveal k) (rt_show C cfg ctx k True st)"
| "execute C cfg ctx w ss cs (KeyRenew k ttl) st = respond (KeyRenew k ttl) (rt_renew C cfg ctx k (from_secs ttl) st)"
| "execute C cfg ctx w ss cs (KeyRevoke k) st = respond (KeyRevoke k) (rt_revoke C cfg ctx k st)"
| "execute C cfg ctx w ss cs KeyGc st = respond KeyGc (rt_gc C cfg ctx st)"
| "execute C cfg ctx w ss cs AuthStatusReq st =
     (let st = w_audit w (audit_read C cfg ctx ''auth_status'' None None st)
      in respond AuthStatusReq (rt_status C cfg ctx st))"
| "execute C cfg ctx w ss cs (AuthStateReset confirm) st =
     (if \<not> confirm then (st, Inl (fail ''confirmation_required'' False))
      else respond (AuthStateReset confirm) (rt_reset C cfg ctx st))"
| "execute C cfg ctx w ss cs (RootKeyRotate new_admin_key) st =
     (case parse_credential C (trim new_admin_key) of
        Inr (Admin new_key) \<Rightarrow>
          respond (RootKeyRotate new_admin_key) (rt_rotate_root C cfg ctx new_key st)
      | _ \<Rightarrow> (st, Inl (fail ''administrator_key_invalid'' False)))"
| "execute C cfg ctx w ss cs (LegacyProtocolSet p) st =
     respond (LegacyProtocolSet p) (rt_set_legacy_protocol C cfg ctx p st)"
| "execute C cfg ctx w ss cs (ServiceList key_id pg page_size) st =
     (let st = w_audit w (audit_read C cfg ctx ''service_list'' (map_option word_of_nat key_id)
                 (page_detail pg page_size) st)
      in and_then (query_inventory ctx w ss st) (\<lambda>st items. (st, Inr (ServicesResp items))))"
| "execute C cfg ctx w ss cs (ConnectionList key_id pg page_size) st =
     (let st = w_audit w (audit_read C cfg ctx ''connection_list'' (map_option word_of_nat key_id)
                 (page_detail pg page_size) st)
      in and_then (query_inventory ctx w cs st) (\<lambda>st items. (st, Inr (ConnectionsResp items))))"

definition admin_reply :: "admin_resp res \<Rightarrow> conn_resp" where
  "admin_reply r = (case r of Inr resp \<Rightarrow> ConnAdmin resp | Inl e \<Rightarrow> ConnError (fail_code e) (retryable e))"

definition handle_admin_request ::
  "'c env_scheme \<Rightarrow> auth_config \<Rightarrow> (conn_resp \<Rightarrow> bytes option) \<Rightarrow> auth_context \<Rightarrow> admin_waits \<Rightarrow>
   service_info page option \<Rightarrow> connection_info page option \<Rightarrow> admin_req \<Rightarrow> server_session \<Rightarrow> auth \<Rightarrow> sink \<Rightarrow>
   auth \<times> sink \<times> (server_error + unit)" where
  "handle_admin_request C cfg enc ctx w ss cs req session st k =
     (case execute C cfg ctx w ss cs req st of
        (st, r) \<Rightarrow>
          (st, write_reply C (proc st) enc AdminOperation AdminOperation AdminOperation session (admin_reply r) k))"

end
