(* ===== verification/AdministrationProps.thy ===== *)
theory AdministrationProps
  imports Administration AdminProps
begin

text \<open>
  Properties of the execution of administrator requests: an inventory is answered only under a lease
  that is still current, and a request that the dispatch does not guard against replays changes
  nothing that a replay could exploit.
\<close>

section \<open>Inventories and root rotation\<close>

definition current :: "auth_context \<Rightarrow> auth \<Rightarrow> bool" where
  "current ctx st \<longleftrightarrow> lease_alive st (ctx_lease ctx) \<and> \<not> is_cancelled (lease_objs st ! ctx_lease ctx)"

lemma ensure_admin:
  "ctx_is_admin ctx \<Longrightarrow> ensure_active ctx st = (st, if current ctx st then Inr (ctx_lease ctx) else Inl admin_rotated)"
  by (simp add: ensure_active_def current_def cancelled_lease_failure_def admin_rotated_def Let_def)

lemma admin_token:
  "admin_cancellation_token ctx st =
     (st, if \<not> ctx_is_admin ctx then Inl (fail ''admin_permission_required'' False)
          else if current ctx st then Inr (ctx_lease ctx) else Inl admin_rotated)"
  by (simp add: admin_cancellation_token_def lift_res_def require_admin_def ensure_admin)

lemma cancelled_admin: "ctx_is_admin ctx \<Longrightarrow> cancelled_authorization ctx st = (st, Inl admin_rotated)"
  by (simp add: cancelled_authorization_def ensure_admin)

text \<open>
  C35: An administrator is given an inventory exactly when its lease is current as the query starts, has
  not been cancelled while the query waited for the manager to take it, and is current again once the
  manager has answered; then it is the manager's answer.  In particular a request that was
  authenticated under the old root key gets no inventory after a rotation.
\<close>

theorem inventory_only_under_a_current_lease:
  "query_inventory ctx w response st = (st', Inr items) \<longleftrightarrow>
     ctx_is_admin ctx \<and> current ctx st \<and> \<not> is_cancelled (lease_objs (w_send w st) ! ctx_lease ctx) \<and>
     w_taken w \<and> response = Some items \<and> st' = w_answer w (w_send w st) \<and> current ctx st'"
proof (cases "ctx_is_admin ctx \<and> current ctx st")
  case True
  then show ?thesis
    by (cases response)
      (auto simp: query_inventory_def admin_token cancelled_admin ensure_admin current_def Let_def)
next
  case False
  then show ?thesis
    by (auto simp: query_inventory_def admin_token)
qed

section \<open>Reads\<close>

text \<open>All of the service's state that decides who is authenticated and what has been claimed.\<close>

definition credentials where
  "credentials (st :: auth) = (slots st, cold st, high_slot_entries st, high_slot_generations st, admin_key st, instance_id st,
     legacy_allowed st, admin_replays st, admin_replay_order st, admin_lease st, root_epoch st)"

lemma credentials_mem: "mem s' = mem s \<Longrightarrow> credentials s' = credentials s"
  using more_fields [of s' s] by (simp add: credentials_def)

lemma keeps_io: "io_only (mem s) r \<Longrightarrow> credentials s = v \<Longrightarrow> ends (\<lambda>s. credentials s = v) r"
  unfolding io_only_def ends_def by (drule credentials_mem) (erule trans)

lemma keeps_clock: "credentials s = v \<Longrightarrow> ends (\<lambda>s. credentials s = v) (unix_seconds s)"
  by (rule keeps_io) (auto intro: io_frame)

lemma keeps_push: "credentials (push_audit_record a s) = credentials s"
  by (simp add: credentials_def push_audit_record_def)

lemma keeps_safe: "credentials (enter_safe_mode s) = credentials s"
proof -
  have "credentials (cancel_slot_lease x s1) = credentials s1" for x s1
    by (simp add: cancel_slot_lease_def cancel_lease_def credentials_def split: option.split)
  then have "credentials (fold cancel_slot_lease xs s1) = credentials s1" for xs s1
    by (induction xs arbitrary: s1) simp_all
  then show ?thesis
    by (simp add: enter_safe_mode_def cancel_all_temporary_leases_def) (simp add: credentials_def)
qed

lemma keeps_append_audit: "credentials s = v \<Longrightarrow> ends (\<lambda>s. credentials s = v) (append_audit C a s)"
proof -
  assume v: "credentials s = v"
  have "ends (\<lambda>s. credentials s = v) (append_wal C (admin_key s) (WalAudit a) s)"
    by (rule keeps_io [OF _ v]) (rule io_frame, simp)
  then have "ends (\<lambda>s. credentials s = v) (fail_closed_on_uncertain_wal (append_wal C (admin_key s) (WalAudit a) s))"
    by (cases "append_wal C (admin_key s) (WalAudit a) s"; cases "snd (append_wal C (admin_key s) (WalAudit a) s)")
      (auto simp: ends_def fail_closed_on_uncertain_wal_def keeps_safe)
  then show ?thesis
    unfolding append_audit_def by (rule ends_then) (simp add: ends_def keeps_push)
qed

lemma keeps_audit: "credentials s = v \<Longrightarrow> ends (\<lambda>s. credentials s = v) (audit ac k l s)"
  unfolding audit_def Let_def by (rule ends_rules keeps_clock | assumption)+

text \<open>The commands that only read.\<close>

definition reading :: "auth_command \<Rightarrow> bool" where
  "reading cmd = (case cmd of
       ListKeys a pg n \<Rightarrow> True | ShowKey a k reveal \<Rightarrow> True | Status a \<Rightarrow> True | AuditAdmin a ac k d \<Rightarrow> True | _ \<Rightarrow> False)"

lemma keeps_run: "reading cmd \<Longrightarrow> credentials s = v \<Longrightarrow> ends (\<lambda>s. credentials s = v) (run_command C cfg cmd s)"
  by (cases cmd) (auto simp: reading_def actor_show_def Let_def intro!: ends_rules keeps_append_audit keeps_audit)

lemma keeps_command: "reading cmd \<Longrightarrow> credentials s = v \<Longrightarrow> ends (\<lambda>s. credentials s = v) (actor_command C cfg cmd s)"
  unfolding actor_command_def by (assumption | rule ends_rules keeps_run)+

lemma keeps_request:
  assumes "\<And>a. reading (build a)" "credentials s = v"
  shows "ends (\<lambda>s. credentials s = v) (admin_request C cfg ctx build s)"
proof (cases "ctx_is_admin ctx")
  case True
  then show ?thesis
    using assms unfolding admin_request_def admin_authority_def request_def
    by (auto simp: lift_res_def require_admin_def ensure_admin intro!: ends_rules keeps_command)
next
  case False
  then show ?thesis
    using assms by (simp add: admin_request_def admin_authority_def lift_res_def require_admin_def ends_def)
qed

lemma keeps_respond: "ends P r \<Longrightarrow> ends P (respond req r)"
  by (cases r; cases "snd r") (auto simp: ends_def respond_def)

lemma keeps_audit_read: "credentials s = v \<Longrightarrow> credentials (audit_read C cfg ctx ac k d s) = v"
  using keeps_request [of "\<lambda>a. AuditAdmin a ac k d" s v C cfg ctx]
  by (simp add: audit_read_def rt_audit_admin_def reading_def ends_def)

lemma keeps_query:
  assumes "\<And>s. credentials (w_send w s) = credentials s" "\<And>s. credentials (w_answer w s) = credentials s"
    and "credentials s = v"
  shows "ends (\<lambda>s. credentials s = v) (query_inventory ctx w response s)"
proof (cases "ctx_is_admin ctx")
  case True
  then show ?thesis
    using assms unfolding query_inventory_def
    by (auto simp: admin_token cancelled_admin ensure_admin Let_def ends_def split: option.split)
next
  case False
  then show ?thesis
    using assms by (simp add: query_inventory_def admin_token ends_def)
qed

text \<open>
  A request that the dispatch lets through without claiming its first flight changes nothing a
  replay of it could exploit: the key rows and their history, the administrator key, the instance, the legacy
  policy and the claims of past mutations are the same afterwards, whatever the request answers, provided
  nothing else the service does meanwhile changes them.
\<close>

theorem reads_change_no_credential:
  assumes "\<not> is_mutating req"
    and "\<And>s. credentials (w_audit w s) = credentials s" "\<And>s. credentials (w_send w s) = credentials s"
      "\<And>s. credentials (w_answer w s) = credentials s"
  shows "credentials (fst (execute C cfg ctx w ss cs req st)) = credentials st"
proof -
  note rt = rt_list_def rt_show_def rt_status_def
  have "ends (\<lambda>s. credentials s = credentials st) (execute C cfg ctx w ss cs req st)"
    using assms
    by (cases req) (auto simp: rt Let_def reading_def
        intro!: keeps_respond keeps_request ends_rules keeps_query keeps_audit_read)
  then show ?thesis
    by (simp add: ends_def)
qed

definition no_waits :: admin_waits where
  "no_waits = \<lparr>w_audit = id, w_send = id, w_taken = True, w_answer = id\<rparr>"

theorem reads_change_no_credential_witness:
  "credentials (fst (execute toy_env toy_cfg (context_from_lease 0 True 0) no_waits None None (KeyList 0 10) toy_state)) =
     credentials toy_state"
  by (rule reads_change_no_credential) (simp_all add: no_waits_def)

end
