(* ===== verification/CoreConfig.thy ===== *)
theory CoreConfig
  imports AuthConfig
begin

text \<open>
  The timeouts, pool sizes and switches that every program of the project reads from its environment
  (\<^verbatim>\<open>pb-mapper-core/src/config.rs\<close>).  Address resolution and the installation of the log
  subscriber ask the system and are not modelled.
\<close>

section \<open>Durations\<close>

definition from_millis :: "nat \<Rightarrow> duration" where
  "from_millis n = n * 10 ^ 6"

text \<open>\<^verbatim>\<open>str::strip_suffix\<close>.\<close>

definition strip_suffix :: "bytes \<Rightarrow> bytes \<Rightarrow> bytes option" where
  "strip_suffix suffix bs =
     (if length suffix \<le> length bs \<and> drop (length bs - length suffix) bs = suffix
      then Some (take (length bs - length suffix) bs) else None)"

definition parse_u64 :: "bytes \<Rightarrow> nat option" where
  "parse_u64 = parse_unsigned u64_max"

definition checked_mul_u64 :: "nat \<Rightarrow> nat \<Rightarrow> nat option" where
  "checked_mul_u64 a b = (if a * b \<le> u64_max then Some (a * b) else None)"

definition parse_duration :: "bytes \<Rightarrow> duration option" where
  "parse_duration raw =
     (let value = trim raw in
      if value = [] then None
      else case strip_suffix (ascii ''ms'') value of
        Some raw \<Rightarrow> map_option from_millis (parse_u64 (trim raw))
      | None \<Rightarrow>
      case strip_suffix (ascii ''s'') value of
        Some raw \<Rightarrow> map_option from_secs (parse_u64 (trim raw))
      | None \<Rightarrow>
      case strip_suffix (ascii ''m'') value of
        Some raw \<Rightarrow>
          map_option from_secs (Option.bind (parse_u64 (trim raw)) (\<lambda>minutes. checked_mul_u64 minutes 60))
      | None \<Rightarrow>
      case strip_suffix (ascii ''h'') value of
        Some raw \<Rightarrow>
          map_option from_secs (Option.bind (parse_u64 (trim raw)) (\<lambda>hours. checked_mul_u64 hours (60 * 60)))
      | None \<Rightarrow> map_option from_secs (parse_u64 value))"

definition env_value :: "environment \<Rightarrow> string \<Rightarrow> bytes option" where
  "env_value env name = (case env name of Some (Some value) \<Rightarrow> Some value | _ \<Rightarrow> None)"

definition duration_from_env :: "environment \<Rightarrow> string \<Rightarrow> duration \<Rightarrow> duration" where
  "duration_from_env env name fallback =
     (case Option.bind (env_value env name) parse_duration of Some d \<Rightarrow> d | None \<Rightarrow> fallback)"

section \<open>Timeouts\<close>

definition DEFAULT_CONTROL_IO_TIMEOUT :: duration where "DEFAULT_CONTROL_IO_TIMEOUT = from_secs 30"
definition DEFAULT_STREAM_ACK_TIMEOUT :: duration where "DEFAULT_STREAM_ACK_TIMEOUT = from_millis 300"
definition DEFAULT_STREAM_READY_TIMEOUT :: duration where "DEFAULT_STREAM_READY_TIMEOUT = from_secs 1"
definition DEFAULT_STREAM_RECOVERY_TIMEOUT :: duration where "DEFAULT_STREAM_RECOVERY_TIMEOUT = from_secs 2"
definition DEFAULT_CONTROL_CONN_POOL_SIZE :: nat where "DEFAULT_CONTROL_CONN_POOL_SIZE = 2"
definition DEFAULT_CONTROL_HEARTBEAT_INTERVAL :: duration where "DEFAULT_CONTROL_HEARTBEAT_INTERVAL = from_secs 2"
definition DEFAULT_CONTROL_HEARTBEAT_TOLERANCE :: duration where "DEFAULT_CONTROL_HEARTBEAT_TOLERANCE = from_secs 6"
definition DEFAULT_CONTROL_SUSPECT_GRACE :: duration where "DEFAULT_CONTROL_SUSPECT_GRACE = from_secs 2"
definition DEFAULT_REGISTRATION_PROBE_TIMEOUT :: duration where "DEFAULT_REGISTRATION_PROBE_TIMEOUT = from_secs 1"
definition DEFAULT_SERVER_LEASE_TIMEOUT :: duration where "DEFAULT_SERVER_LEASE_TIMEOUT = from_secs 15"
definition DEFAULT_CLIENT_HEALTH_CHECK_INTERVAL :: duration where
  "DEFAULT_CLIENT_HEALTH_CHECK_INTERVAL = from_secs 15"
definition DEFAULT_CLIENT_HEALTH_CHECK_TIMEOUT :: duration where "DEFAULT_CLIENT_HEALTH_CHECK_TIMEOUT = from_secs 5"
definition DEFAULT_CLIENT_HEALTH_FAILURE_THRESHOLD :: nat where "DEFAULT_CLIENT_HEALTH_FAILURE_THRESHOLD = 3"

definition control_io_timeout :: "environment \<Rightarrow> duration" where
  "control_io_timeout env = duration_from_env env ''PB_MAPPER_CONTROL_IO_TIMEOUT'' DEFAULT_CONTROL_IO_TIMEOUT"

definition stream_ack_timeout :: "environment \<Rightarrow> duration" where
  "stream_ack_timeout env = duration_from_env env ''PB_MAPPER_STREAM_ACK_TIMEOUT'' DEFAULT_STREAM_ACK_TIMEOUT"

definition stream_ready_timeout :: "environment \<Rightarrow> duration" where
  "stream_ready_timeout env = duration_from_env env ''PB_MAPPER_STREAM_READY_TIMEOUT'' DEFAULT_STREAM_READY_TIMEOUT"

definition stream_recovery_timeout :: "environment \<Rightarrow> duration" where
  "stream_recovery_timeout env =
     duration_from_env env ''PB_MAPPER_STREAM_RECOVERY_TIMEOUT'' DEFAULT_STREAM_RECOVERY_TIMEOUT"

definition control_heartbeat_interval :: "environment \<Rightarrow> duration" where
  "control_heartbeat_interval env =
     duration_from_env env ''PB_MAPPER_CONTROL_HEARTBEAT_INTERVAL'' DEFAULT_CONTROL_HEARTBEAT_INTERVAL"

definition control_heartbeat_tolerance :: "environment \<Rightarrow> duration" where
  "control_heartbeat_tolerance env =
     duration_from_env env ''PB_MAPPER_CONTROL_HEARTBEAT_TOLERANCE'' DEFAULT_CONTROL_HEARTBEAT_TOLERANCE"

definition control_suspect_grace :: "environment \<Rightarrow> duration" where
  "control_suspect_grace env =
     duration_from_env env ''PB_MAPPER_CONTROL_SUSPECT_GRACE'' DEFAULT_CONTROL_SUSPECT_GRACE"

definition registration_probe_timeout :: "environment \<Rightarrow> duration" where
  "registration_probe_timeout env =
     duration_from_env env ''PB_MAPPER_REGISTRATION_PROBE_TIMEOUT'' DEFAULT_REGISTRATION_PROBE_TIMEOUT"

definition server_lease_timeout :: "environment \<Rightarrow> duration" where
  "server_lease_timeout env = duration_from_env env ''PB_MAPPER_SERVER_LEASE_TIMEOUT'' DEFAULT_SERVER_LEASE_TIMEOUT"

definition client_health_check_interval :: "environment \<Rightarrow> duration" where
  "client_health_check_interval env =
     duration_from_env env ''PB_MAPPER_CLIENT_HEALTH_CHECK_INTERVAL'' DEFAULT_CLIENT_HEALTH_CHECK_INTERVAL"

definition client_health_check_timeout :: "environment \<Rightarrow> duration" where
  "client_health_check_timeout env =
     duration_from_env env ''PB_MAPPER_CLIENT_HEALTH_CHECK_TIMEOUT'' DEFAULT_CLIENT_HEALTH_CHECK_TIMEOUT"

section \<open>Sizes and switches\<close>

text \<open>A positive number, cut off at \<open>bound\<close>; \<^verbatim>\<open>usize\<close> has 64 bits.\<close>

definition positive_from_env :: "environment \<Rightarrow> string \<Rightarrow> nat \<Rightarrow> nat \<Rightarrow> nat" where
  "positive_from_env env name bound fallback =
     (case Option.bind (env_value env name) (\<lambda>value. parse_u64 (trim value)) of
        Some n \<Rightarrow> if 0 < n then min n bound else fallback
      | None \<Rightarrow> fallback)"

definition control_conn_pool_size :: "environment \<Rightarrow> nat" where
  "control_conn_pool_size env =
     positive_from_env env ''PB_MAPPER_CONTROL_CONN_POOL_SIZE'' 16 DEFAULT_CONTROL_CONN_POOL_SIZE"

definition client_health_failure_threshold :: "environment \<Rightarrow> nat" where
  "client_health_failure_threshold env =
     positive_from_env env ''PB_MAPPER_CLIENT_HEALTH_FAILURE_THRESHOLD'' 100 DEFAULT_CLIENT_HEALTH_FAILURE_THRESHOLD"

definition keep_alive_from_env :: "environment \<Rightarrow> bool" where
  "keep_alive_from_env env =
     (case env_value env ''PB_MAPPER_KEEP_ALIVE'' of
        Some value \<Rightarrow>
          to_ascii_lowercase (trim value) \<in> set [ascii ''on'', ascii ''1'', ascii ''true'', ascii ''yes'']
      | None \<Rightarrow> False)"

datatype log_format = Pretty | Compact | Json

definition parse_log_format :: "bytes \<Rightarrow> log_format" where
  "parse_log_format value =
     (let v = to_ascii_lowercase (trim value)
      in if v = ascii ''compact'' then Compact else if v = ascii ''json'' then Json else Pretty)"

definition log_format_from_env :: "environment \<Rightarrow> log_format" where
  "log_format_from_env env =
     (case env_value env ''PB_MAPPER_LOG_FORMAT'' of Some value \<Rightarrow> parse_log_format value | None \<Rightarrow> Pretty)"

end
