(* ===== verification/ConfigProps.thy ===== *)
theory ConfigProps
  imports CoreConfig AuthActor
begin

text \<open>
  Properties of the configuration read from the environment.
\<close>

section \<open>Printed numbers\<close>

lemma digit_value: "unat (word_of_nat (48 + n mod 10) :: u8) = 48 + n mod 10"
proof -
  have "unat (word_of_nat m :: u8) = m mod 256" for m
    by (simp add: unsigned_of_nat take_bit_eq_mod)
  from this [of "48 + n mod 10"] show ?thesis
    by (simp add: mod_less)
qed

lemma decimal_digits: "list_all is_ascii_digit (decimal n) \<and> decimal n \<noteq> []"
proof (induction n rule: decimal.induct)
  case (1 n)
  have "n mod 10 < 10"
    by simp
  then have "is_ascii_digit (word_of_nat (48 + n mod 10))"
    unfolding is_ascii_digit_def word_le_nat_alt digit_value by simp
  then show ?case
    using 1 by (subst (1 2) decimal.simps) (simp del: of_nat_add)
qed

lemma decimal_value: "foldl (\<lambda>acc b. acc * 10 + (unat b - 48)) 0 (decimal n) = n"
proof (induction n rule: decimal.induct)
  case (1 n)
  then show ?case
    by (subst decimal.simps) (auto simp: digit_value simp del: of_nat_add)
qed

lemma parse_decimal: "parse_u64 (decimal n) = (if n \<le> u64_max then Some n else None)"
proof -
  obtain b rest where d: "decimal n = b # rest" and b: "is_ascii_digit b"
    using decimal_digits [of n] by (cases "decimal n") auto
  from b have "b \<noteq> 43"
    by (auto simp: is_ascii_digit_def)
  with d have "parse_u64 (decimal n) = parse_digits u64_max (decimal n)"
    by (simp add: parse_u64_def parse_unsigned_def)
  then show ?thesis
    using decimal_digits [of n] decimal_value [of n] by (simp add: parse_digits_def)
qed

section \<open>Trimming\<close>

lemma strip_none:
  "find_map (\<lambda>w. if w = [] then None else strip_prefix w bs) ws = None \<Longrightarrow> strip_while ws bs = bs"
  by (subst strip_while.simps) simp

lemma space_ends: "\<forall>w\<in>set white_space. w \<noteq> [] \<and> \<not> is_ascii_graphic (hd w) \<and> \<not> is_ascii_graphic (last w)"
  by code_simp

lemma strip_graphic:
  assumes "is_ascii_graphic b" "\<forall>w\<in>set ws. w \<noteq> [] \<and> \<not> is_ascii_graphic (hd w)"
  shows "strip_while ws (b # bs) = b # bs"
proof (rule strip_none)
  have "strip_prefix w (b # bs) = None" if "w \<in> set ws" for w
    using assms that by (cases w) (auto simp: strip_prefix_def)
  then show "find_map (\<lambda>w. if w = [] then None else strip_prefix w (b # bs)) ws = None"
    by (simp add: find_map_None_iff)
qed

lemma strip_while_graphic:
  assumes "is_ascii_graphic b"
  shows "strip_while white_space (b # bs) = b # bs" "strip_while (map rev white_space) (b # bs) = b # bs"
  using space_ends by (auto intro!: strip_graphic [OF assms] simp: hd_rev)

lemma trim_graphic:
  assumes "list_all is_ascii_graphic bs"
  shows "trim bs = bs"
proof (cases "bs = []")
  case True
  then show ?thesis
    by (simp add: trim_def) (simp add: strip_none find_map_None_iff white_space_def strip_prefix_def)
next
  case False
  then have bs: "bs = hd bs # tl bs" "rev bs = last bs # rev (butlast bs)"
    by (simp, metis append_butlast_last_id rev_eq_Cons_iff rev_rev_ident)
  have "is_ascii_graphic (hd bs)" "is_ascii_graphic (last bs)"
    using assms False by (simp_all add: list_all_iff)
  then have "strip_while white_space bs = bs" "strip_while (map rev white_space) (rev bs) = rev bs"
    using strip_while_graphic bs by metis+
  then show ?thesis
    by (simp add: trim_def)
qed

section \<open>Durations\<close>

lemma graphic_digits: "list_all is_ascii_digit bs \<Longrightarrow> list_all is_ascii_graphic bs"
  by (erule list.pred_mono_strong) (auto simp: is_ascii_digit_def is_ascii_graphic_def word_le_nat_alt)

lemma trim_decimal: "trim (decimal n) = decimal n"
  by (rule trim_graphic) (rule graphic_digits [OF conjunct1 [OF decimal_digits]])

lemma trim_unit:
  "list_all is_ascii_graphic unit \<Longrightarrow> trim (decimal n @ unit) = decimal n @ unit"
  using graphic_digits [OF conjunct1 [OF decimal_digits]] by (intro trim_graphic) simp

lemma last_digit:
  assumes "\<not> is_ascii_digit (last suffix)" "suffix \<noteq> []"
  shows "strip_suffix suffix (decimal n) = None"
proof (rule ccontr)
  assume "strip_suffix suffix (decimal n) \<noteq> None"
  then have "drop (length (decimal n) - length suffix) (decimal n) = suffix"
    by (simp add: strip_suffix_def split: if_splits)
  then have "last suffix = last (decimal n)"
    using assms(2) by (metis drop_eq_Nil last_drop linorder_not_less)
  then show False
    using assms(1) decimal_digits [of n] by (simp add: list_all_iff)
qed

lemma strip_suffix_last:
  "suffix \<noteq> [] \<Longrightarrow> last suffix \<noteq> b \<Longrightarrow> strip_suffix suffix (bs @ [b]) = None"
proof (rule ccontr)
  assume suffix: "suffix \<noteq> []" "last suffix \<noteq> b" and "strip_suffix suffix (bs @ [b]) \<noteq> None"
  then have "drop (length (bs @ [b]) - length suffix) (bs @ [b]) = suffix"
    by (simp add: strip_suffix_def split: if_splits)
  then have "last suffix = last (bs @ [b])"
    using suffix(1) by (metis drop_eq_Nil last_drop linorder_not_less)
  then show False
    using suffix(2) by simp
qed

lemma strip_suffix_snoc2:
  "strip_suffix [a] bs = None \<Longrightarrow> strip_suffix [a, b] (bs @ [b]) = None"
  by (auto simp: strip_suffix_def split: if_splits)

text \<open>
  A duration means what its unit says.  A printed number followed by ms, s, m or h, or by nothing, is that
  many milliseconds, seconds, minutes, hours, or seconds; it is refused exactly when the number, or for
  minutes and hours the seconds it stands for, exceeds 64 bits.
\<close>

theorem duration_units_mean_what_they_say:
  "parse_duration (decimal n @ ascii ''ms'') = (if n \<le> u64_max then Some (from_millis n) else None) \<and>
   parse_duration (decimal n @ ascii ''s'') = (if n \<le> u64_max then Some (from_secs n) else None) \<and>
   parse_duration (decimal n @ ascii ''m'') = (if n * 60 \<le> u64_max then Some (from_secs (n * 60)) else None) \<and>
   parse_duration (decimal n @ ascii ''h'') = (if n * 3600 \<le> u64_max then Some (from_secs (n * 3600)) else None) \<and>
   parse_duration (decimal n) = (if n \<le> u64_max then Some (from_secs n) else None)"
proof -
  have none: "strip_suffix (ascii ''ms'') (decimal n) = None" "strip_suffix (ascii ''s'') (decimal n) = None"
      "strip_suffix (ascii ''m'') (decimal n) = None" "strip_suffix (ascii ''h'') (decimal n) = None"
    by (rule last_digit, simp add: ascii_def is_ascii_digit_def, simp add: ascii_def)+
  have some: "strip_suffix unit (decimal n @ unit) = Some (decimal n)" for unit
    by (simp add: strip_suffix_def)
  have ms: "strip_suffix (ascii ''ms'') (decimal n @ ascii ''s'') = None"
    using none(3) by (simp add: strip_suffix_snoc2 ascii_def)
  have other: "strip_suffix (ascii ''ms'') (decimal n @ ascii [c]) = None"
      "strip_suffix (ascii ''s'') (decimal n @ ascii [c]) = None" if "c \<in> {CHR ''m'', CHR ''h''}" for c
    using that by (auto simp: ascii_def strip_suffix_last)
  have h: "strip_suffix (ascii ''m'') (decimal n @ ascii ''h'') = None"
    by (simp add: ascii_def strip_suffix_last)
  have graphic: "list_all is_ascii_graphic (ascii ''ms'')" "list_all is_ascii_graphic (ascii ''s'')"
      "list_all is_ascii_graphic (ascii ''m'')" "list_all is_ascii_graphic (ascii ''h'')"
    by (simp_all add: ascii_def is_ascii_graphic_def)
  note trims = graphic [THEN trim_unit] trim_decimal
  have nonempty: "decimal n \<noteq> []"
    using decimal_digits by blast
  have seconds: "n * 60 \<le> u64_max \<Longrightarrow> n \<le> u64_max" "n * 3600 \<le> u64_max \<Longrightarrow> n \<le> u64_max"
    by simp_all
  show ?thesis
    using none some ms other [of "CHR ''m''"] other [of "CHR ''h''"] h nonempty seconds
    by (simp add: parse_duration_def trims parse_decimal checked_mul_u64_def)
qed

end
