(* ===== verification/Forward.thy ===== *)
theory Forward
  imports Buffer Wire CoreConfig
begin

text \<open>
  Forwarding between two ends of a tunnel (\<^verbatim>\<open>pb-mapper-protocol/src/forward.rs\<close>).  A
  direction reads from one end and writes to the other; every \<^verbatim>\<open>await\<close> of it takes one
  \<open>arrival\<close> from the network to resolve.  The two directions of a stream tunnel are polled by one
  biased \<^verbatim>\<open>select!\<close>, of which \<open>forward_turn\<close> is one poll: it may move both copies, and then
  takes the first branch that is ready.  Instants and durations are nanoseconds.
\<close>

section \<open>Errors\<close>

datatype error_kind =
    UnexpectedEof | ConnectionReset | ConnectionAborted | BrokenPipe | NotConnected | TimedOut | OtherKind

text \<open>
  A message reader of \<^theory_text>\<open>Wire\<close> fails where its stream ends, a writer where its peer takes no
  more: these are the sources of their errors.
\<close>

datatype forward_error =
    MessageError wire_error
  | MsgNetworkReadBufferdRawData error_kind
  | FwdNetworkWriteWithNormal error_kind
  | MsgForward string error_kind

fun wire_source :: "wire_error \<Rightarrow> error_kind option" where
  "wire_source MsgNetworkReadCheckSum = Some UnexpectedEof"
| "wire_source MsgNetworkReadDatalen = Some UnexpectedEof"
| "wire_source MsgNetworkReadBody = Some UnexpectedEof"
| "wire_source MsgNetworkWriteCheckSum = Some BrokenPipe"
| "wire_source MsgNetworkWriteDatalen = Some BrokenPipe"
| "wire_source MsgNetworkWriteBody = Some BrokenPipe"
| "wire_source MsgNetworkWriteCodecMsg = Some BrokenPipe"
| "wire_source MsgNetworkWriteCodecTag = Some BrokenPipe"
| "wire_source _ = None"

definition is_expected_kind :: "error_kind \<Rightarrow> bool" where
  "is_expected_kind k \<longleftrightarrow> k \<in> {UnexpectedEof, ConnectionReset, ConnectionAborted, BrokenPipe, NotConnected, TimedOut}"

fun is_expected_disconnect :: "forward_error \<Rightarrow> bool" where
  "is_expected_disconnect (MessageError e) = (case wire_source e of Some k \<Rightarrow> is_expected_kind k | None \<Rightarrow> False)"
| "is_expected_disconnect (MsgNetworkReadBufferdRawData k) = is_expected_kind k"
| "is_expected_disconnect (FwdNetworkWriteWithNormal k) = is_expected_kind k"
| "is_expected_disconnect (MsgForward _ k) = is_expected_kind k"

section \<open>Ends of a stream\<close>

text \<open>
  \<open>Arrived n\<close> is a wake-up with at most \<open>n + 1\<close> bytes at hand (a read of an open stream returns no
  empty answer), \<open>Broken\<close> a read that fails.  An outlet is what was written and whether its write
  side was shut down.
\<close>

datatype arrival = Arrived nat | Broken error_kind

type_synonym 'r forward_read = "arrival \<Rightarrow> 'r \<Rightarrow> 'r \<times> (forward_error + bytes)"
type_synonym 'w forward_write = "bytes \<Rightarrow> 'w \<Rightarrow> 'w \<times> (forward_error + unit)"
type_synonym outlet = "sink \<times> bool"

record ('r, 'w) half =
  forward_read :: "'r forward_read"
  forward_write :: "'w forward_write"
  forward_shutdown :: "'w \<Rightarrow> 'w"

definition normal_forward_read :: "(common_buffer \<times> bytes) forward_read" where
  "normal_forward_read a s =
     (case a of
        Arrived n \<Rightarrow> (case read_inner (Suc n) s of (s, src) \<Rightarrow> (s, Inr src))
      | Broken k \<Rightarrow>
          ((if need_resize (fst s) then dyn_resize (fst s) else fst s, snd s),
           Inl (MsgNetworkReadBufferdRawData k)))"

definition normal_forward_write :: "outlet forward_write" where
  "normal_forward_write src = (\<lambda>(k, closed).
     case write_all (FwdNetworkWriteWithNormal BrokenPipe) src k of (k, r) \<Rightarrow> ((k, closed), r))"

definition normal_forward_shutdown :: "outlet \<Rightarrow> outlet" where
  "normal_forward_shutdown = (\<lambda>(k, closed). (k, True))"

definition message_result :: "wire_error + 'a \<Rightarrow> forward_error + 'a" where
  "message_result r = (case r of Inl e \<Rightarrow> Inl (MessageError e) | Inr v \<Rightarrow> Inr v)"

definition codec_forward_read ::
  "'c crypto_scheme \<Rightarrow> proc_cred \<Rightarrow> bytes option \<Rightarrow> (codec \<times> bytes) forward_read" where
  "codec_forward_read C p checksum_key a s =
     (case codec_read_msg C p checksum_key s of (s, r) \<Rightarrow> (s, message_result r))"

definition codec_forward_write ::
  "'c crypto_scheme \<Rightarrow> proc_cred \<Rightarrow> bytes option \<Rightarrow> (codec \<times> outlet) forward_write" where
  "codec_forward_write C p checksum_key src = (\<lambda>(d, k, closed).
     case codec_write_msg C p checksum_key src (d, k) of ((d, k), r) \<Rightarrow> ((d, k, closed), message_result r))"

definition codec_forward_shutdown :: "codec \<times> outlet \<Rightarrow> codec \<times> outlet" where
  "codec_forward_shutdown = (\<lambda>(d, k, closed). (d, k, True))"

section \<open>One direction\<close>

text \<open>\<open>None\<close> is a copy that still waits when the arrivals are used up.\<close>

fun copy_loop :: "('r, 'w) half \<Rightarrow> arrival list \<Rightarrow> 'r \<Rightarrow> 'w \<Rightarrow> nat \<Rightarrow> 'r \<times> 'w \<times> (forward_error + nat) option" where
  "copy_loop H [] r w n = (r, w, None)"
| "copy_loop H (a # as) r w n =
     (case forward_read H a r of
        (r, Inl e) \<Rightarrow> (r, w, Some (Inl e))
      | (r, Inr src) \<Rightarrow>
          if src = [] then (r, forward_shutdown H w, Some (Inr n))
          else (case forward_write H src w of
                  (w, Inl e) \<Rightarrow> (r, w, Some (Inl e))
                | (w, Inr _) \<Rightarrow> copy_loop H as r w (n + length src)))"

definition copy :: "('r, 'w) half \<Rightarrow> arrival list \<Rightarrow> 'r \<Rightarrow> 'w \<Rightarrow> 'r \<times> 'w \<times> (forward_error + nat) option" where
  "copy H as r w = copy_loop H as r w 0"

text \<open>
  The copy of a tunnel is a future: between two polls it waits for a read, or it holds the chunk it
  is writing.  A finished write is reported on the activity channel.
\<close>

record activity =
  activity_bytes :: nat
  activity_at :: nat

record ('r, 'w) copying =
  source :: 'r
  target :: 'w
  in_hand :: "bytes option"
  copied :: nat
  ended :: "(forward_error + nat) option"

definition copying_new :: "'r \<Rightarrow> 'w \<Rightarrow> ('r, 'w) copying" where
  "copying_new r w = \<lparr>source = r, target = w, in_hand = None, copied = 0, ended = None\<rparr>"

definition copy_await ::
  "('r, 'w) half \<Rightarrow> nat \<Rightarrow> arrival \<Rightarrow> ('r, 'w) copying \<Rightarrow> ('r, 'w) copying \<times> activity list" where
  "copy_await H now a c =
     (case in_hand c of
        None \<Rightarrow>
          (case forward_read H a (source c) of
             (r, Inl e) \<Rightarrow> (c\<lparr>source := r, ended := Some (Inl e)\<rparr>, [])
           | (r, Inr src) \<Rightarrow>
               if src = [] then
                 (c\<lparr>source := r, target := forward_shutdown H (target c), ended := Some (Inr (copied c))\<rparr>, [])
               else (c\<lparr>source := r, in_hand := Some src\<rparr>, []))
      | Some src \<Rightarrow>
          (case forward_write H src (target c) of
             (w, Inl e) \<Rightarrow> (c\<lparr>target := w, in_hand := None, ended := Some (Inl e)\<rparr>, [])
           | (w, Inr _) \<Rightarrow>
               (c\<lparr>target := w, in_hand := None, copied := copied c + length src\<rparr>,
                [\<lparr>activity_bytes = length src, activity_at = now\<rparr>])))"

fun copy_with_activity ::
  "('r, 'w) half \<Rightarrow> nat \<Rightarrow> arrival list \<Rightarrow> ('r, 'w) copying \<Rightarrow> ('r, 'w) copying \<times> activity list" where
  "copy_with_activity H now [] c = (c, [])"
| "copy_with_activity H now (a # as) c =
     (if ended c \<noteq> None then (c, [])
      else case copy_await H now a c of
        (c, xs) \<Rightarrow> (case copy_with_activity H now as c of (c, ys) \<Rightarrow> (c, xs @ ys)))"

section \<open>Both directions\<close>

definition DEFAULT_TUNNEL_IDLE_TIMEOUT :: duration where "DEFAULT_TUNNEL_IDLE_TIMEOUT = from_secs (60 * 60)"
definition DEFAULT_HALF_CLOSE_IDLE_TIMEOUT :: duration where "DEFAULT_HALF_CLOSE_IDLE_TIMEOUT = from_secs 60"

record forward_timeouts =
  tunnel_idle_timeout :: duration
  half_close_idle_timeout :: duration

definition forward_timeouts_from_env :: "environment \<Rightarrow> forward_timeouts" where
  "forward_timeouts_from_env env =
     \<lparr>tunnel_idle_timeout = duration_from_env env ''PB_MAPPER_TUNNEL_IDLE_TIMEOUT'' DEFAULT_TUNNEL_IDLE_TIMEOUT,
      half_close_idle_timeout =
        duration_from_env env ''PB_MAPPER_HALF_CLOSE_IDLE_TIMEOUT'' DEFAULT_HALF_CLOSE_IDLE_TIMEOUT\<rparr>"

record direction_state =
  dir_len :: nat
  dir_result :: "(forward_error + nat) option"

definition direction_new :: direction_state where
  "direction_new = \<lparr>dir_len = 0, dir_result = None\<rparr>"

definition is_done :: "direction_state \<Rightarrow> bool" where
  "is_done s \<longleftrightarrow> dir_result s \<noteq> None"

record ('cr, 'sw, 'sr, 'cw) tunnel =
  client_to_server :: "('cr, 'sw) copying"
  server_to_client :: "('sr, 'cw) copying"
  client_activity :: "activity list"
  server_activity :: "activity list"
  client_state :: direction_state
  server_state :: direction_state
  tunnel_idle_at :: nat
  half_close_idle_at :: nat

datatype forward_exit = BothEnded | DirectionFailed | TunnelIdle | HalfCloseIdle

text \<open>One poll of the loop: when it happens and what has arrived for either direction since.\<close>

record poll_tick =
  tick_now :: nat
  client_ready :: "arrival list"
  server_ready :: "arrival list"

definition tunnel_new ::
  "forward_timeouts \<Rightarrow> nat \<Rightarrow> 'cr \<Rightarrow> 'cw \<Rightarrow> 'sr \<Rightarrow> 'sw \<Rightarrow> ('cr, 'sw, 'sr, 'cw) tunnel" where
  "tunnel_new T now cr cw sr sw =
     \<lparr>client_to_server = copying_new cr sw, server_to_client = copying_new sr cw,
      client_activity = [], server_activity = [],
      client_state = direction_new, server_state = direction_new,
      tunnel_idle_at = now + tunnel_idle_timeout T, half_close_idle_at = now + half_close_idle_timeout T\<rparr>"

definition reset_sleep :: "nat \<Rightarrow> nat \<Rightarrow> nat \<Rightarrow> nat" where
  "reset_sleep timeout now deadline = (if timeout \<noteq> 0 then now + timeout else deadline)"

definition reset_sleep_at :: "nat \<Rightarrow> nat \<Rightarrow> nat \<Rightarrow> nat" where
  "reset_sleep_at timeout at deadline = (if timeout \<noteq> 0 then at + timeout else deadline)"

definition record_forward_activity ::
  "forward_timeouts \<Rightarrow> activity \<Rightarrow> bool \<Rightarrow> direction_state \<times> nat \<times> nat \<Rightarrow> direction_state \<times> nat \<times> nat" where
  "record_forward_activity T a peer_done = (\<lambda>(s, tunnel, half).
     (s\<lparr>dir_len := dir_len s + activity_bytes a\<rparr>,
      reset_sleep_at (tunnel_idle_timeout T) (activity_at a) tunnel,
      if peer_done then reset_sleep_at (half_close_idle_timeout T) (activity_at a) half else half))"

definition exit_of :: "forward_error + nat \<Rightarrow> forward_exit option" where
  "exit_of r = (case r of Inl _ \<Rightarrow> Some DirectionFailed | Inr _ \<Rightarrow> None)"

definition client_ends ::
  "forward_timeouts \<Rightarrow> nat \<Rightarrow> forward_error + nat \<Rightarrow> ('cr, 'sw, 'sr, 'cw) tunnel \<Rightarrow>
     ('cr, 'sw, 'sr, 'cw) tunnel \<times> forward_exit option" where
  "client_ends T now r t =
     (t\<lparr>client_state := (client_state t)\<lparr>dir_result := Some r\<rparr>,
        half_close_idle_at := reset_sleep (half_close_idle_timeout T) now (half_close_idle_at t)\<rparr>,
      exit_of r)"

definition server_ends ::
  "forward_timeouts \<Rightarrow> nat \<Rightarrow> forward_error + nat \<Rightarrow> ('cr, 'sw, 'sr, 'cw) tunnel \<Rightarrow>
     ('cr, 'sw, 'sr, 'cw) tunnel \<times> forward_exit option" where
  "server_ends T now r t =
     (t\<lparr>server_state := (server_state t)\<lparr>dir_result := Some r\<rparr>,
        half_close_idle_at := reset_sleep (half_close_idle_timeout T) now (half_close_idle_at t)\<rparr>,
      exit_of r)"

definition client_active ::
  "forward_timeouts \<Rightarrow> activity \<Rightarrow> bool \<Rightarrow> ('cr, 'sw, 'sr, 'cw) tunnel \<Rightarrow> ('cr, 'sw, 'sr, 'cw) tunnel" where
  "client_active T a server_done t =
     (case record_forward_activity T a server_done (client_state t, tunnel_idle_at t, half_close_idle_at t) of
        (s, tunnel, half) \<Rightarrow>
          t\<lparr>client_activity := tl (client_activity t), client_state := s,
            tunnel_idle_at := tunnel, half_close_idle_at := half\<rparr>)"

definition server_active ::
  "forward_timeouts \<Rightarrow> activity \<Rightarrow> bool \<Rightarrow> ('cr, 'sw, 'sr, 'cw) tunnel \<Rightarrow> ('cr, 'sw, 'sr, 'cw) tunnel" where
  "server_active T a client_done t =
     (case record_forward_activity T a client_done (server_state t, tunnel_idle_at t, half_close_idle_at t) of
        (s, tunnel, half) \<Rightarrow>
          t\<lparr>server_activity := tl (server_activity t), server_state := s,
            tunnel_idle_at := tunnel, half_close_idle_at := half\<rparr>)"

definition poll_client ::
  "('cr, 'sw) half \<Rightarrow> poll_tick \<Rightarrow> ('cr, 'sw, 'sr, 'cw) tunnel \<Rightarrow> ('cr, 'sw, 'sr, 'cw) tunnel" where
  "poll_client U k t =
     (case copy_with_activity U (tick_now k) (client_ready k) (client_to_server t) of
        (c, xs) \<Rightarrow> t\<lparr>client_to_server := c, client_activity := client_activity t @ xs\<rparr>)"

definition poll_server ::
  "('sr, 'cw) half \<Rightarrow> poll_tick \<Rightarrow> ('cr, 'sw, 'sr, 'cw) tunnel \<Rightarrow> ('cr, 'sw, 'sr, 'cw) tunnel" where
  "poll_server D k t =
     (case copy_with_activity D (tick_now k) (server_ready k) (server_to_client t) of
        (c, xs) \<Rightarrow> t\<lparr>server_to_client := c, server_activity := server_activity t @ xs\<rparr>)"

definition timers_turn ::
  "forward_timeouts \<Rightarrow> nat \<Rightarrow> bool \<Rightarrow> ('cr, 'sw, 'sr, 'cw) tunnel \<Rightarrow> forward_exit option" where
  "timers_turn T now half_closed t =
     (if tunnel_idle_timeout T \<noteq> 0 \<and> \<not> half_closed \<and> tunnel_idle_at t \<le> now then Some TunnelIdle
      else if half_close_idle_timeout T \<noteq> 0 \<and> half_closed \<and> half_close_idle_at t \<le> now then Some HalfCloseIdle
      else None)"

definition forward_turn ::
  "('cr, 'sw) half \<Rightarrow> ('sr, 'cw) half \<Rightarrow> forward_timeouts \<Rightarrow> poll_tick \<Rightarrow> ('cr, 'sw, 'sr, 'cw) tunnel \<Rightarrow>
     ('cr, 'sw, 'sr, 'cw) tunnel \<times> forward_exit option" where
  "forward_turn U D T k t =
     (let client_done = is_done (client_state t); server_done = is_done (server_state t);
          t = (if client_done then t else poll_client U k t)
      in case (if client_done then None else ended (client_to_server t)) of
        Some r \<Rightarrow> client_ends T (tick_now k) r t
      | None \<Rightarrow>
        (let t = (if server_done then t else poll_server D k t)
         in case (if server_done then None else ended (server_to_client t)) of
           Some r \<Rightarrow> server_ends T (tick_now k) r t
         | None \<Rightarrow>
           (case (if client_done then [] else client_activity t) of
              a # _ \<Rightarrow> (client_active T a server_done t, None)
            | [] \<Rightarrow>
              (case (if server_done then [] else server_activity t) of
                 a # _ \<Rightarrow> (server_active T a client_done t, None)
               | [] \<Rightarrow> (t, timers_turn T (tick_now k) (client_done \<noteq> server_done) t)))))"

text \<open>\<open>None\<close> is a tunnel that is still open when the polls are used up.\<close>

fun start_forward_with_config ::
  "('cr, 'sw) half \<Rightarrow> ('sr, 'cw) half \<Rightarrow> forward_timeouts \<Rightarrow> poll_tick list \<Rightarrow> ('cr, 'sw, 'sr, 'cw) tunnel \<Rightarrow>
     ('cr, 'sw, 'sr, 'cw) tunnel \<times> forward_exit option" where
  "start_forward_with_config U D T ks t =
     (if is_done (client_state t) \<and> is_done (server_state t) then (t, Some BothEnded)
      else case ks of
        [] \<Rightarrow> (t, None)
      | k # ks \<Rightarrow>
          (case forward_turn U D T k t of
             (t, Some x) \<Rightarrow> (t, Some x)
           | (t, None) \<Rightarrow> start_forward_with_config U D T ks t))"

declare start_forward_with_config.simps [simp del]

lemma forward_run_Nil:
  "start_forward_with_config U D T [] t =
     (if is_done (client_state t) \<and> is_done (server_state t) then (t, Some BothEnded) else (t, None))"
  by (subst start_forward_with_config.simps) simp

lemma forward_run_Cons:
  "start_forward_with_config U D T (k # ks) t =
     (if is_done (client_state t) \<and> is_done (server_state t) then (t, Some BothEnded)
      else case forward_turn U D T k t of
        (t, Some x) \<Rightarrow> (t, Some x)
      | (t, None) \<Rightarrow> start_forward_with_config U D T ks t)"
  by (subst start_forward_with_config.simps) simp

lemmas forward_run_simps = forward_run_Nil forward_run_Cons

text \<open>What the log says of a direction.\<close>

datatype forward_log = SentAll nat | ClosedByPeer forward_error | GotError forward_error | StoppedBefore nat

definition handle_forward_result :: "forward_error + nat \<Rightarrow> forward_log" where
  "handle_forward_result r =
     (case r of Inr n \<Rightarrow> SentAll n
      | Inl e \<Rightarrow> if is_expected_disconnect e then ClosedByPeer e else GotError e)"

definition handle_forward_final_result :: "direction_state \<Rightarrow> forward_log" where
  "handle_forward_final_result s =
     (case dir_result s of Some r \<Rightarrow> handle_forward_result r | None \<Rightarrow> StoppedBefore (dir_len s))"

section \<open>Datagrams\<close>

text \<open>
  A datagram direction hands every message over as one; an empty one does not end it.  It only ends
  with an error.
\<close>

record ('r, 'w) datagram_half =
  datagram_recv :: "'r \<Rightarrow> 'r \<times> (forward_error + bytes)"
  datagram_send :: "bytes \<Rightarrow> 'w \<Rightarrow> 'w \<times> (forward_error + unit)"

definition normal_datagram_recv ::
  "proc_cred \<Rightarrow> bytes option \<Rightarrow> bytes \<Rightarrow> bytes \<times> (forward_error + bytes)" where
  "normal_datagram_recv p checksum_key input =
     (case normal_read_msg p checksum_key input of (input, r) \<Rightarrow> (input, message_result r))"

definition normal_datagram_send ::
  "proc_cred \<Rightarrow> bytes option \<Rightarrow> bytes \<Rightarrow> sink \<Rightarrow> sink \<times> (forward_error + unit)" where
  "normal_datagram_send p checksum_key src k =
     (case normal_write_msg p checksum_key src k of (k, r) \<Rightarrow> (k, message_result r))"

definition codec_datagram_recv ::
  "'c crypto_scheme \<Rightarrow> proc_cred \<Rightarrow> bytes option \<Rightarrow> codec \<times> bytes \<Rightarrow> (codec \<times> bytes) \<times> (forward_error + bytes)" where
  "codec_datagram_recv C p checksum_key s =
     (case codec_read_msg C p checksum_key s of (s, r) \<Rightarrow> (s, message_result r))"

definition codec_datagram_send ::
  "'c crypto_scheme \<Rightarrow> proc_cred \<Rightarrow> bytes option \<Rightarrow> bytes \<Rightarrow> codec \<times> sink \<Rightarrow> (codec \<times> sink) \<times> (forward_error + unit)" where
  "codec_datagram_send C p checksum_key src s =
     (case codec_write_msg C p checksum_key src s of (s, r) \<Rightarrow> (s, message_result r))"

text \<open>
  The UDP halves are those of the \<^verbatim>\<open>uni-stream\<close> package: their receive and send operations are
  arguments.
\<close>

definition udp_datagram_recv ::
  "('u \<Rightarrow> 'u \<times> (error_kind + bytes)) \<Rightarrow> 'u \<Rightarrow> 'u \<times> (forward_error + bytes)" where
  "udp_datagram_recv recv_datagram u =
     (case recv_datagram u of (u, Inl k) \<Rightarrow> (u, Inl (MsgForward ''read'' k)) | (u, Inr m) \<Rightarrow> (u, Inr m))"

definition udp_datagram_send ::
  "(bytes \<Rightarrow> 'u \<Rightarrow> 'u \<times> (error_kind + unit)) \<Rightarrow> bytes \<Rightarrow> 'u \<Rightarrow> 'u \<times> (forward_error + unit)" where
  "udp_datagram_send send_datagram src u =
     (case send_datagram src u of (u, Inl k) \<Rightarrow> (u, Inl (MsgForward ''write'' k)) | (u, Inr v) \<Rightarrow> (u, Inr v))"

definition datagram_step :: "('r, 'w) datagram_half \<Rightarrow> 'r \<times> 'w \<Rightarrow> ('r \<times> 'w) \<times> (forward_error + nat)" where
  "datagram_step H = (\<lambda>(r, w).
     case datagram_recv H r of
       (r, Inl e) \<Rightarrow> ((r, w), Inl e)
     | (r, Inr src) \<Rightarrow>
         (case datagram_send H src w of
            (w, Inl e) \<Rightarrow> ((r, w), Inl e)
          | (w, Inr _) \<Rightarrow> ((r, w), Inr (length src))))"

fun transfer_datagrams ::
  "('r, 'w) datagram_half \<Rightarrow> nat \<Rightarrow> 'r \<times> 'w \<Rightarrow> nat \<Rightarrow> ('r \<times> 'w) \<times> nat \<times> forward_error option" where
  "transfer_datagrams H 0 s n = (s, n, None)"
| "transfer_datagrams H (Suc k) s n =
     (case datagram_step H s of
        (s, Inl e) \<Rightarrow> (s, n, Some e)
      | (s, Inr m) \<Rightarrow> transfer_datagrams H k s (n + m))"

text \<open>The schedule tells which direction moves next (\<open>True\<close>: client to server).\<close>

fun start_datagram_forward ::
  "('cr, 'sw) datagram_half \<Rightarrow> ('sr, 'cw) datagram_half \<Rightarrow> bool list \<Rightarrow> ('cr \<times> 'sw) \<times> ('sr \<times> 'cw) \<Rightarrow>
     (('cr \<times> 'sw) \<times> ('sr \<times> 'cw)) \<times> (string \<times> forward_log) option" where
  "start_datagram_forward U D [] s = (s, None)"
| "start_datagram_forward U D (True # bs) s =
     (case datagram_step U (fst s) of
        (u, Inl e) \<Rightarrow> ((u, snd s), Some (''udp->tcp'', handle_forward_result (Inl e)))
      | (u, Inr _) \<Rightarrow> start_datagram_forward U D bs (u, snd s))"
| "start_datagram_forward U D (False # bs) s =
     (case datagram_step D (snd s) of
        (d, Inl e) \<Rightarrow> ((fst s, d), Some (''tcp->udp'', handle_forward_result (Inl e)))
      | (d, Inr _) \<Rightarrow> start_datagram_forward U D bs (fst s, d))"

section \<open>Local streams\<close>

text \<open>\<^verbatim>\<open>ring\<close> takes AES-256 keys of 32 bytes.\<close>

definition get_encodec :: "bytes \<Rightarrow> wire_error + codec" where
  "get_encodec key = (if length key = 32 then Inr (codec_new key) else Inl (MsgCodec ''create encodec''))"

definition get_decodec :: "bytes \<Rightarrow> wire_error + codec" where
  "get_decodec key = (if length key = 32 then Inr (codec_new key) else Inl (MsgCodec ''create decodec''))"

definition plain_half :: "(common_buffer \<times> bytes, outlet) half" where
  "plain_half = \<lparr>forward_read = normal_forward_read, forward_write = normal_forward_write,
     forward_shutdown = normal_forward_shutdown\<rparr>"

definition sealing_half ::
  "'c crypto_scheme \<Rightarrow> proc_cred \<Rightarrow> bytes option \<Rightarrow> (common_buffer \<times> bytes, codec \<times> outlet) half" where
  "sealing_half C p key = \<lparr>forward_read = normal_forward_read, forward_write = codec_forward_write C p key,
     forward_shutdown = codec_forward_shutdown\<rparr>"

definition opening_half ::
  "'c crypto_scheme \<Rightarrow> proc_cred \<Rightarrow> bytes option \<Rightarrow> (codec \<times> bytes, outlet) half" where
  "opening_half C p key = \<lparr>forward_read = codec_forward_read C p key, forward_write = normal_forward_write,
     forward_shutdown = normal_forward_shutdown\<rparr>"

text \<open>
  A local TCP stream and the tunnel's connection, each with its input and its sink: what both
  sockets were given, and how the forwarding ended.  \<open>None\<close> is the early return when a codec
  cannot be made.
\<close>

definition forward_tcp ::
  "'c crypto_scheme \<Rightarrow> proc_cred \<Rightarrow> forward_timeouts \<Rightarrow> bytes option \<Rightarrow> bytes \<Rightarrow> nat \<Rightarrow> poll_tick list \<Rightarrow>
     bytes \<times> sink \<Rightarrow> bytes \<times> sink \<Rightarrow> (outlet \<times> outlet \<times> forward_exit option) option" where
  "forward_tcp C p T session_key framing_key now ks = (\<lambda>(local_in, local_out) (remote_in, remote_out).
     case session_key of
       Some key \<Rightarrow>
         (case (get_decodec key, get_encodec key) of
            (Inr opener, Inr sealer) \<Rightarrow>
              (case start_forward_with_config (sealing_half C p (Some framing_key))
                  (opening_half C p (Some framing_key)) T ks
                  (tunnel_new T now (buffer_new, local_in) (local_out, False)
                    (opener, remote_in) (sealer, remote_out, False)) of
                 (t, x) \<Rightarrow> Some (target (server_to_client t), snd (target (client_to_server t)), x))
          | _ \<Rightarrow> None)
     | None \<Rightarrow>
         (case start_forward_with_config plain_half plain_half T ks
             (tunnel_new T now (buffer_new, local_in) (local_out, False)
               (buffer_new, remote_in) (remote_out, False)) of
            (t, x) \<Rightarrow> Some (target (server_to_client t), target (client_to_server t), x)))"

text \<open>A local UDP peer and the tunnel's connection.\<close>

definition forward_udp ::
  "('u \<Rightarrow> 'u \<times> (error_kind + bytes)) \<Rightarrow> (bytes \<Rightarrow> 'v \<Rightarrow> 'v \<times> (error_kind + unit)) \<Rightarrow>
     'c crypto_scheme \<Rightarrow> proc_cred \<Rightarrow> bytes option \<Rightarrow> bytes \<Rightarrow> bool list \<Rightarrow> 'u \<Rightarrow> 'v \<Rightarrow> bytes \<times> sink \<Rightarrow>
     ('v \<times> sink \<times> (string \<times> forward_log) option) option" where
  "forward_udp recv_datagram send_datagram C p session_key framing_key bs u v = (\<lambda>(remote_in, remote_out).
     case session_key of
       Some key \<Rightarrow>
         (case (get_decodec key, get_encodec key) of
            (Inr opener, Inr sealer) \<Rightarrow>
              (case start_datagram_forward
                  \<lparr>datagram_recv = udp_datagram_recv recv_datagram,
                   datagram_send = codec_datagram_send C p (Some framing_key)\<rparr>
                  \<lparr>datagram_recv = codec_datagram_recv C p (Some framing_key),
                   datagram_send = udp_datagram_send send_datagram\<rparr>
                  bs ((u, sealer, remote_out), ((opener, remote_in), v)) of
                 (((_, _, k), (_, v)), x) \<Rightarrow> Some (v, k, x))
          | _ \<Rightarrow> None)
     | None \<Rightarrow>
         (case start_datagram_forward
             \<lparr>datagram_recv = udp_datagram_recv recv_datagram,
              datagram_send = normal_datagram_send p (Some framing_key)\<rparr>
             \<lparr>datagram_recv = normal_datagram_recv p (Some framing_key),
              datagram_send = udp_datagram_send send_datagram\<rparr>
             bs ((u, remote_out), (remote_in, v)) of
            (((_, k), (_, v)), x) \<Rightarrow> Some (v, k, x)))"

end
