(* ===== verification/ForwardProps.thy ===== *)
theory ForwardProps
  imports Forward Toy
begin

text \<open>
  What forwarding promises.  \<open>reader_end\<close> and \<open>writer_end\<close> are the contracts of the reading and
  the writing trait: \<open>yields r s\<close> says that \<open>s\<close> is what is still to come, \<open>wrote w s\<close> that \<open>s\<close> was
  handed over.  A copy between two ends, and a tunnel of two such copies, loses nothing whatever
  the order of the polls.
\<close>

section \<open>The contracts\<close>

locale reader_end =
  fixes rd :: "'r forward_read" and yields :: "'r \<Rightarrow> bytes \<Rightarrow> bool"
  assumes read_chunk: "yields r s \<Longrightarrow> rd a r = (r', Inr src) \<Longrightarrow>
      \<exists>t. s = src @ t \<and> yields r' t \<and> (src = [] \<longrightarrow> s = []) \<and> length src \<le> MAX_PLAINTEXT_LEN"
    and read_fails: "yields r s \<Longrightarrow> rd (Arrived n) r = (r', Inl e) \<Longrightarrow> s = []"

locale writer_end =
  fixes wr :: "'w forward_write" and shut :: "'w \<Rightarrow> 'w"
    and wrote :: "'w \<Rightarrow> bytes \<Rightarrow> bool" and closed :: "'w \<Rightarrow> bool"
  assumes write_chunk: "wrote w s \<Longrightarrow> length src \<le> MAX_PLAINTEXT_LEN \<Longrightarrow> src \<noteq> [] \<Longrightarrow> wr src w = (w', Inr u) \<Longrightarrow>
      wrote w' (s @ src)"
    and shut: "wrote w s \<Longrightarrow> wrote (shut w) s \<and> closed (shut w)"

locale copy_ends =
  reader_end "forward_read H" yields + writer_end "forward_write H" "forward_shutdown H" wrote closed
  for H :: "('r, 'w) half" and yields wrote closed
begin

text \<open>The future: what was written, what it holds and what is to come make up the stream.\<close>

definition carries :: "bytes \<Rightarrow> ('r, 'w) copying \<Rightarrow> bool" where
  "carries whole c \<longleftrightarrow>
     (case ended c of
        None \<Rightarrow> (\<exists>s t. wrote (target c) s \<and> yields (source c) t \<and> copied c = length s \<and>
            whole = s @ (case in_hand c of None \<Rightarrow> [] | Some x \<Rightarrow> x) @ t \<and>
            (\<forall>x. in_hand c = Some x \<longrightarrow> x \<noteq> [] \<and> length x \<le> MAX_PLAINTEXT_LEN))
      | Some (Inr n) \<Rightarrow> wrote (target c) whole \<and> n = length whole \<and> closed (target c)
      | Some (Inl _) \<Rightarrow> True)"

lemma carries_running:
  assumes "ended c = None" "wrote (target c) s" "yields (source c) t" "copied c = length s"
    "whole = s @ (case in_hand c of None \<Rightarrow> [] | Some x \<Rightarrow> x) @ t"
    "\<And>x. in_hand c = Some x \<Longrightarrow> x \<noteq> [] \<and> length x \<le> MAX_PLAINTEXT_LEN"
  shows "carries whole c"
  using assms unfolding carries_def by auto

lemma carries_new: "yields r whole \<Longrightarrow> wrote w [] \<Longrightarrow> carries whole (copying_new r w)"
  by (auto simp: carries_def copying_new_def)

lemma carries_await:
  assumes "carries whole c" "ended c = None"
  shows "carries whole (fst (copy_await H now a c))"
proof -
  from assms obtain s t where st: "wrote (target c) s" "yields (source c) t" "copied c = length s"
      "whole = s @ (case in_hand c of None \<Rightarrow> [] | Some x \<Rightarrow> x) @ t"
      "\<forall>x. in_hand c = Some x \<longrightarrow> x \<noteq> [] \<and> length x \<le> MAX_PLAINTEXT_LEN"
    by (auto simp: carries_def)
  show ?thesis
  proof (cases "in_hand c")
    case None
    obtain r res where rd: "forward_read H a (source c) = (r, res)"
      by fastforce
    show ?thesis
    proof (cases res)
      case (Inr src)
      from read_chunk [OF st(2) rd [unfolded Inr]] obtain t' where
        t': "t = src @ t'" "yields r t'" "src = [] \<longrightarrow> t = []" "length src \<le> MAX_PLAINTEXT_LEN"
        by blast
      show ?thesis
      proof (cases "src = []")
        case True
        then show ?thesis
          using shut [OF st(1)] st None rd Inr t' assms(2) by (simp add: copy_await_def carries_def)
      next
        case False
        then show ?thesis
          using st None rd Inr t' assms(2)
          by (simp add: copy_await_def) (rule carries_running [of _ s t']; simp)
      qed
    qed (simp add: copy_await_def None rd carries_def)
  next
    case (Some x)
    obtain w res where wr: "forward_write H x (target c) = (w, res)"
      by fastforce
    show ?thesis
    proof (cases res)
      case (Inr u)
      have "wrote w (s @ x)"
        using write_chunk [OF st(1) _ _ wr [unfolded Inr]] st(5) Some by simp
      then show ?thesis
        using st Some wr Inr assms(2)
        by (simp add: copy_await_def) (rule carries_running [of _ "s @ x" t]; simp)
    qed (simp add: copy_await_def Some wr carries_def)
  qed
qed

lemma carries_poll: "carries whole c \<Longrightarrow> carries whole (fst (copy_with_activity H now as c))"
proof (induction as arbitrary: c)
  case (Cons a as)
  show ?case
  proof (cases "ended c")
    case None
    with Cons carries_await [OF Cons.prems None, of now a] show ?thesis
      by (auto simp: case_prod_unfold)
  qed (simp add: Cons.prems)
qed simp

text \<open>The plain copy, with a peer that takes everything and a stream that does not break.\<close>

lemma copy_loop_delivers:
  assumes "yields r t" "wrote w s" "good w" "length t < length as" "\<forall>a\<in>set as. \<exists>n. a = Arrived n"
    and open_end: "\<And>w s src. wrote w s \<Longrightarrow> good w \<Longrightarrow> length src \<le> MAX_PLAINTEXT_LEN \<Longrightarrow> src \<noteq> [] \<Longrightarrow>
      \<exists>w' u. forward_write H src w = (w', Inr u) \<and> good w'"
  shows "\<exists>r' w' res. copy_loop H as r w n = (r', w', Some res) \<and> wrote w' (s @ t) \<and>
    (\<forall>m. res = Inr m \<longrightarrow> m = n + length t \<and> closed w' \<and>
       (\<exists>r0 k. yields r0 [] \<and> forward_read H (Arrived k) r0 = (r', Inr []))) \<and>
    (\<forall>e. res = Inl e \<longrightarrow> good w' \<and> (\<exists>r0 k. yields r0 [] \<and> forward_read H (Arrived k) r0 = (r', Inl e)))"
  using assms(1-5)
proof (induction as arbitrary: r w s t n)
  case (Cons a as)
  from Cons.prems(5) obtain k where a: "a = Arrived k"
    by auto
  obtain r1 res where rd: "forward_read H a r = (r1, res)"
    by fastforce
  show ?case
  proof (cases res)
    case (Inl e)
    have "t = []"
      using read_fails [OF Cons.prems(1)] rd Inl a by blast
    then show ?thesis
      using rd a Inl Cons.prems(1-3) by auto
  next
    case (Inr src)
    from read_chunk [OF Cons.prems(1) rd [unfolded Inr]] obtain t' where
      t': "t = src @ t'" "yields r1 t'" "src = [] \<longrightarrow> t = []" "length src \<le> MAX_PLAINTEXT_LEN"
      by blast
    show ?thesis
    proof (cases "src = []")
      case True
      then show ?thesis
        using rd Inr t'(3) shut [OF Cons.prems(2)] Cons.prems(1,3) a by auto
    next
      case False
      from open_end [OF Cons.prems(2,3) t'(4) False]
      obtain w1 u where wr: "forward_write H src w = (w1, Inr u)" "good w1"
        by blast
      have "length t' < length as"
        using Cons.prems(4) t'(1) False by (cases src) auto
      from Cons.IH [OF t'(2) write_chunk [OF Cons.prems(2) t'(4) False wr(1)] wr(2) this, of "n + length src"] Cons.prems(5)
      show ?thesis
        using rd Inr False wr t'(1) by (auto simp: add.assoc)
    qed
  qed
qed simp

end

text \<open>The two halves of a tunnel.\<close>

locale tunnel_ends =
  up: copy_ends U yields_up wrote_up closed_up + down: copy_ends D yields_down wrote_down closed_down
  for U :: "('cr, 'sw) half" and yields_up wrote_up closed_up
    and D :: "('sr, 'cw) half" and yields_down wrote_down closed_down
begin

text \<open>A direction that counts as done has ended so, and while the loop runs it ended well.\<close>

definition tunnel_ok :: "bytes \<Rightarrow> bytes \<Rightarrow> ('cr, 'sw, 'sr, 'cw) tunnel \<Rightarrow> bool" where
  "tunnel_ok a b t \<longleftrightarrow> up.carries a (client_to_server t) \<and> down.carries b (server_to_client t) \<and>
     (\<forall>r. dir_result (client_state t) = Some r \<longrightarrow> ended (client_to_server t) = Some r) \<and>
     (\<forall>r. dir_result (server_state t) = Some r \<longrightarrow> ended (server_to_client t) = Some r)"

definition well_ended :: "('cr, 'sw, 'sr, 'cw) tunnel \<Rightarrow> bool" where
  "well_ended t \<longleftrightarrow> (\<forall>e. dir_result (client_state t) \<noteq> Some (Inl e) \<and> dir_result (server_state t) \<noteq> Some (Inl e))"

lemma tunnel_ok_new:
  "yields_up cr a \<Longrightarrow> wrote_up sw [] \<Longrightarrow> yields_down sr b \<Longrightarrow> wrote_down cw [] \<Longrightarrow>
     tunnel_ok a b (tunnel_new T now cr cw sr sw) \<and> well_ended (tunnel_new T now cr cw sr sw)"
  by (simp add: tunnel_ok_def well_ended_def tunnel_new_def direction_new_def up.carries_new down.carries_new)

lemma tunnel_ok_poll_client:
  "tunnel_ok a b t \<Longrightarrow> \<not> is_done (client_state t) \<Longrightarrow> tunnel_ok a b (poll_client U k t)"
  using up.carries_poll [of a "client_to_server t"]
  by (auto simp: tunnel_ok_def poll_client_def is_done_def case_prod_unfold)

lemma tunnel_ok_poll_server:
  "tunnel_ok a b t \<Longrightarrow> \<not> is_done (server_state t) \<Longrightarrow> tunnel_ok a b (poll_server D k t)"
  using down.carries_poll [of b "server_to_client t"]
  by (auto simp: tunnel_ok_def poll_server_def is_done_def case_prod_unfold)

lemma tunnel_ok_ends:
  "tunnel_ok a b t \<Longrightarrow> ended (client_to_server t) = Some r \<Longrightarrow> tunnel_ok a b (fst (client_ends T now r t))"
  "tunnel_ok a b t \<Longrightarrow> ended (server_to_client t) = Some r \<Longrightarrow> tunnel_ok a b (fst (server_ends T now r t))"
  by (auto simp: tunnel_ok_def client_ends_def server_ends_def)

lemma tunnel_ok_active:
  "tunnel_ok a b t \<Longrightarrow> tunnel_ok a b (client_active T x d t)"
  "tunnel_ok a b t \<Longrightarrow> tunnel_ok a b (server_active T x d t)"
  by (auto simp: tunnel_ok_def client_active_def server_active_def record_forward_activity_def)

lemma tunnel_ok_turn:
  assumes "tunnel_ok a b t"
  shows "tunnel_ok a b (fst (forward_turn U D T k t))"
proof -
  define t1 where "t1 = (if is_done (client_state t) then t else poll_client U k t)"
  define t2 where "t2 = (if is_done (server_state t) then t1 else poll_server D k t1)"
  have t1: "tunnel_ok a b t1" "server_state t1 = server_state t"
    using assms tunnel_ok_poll_client by (auto simp: t1_def poll_client_def case_prod_unfold)
  then have t2: "tunnel_ok a b t2"
    using tunnel_ok_poll_server by (auto simp: t2_def)
  show ?thesis
    unfolding forward_turn_def Let_def t1_def [symmetric] t2_def [symmetric]
    using t1 t2 by (auto intro: tunnel_ok_ends tunnel_ok_active split: option.splits list.splits if_splits)
qed

lemma well_ended_turn:
  assumes "well_ended t" "forward_turn U D T k t = (t', None)"
  shows "well_ended t'"
  using assms
  by (auto simp: forward_turn_def Let_def well_ended_def client_ends_def server_ends_def exit_of_def
      client_active_def server_active_def record_forward_activity_def poll_client_def poll_server_def
      split: option.splits list.splits if_splits sum.splits prod.splits)

lemma tunnel_ok_run:
  assumes "start_forward_with_config U D T ks t = (t', x)" "tunnel_ok a b t" "well_ended t"
  shows "tunnel_ok a b t' \<and> (x = Some BothEnded \<longrightarrow> well_ended t' \<and> is_done (client_state t') \<and> is_done (server_state t'))"
  using assms
proof (induction ks arbitrary: t)
  case Nil
  then show ?case
    by (simp add: forward_run_simps split: if_splits)
next
  case (Cons k ks)
  obtain t1 y where turn: "forward_turn U D T k t = (t1, y)"
    by fastforce
  have t1: "tunnel_ok a b t1"
    using tunnel_ok_turn [OF Cons.prems(2), of T k] turn by simp
  show ?case
  proof (cases "is_done (client_state t) \<and> is_done (server_state t)")
    case True
    then show ?thesis
      using Cons.prems by (simp add: forward_run_simps)
  next
    case False
    show ?thesis
    proof (cases y)
      case None
      with False turn Cons.prems(1) have "start_forward_with_config U D T ks t1 = (t', x)"
        by (auto simp: forward_run_simps split: if_splits)
      then show ?thesis
        using Cons.IH t1 well_ended_turn Cons.prems(3) turn None by blast
    next
      case (Some z)
      have "z \<noteq> BothEnded"
        using turn Some
        by (auto simp: forward_turn_def Let_def client_ends_def server_ends_def exit_of_def timers_turn_def
            split: option.splits list.splits if_splits sum.splits)
      then show ?thesis
        using False turn Some Cons.prems(1) t1 by (auto simp: forward_run_simps)
    qed
  qed
qed

lemma both_ended_delivers:
  assumes "start_forward_with_config U D T ks (tunnel_new T now cr cw sr sw) = (t, Some BothEnded)"
    "yields_up cr a" "wrote_up sw []" "yields_down sr b" "wrote_down cw []"
  shows "wrote_up (target (client_to_server t)) a \<and> closed_up (target (client_to_server t)) \<and>
    wrote_down (target (server_to_client t)) b \<and> closed_down (target (server_to_client t)) \<and>
    dir_result (client_state t) = Some (Inr (length a)) \<and> dir_result (server_state t) = Some (Inr (length b))"
proof -
  from tunnel_ok_run [OF assms(1)] tunnel_ok_new [OF assms(2-5), of T now]
  have t: "tunnel_ok a b t" "well_ended t" "is_done (client_state t)" "is_done (server_state t)"
    by auto
  from t(2-4) obtain m n where "dir_result (client_state t) = Some (Inr m)" "dir_result (server_state t) = Some (Inr n)"
    by (auto simp: well_ended_def is_done_def) (metis obj_sumE)
  with t(1) show ?thesis
    by (auto simp: tunnel_ok_def up.carries_def down.carries_def)
qed

end

section \<open>The ends of the program\<close>

definition raw_yields :: "common_buffer \<times> bytes \<Rightarrow> bytes \<Rightarrow> bool" where
  "raw_yields r s \<longleftrightarrow> buffer_ok (fst r) \<and> s = snd r"

definition raw_wrote :: "bytes \<Rightarrow> outlet \<Rightarrow> bytes \<Rightarrow> bool" where
  "raw_wrote start w s \<longleftrightarrow> sent (fst w) = start @ s"

lemma read_inner_empty:
  assumes "buffer_ok b" "read_inner (Suc n) (b, input) = (s, [])"
  shows "input = []"
proof -
  have "buffer_ok (if need_resize b then dyn_resize b else b)"
    using assms(1) dyn_resize_ok by simp
  then show ?thesis
    using assms(2) by (auto simp: read_inner_def Let_def buffer_ok_def INIT_BUF_SIZE_def min_def split: if_splits)
qed

interpretation raw_reader: reader_end normal_forward_read raw_yields
proof unfold_locales
  fix r r' :: "common_buffer \<times> bytes" and s src :: bytes and a
  assume y: "raw_yields r s" and rd: "normal_forward_read a r = (r', Inr src)"
  obtain b input b' rest where rs: "r = (b, input)" "r' = (b', rest)"
    by fastforce
  from rd obtain n where n: "read_inner (Suc n) (b, input) = ((b', rest), src)"
    by (auto simp: normal_forward_read_def rs split: arrival.splits prod.splits)
  show "\<exists>t. s = src @ t \<and> raw_yields r' t \<and> (src = [] \<longrightarrow> s = []) \<and> length src \<le> MAX_PLAINTEXT_LEN"
    using read_inner_ok [OF _ n] read_inner_empty [of b n input "(b', rest)"] n y
    by (auto simp: raw_yields_def rs msg_len_defs MAX_BUF_SIZE_def)
qed (auto simp: normal_forward_read_def split: prod.splits)

interpretation raw_writer: writer_end normal_forward_write normal_forward_shutdown "raw_wrote start" snd for start
  by unfold_locales
     (auto simp: normal_forward_write_def normal_forward_shutdown_def raw_wrote_def
        split: prod.splits dest!: write_all_Inr)

interpretation plain: copy_ends plain_half raw_yields "raw_wrote start" snd for start
  by (auto simp: copy_ends_def plain_half_def
      intro!: raw_reader.reader_end_axioms raw_writer.writer_end_axioms)

text \<open>Encrypted messages in a row.\<close>

definition sealed_frame :: "bytes \<Rightarrow> bytes \<Rightarrow> bytes" where
  "sealed_frame key c = to_be 4 (unat (get_checksum_for_key (word_of_nat (length c)) key)) @
     to_be 4 (unat (word_of_nat (length c) :: 32 word)) @ c"

primrec sealed_stream :: "'c crypto_scheme \<Rightarrow> bytes \<Rightarrow> bytes list \<Rightarrow> codec \<Rightarrow> bytes \<Rightarrow> codec \<Rightarrow> bool" where
  "sealed_stream C key [] d bs d' \<longleftrightarrow> bs = [] \<and> d' = d"
| "sealed_stream C key (m # ms) d bs d' \<longleftrightarrow> m \<noteq> [] \<and> length m \<le> MAX_PLAINTEXT_LEN \<and>
     (\<exists>d1 c rest. codec_encrypt C d m = (d1, Some c) \<and> bs = sealed_frame key c @ rest \<and>
       sealed_stream C key ms d1 rest d')"

lemma sealed_stream_append:
  "sealed_stream C key ms d bs d1 \<Longrightarrow> sealed_stream C key ns d1 cs d2 \<Longrightarrow>
     sealed_stream C key (ms @ ns) d (bs @ cs) d2"
  by (induction ms arbitrary: d bs) fastforce+

definition sealed_yields :: "'c crypto_scheme \<Rightarrow> bytes \<Rightarrow> codec \<times> bytes \<Rightarrow> bytes \<Rightarrow> bool" where
  "sealed_yields C key r s \<longleftrightarrow> aead_ok C \<and> (\<exists>ms d'. sealed_stream C key ms (fst r) (snd r) d' \<and> s = concat ms)"

definition sealed_wrote :: "'c crypto_scheme \<Rightarrow> bytes \<Rightarrow> codec \<Rightarrow> bytes \<Rightarrow> codec \<times> outlet \<Rightarrow> bytes \<Rightarrow> bool" where
  "sealed_wrote C key d start w s \<longleftrightarrow> aead_ok C \<and>
     (\<exists>ms bs. sealed_stream C key ms d bs (fst w) \<and> s = concat ms \<and> sent (fst (snd w)) = start @ bs)"

lemma codec_read_sealed:
  assumes "aead_ok C" "sealed_stream C key (m # ms) d input d'"
  shows "\<exists>d1 rest. codec_read_msg C p (Some key) (d, input) = ((d1, rest), Inr m) \<and>
    sealed_stream C key ms d1 rest d'"
proof -
  from assms(2) obtain d1 c rest where enc: "codec_encrypt C d m = (d1, Some c)"
    and input: "input = sealed_frame key c @ rest" and rest: "sealed_stream C key ms d1 rest d'"
    and m: "length m \<le> MAX_PLAINTEXT_LEN"
    by auto
  have "codec_decrypt C d c = (d1, Some m)" "length c \<le> MAX_MSG_LEN"
    using enc assms(1) m by (auto simp: codec_encrypt_def codec_decrypt_def aead_ok_def msg_len_defs)
  from codec_read_frame [OF this(2,1), of p key rest] show ?thesis
    using input rest by (auto simp: sealed_frame_def)
qed

lemma codec_read_end: "\<exists>s. codec_read_msg C p key (d, []) = (s, Inl MsgNetworkReadCheckSum)"
  by (simp add: codec_read_msg_def normal_read_msg_def get_msg_len_def read_uint_def read_exact_def and_then_def)

interpretation sealed_reader: reader_end "codec_forward_read C p (Some key)" "sealed_yields C key" for C p key
proof unfold_locales
  fix r s a r' src
  assume y: "sealed_yields C key r s" and rd: "codec_forward_read C p (Some key) a r = (r', Inr src)"
  from y obtain ms d' where ms: "sealed_stream C key ms (fst r) (snd r) d'" "s = concat ms" "aead_ok C"
    by (auto simp: sealed_yields_def)
  obtain d input where r: "r = (d, input)"
    by fastforce
  show "\<exists>t. s = src @ t \<and> sealed_yields C key r' t \<and> (src = [] \<longrightarrow> s = []) \<and> length src \<le> MAX_PLAINTEXT_LEN"
  proof (cases ms)
    case Nil
    then show ?thesis
      using ms rd codec_read_end [of C p "Some key" d] by (auto simp: r codec_forward_read_def message_result_def)
  next
    case (Cons m ns)
    from codec_read_sealed [OF ms(3) ms(1) [unfolded Cons], of p] obtain d1 rest where
      get: "codec_read_msg C p (Some key) r = ((d1, rest), Inr m)" and ns: "sealed_stream C key ns d1 rest d'"
      by auto
    from ns ms(3) have "sealed_yields C key (d1, rest) (concat ns)"
      by (auto simp: sealed_yields_def)
    then show ?thesis
      using rd ms Cons get by (auto simp: codec_forward_read_def message_result_def)
  qed
next
  fix r s n r' e
  assume y: "sealed_yields C key r s" and rd: "codec_forward_read C p (Some key) (Arrived n) r = (r', Inl e)"
  from y obtain ms d' where ms: "sealed_stream C key ms (fst r) (snd r) d'" "s = concat ms" "aead_ok C"
    by (auto simp: sealed_yields_def)
  show "s = []"
  proof (cases ms)
    case (Cons m ns)
    from codec_read_sealed [OF ms(3) ms(1) [unfolded Cons], of p] show ?thesis
      using rd by (auto simp: codec_forward_read_def message_result_def)
  qed (simp add: ms(2))
qed

interpretation sealed_writer: writer_end "codec_forward_write C p (Some key)" codec_forward_shutdown
    "sealed_wrote C key d start" "\<lambda>w. snd (snd w)" for C p key d start
proof unfold_locales
  fix w s src w' u
  assume wrote: "sealed_wrote C key d start w s" and src: "length src \<le> MAX_PLAINTEXT_LEN" "src \<noteq> []"
    and wr: "codec_forward_write C p (Some key) src w = (w', Inr u)"
  obtain d1 k c where w: "w = (d1, k, c)"
    by (cases w) auto
  from wr obtain d2 k' where put: "codec_write_msg C p (Some key) src (d1, k) = ((d2, k'), Inr ())" and w': "w' = (d2, k', c)"
    by (auto simp: w codec_forward_write_def message_result_def split: prod.splits sum.splits)
  from wrote obtain ms bs where ms: "aead_ok C" "sealed_stream C key ms d bs d1" "s = concat ms" "sent k = start @ bs"
    by (auto simp: sealed_wrote_def w)
  from codec_write_Inr [OF put ms(1)] obtain x where x: "codec_encrypt C d1 src = (d2, Some x)"
      "sent k' = sent k @ sealed_frame key x"
    by (auto simp: sealed_frame_def)
  have "sealed_stream C key [src] d1 (sealed_frame key x) d2"
    using x(1) src by simp
  from sealed_stream_append [OF ms(2) this] ms x(2) w' show "sealed_wrote C key d start w' (s @ src)"
    unfolding sealed_wrote_def by (intro conjI exI [of _ "ms @ [src]"] exI [of _ "bs @ sealed_frame key x"]) auto
qed (auto simp: sealed_wrote_def codec_forward_shutdown_def)

interpretation sealing: copy_ends "sealing_half C p (Some key)" raw_yields "sealed_wrote C key d start"
    "\<lambda>w. snd (snd w)" for C p key d start
  by (auto simp: copy_ends_def sealing_half_def
      intro!: raw_reader.reader_end_axioms sealed_writer.writer_end_axioms)

interpretation unsealing: copy_ends "opening_half C p (Some key)" "sealed_yields C key" "raw_wrote start" snd
    for C p key start
  by (auto simp: copy_ends_def opening_half_def
      intro!: sealed_reader.reader_end_axioms raw_writer.writer_end_axioms)

interpretation plain_tunnel: tunnel_ends plain_half raw_yields "raw_wrote s1" snd
    plain_half raw_yields "raw_wrote s2" snd for s1 s2
  by (auto simp: tunnel_ends_def intro!: plain.copy_ends_axioms)

interpretation sealed_tunnel: tunnel_ends "sealing_half C p (Some key)" raw_yields "sealed_wrote C key d s1"
    "\<lambda>w. snd (snd w)" "opening_half C p (Some key)" "sealed_yields C key" "raw_wrote s2" snd
    for C p key d s1 s2
  by (auto simp: tunnel_ends_def intro!: sealing.copy_ends_axioms unsealing.copy_ends_axioms)

section \<open>Polls do not matter\<close>

text \<open>The copy that reads the same arrivals without being put aside.\<close>

definition copy_state :: "('r, 'w) half \<Rightarrow> 'r \<Rightarrow> 'w \<Rightarrow> ('r, 'w) copying \<Rightarrow> bool" where
  "copy_state H r w c \<longleftrightarrow>
     (if ended c \<noteq> None then in_hand c = None \<and> (\<exists>as. copy_loop H as r w 0 = (source c, target c, ended c))
      else case in_hand c of
        None \<Rightarrow> (\<exists>as. \<forall>bs. copy_loop H (as @ bs) r w 0 = copy_loop H bs (source c) (target c) (copied c))
      | Some x \<Rightarrow> (\<exists>as. \<forall>bs. copy_loop H (as @ bs) r w 0 =
          (case forward_write H x (target c) of
             (w, Inl e) \<Rightarrow> (source c, w, Some (Inl e))
           | (w, Inr _) \<Rightarrow> copy_loop H bs (source c) w (copied c + length x))))"

lemma copy_state_new: "copy_state H r w (copying_new r w)"
  by (auto simp: copy_state_def copying_new_def intro!: exI [of _ "[]"])

lemma copy_state_await:
  assumes "copy_state H r w c" "ended c = None"
  shows "copy_state H r w (fst (copy_await H now a c))"
proof (cases "in_hand c")
  case None
  with assms obtain as where as: "\<And>bs. copy_loop H (as @ bs) r w 0 = copy_loop H bs (source c) (target c) (copied c)"
    by (auto simp: copy_state_def)
  obtain r1 res where rd: "forward_read H a (source c) = (r1, res)"
    by fastforce
  consider (fails) e where "res = Inl e" | (eof) "res = Inr []" | (chunk) src where "res = Inr src" "src \<noteq> []"
    by (cases res) auto
  then show ?thesis
  proof cases
    case chunk
    have "\<forall>bs. copy_loop H ((as @ [a]) @ bs) r w 0 =
        (case forward_write H src (target c) of
           (w, Inl e) \<Rightarrow> (r1, w, Some (Inl e))
         | (w, Inr _) \<Rightarrow> copy_loop H bs r1 w (copied c + length src))"
      using as rd chunk by simp
    then have "\<exists>as. \<forall>bs. copy_loop H (as @ bs) r w 0 =
        (case forward_write H src (target c) of
           (w, Inl e) \<Rightarrow> (r1, w, Some (Inl e))
         | (w, Inr _) \<Rightarrow> copy_loop H bs r1 w (copied c + length src))"
      by (rule exI)
    then show ?thesis
      using None rd chunk assms(2) by (auto simp: copy_await_def copy_state_def)
  qed (use None rd assms(2) as [of "[a]"] in \<open>auto simp: copy_await_def copy_state_def intro!: exI [of _ "as @ [a]"]\<close>)
next
  case (Some x)
  with assms obtain as where as: "\<And>bs. copy_loop H (as @ bs) r w 0 =
      (case forward_write H x (target c) of
         (w, Inl e) \<Rightarrow> (source c, w, Some (Inl e))
       | (w, Inr _) \<Rightarrow> copy_loop H bs (source c) w (copied c + length x))"
    by (auto simp: copy_state_def)
  obtain w1 res where wr: "forward_write H x (target c) = (w1, res)"
    by fastforce
  show ?thesis
    using Some wr assms(2) as as [of "[]"]
    by (cases res) (auto simp: copy_await_def copy_state_def intro!: exI [of _ as])
qed

lemma copy_state_poll: "copy_state H r w c \<Longrightarrow> copy_state H r w (fst (copy_with_activity H now as c))"
proof (induction as arbitrary: c)
  case (Cons a as)
  show ?case
  proof (cases "ended c")
    case None
    with Cons copy_state_await [OF Cons.prems None, of now a] show ?thesis
      by (auto simp: case_prod_unfold)
  qed (simp add: Cons.prems)
qed simp

text \<open>
  Being polled in pieces, by a loop that also serves the other direction and its timers, does
  not change a copy: whatever arrives in whichever polls, it ends as the plain copy does on what it
  read.
\<close>

theorem polls_do_not_change_the_copy:
  assumes "c = fold (\<lambda>(now, as) c. fst (copy_with_activity H now as c)) polls (copying_new r w)" "ended c = Some res"
  shows "\<exists>as. copy H as r w = (source c, target c, Some res)"
proof -
  have "copy_state H r w (fold (\<lambda>(now, as) c. fst (copy_with_activity H now as c)) polls c0)"
    if "copy_state H r w c0" for c0
    using that by (induction polls arbitrary: c0) (auto simp: copy_state_poll)
  from this [OF copy_state_new] assms show ?thesis
    by (auto simp: copy_state_def copy_def)
qed

lemma polls_do_not_change_the_copy_witness:
  "\<exists>as. copy \<lparr>forward_read = \<lambda>a r. (tl r, Inr (take 1 r)), forward_write = \<lambda>x w. (w @ x, Inr ()),
      forward_shutdown = id\<rparr> as [1, 2] [0] = ([], [0, 1, 2 :: u8], Some (Inr 2))"
  using polls_do_not_change_the_copy [OF refl, where polls = "[(5, [Arrived 0]), (7, [Arrived 0, Arrived 0]),
        (7, []), (9, [Arrived 0, Arrived 0])]" and r = "[1, 2]" and w = "[0 :: u8]" and res = "Inr 2"
      and H = "\<lparr>forward_read = \<lambda>a r. (tl r, Inr (take 1 r)), forward_write = \<lambda>x w. (w @ x, Inr ()),
        forward_shutdown = id\<rparr>"]
  by (simp add: copy_await_def copying_new_def)

section \<open>Tunnels in the clear\<close>


lemmas run_simps = forward_run_simps tunnel_new_def copying_new_def direction_new_def is_done_def
  forward_turn_def poll_client_def poll_server_def copy_await_def plain_half_def normal_forward_read_def
  normal_forward_write_def normal_forward_shutdown_def write_all_def client_ends_def server_ends_def exit_of_def
  timers_turn_def client_active_def server_active_def record_forward_activity_def reset_sleep_def reset_sleep_at_def

lemma read_one:
  "length (buffer b) = 8192 \<Longrightarrow> need_size b = 8192 \<Longrightarrow>
     read_inner (Suc 0) (b, [x]) = ((b\<lparr>buffer := x # drop 1 (buffer b)\<rparr>, []), [x])"
  "length (buffer b) = 8192 \<Longrightarrow> need_size b = 8192 \<Longrightarrow> read_inner (Suc n) (b, []) = ((b, []), [])"
  by (simp_all add: read_inner_def need_resize_def update_need_size_def INIT_BUF_SIZE_def)


text \<open>
  C25: A tunnel in the clear that stops because both sides finished has handed either side everything
  the other one sent, byte for byte, and closed both.
\<close>

theorem finished_tunnel_delivered_both_streams:
  assumes "forward_tcp C p T None framing_key now ks (local_in, local_out) (remote_in, remote_out) =
    Some (local, remote, Some BothEnded)"
  shows "sent (fst local) = sent local_out @ remote_in \<and> snd local \<and>
    sent (fst remote) = sent remote_out @ local_in \<and> snd remote"
proof -
  from assms obtain t where run: "start_forward_with_config plain_half plain_half T ks
      (tunnel_new T now (buffer_new, local_in) (local_out, False) (buffer_new, remote_in) (remote_out, False)) =
      (t, Some BothEnded)"
    and t: "local = target (server_to_client t)" "remote = target (client_to_server t)"
    by (auto simp: forward_tcp_def split: prod.splits)
  from plain_tunnel.both_ended_delivers [OF run, of local_in "sent remote_out" remote_in "sent local_out"] show ?thesis
    by (simp add: t raw_yields_def raw_wrote_def buffer_new_ok)
qed

lemma finished_tunnel_delivered_both_streams_witness:
  "\<exists>local remote.
    forward_tcp toy_env (proc toy_state) \<lparr>tunnel_idle_timeout = 9, half_close_idle_timeout = 9\<rparr> None [] 0
      [\<lparr>tick_now = 1, client_ready = [Arrived 0], server_ready = [Arrived 0]\<rparr>,
       \<lparr>tick_now = 2, client_ready = [], server_ready = [Arrived 0, Arrived 0, Arrived 0]\<rparr>]
      ([], \<lparr>sent = [], room = None\<rparr>) ([7], \<lparr>sent = [], room = None\<rparr>) = Some (local, remote, Some BothEnded) \<and>
    sent (fst local) = [7] \<and> snd local \<and> sent (fst remote) = [] \<and> snd remote"
  (is "\<exists>local remote. ?run = Some (local, remote, Some BothEnded) \<and> _ local remote")
proof -
  obtain local remote where run: "?run = Some (local, remote, Some BothEnded)"
    by (simp add: forward_tcp_def run_simps read_one buffer_new_def INIT_BUF_SIZE_def)
  from finished_tunnel_delivered_both_streams [OF run] run show ?thesis
    by auto
qed

section \<open>Sealed tunnels\<close>

lemma normal_read_arrived: "\<exists>s src. normal_forward_read (Arrived n) r = (s, Inr src)"
  by (simp add: normal_forward_read_def case_prod_unfold)

lemma sealed_stream_empty:
  "sealed_yields C key r [] \<Longrightarrow> \<exists>s. codec_forward_read C p k a r = (s, Inl (MessageError MsgNetworkReadCheckSum))"
proof -
  assume "sealed_yields C key r []"
  then obtain ms d' where ms: "sealed_stream C key ms (fst r) (snd r) d'" "concat ms = []"
    by (auto simp: sealed_yields_def)
  then have "ms = []"
    by (cases ms) auto
  then show ?thesis
    using ms codec_read_end [of C p k "fst r"] by (cases r) (auto simp: codec_forward_read_def message_result_def)
qed

definition seals_all :: "'c crypto_scheme \<Rightarrow> bool" where
  "seals_all C \<longleftrightarrow> (\<forall>k n a m. aead_seal C k n a m \<noteq> None)"


lemma toy_seals: "aead_ok toy_env" "seals_all toy_env"
  by (auto simp: aead_ok_def seals_all_def toy_env_def tag16_def)


text \<open>
  C28: In the clear, the end of one side's stream leaves the other direction running: it is shut down
  on the far outlet and only the half-close timer is armed.  In a sealed tunnel the same end is a
  read error: the poll that sees it stops the whole tunnel, with the other direction cut where it
  stands, and the log calls it a disconnect.
\<close>

theorem end_of_a_sealed_stream_stops_both_directions:
  assumes "\<not> is_done (client_state t)" "\<not> is_done (server_state t)" "client_ready k = []" "server_ready k = [Arrived n]"
    and "ended (client_to_server t) = None" "ended (server_to_client t) = None" "in_hand (server_to_client t) = None"
    and "source (server_to_client t) = (d, [])"
    and "\<not> is_done (client_state u)" "\<not> is_done (server_state u)"
    and "ended (client_to_server u) = None" "ended (server_to_client u) = None" "in_hand (server_to_client u) = None"
    and "source (server_to_client u) = (b, [])" "target (server_to_client u) = (sink, False)"
  shows "(\<exists>t'. forward_turn U (opening_half C p key) T k t = (t', Some DirectionFailed) \<and>
      target (server_to_client t') = target (server_to_client t) \<and>
      handle_forward_final_result (server_state t') = ClosedByPeer (MessageError MsgNetworkReadCheckSum) \<and>
      handle_forward_final_result (client_state t') = StoppedBefore (dir_len (client_state t))) \<and>
    (\<exists>u'. forward_turn V plain_half T k u = (u', None) \<and>
      target (server_to_client u') = (sink, True) \<and>
      handle_forward_final_result (server_state u') = SentAll (copied (server_to_client u)) \<and>
      \<not> is_done (client_state u') \<and> client_to_server u' = client_to_server u)"
proof (intro conjI)
  obtain s where s: "codec_read_msg C p key (d, []) = (s, Inl MsgNetworkReadCheckSum)"
    using codec_read_end by blast
  then show "\<exists>t'. forward_turn U (opening_half C p key) T k t = (t', Some DirectionFailed) \<and>
      target (server_to_client t') = target (server_to_client t) \<and>
      handle_forward_final_result (server_state t') = ClosedByPeer (MessageError MsgNetworkReadCheckSum) \<and>
      handle_forward_final_result (client_state t') = StoppedBefore (dir_len (client_state t))"
    using assms(1-8)
    by (auto simp: forward_turn_def Let_def poll_client_def poll_server_def copy_await_def opening_half_def
        codec_forward_read_def message_result_def server_ends_def exit_of_def handle_forward_final_result_def
        handle_forward_result_def is_expected_kind_def is_done_def)
  obtain s' where "read_inner (Suc n) (b, []) = (s', [])"
    by (auto simp: read_inner_def Let_def)
  then show "\<exists>u'. forward_turn V plain_half T k u = (u', None) \<and>
      target (server_to_client u') = (sink, True) \<and>
      handle_forward_final_result (server_state u') = SentAll (copied (server_to_client u)) \<and>
      \<not> is_done (client_state u') \<and> client_to_server u' = client_to_server u"
    using assms(3,4,9-15)
    by (auto simp: forward_turn_def Let_def poll_client_def poll_server_def copy_await_def plain_half_def
        normal_forward_read_def normal_forward_shutdown_def server_ends_def exit_of_def handle_forward_final_result_def
        handle_forward_result_def is_done_def)
qed

lemma end_of_a_sealed_stream_stops_both_directions_witness:
  "let T = \<lparr>tunnel_idle_timeout = 9, half_close_idle_timeout = 9\<rparr>;
       k = \<lparr>tick_now = 1, client_ready = [], server_ready = [Arrived 0]\<rparr>;
       S = \<lparr>sent = [5], room = None\<rparr>
   in \<exists>t' u'.
     forward_turn (sealing_half toy_env (proc toy_state) (Some toy_key)) (opening_half toy_env (proc toy_state) (Some toy_key))
       T k (tunnel_new T 0 (buffer_new, [8]) (S, False) (codec_new toy_key, []) (codec_new toy_key, S, False)) =
       (t', Some DirectionFailed) \<and>
     forward_turn plain_half plain_half T k (tunnel_new T 0 (buffer_new, [8]) (S, False) (buffer_new, []) (S, False)) =
       (u', None)"
proof -
  let ?T = "\<lparr>tunnel_idle_timeout = 9, half_close_idle_timeout = 9\<rparr>"
  let ?S = "\<lparr>sent = [5 :: u8], room = None\<rparr>"
  show ?thesis
    using end_of_a_sealed_stream_stops_both_directions [where T = ?T and n = 0
        and k = "\<lparr>tick_now = 1, client_ready = [], server_ready = [Arrived 0]\<rparr>"
        and t = "tunnel_new ?T 0 (buffer_new, [8]) (?S, False) (codec_new toy_key, []) (codec_new toy_key, ?S, False)"
        and u = "tunnel_new ?T 0 (buffer_new, [8]) (?S, False) (buffer_new, []) (?S, False)"
        and C = toy_env and p = "proc toy_state" and key = "Some toy_key"
        and U = "sealing_half toy_env (proc toy_state) (Some toy_key)" and V = plain_half
        and d = "codec_new toy_key" and b = buffer_new and sink = ?S]
    by (auto simp: Let_def tunnel_new_def copying_new_def direction_new_def is_done_def)
qed

end
