(* ===== verification/ForwardTimers.thy ===== *)
theory ForwardTimers
  imports ForwardProps
begin

text \<open>
  The idle timers of a tunnel: a tunnel on which nothing arrives is closed, and the half-close timer
  does not cut a direction that moved within its time.
\<close>

section \<open>Activity\<close>

lemma copy_activity_now: "x \<in> set (snd (copy_with_activity H now as c)) \<Longrightarrow> activity_at x = now"
proof (induction as arbitrary: c)
  case (Cons a as)
  then show ?case
    by (cases "in_hand c")
       (auto simp: copy_await_def case_prod_unfold split: if_splits sum.splits)
qed simp

lemma copy_activity_quiet: "snd (copy_with_activity H now as c) = [] \<Longrightarrow> copied (fst (copy_with_activity H now as c)) = copied c"
proof (induction as arbitrary: c)
  case (Cons a as)
  have "copied (fst (copy_await H now a c)) = copied c" if "snd (copy_await H now a c) = []"
    using that by (auto simp: copy_await_def case_prod_unfold split: option.splits if_splits sum.splits)
  with Cons show ?case
    by (auto simp: case_prod_unfold split: if_splits)
qed simp

section \<open>A quiet tunnel\<close>

definition settled :: "('cr, 'sw, 'sr, 'cw) tunnel \<Rightarrow> bool" where
  "settled t \<longleftrightarrow> (\<not> is_done (client_state t) \<longrightarrow> ended (client_to_server t) = None) \<and>
     (\<not> is_done (server_state t) \<longrightarrow> ended (server_to_client t) = None)"

definition timers_within :: "forward_timeouts \<Rightarrow> nat \<Rightarrow> ('cr, 'sw, 'sr, 'cw) tunnel \<Rightarrow> bool" where
  "timers_within T m t \<longleftrightarrow> tunnel_idle_at t \<le> m + tunnel_idle_timeout T \<and>
     half_close_idle_at t \<le> m + half_close_idle_timeout T \<and>
     (\<forall>a \<in> set (client_activity t) \<union> set (server_activity t). activity_at a \<le> m)"

definition queued :: "('cr, 'sw, 'sr, 'cw) tunnel \<Rightarrow> nat" where
  "queued t = length (client_activity t) + length (server_activity t)"

lemmas branch_simps = client_ends_def server_ends_def exit_of_def client_active_def server_active_def
  record_forward_activity_def reset_sleep_def reset_sleep_at_def

lemma settled_new: "now \<le> m \<Longrightarrow> settled (tunnel_new T now cr cw sr sw) \<and> timers_within T m (tunnel_new T now cr cw sr sw)"
  by (simp add: settled_def timers_within_def tunnel_new_def copying_new_def)

lemma settled_turn:
  assumes "settled t" "timers_within T m t" "tick_now k \<le> m" "forward_turn U D T k t = (t', None)"
  shows "settled t' \<and> timers_within T m t'"
proof -
  define t1 where "t1 = (if is_done (client_state t) then t else poll_client U k t)"
  define t2 where "t2 = (if is_done (server_state t) then t1 else poll_server D k t1)"
  have t1: "timers_within T m t1" "is_done (client_state t1) = is_done (client_state t)"
      "is_done (server_state t1) = is_done (server_state t)" "server_to_client t1 = server_to_client t"
    using assms(2,3) copy_activity_now [of _ U "tick_now k" "client_ready k" "client_to_server t"]
    by (auto simp: t1_def timers_within_def poll_client_def case_prod_unfold)
  then have t2: "timers_within T m t2" "is_done (client_state t2) = is_done (client_state t)"
      "is_done (server_state t2) = is_done (server_state t)" "client_to_server t2 = client_to_server t1"
    using assms(3) copy_activity_now [of _ D "tick_now k" "server_ready k" "server_to_client t1"]
    by (auto simp: t2_def timers_within_def poll_server_def case_prod_unfold)
  from assms(4) show ?thesis
    unfolding forward_turn_def Let_def t1_def [symmetric] t2_def [symmetric]
    using t1 t2 assms(1,3)
    by (auto simp: settled_def timers_within_def branch_simps is_done_def dest: list.set_sel(2)
        split: option.splits list.splits if_splits sum.splits)
qed

lemma quiet_turn:
  assumes "settled t" "timers_within T m t" "client_ready k = []" "server_ready k = []"
    and "m + tunnel_idle_timeout T \<le> tick_now k" "m + half_close_idle_timeout T \<le> tick_now k"
    and "tunnel_idle_timeout T \<noteq> 0" "half_close_idle_timeout T \<noteq> 0"
    and "\<not> (is_done (client_state t) \<and> is_done (server_state t))" "forward_turn U D T k t = (t', None)"
  shows "settled t' \<and> timers_within T m t' \<and> queued t' < queued t"
proof -
  have "t\<lparr>client_to_server := client_to_server t, client_activity := client_activity t\<rparr> = t"
    "t\<lparr>server_to_client := server_to_client t, server_activity := server_activity t\<rparr> = t"
    by simp_all
  with assms show ?thesis
    by (auto simp: forward_turn_def Let_def poll_client_def poll_server_def settled_def timers_within_def queued_def
        branch_simps timers_turn_def is_done_def dest: list.set_sel(2)
        split: option.splits list.splits if_splits)
qed

lemma quiet_run:
  assumes "settled t" "timers_within T m t" "queued t < length qs"
    and "tunnel_idle_timeout T \<noteq> 0" "half_close_idle_timeout T \<noteq> 0"
    and "\<forall>k\<in>set qs. client_ready k = [] \<and> server_ready k = [] \<and>
      m + tunnel_idle_timeout T \<le> tick_now k \<and> m + half_close_idle_timeout T \<le> tick_now k"
  shows "\<exists>t' x. start_forward_with_config U D T qs t = (t', Some x)"
  using assms
proof (induction qs arbitrary: t)
  case (Cons k qs)
  obtain t1 y where turn: "forward_turn U D T k t = (t1, y)"
    by fastforce
  show ?case
  proof (cases "(is_done (client_state t) \<and> is_done (server_state t)) \<or> y \<noteq> None")
    case False
    with quiet_turn [OF Cons.prems(1,2), of k U D t1] Cons.prems turn
    have "settled t1 \<and> timers_within T m t1 \<and> queued t1 < queued t"
      by simp
    then show ?thesis
      using Cons.IH [of t1] Cons.prems(3-6) turn False by (auto simp: forward_run_Cons)
  qed (use turn in \<open>auto simp: forward_run_Cons\<close>)
qed simp

lemma settled_run:
  assumes "start_forward_with_config U D T ks t = (t', None)" "settled t" "timers_within T m t"
    "\<forall>k\<in>set ks. tick_now k \<le> m"
  shows "settled t' \<and> timers_within T m t'"
  using assms
proof (induction ks arbitrary: t)
  case (Cons k ks)
  then show ?case
    using settled_turn [OF Cons.prems(2,3)] by (auto simp: forward_run_Cons split: if_splits prod.splits option.splits)
qed (auto simp: forward_run_Nil split: if_splits)

lemma run_append:
  "start_forward_with_config U D T ks t = (t1, None) \<Longrightarrow>
     start_forward_with_config U D T (ks @ qs) t = start_forward_with_config U D T qs t1"
proof (induction ks arbitrary: t)
  case (Cons k ks)
  then show ?case
    by (auto simp: forward_run_Cons split: if_splits prod.splits option.splits)
qed (auto simp: forward_run_Nil split: if_splits)

text \<open>
  C30: With both timeouts set, a tunnel on which nothing arrives any more does not stay open:
  whatever state it is in, once the timeouts have passed since its last poll, as many polls as there
  are activity notes to take plus one close it.
\<close>

theorem quiet_tunnel_is_closed:
  assumes "tunnel_idle_timeout T \<noteq> 0" "half_close_idle_timeout T \<noteq> 0"
    and "start_forward_with_config U D T ks (tunnel_new T now cr cw sr sw) = (t, None)"
    and "now \<le> m" "\<forall>k\<in>set ks. tick_now k \<le> m"
    and "\<forall>k\<in>set qs. client_ready k = [] \<and> server_ready k = [] \<and>
      m + tunnel_idle_timeout T \<le> tick_now k \<and> m + half_close_idle_timeout T \<le> tick_now k"
    and "length (client_activity t) + length (server_activity t) < length qs"
  shows "\<exists>t' x. start_forward_with_config U D T (ks @ qs) (tunnel_new T now cr cw sr sw) = (t', Some x)"
proof -
  have "settled t \<and> timers_within T m t"
    using settled_run [OF assms(3) _ _ assms(5)] by (simp add: settled_new [OF assms(4)])
  with quiet_run [of t T m qs U D] assms show ?thesis
    by (simp add: run_append queued_def)
qed

text \<open>A small direction for the instances: one byte at a time.\<close>

definition byte_half :: "(bytes, bytes) half" where
  "byte_half = \<lparr>forward_read = \<lambda>a r. (tl r, Inr (take 1 r)), forward_write = \<lambda>x w. (w @ x, Inr ()),
     forward_shutdown = id\<rparr>"

definition short_timeouts :: forward_timeouts where
  "short_timeouts = \<lparr>tunnel_idle_timeout = 10, half_close_idle_timeout = 10\<rparr>"

lemmas byte_run_simps = run_simps byte_half_def short_timeouts_def

lemma quiet_tunnel_is_closed_witness:
  "\<exists>t' x. start_forward_with_config byte_half byte_half short_timeouts
     ([\<lparr>tick_now = 3, client_ready = [Arrived 0, Arrived 0], server_ready = [Arrived 0, Arrived 0]\<rparr>] @
      [\<lparr>tick_now = 13, client_ready = [], server_ready = []\<rparr>, \<lparr>tick_now = 14, client_ready = [], server_ready = []\<rparr>])
     (tunnel_new short_timeouts 0 [1, 2] [] [3, 4] []) = (t', Some x)"
proof -
  let ?ks = "[\<lparr>tick_now = 3, client_ready = [Arrived 0, Arrived 0], server_ready = [Arrived 0, Arrived 0]\<rparr>]"
  obtain t where t: "start_forward_with_config byte_half byte_half short_timeouts ?ks (tunnel_new short_timeouts 0 [1, 2] [] [3, 4] []) = (t, None)"
      "length (client_activity t) + length (server_activity t) < 2"
    by (simp add: byte_run_simps)
  show ?thesis
    by (rule quiet_tunnel_is_closed [OF _ _ t(1), of 3]) (use t(2) in \<open>auto simp: short_timeouts_def\<close>)
qed

text \<open>
  The tunnel timer is armed from the activity note taken last, not from the latest one: while the
  client sends in every poll the note of the server's only chunk waits, and when it is taken the
  deadline moves back to it.  Here the tunnel is closed at 11 although the client sent at 9.
\<close>

lemma idle_deadline_moves_back:
  "\<exists>t. start_forward_with_config byte_half byte_half short_timeouts
     (\<lparr>tick_now = 1, client_ready = [Arrived 0, Arrived 0], server_ready = [Arrived 0, Arrived 0]\<rparr> #
      map (\<lambda>n. \<lparr>tick_now = n, client_ready = [Arrived 0, Arrived 0], server_ready = []\<rparr>) [3, 5, 7, 9] @
      map (\<lambda>n. \<lparr>tick_now = n, client_ready = [], server_ready = []\<rparr>) [10, 11])
     (tunnel_new short_timeouts 0 [1, 2, 3, 4, 5, 6] [] [7, 8] []) = (t, Some TunnelIdle)"
  by (simp add: byte_run_simps)

section \<open>The half-close timer\<close>

text \<open>What is known once the server's direction moved at time \<open>p\<close>.\<close>

definition moved_since :: "forward_timeouts \<Rightarrow> nat \<Rightarrow> ('cr, 'sw, 'sr, 'cw) tunnel \<Rightarrow> bool" where
  "moved_since T p t \<longleftrightarrow> (server_activity t \<noteq> [] \<longrightarrow> p \<le> activity_at (last (server_activity t))) \<and>
     (server_activity t = [] \<and> is_done (client_state t) \<and> \<not> is_done (server_state t) \<longrightarrow>
       p + half_close_idle_timeout T \<le> half_close_idle_at t)"

lemma poll_server_moved:
  "p \<le> tick_now k \<Longrightarrow> server_activity t \<noteq> [] \<Longrightarrow> p \<le> activity_at (last (server_activity t)) \<Longrightarrow>
     p \<le> activity_at (last (server_activity (poll_server D k t)))"
  using copy_activity_now [of _ D "tick_now k" "server_ready k" "server_to_client t"]
  by (auto simp: poll_server_def case_prod_unfold last_append)

lemma poll_server_fresh:
  assumes "server_activity (poll_server D k t) \<noteq> server_activity t"
  shows "activity_at (last (server_activity (poll_server D k t))) = tick_now k"
  using assms copy_activity_now [of _ D "tick_now k" "server_ready k" "server_to_client t"]
  by (auto simp: poll_server_def case_prod_unfold last_append)

lemma poll_server_still:
  "server_activity (poll_server D k t) = server_activity t \<Longrightarrow>
     copied (server_to_client (poll_server D k t)) = copied (server_to_client t)"
  using copy_activity_quiet by (auto simp: poll_server_def case_prod_unfold)

lemma poll_frame [simp]:
  "server_activity (poll_client U k t) = server_activity t" "client_state (poll_client U k t) = client_state t"
  "server_state (poll_client U k t) = server_state t" "server_to_client (poll_client U k t) = server_to_client t"
  "half_close_idle_at (poll_client U k t) = half_close_idle_at t"
  "client_state (poll_server D k t) = client_state t" "server_state (poll_server D k t) = server_state t"
  "client_activity (poll_server D k t) = client_activity t" "client_to_server (poll_server D k t) = client_to_server t"
  "half_close_idle_at (poll_server D k t) = half_close_idle_at t"
  by (simp_all add: poll_client_def poll_server_def case_prod_unfold)

text \<open>A turn without a poll of the server's direction, then one with it.\<close>

lemma moved_turn:
  assumes "moved_since T p t \<or> copied (server_to_client t') \<noteq> copied (server_to_client t) \<and> p = tick_now k"
    and "p \<le> tick_now k" "half_close_idle_timeout T \<noteq> 0" "forward_turn U D T k t = (t', None)"
  shows "moved_since T p t'"
proof -
  define t1 where "t1 = (if is_done (client_state t) then t else poll_client U k t)"
  define t2 where "t2 = (if is_done (server_state t) then t1 else poll_server D k t1)"
  have t1: "server_activity t1 = server_activity t" "client_state t1 = client_state t" "server_state t1 = server_state t"
      "server_to_client t1 = server_to_client t" "half_close_idle_at t1 = half_close_idle_at t"
    by (simp_all add: t1_def)
  have t2: "client_state t2 = client_state t" "server_state t2 = server_state t" "half_close_idle_at t2 = half_close_idle_at t"
    by (simp_all add: t2_def t1)
  show ?thesis
  proof (cases "moved_since T p t")
    case True
    then have act: "server_activity t2 \<noteq> [] \<longrightarrow> p \<le> activity_at (last (server_activity t2))"
      using assms(2) t1(1) poll_server_moved [of p k t1 D] poll_server_fresh [of D k t1]
      by (cases "server_activity t = []") (auto simp: t2_def moved_since_def)
    have none: "server_activity t2 = [] \<Longrightarrow> server_activity t = []"
      using t1(1) by (auto simp: t2_def poll_server_def case_prod_unfold split: if_splits)
    from assms(4) show ?thesis
      unfolding forward_turn_def Let_def t1_def [symmetric] t2_def [symmetric]
      using True act none t1 t2 assms(2,3)
      by (auto simp: moved_since_def branch_simps is_done_def last_tl
          split: option.splits list.splits if_splits sum.splits)
  next
    case False
    then have p: "copied (server_to_client t') \<noteq> copied (server_to_client t)" "p = tick_now k"
      using assms(1) by auto
    have fresh: "server_activity t2 \<noteq> [] \<and> activity_at (last (server_activity t2)) = tick_now k"
      if "copied (server_to_client t2) \<noteq> copied (server_to_client t)"
    proof -
      have polled: "t2 = poll_server D k t1"
        using that t1(4) by (auto simp: t2_def split: if_splits)
      then have "server_activity t2 \<noteq> server_activity t1"
        using that t1(4) poll_server_still [of D k t1] by auto
      with poll_server_fresh [of D k t1] polled show ?thesis
        by (auto simp: poll_server_def case_prod_unfold)
    qed
    from assms(4) p(1) show ?thesis
      unfolding forward_turn_def Let_def t1_def [symmetric] t2_def [symmetric]
      using fresh p(2) t1 t2 assms(3)
      by (auto simp: moved_since_def branch_simps is_done_def last_tl
          split: option.splits list.splits if_splits sum.splits)
  qed
qed

lemma half_close_exit:
  assumes "forward_turn U D T k t = (t', Some HalfCloseIdle)" "is_done (client_state t')"
  shows "copied (server_to_client t') = copied (server_to_client t)"
    and "moved_since T p t \<Longrightarrow> p + half_close_idle_timeout T \<le> tick_now k"
    and "is_done (client_state t) \<and> \<not> is_done (server_state t)"
proof -
  from assms have t: "is_done (client_state t)" "\<not> is_done (server_state t)" "t' = poll_server D k t"
      "server_activity (poll_server D k t) = []" "half_close_idle_at t \<le> tick_now k"
    by (auto simp: forward_turn_def Let_def timers_turn_def client_ends_def server_ends_def exit_of_def
        split: option.splits list.splits if_splits sum.splits)
  have none: "server_activity t = []"
    using t(4) by (auto simp: poll_server_def case_prod_unfold)
  show "copied (server_to_client t') = copied (server_to_client t)"
    using t(3,4) none poll_server_still [of D k t] by simp
  show "moved_since T p t \<Longrightarrow> p + half_close_idle_timeout T \<le> tick_now k"
    using t none by (simp add: moved_since_def)
  show "is_done (client_state t) \<and> \<not> is_done (server_state t)"
    using t by simp
qed

lemma moved_run:
  assumes "start_forward_with_config U D T js t = (t', None)" "sorted (map tick_now js)" "half_close_idle_timeout T \<noteq> 0"
    and "copied (server_to_client t') \<noteq> copied (server_to_client t) \<or> moved_since T p t \<and> (\<forall>j\<in>set js. p \<le> tick_now j)"
  shows "\<exists>q. moved_since T q t' \<and> (q = p \<or> q \<in> tick_now ` set js)"
  using assms
proof (induction js arbitrary: t p)
  case Nil
  then show ?case
    by (auto simp: forward_run_Nil split: if_splits)
next
  case (Cons j js)
  from Cons.prems(1) consider (over) "t' = t" "start_forward_with_config U D T (j # js) t = (t, Some BothEnded)"
    | (turn) t1 where "forward_turn U D T j t = (t1, None)" "start_forward_with_config U D T js t1 = (t', None)"
    by (auto simp: forward_run_Cons split: if_splits prod.splits option.splits)
  then show ?case
  proof cases
    case over
    then show ?thesis
      using Cons.prems(1) by simp
  next
    case turn
    have sorted: "sorted (map tick_now js)" "\<forall>i\<in>set js. tick_now j \<le> tick_now i"
      using Cons.prems(2) by auto
    consider (here) "copied (server_to_client t1) \<noteq> copied (server_to_client t)"
      | (later) "copied (server_to_client t') \<noteq> copied (server_to_client t1)"
      | (kept) "moved_since T p t" "\<forall>i\<in>set (j # js). p \<le> tick_now i"
      using Cons.prems(4) by metis
    then show ?thesis
    proof cases
      case here
      then have "moved_since T (tick_now j) t1"
        using moved_turn [OF _ _ Cons.prems(3) turn(1), of "tick_now j"] by simp
      then show ?thesis
        using Cons.IH [OF turn(2) sorted(1) Cons.prems(3), of "tick_now j"] sorted(2) by auto
    next
      case later
      then show ?thesis
        using Cons.IH [OF turn(2) sorted(1) Cons.prems(3), of p] by auto
    next
      case kept
      then have "moved_since T p t1"
        using moved_turn [OF _ _ Cons.prems(3) turn(1), of p] by simp
      then show ?thesis
        using Cons.IH [OF turn(2) sorted(1) Cons.prems(3), of p] kept(2) by auto
    qed
  qed
qed

text \<open>
  C29: Once the client has finished sending, the half-close timer stops the answer only when it has
  stood still for the whole timeout: what the server's direction had delivered at any moment within
  the timeout before the stop is what it had delivered at the stop.
\<close>

theorem half_close_timer_spares_a_moving_direction:
  assumes "half_close_idle_timeout T \<noteq> 0" "sorted (map tick_now js)"
    and "start_forward_with_config U D T is (tunnel_new T now cr cw sr sw) = (t1, None)"
    and "start_forward_with_config U D T (is @ js) (tunnel_new T now cr cw sr sw) = (t2, None)"
    and "start_forward_with_config U D T (is @ js @ [k]) (tunnel_new T now cr cw sr sw) = (t3, Some HalfCloseIdle)"
    and "is_done (client_state t3)"
    and "\<forall>j\<in>set js. tick_now k < tick_now j + half_close_idle_timeout T"
  shows "copied (server_to_client t3) = copied (server_to_client t1)"
proof -
  have run: "start_forward_with_config U D T js t1 = (t2, None)"
    using run_append [OF assms(3), of js] assms(4) by simp
  have "start_forward_with_config U D T [k] t2 = (t3, Some HalfCloseIdle)"
    using run_append [OF assms(4), of "[k]"] assms(5) by simp
  then have exit: "forward_turn U D T k t2 = (t3, Some HalfCloseIdle)"
    by (auto simp: forward_run_simps split: if_splits prod.splits option.splits)
  note last = half_close_exit [OF exit assms(6)]
  have "copied (server_to_client t2) = copied (server_to_client t1)"
  proof (rule ccontr)
    assume "copied (server_to_client t2) \<noteq> copied (server_to_client t1)"
    then have "js \<noteq> []"
      using run by (auto simp: forward_run_Nil split: if_splits)
    then obtain j where "j \<in> set js"
      by (cases js) auto
    with moved_run [OF run assms(2,1), of "tick_now j"] \<open>copied _ \<noteq> _\<close>
    obtain q where "moved_since T q t2" "q \<in> tick_now ` set js"
      by auto
    with last(2) [of q] assms(7) show False
      by fastforce
  qed
  with last(1) show ?thesis
    by simp
qed

lemma half_close_timer_spares_a_moving_direction_witness:
  "\<exists>t3. start_forward_with_config byte_half byte_half short_timeouts
      ([\<lparr>tick_now = 3, client_ready = [Arrived 0], server_ready = []\<rparr>] @
       [\<lparr>tick_now = 8, client_ready = [], server_ready = []\<rparr>] @ [\<lparr>tick_now = 13, client_ready = [], server_ready = []\<rparr>])
      (tunnel_new short_timeouts 0 [] [] [3, 4] []) = (t3, Some HalfCloseIdle) \<and>
    copied (server_to_client t3) = copied (server_to_client (fst (start_forward_with_config byte_half byte_half short_timeouts
      [\<lparr>tick_now = 3, client_ready = [Arrived 0], server_ready = []\<rparr>] (tunnel_new short_timeouts 0 [] [] [3, 4] []))))"
proof -
  let ?new = "tunnel_new short_timeouts 0 [] [] [3, 4] [] :: (bytes, bytes, bytes, bytes) tunnel"
  let ?is = "[\<lparr>tick_now = 3, client_ready = [Arrived 0], server_ready = []\<rparr>]"
  let ?js = "[\<lparr>tick_now = 8, client_ready = [], server_ready = []\<rparr>]"
  let ?k = "\<lparr>tick_now = 13, client_ready = [], server_ready = []\<rparr>"
  obtain t1 where t1: "start_forward_with_config byte_half byte_half short_timeouts ?is ?new = (t1, None)"
    by (simp add: byte_run_simps)
  obtain t2 where t2: "start_forward_with_config byte_half byte_half short_timeouts (?is @ ?js) ?new = (t2, None)"
    by (simp add: byte_run_simps)
  obtain t3 where t3: "start_forward_with_config byte_half byte_half short_timeouts (?is @ ?js @ [?k]) ?new = (t3, Some HalfCloseIdle)"
      "is_done (client_state t3)"
    by (simp add: byte_run_simps)
  have "copied (server_to_client t3) = copied (server_to_client t1)"
    by (rule half_close_timer_spares_a_moving_direction [OF _ _ t1 t2 t3]) (auto simp: short_timeouts_def)
  with t3(1) t1 show ?thesis
    by simp
qed

end
