(* ===== verification/Exchange.thy ===== *)
theory Exchange
  imports Reply Forward
begin

text \<open>
  The client programs towards the relay: the retry delays
  (\<^verbatim>\<open>pb-mapper-core/src/timeout.rs\<close>), one request with its response
  (\<^verbatim>\<open>pb-mapper-protocol/src/secure.rs\<close>), status queries and the subscribing client
  (\<^verbatim>\<open>pb-mapper-client/src/client\<close>).  A connection to the relay is what the relay will send on it,
  how much it takes, and which waits run into their timeout; JSON is a parameter.
\<close>

section \<open>Retry delays\<close>

record timeout_count =
  cur_count :: nat
  max_count :: nat

definition timeout_count_new :: "nat \<Rightarrow> timeout_count" where
  "timeout_count_new n = \<lparr>cur_count = 0, max_count = n\<rparr>"

definition timeout_count_validate :: "timeout_count \<Rightarrow> timeout_count \<times> bool" where
  "timeout_count_validate t =
     (if cur_count t = max_count t then (t, False) else (t\<lparr>cur_count := cur_count t + 1\<rparr>, True))"

definition timeout_count_reset :: "timeout_count \<Rightarrow> timeout_count" where
  "timeout_count_reset t = t\<lparr>cur_count := 0\<rparr>"

definition get_interval_by_count :: "timeout_count \<Rightarrow> nat" where
  "get_interval_by_count t = 2 ^ min (cur_count t) 10"

record retry_backoff =
  failures :: nat
  min_delay :: duration
  max_delay :: duration

definition retry_backoff_default :: retry_backoff where
  "retry_backoff_default = \<lparr>failures = 0, min_delay = from_millis 100, max_delay = from_secs 1\<rparr>"

definition retry_backoff_reset :: "retry_backoff \<Rightarrow> retry_backoff" where
  "retry_backoff_reset b = b\<lparr>failures := 0\<rparr>"

text \<open>\<^verbatim>\<open>Duration::MAX\<close>.\<close>

definition duration_max :: duration where
  "duration_max = u64_max * 10 ^ 9 + (10 ^ 9 - 1)"

definition next_delay :: "retry_backoff \<Rightarrow> retry_backoff \<times> duration" where
  "next_delay b =
     (b\<lparr>failures := min (failures b + 1) u32_max\<rparr>,
      min (min (min_delay b * 2 ^ min (failures b) 10) duration_max) (max_delay b))"

section \<open>One request\<close>

record dial =
  dl_connect :: bool
  dl_room :: "nat option"
  dl_input :: bytes
  dl_write_late :: bool
  dl_read_late :: bool

definition dial_sink :: "dial \<Rightarrow> sink" where
  "dial_sink d = \<lparr>sent = [], room = dl_room d\<rparr>"

text \<open>
  A request that ran into its timeout may have been written in part; the connection is given up, so
  the model leaves its sink as it was.
\<close>

definition exchange ::
  "'c crypto_scheme \<Rightarrow> proc_cred \<Rightarrow> client_session \<Rightarrow> bytes \<Rightarrow> dial \<Rightarrow> (sink \<times> bytes) \<times> (wire_error + bytes)" where
  "exchange C p s payload d =
     (if dl_write_late d then ((dial_sink d, dl_input d), Inl MsgProtocol)
      else case write_initial C p s payload (dial_sink d) of
        (k, Inl e) \<Rightarrow> ((k, dl_input d), Inl e)
      | (k, Inr _) \<Rightarrow>
          (case client_response_reader s of
             Inl e \<Rightarrow> ((k, dl_input d), Inl e)
           | Inr r \<Rightarrow>
               if dl_read_late d then ((k, dl_input d), Inl MsgProtocol)
               else (case header_read_msg C p (r, dl_input d) of
                       ((r, rest), x) \<Rightarrow> ((k, rest), x))))"

type_synonym client_codecs = "(conn_request \<Rightarrow> bytes option) \<times> (bytes \<Rightarrow> conn_resp option)"

text \<open>Sources and texts of the errors are left out.\<close>

datatype client_error =
    BindLocalListener
  | AcceptLocalStream
  | ConnectRemoteStream
  | EncodeSubcribeReq
  | EncodeStatusReq
  | WriteStatusReq
  | DecodeStatusResp
  | StatusRespNotMatch
  | WriteSubcribeReq
  | DecodeSubcribeResp
  | SubcribeRespNotMatch
  | CreateHeaderTool string

section \<open>Status\<close>

definition status_request :: "status_req \<Rightarrow> nat option \<Rightarrow> conn_request" where
  "status_request req namespace =
     (case namespace of Some n \<Rightarrow> StatusScoped req n | None \<Rightarrow> StatusReq req)"

definition get_status_with_session ::
  "'c crypto_scheme \<Rightarrow> proc_cred \<Rightarrow> client_codecs \<Rightarrow> status_req \<Rightarrow> nat option \<Rightarrow> client_session \<Rightarrow> dial \<Rightarrow>
   client_error + status_resp" where
  "get_status_with_session C p enc req namespace s d =
     (case fst enc (status_request req namespace) of
        None \<Rightarrow> Inl EncodeStatusReq
      | Some msg \<Rightarrow>
          (case snd (exchange C p s msg d) of
             Inl _ \<Rightarrow> Inl WriteStatusReq
           | Inr response \<Rightarrow>
               (case snd enc response of
                  None \<Rightarrow> Inl DecodeStatusResp
                | Some (ConnStatus status) \<Rightarrow> Inr status
                | Some _ \<Rightarrow> Inl StatusRespNotMatch)))"

definition get_status_with_credential ::
  "'c crypto_scheme \<Rightarrow> client_codecs \<Rightarrow> status_req \<Rightarrow> nat option \<Rightarrow> credential \<Rightarrow> dial \<Rightarrow> 'a os_scheme \<Rightarrow>
   'a os_scheme \<times> (client_error + status_resp)" where
  "get_status_with_credential C enc req namespace cred d st =
     (case client_new_v2 C cred st of
        (st, Inl _) \<Rightarrow> (st, Inl (CreateHeaderTool ''session''))
      | (st, Inr s) \<Rightarrow> (st, get_status_with_session C (proc st) enc req namespace s d))"

definition get_status_scoped ::
  "'c crypto_scheme \<Rightarrow> client_codecs \<Rightarrow> status_req \<Rightarrow> nat option \<Rightarrow> dial \<Rightarrow> 'a os_scheme \<Rightarrow>
   'a os_scheme \<times> (client_error + status_resp)" where
  "get_status_scoped C enc req namespace d st =
     (case client_from_process C st of
        (st, Inl _) \<Rightarrow> (st, Inl (CreateHeaderTool ''session''))
      | (st, Inr s) \<Rightarrow> (st, get_status_with_session C (proc st) enc req namespace s d))"

definition get_status ::
  "'c crypto_scheme \<Rightarrow> client_codecs \<Rightarrow> status_req \<Rightarrow> dial \<Rightarrow> 'a os_scheme \<Rightarrow> 'a os_scheme \<times> (client_error + status_resp)" where
  "get_status C enc req d st = get_status_scoped C enc req None d st"

section \<open>Is the service there?\<close>

datatype probe_error =
    ProbeConnect
  | ProbeStatus client_error
  | NoHealthyConnection
  | NotAServiceStatus
  | NotAKeysStatus
  | KeyNotRegistered
  | ProbeTimedOut

definition fetch_remote_status ::
  "'c crypto_scheme \<Rightarrow> client_codecs \<Rightarrow> status_req \<Rightarrow> nat option \<Rightarrow> credential \<Rightarrow> dial \<Rightarrow> 'a os_scheme \<Rightarrow>
   'a os_scheme \<times> (probe_error + status_resp)" where
  "fetch_remote_status C enc req namespace cred d st =
     (if \<not> dl_connect d then (st, Inl ProbeConnect)
      else case get_status_with_credential C enc req namespace cred d st of
        (st, Inl e) \<Rightarrow> (st, Inl (ProbeStatus e))
      | (st, Inr s) \<Rightarrow> (st, Inr s))"

text \<open>A relay that cannot answer for one service is asked for the keys, on a second connection.\<close>

definition probe_remote_key_once ::
  "'c crypto_scheme \<Rightarrow> client_codecs \<Rightarrow> bytes \<Rightarrow> nat option \<Rightarrow> credential \<Rightarrow> dial \<Rightarrow> dial \<Rightarrow> 'a os_scheme \<Rightarrow>
   'a os_scheme \<times> (probe_error + unit)" where
  "probe_remote_key_once C enc key namespace cred d1 d2 st =
     (case fetch_remote_status C enc (StatusService key) namespace cred d1 st of
        (st, Inr (ServiceResp _ connections)) \<Rightarrow>
          (st, if list_ex scs_healthy connections then Inr () else Inl NoHealthyConnection)
      | (st, Inr _) \<Rightarrow> (st, Inl NotAServiceStatus)
      | (st, Inl _) \<Rightarrow>
          (case fetch_remote_status C enc StatusKeys namespace cred d2 st of
             (st, Inl e) \<Rightarrow> (st, Inl e)
           | (st, Inr (KeysResp keys)) \<Rightarrow> (st, if key \<in> set keys then Inr () else Inl KeyNotRegistered)
           | (st, Inr _) \<Rightarrow> (st, Inl NotAKeysStatus)))"

definition probe_remote_key ::
  "'c crypto_scheme \<Rightarrow> client_codecs \<Rightarrow> bytes \<Rightarrow> nat option \<Rightarrow> credential \<Rightarrow> bool \<Rightarrow> dial \<Rightarrow> dial \<Rightarrow> 'a os_scheme \<Rightarrow>
   'a os_scheme \<times> (probe_error + unit)" where
  "probe_remote_key C enc key namespace cred late d1 d2 st =
     (if late then (st, Inl ProbeTimedOut) else probe_remote_key_once C enc key namespace cred d1 d2 st)"

section \<open>The listening loop\<close>

text \<open>
  The subscribing client probes until the service is there, then listens.  What the callback was
  told, how long it slept and how many local streams it took are kept; an event is a finished probe
  (with whether the listener could be bound), an accepted or failed accept, or a health check with
  its probe, or a failed stream with the probe that follows it.
\<close>

record listening =
  ls_backoff :: retry_backoff
  ls_open :: bool
  ls_missed :: nat
  ls_told :: "string list"
  ls_slept :: "duration list"
  ls_streams :: nat

definition listening_new :: listening where
  "listening_new = \<lparr>ls_backoff = retry_backoff_default, ls_open = False, ls_missed = 0, ls_told = [],
     ls_slept = [], ls_streams = 0\<rparr>"

datatype listen_event =
    Probed "probe_error + unit" bool
  | LocalAccepted
  | AcceptBroken
  | HealthChecked "probe_error + unit"
  | StreamFailed "probe_error + unit"

definition ls_tell :: "string \<Rightarrow> listening \<Rightarrow> listening" where
  "ls_tell m s = s\<lparr>ls_told := ls_told s @ [m]\<rparr>"

definition ls_sleep :: "listening \<Rightarrow> listening" where
  "ls_sleep s = (case next_delay (ls_backoff s) of (b, t) \<Rightarrow> s\<lparr>ls_backoff := b, ls_slept := ls_slept s @ [t]\<rparr>)"

definition ls_reset :: "listening \<Rightarrow> listening" where
  "ls_reset s = s\<lparr>ls_backoff := retry_backoff_reset (ls_backoff s)\<rparr>"

definition ls_close :: "listening \<Rightarrow> listening" where
  "ls_close s = ls_sleep (s\<lparr>ls_open := False\<rparr>)"

definition listen_step :: "nat \<Rightarrow> listen_event \<Rightarrow> listening \<Rightarrow> listening" where
  "listen_step threshold e s =
     (if \<not> ls_open s then
        (case e of
           Probed (Inl _) _ \<Rightarrow> ls_sleep (ls_tell ''retrying'' s)
         | Probed (Inr _) bound \<Rightarrow>
             (let s = ls_reset (ls_tell ''connected'' s)
              in if bound then s\<lparr>ls_open := True, ls_missed := 0\<rparr> else ls_sleep s)
         | _ \<Rightarrow> s)
      else
        (case e of
           LocalAccepted \<Rightarrow> s\<lparr>ls_streams := ls_streams s + 1\<rparr>
         | AcceptBroken \<Rightarrow> ls_close s
         | HealthChecked (Inl _) \<Rightarrow>
             (let s = s\<lparr>ls_missed := ls_missed s + 1\<rparr>
              in if ls_missed s < threshold then s else ls_close (ls_tell ''retrying'' s))
         | HealthChecked (Inr _) \<Rightarrow> ls_reset (s\<lparr>ls_missed := 0\<rparr>)
         | StreamFailed (Inl _) \<Rightarrow> ls_close (ls_tell ''retrying'' s)
         | StreamFailed (Inr _) \<Rightarrow> ls_reset (s\<lparr>ls_missed := 0\<rparr>)
         | Probed _ _ \<Rightarrow> s))"

definition listen_run :: "nat \<Rightarrow> listen_event list \<Rightarrow> listening \<Rightarrow> listening" where
  "listen_run threshold es s = fold (listen_step threshold) es s"

section \<open>One local stream\<close>

definition subscribe_request :: "bytes \<Rightarrow> nat option \<Rightarrow> conn_request" where
  "subscribe_request key namespace =
     (case namespace of Some n \<Rightarrow> SubscribeScoped key n | None \<Rightarrow> SubscribeReq key)"

text \<open>
  The forwarding of the local stream's kind is an argument: it is given the codec key, the framing
  key and what the relay's connection still holds.
\<close>

definition handle_local_stream ::
  "'c crypto_scheme \<Rightarrow> client_codecs \<Rightarrow> (bytes option \<Rightarrow> bytes \<Rightarrow> bytes \<times> sink \<Rightarrow> 'o) \<Rightarrow> bytes \<Rightarrow> nat option \<Rightarrow>
   credential \<Rightarrow> dial \<Rightarrow> 'a os_scheme \<Rightarrow> 'a os_scheme \<times> (client_error + 'o)" where
  "handle_local_stream C enc fwd key namespace cred d st =
     (if \<not> dl_connect d then (st, Inl ConnectRemoteStream)
      else case fst enc (subscribe_request key namespace) of
        None \<Rightarrow> (st, Inl EncodeSubcribeReq)
      | Some msg \<Rightarrow>
          (case client_new_v2 C cred st of
             (st, Inl _) \<Rightarrow> (st, Inl (CreateHeaderTool ''session''))
           | (st, Inr s) \<Rightarrow>
               (case exchange C (proc st) s msg d of
                  (_, Inl _) \<Rightarrow> (st, Inl WriteSubcribeReq)
                | ((k, rest), Inr response) \<Rightarrow>
                    (case snd enc response of
                       None \<Rightarrow> (st, Inl DecodeSubcribeResp)
                     | Some (ConnSubscribe stream_key client_id server_id) \<Rightarrow>
                         (st, Inr (fwd stream_key (credential_key cred) (rest, k)))
                     | Some _ \<Rightarrow> (st, Inl SubcribeRespNotMatch)))))"

end
