(* ===== verification/Publisher.thy ===== *)
theory Publisher
  imports Exchange
begin

text \<open>
  The publishing client (\<^verbatim>\<open>pb-mapper-client/src/server\<close>): it registers a service over a control
  connection, keeps the connection alive, and answers every stream request with an acknowledgement
  and a data connection of its own.  A worker reconnects after every failure; a pool of workers
  shares one credential.
\<close>

section \<open>Errors and state\<close>

datatype status = ReadMsg | SendPing | ConnectRemote

datatype publish_error =
    ControlIoTimeout string
  | PublishEncodeStreamReq
  | ConnectLocalStream
  | PublishConnectRemote
  | WritePbConnStreamReq
  | DecodePbConnStreamResp
  | PbConnStreamRespNotMatch
  | DecodeStreamReq
  | ControlWriterClosed
  | PublishHeaderTool string

datatype control_write = WritePing "64 word" | WriteStreamAck nat nat

record control_registration =
  cr_conn_id :: nat
  cr_generation :: nat
  cr_protocol_version :: nat
  cr_lease_ttl_ms :: nat

record lease_state =
  last_rx_at :: nat
  last_pong_at :: "nat option"

definition lease_state_new :: "nat \<Rightarrow> lease_state" where
  "lease_state_new now = \<lparr>last_rx_at = now, last_pong_at = None\<rparr>"

definition record_rx :: "nat \<Rightarrow> lease_state \<Rightarrow> lease_state" where
  "record_rx now l = l\<lparr>last_rx_at := now\<rparr>"

definition record_pong :: "nat \<Rightarrow> lease_state \<Rightarrow> lease_state" where
  "record_pong now l = l\<lparr>last_rx_at := now, last_pong_at := Some now\<rparr>"

definition last_rx_age :: "nat \<Rightarrow> lease_state \<Rightarrow> nat" where
  "last_rx_age now l = now - last_rx_at l"

record tunnel_options =
  need_codec :: bool
  is_datagram :: bool
  keep_alive :: bool
  to_namespace :: "nat option"
  force_namespace :: bool

definition duration_to_millis :: "duration \<Rightarrow> nat" where
  "duration_to_millis d = min (d div 10 ^ 6) u64_max"

definition get_ping_message :: "nat \<Rightarrow> 64 word \<Rightarrow> server_req" where
  "get_ping_message version seq = (if 2 \<le> version then PingV2 (unat seq) else Ping)"

section \<open>Registration\<close>

text \<open>The instance id (process, worker and time) is an argument.\<close>

definition register_request :: "environment \<Rightarrow> tunnel_options \<Rightarrow> bytes \<Rightarrow> bytes \<Rightarrow> conn_request" where
  "register_request env opts key instance =
     (let info = \<lparr>client_instance_id = Some instance,
                  heartbeat_interval_ms = Some (duration_to_millis (control_heartbeat_interval env)),
                  heartbeat_tolerance_ms = Some (duration_to_millis (control_heartbeat_tolerance env))\<rparr>
      in case to_namespace opts of
        Some n \<Rightarrow> RegisterScoped (need_codec opts) (is_datagram opts) key n (force_namespace opts) (Some 2) info
      | None \<Rightarrow> RegisterReq (need_codec opts) (is_datagram opts) key (Some 2) info)"

definition registration_of :: "conn_resp \<Rightarrow> control_registration option" where
  "registration_of r =
     (case r of
        ConnRegisterV2 i gen ttl \<Rightarrow>
          Some \<lparr>cr_conn_id = i, cr_generation = gen, cr_protocol_version = 2, cr_lease_ttl_ms = ttl\<rparr>
      | ConnRegister i \<Rightarrow> Some \<lparr>cr_conn_id = i, cr_generation = 0, cr_protocol_version = 1, cr_lease_ttl_ms = 0\<rparr>
      | _ \<Rightarrow> None)"

text \<open>
  An attempt fails with a status, returns early without one (an error that is only logged), or is
  registered.
\<close>

record registered =
  rd_session :: client_session
  rd_reader :: header_end
  rd_input :: bytes
  rd_sink :: sink
  rd_registration :: control_registration

datatype registering = AttemptFailed status | AttemptReturned | Registered registered

definition register_service ::
  "'c crypto_scheme \<Rightarrow> client_codecs \<Rightarrow> environment \<Rightarrow> tunnel_options \<Rightarrow> bytes \<Rightarrow> bytes \<Rightarrow> credential \<Rightarrow> dial \<Rightarrow>
   'a os_scheme \<Rightarrow> 'a os_scheme \<times> registering" where
  "register_service C enc env opts key instance cred d st =
     (if \<not> dl_connect d then (st, AttemptFailed ConnectRemote)
      else case client_new_v2 C cred st of
        (st, Inl _) \<Rightarrow> (st, AttemptFailed ConnectRemote)
      | (st, Inr s) \<Rightarrow>
          (case fst enc (register_request env opts key instance) of
             None \<Rightarrow> (st, AttemptReturned)
           | Some msg \<Rightarrow>
               if dl_write_late d then (st, AttemptReturned)
               else (case write_initial C (proc st) s msg (dial_sink d) of
                  (_, Inl _) \<Rightarrow> (st, AttemptReturned)
                | (k, Inr _) \<Rightarrow>
                    (case client_response_reader s of
                       Inl _ \<Rightarrow> (st, AttemptFailed ReadMsg)
                     | Inr r \<Rightarrow>
                         if dl_read_late d then (st, AttemptReturned)
                         else (case header_read_msg C (proc st) (r, dl_input d) of
                            (_, Inl _) \<Rightarrow> (st, AttemptReturned)
                          | ((r, rest), Inr response) \<Rightarrow>
                              (case Option.bind (snd enc response) registration_of of
                                 None \<Rightarrow> (st, AttemptReturned)
                               | Some reg \<Rightarrow>
                                   (st, Registered \<lparr>rd_session = s, rd_reader = r, rd_input = rest, rd_sink = k,
                                     rd_registration = reg\<rparr>)))))))"

section \<open>The control connection\<close>

text \<open>
  \<open>pb_queue\<close> is the unbounded queue to the writing task, \<open>pb_out\<close> the writer once the task has made
  it, \<open>pb_written\<close> the messages it has written and \<open>pb_writer_end\<close> how it has ended; \<open>pb_streams\<close> are
  the data connections that were started, and \<open>pb_result\<close> how the loop has ended.
\<close>

record publisher =
  pb_lease :: lease_state
  pb_queue :: "control_write list"
  pb_out :: "header_end option"
  pb_sink :: sink
  pb_written :: "server_req list"
  pb_writer_end :: "(status + unit) option"
  pb_streams :: "(nat \<times> nat) list"
  pb_probing :: bool
  pb_seq :: "64 word"
  pb_result :: "(status + unit) option"

definition publisher_new :: "nat \<Rightarrow> sink \<Rightarrow> publisher" where
  "publisher_new now k =
     \<lparr>pb_lease = lease_state_new now, pb_queue = [], pb_out = None, pb_sink = k, pb_written = [],
      pb_writer_end = None, pb_streams = [], pb_probing = False, pb_seq = 0, pb_result = None\<rparr>"

datatype probe_result = ProbePresent | ProbeMissing | ProbeFailed

text \<open>
  A receive of the loop, a step of the writing task (with whether the write runs into its timeout),
  the end of that task, a heartbeat, or the answer of the probe.  Every event has its time.
\<close>

datatype publish_event =
    ControlMessage bytes
  | ControlBroken
  | TaskStarts
  | TaskWrites bool
  | TaskJoined
  | Heartbeat
  | ProbeAnswer probe_result

type_synonym publish_codecs = "(server_req \<Rightarrow> bytes option) \<times> (bytes \<Rightarrow> local_msg option)"

definition pb_finish :: "status + unit \<Rightarrow> publisher \<Rightarrow> publisher" where
  "pb_finish r s = s\<lparr>pb_result := Some r\<rparr>"

definition pb_writer_ends :: "status + unit \<Rightarrow> publisher \<Rightarrow> publisher" where
  "pb_writer_ends r s = s\<lparr>pb_writer_end := Some r\<rparr>"

text \<open>The queue is closed once the writing task has ended.\<close>

definition pb_send :: "control_write \<Rightarrow> publisher \<Rightarrow> publisher \<times> bool" where
  "pb_send w s = (if pb_writer_end s \<noteq> None then (s, False) else (s\<lparr>pb_queue := pb_queue s @ [w]\<rparr>, True))"

text \<open>
  A stream request is acknowledged and starts a data connection; a message that cannot be decoded, or
  an acknowledgement that cannot be queued, is logged and the loop goes on.
\<close>

definition handle_request :: "nat \<Rightarrow> local_msg option \<Rightarrow> publisher \<Rightarrow> publisher" where
  "handle_request now m s =
     (case m of
        None \<Rightarrow> s
      | Some (LocalStream client_id gen) \<Rightarrow>
          (case pb_send (WriteStreamAck client_id gen) s of
             (s, False) \<Rightarrow> s
           | (s, True) \<Rightarrow> s\<lparr>pb_streams := pb_streams s @ [(client_id, gen)]\<rparr>)
      | Some Pong \<Rightarrow> s\<lparr>pb_lease := record_pong now (pb_lease s)\<rparr>
      | Some (PongV2 seq) \<Rightarrow> s\<lparr>pb_lease := record_pong now (pb_lease s)\<rparr>
      | Some (LocalRetire reason conn_id gen) \<Rightarrow> s)"

definition write_request_of :: "control_registration \<Rightarrow> control_write \<Rightarrow> server_req" where
  "write_request_of reg w =
     (case w of
        WritePing seq \<Rightarrow> get_ping_message (cr_protocol_version reg) seq
      | WriteStreamAck client_id gen \<Rightarrow> PeerStreamAck client_id gen)"

definition task_writes ::
  "'c crypto_scheme \<Rightarrow> proc_cred \<Rightarrow> publish_codecs \<Rightarrow> control_registration \<Rightarrow> bool \<Rightarrow> publisher \<Rightarrow> publisher" where
  "task_writes C p enc reg late s =
     (case (pb_out s, pb_queue s) of
        (Some w, cmd # rest) \<Rightarrow>
          (if pb_writer_end s \<noteq> None then s
           else let s = s\<lparr>pb_queue := rest\<rparr>; m = write_request_of reg cmd
           in case fst enc m of
                None \<Rightarrow> pb_writer_ends (Inl SendPing) s
              | Some message \<Rightarrow>
                  if late then pb_writer_ends (Inl SendPing) s
                  else (case header_write_msg C p message (w, pb_sink s) of
                     ((w, k), Inl _) \<Rightarrow> pb_writer_ends (Inl SendPing) (s\<lparr>pb_out := Some w, pb_sink := k\<rparr>)
                   | ((w, k), Inr _) \<Rightarrow> s\<lparr>pb_out := Some w, pb_sink := k, pb_written := pb_written s @ [m]\<rparr>))
      | _ \<Rightarrow> s)"

definition task_starts :: "client_session \<Rightarrow> publisher \<Rightarrow> publisher" where
  "task_starts session s =
     (if pb_out s \<noteq> None \<or> pb_writer_end s \<noteq> None then s
      else case client_continuation_writer session of
        Inl _ \<Rightarrow> pb_writer_ends (Inl SendPing) s
      | Inr w \<Rightarrow> s\<lparr>pb_out := Some w\<rparr>)"

text \<open>A heartbeat pings, and starts a probe of the registration when the relay has been silent.\<close>

definition heartbeat_tick :: "environment \<Rightarrow> control_registration \<Rightarrow> nat \<Rightarrow> publisher \<Rightarrow> publisher" where
  "heartbeat_tick env reg now s =
     (let s = s\<lparr>pb_seq := pb_seq s + 1\<rparr>
      in case pb_send (WritePing (pb_seq s)) s of
        (s, False) \<Rightarrow> pb_finish (Inl SendPing) s
      | (s, True) \<Rightarrow>
          if 2 \<le> cr_protocol_version reg \<and> control_heartbeat_tolerance env \<le> last_rx_age now (pb_lease s) \<and>
             \<not> pb_probing s
          then s\<lparr>pb_probing := True\<rparr> else s)"

definition probe_answer :: "environment \<Rightarrow> nat \<Rightarrow> probe_result \<Rightarrow> publisher \<Rightarrow> publisher" where
  "probe_answer env now r s =
     (let s = s\<lparr>pb_probing := False\<rparr>; age = last_rx_age now (pb_lease s)
      in case r of
        ProbePresent \<Rightarrow> s
      | ProbeMissing \<Rightarrow> if control_heartbeat_tolerance env \<le> age then pb_finish (Inl ReadMsg) s else s
      | ProbeFailed \<Rightarrow>
          if control_heartbeat_tolerance env + control_suspect_grace env \<le> age then pb_finish (Inl ReadMsg) s else s)"

definition publish_step ::
  "'c crypto_scheme \<Rightarrow> proc_cred \<Rightarrow> publish_codecs \<Rightarrow> environment \<Rightarrow> client_session \<Rightarrow> control_registration \<Rightarrow>
   nat \<times> publish_event \<Rightarrow> publisher \<Rightarrow> publisher" where
  "publish_step C p enc env session reg = (\<lambda>(now, e) s.
     if pb_result s \<noteq> None then s
     else case e of
       ControlMessage msg \<Rightarrow> handle_request now (snd enc msg) (s\<lparr>pb_lease := record_rx now (pb_lease s)\<rparr>)
     | ControlBroken \<Rightarrow> pb_finish (Inl ReadMsg) s
     | TaskStarts \<Rightarrow> task_starts session s
     | TaskWrites late \<Rightarrow> task_writes C p enc reg late s
     | TaskJoined \<Rightarrow> (case pb_writer_end s of None \<Rightarrow> s | Some r \<Rightarrow> pb_finish r s)
     | Heartbeat \<Rightarrow> heartbeat_tick env reg now s
     | ProbeAnswer r \<Rightarrow> if pb_probing s then probe_answer env now r s else s)"

definition publish_run ::
  "'c crypto_scheme \<Rightarrow> proc_cred \<Rightarrow> publish_codecs \<Rightarrow> environment \<Rightarrow> client_session \<Rightarrow> control_registration \<Rightarrow>
   (nat \<times> publish_event) list \<Rightarrow> publisher \<Rightarrow> publisher" where
  "publish_run C p enc env session reg es s = fold (publish_step C p enc env session reg) es s"

section \<open>Probing the registration\<close>

definition probe_remote_registration ::
  "'c crypto_scheme \<Rightarrow> client_codecs \<Rightarrow> bytes \<Rightarrow> control_registration \<Rightarrow> nat option \<Rightarrow> credential \<Rightarrow> bool \<Rightarrow> dial \<Rightarrow>
   'a os_scheme \<Rightarrow> 'a os_scheme \<times> probe_result" where
  "probe_remote_registration C enc key reg namespace cred late d st =
     (if late \<or> \<not> dl_connect d then (st, ProbeFailed)
      else case get_status_with_credential C enc (StatusService key) namespace cred d st of
        (st, Inl _) \<Rightarrow> (st, ProbeFailed)
      | (st, Inr (ServiceResp _ connections)) \<Rightarrow>
          (st, if list_ex (\<lambda>c. scs_conn_id c = cr_conn_id reg \<and> scs_generation c = cr_generation reg \<and> scs_healthy c)
                 connections then ProbePresent else ProbeMissing)
      | (st, Inr (KeysResp keys)) \<Rightarrow> (st, if key \<in> set keys then ProbePresent else ProbeMissing)
      | (st, Inr _) \<Rightarrow> (st, ProbeFailed))"

section \<open>A data connection\<close>

definition data_request :: "bytes \<Rightarrow> nat option \<Rightarrow> nat \<Rightarrow> nat \<Rightarrow> conn_request" where
  "data_request key namespace client_id gen =
     (case namespace of Some n \<Rightarrow> StreamScoped key n client_id gen | None \<Rightarrow> StreamReq key client_id gen)"

text \<open>
  The first flag tells that connecting to the relay ran into its timeout, the second that the local
  service takes the connection.
\<close>

definition handle_stream ::
  "'c crypto_scheme \<Rightarrow> client_codecs \<Rightarrow> (bytes option \<Rightarrow> bytes \<Rightarrow> bytes \<times> sink \<Rightarrow> 'o) \<Rightarrow> bytes \<Rightarrow> nat option \<Rightarrow>
   credential \<Rightarrow> nat \<Rightarrow> nat \<Rightarrow> bool \<Rightarrow> bool \<Rightarrow> dial \<Rightarrow> 'a os_scheme \<Rightarrow> 'a os_scheme \<times> (publish_error + 'o)" where
  "handle_stream C enc fwd key namespace cred client_id gen connect_late local_ok d st =
     (case fst enc (data_request key namespace client_id gen) of
        None \<Rightarrow> (st, Inl PublishEncodeStreamReq)
      | Some msg \<Rightarrow>
          if connect_late then (st, Inl (ControlIoTimeout ''connect remote stream''))
          else if \<not> dl_connect d then (st, Inl PublishConnectRemote)
          else (case client_new_v2 C cred st of
             (st, Inl _) \<Rightarrow> (st, Inl (PublishHeaderTool ''session''))
           | (st, Inr s) \<Rightarrow>
               (case exchange C (proc st) s msg d of
                  (_, Inl _) \<Rightarrow> (st, Inl WritePbConnStreamReq)
                | ((k, rest), Inr response) \<Rightarrow>
                    (case snd enc response of
                       None \<Rightarrow> (st, Inl DecodePbConnStreamResp)
                     | Some (ConnStream stream_key) \<Rightarrow>
                         if \<not> local_ok then (st, Inl ConnectLocalStream)
                         else (st, Inr (fwd stream_key (credential_key cred) (rest, k)))
                     | Some _ \<Rightarrow> (st, Inl PbConnStreamRespNotMatch)))))"

section \<open>Workers\<close>

text \<open>The credential is the pinned one, or the first that the process yields; failures are retried.\<close>

fun resolve_registration_credential ::
  "credential option \<Rightarrow> (string + credential) list \<Rightarrow> retry_backoff \<Rightarrow> duration list \<times> credential option" where
  "resolve_registration_credential (Some c) tries b = ([], Some c)"
| "resolve_registration_credential None [] b = ([], None)"
| "resolve_registration_credential None (Inr c # tries) b = ([], Some c)"
| "resolve_registration_credential None (Inl _ # tries) b =
     (case next_delay b of (b, t) \<Rightarrow>
        (case resolve_registration_credential None tries b of (ts, c) \<Rightarrow> (t # ts, c)))"

text \<open>
  One round of a worker: an attempt that ended before it was registered (\<open>None\<close>), or after.  The
  callback is told the status and, after the delay, that the worker tries again.
\<close>

record worker =
  wk_backoff :: retry_backoff
  wk_told :: "string list"
  wk_slept :: "duration list"

definition worker_new :: worker where
  "worker_new = \<lparr>wk_backoff = retry_backoff_default, wk_told = [], wk_slept = []\<rparr>"

definition status_name :: "status \<Rightarrow> string" where
  "status_name s = (case s of ReadMsg \<Rightarrow> ''ReadMsg'' | SendPing \<Rightarrow> ''SendPing'' | ConnectRemote \<Rightarrow> ''ConnectRemote'')"

definition worker_round :: "bool \<Rightarrow> bool \<times> (status + unit) \<Rightarrow> worker \<Rightarrow> worker" where
  "worker_round has_callback = (\<lambda>(was_registered, result) w.
     let told = (\<lambda>ms. if has_callback then ms else []);
         b = (if was_registered then retry_backoff_reset (wk_backoff w) else wk_backoff w);
         status = (case result of Inl status \<Rightarrow> status | Inr _ \<Rightarrow> ReadMsg)
     in case next_delay b of (b, t) \<Rightarrow>
       w\<lparr>wk_backoff := b,
         wk_told := wk_told w @ told ((if was_registered then [''connected''] else []) @ [status_name status, ''retrying'']),
         wk_slept := wk_slept w @ [t]\<rparr>)"

text \<open>The pool starts at least one worker; only the first one has the callback.\<close>

definition pool_workers :: "environment \<Rightarrow> (nat \<times> bool) list" where
  "pool_workers env = map (\<lambda>i. (i, i = 0)) [0..<max 1 (control_conn_pool_size env)]"

end
