(* ===== verification/ClientProps.thy ===== *)
theory ClientProps
  imports Publisher ForwardProps HandlerProps "HOL-Library.Sublist"
begin

text \<open>
  What the client programs promise: their retry delays and the patience of their loops, the
  acknowledgement of stream requests, and that relay and client are in step when forwarding starts.
\<close>

section \<open>Delays\<close>

definition default_delays :: "retry_backoff \<Rightarrow> bool" where
  "default_delays b \<longleftrightarrow> min_delay b = from_millis 100 \<and> max_delay b = from_secs 1"

lemma next_delay_bounds:
  "default_delays b \<Longrightarrow> default_delays (fst (next_delay b)) \<and>
     from_millis 100 \<le> snd (next_delay b) \<and> snd (next_delay b) \<le> from_secs 1"
  by (auto simp: default_delays_def next_delay_def from_millis_def from_secs_def duration_max_def u64_max_def)

lemma default_delays_reset [simp]:
  "default_delays (retry_backoff_reset b) = default_delays b" "default_delays retry_backoff_default"
  by (simp_all add: default_delays_def retry_backoff_reset_def retry_backoff_default_def)

definition delays_ok :: "retry_backoff \<Rightarrow> duration list \<Rightarrow> bool" where
  "delays_ok b ts \<longleftrightarrow> default_delays b \<and> (\<forall>t\<in>set ts. from_millis 100 \<le> t \<and> t \<le> from_secs 1)"

lemma delays_ok_next: "delays_ok b ts \<Longrightarrow> next_delay b = (b', t) \<Longrightarrow> delays_ok b' (ts @ [t])"
  using next_delay_bounds [of b] by (auto simp: delays_ok_def)

lemma delays_ok_reset [simp]: "delays_ok (retry_backoff_reset b) ts = delays_ok b ts"
  by (simp add: delays_ok_def)

lemmas ls_simps = ls_tell_def ls_sleep_def ls_reset_def ls_close_def

lemma delays_ok_listen:
  "delays_ok (ls_backoff s) (ls_slept s) \<Longrightarrow>
     delays_ok (ls_backoff (listen_step n e s)) (ls_slept (listen_step n e s))"
  using delays_ok_next [of "ls_backoff s" "ls_slept s"] delays_ok_next [of "retry_backoff_reset (ls_backoff s)" "ls_slept s"]
  by (auto simp: listen_step_def ls_simps Let_def split: listen_event.split sum.split prod.split)

lemma delays_ok_worker:
  "delays_ok (wk_backoff w) (wk_slept w) \<Longrightarrow>
     delays_ok (wk_backoff (worker_round c r w)) (wk_slept (worker_round c r w))"
  using delays_ok_next [of "wk_backoff w" "wk_slept w"] delays_ok_next [of "retry_backoff_reset (wk_backoff w)" "wk_slept w"]
  by (auto simp: worker_round_def Let_def split: prod.split)

text \<open>
  Whatever happens to it, the subscribing client and every worker of the publishing client wait
  at least 100 ms and at most a second before they try again.
\<close>

theorem retry_delays_are_bounded:
  "(\<forall>t\<in>set (ls_slept (listen_run threshold es listening_new)). 100 * 10 ^ 6 \<le> t \<and> t \<le> 10 ^ 9) \<and>
   (\<forall>t\<in>set (wk_slept (fold (worker_round c) rs worker_new)). 100 * 10 ^ 6 \<le> t \<and> t \<le> 10 ^ 9)"
proof -
  have "delays_ok (ls_backoff (listen_run threshold es s)) (ls_slept (listen_run threshold es s))"
    if "delays_ok (ls_backoff s) (ls_slept s)" for s
    using that by (induction es arbitrary: s) (auto simp: listen_run_def delays_ok_listen)
  from this [of listening_new]
  have 1: "delays_ok (ls_backoff (listen_run threshold es listening_new)) (ls_slept (listen_run threshold es listening_new))"
    by (simp add: listening_new_def delays_ok_def)
  have "delays_ok (wk_backoff (fold (worker_round c) rs w)) (wk_slept (fold (worker_round c) rs w))"
    if "delays_ok (wk_backoff w) (wk_slept w)" for w
    using that by (induction rs arbitrary: w) (auto simp: delays_ok_worker)
  from this [of worker_new]
  have 2: "delays_ok (wk_backoff (fold (worker_round c) rs worker_new)) (wk_slept (fold (worker_round c) rs worker_new))"
    by (simp add: worker_new_def delays_ok_def)
  from 1 2 show ?thesis
    by (simp add: delays_ok_def from_millis_def from_secs_def)
qed

section \<open>The listener\<close>

definition missed_check :: "listen_event \<Rightarrow> bool" where
  "missed_check e \<longleftrightarrow> (\<exists>r. e = HealthChecked (Inl r))"

lemma listen_patience:
  assumes "ls_open s" "\<forall>e\<in>set es. e = LocalAccepted \<or> missed_check e"
    "ls_missed s + length (filter missed_check es) < threshold"
  shows "ls_open (listen_run threshold es s) \<and> ls_told (listen_run threshold es s) = ls_told s \<and>
    ls_missed (listen_run threshold es s) = ls_missed s + length (filter missed_check es)"
  using assms
proof (induction es arbitrary: s)
  case (Cons e es)
  show ?case
  proof (cases "missed_check e")
    case True
    then have "listen_step threshold e s = s\<lparr>ls_missed := ls_missed s + 1\<rparr>"
      using Cons.prems by (auto simp: missed_check_def listen_step_def)
    then show ?thesis
      using Cons.IH [of "s\<lparr>ls_missed := ls_missed s + 1\<rparr>"] Cons.prems True by (simp add: listen_run_def)
  next
    case False
    then have "listen_step threshold e s = s\<lparr>ls_streams := ls_streams s + 1\<rparr>"
      using Cons.prems by (auto simp: listen_step_def)
    then show ?thesis
      using Cons.IH [of "s\<lparr>ls_streams := ls_streams s + 1\<rparr>"] Cons.prems False by (simp add: listen_run_def)
  qed
qed (simp add: listen_run_def)

text \<open>
  A listening client keeps its listener through missed health checks until as many in a row as
  the threshold says have failed, and then closes it and tells its callback that it is retrying.
\<close>

theorem listener_survives_until_the_threshold:
  assumes "ls_open s" "ls_missed s = 0" "\<forall>e\<in>set es. e = LocalAccepted \<or> (\<exists>r. e = HealthChecked (Inl r))"
    "length (filter (\<lambda>e. e \<noteq> LocalAccepted) es) + 1 = threshold"
  shows "ls_open (listen_run threshold es s) \<and>
    \<not> ls_open (listen_run threshold (es @ [HealthChecked (Inl r)]) s) \<and>
    ls_told (listen_run threshold (es @ [HealthChecked (Inl r)]) s) = ls_told s @ [''retrying'']"
proof -
  have filter: "filter missed_check es = filter (\<lambda>e. e \<noteq> LocalAccepted) es"
    using assms(3) by (intro filter_cong) (auto simp: missed_check_def)
  have "ls_open (listen_run threshold es s) \<and> ls_told (listen_run threshold es s) = ls_told s \<and>
      ls_missed (listen_run threshold es s) + 1 = threshold"
    using listen_patience [OF assms(1), of es threshold] assms(2-4) filter by (auto simp: missed_check_def)
  then show ?thesis
    by (auto simp: listen_run_def listen_step_def ls_simps case_prod_unfold Let_def)
qed

lemma listener_survives_until_the_threshold_witness:
  "let s = listening_new\<lparr>ls_open := True\<rparr>; es = [HealthChecked (Inl ProbeTimedOut), LocalAccepted, HealthChecked (Inl ProbeConnect)]
   in ls_open (listen_run 3 es s) \<and> \<not> ls_open (listen_run 3 (es @ [HealthChecked (Inl ProbeConnect)]) s)"
  using listener_survives_until_the_threshold [where threshold = 3 and s = "listening_new\<lparr>ls_open := True\<rparr>"
      and es = "[HealthChecked (Inl ProbeTimedOut), LocalAccepted, HealthChecked (Inl ProbeConnect)]" and r = ProbeConnect]
  by (simp add: listening_new_def)

section \<open>The publishing client\<close>

definition ack_of :: "server_req \<Rightarrow> (nat \<times> nat) option" where
  "ack_of m = (case m of PeerStreamAck client_id gen \<Rightarrow> Some (client_id, gen) | _ \<Rightarrow> None)"

definition queued_ack :: "control_write \<Rightarrow> (nat \<times> nat) option" where
  "queued_ack w = (case w of WriteStreamAck client_id gen \<Rightarrow> Some (client_id, gen) | _ \<Rightarrow> None)"

lemma ack_of_write: "ack_of (write_request_of reg w) = queued_ack w"
  by (auto simp: ack_of_def write_request_of_def queued_ack_def get_ping_message_def split: control_write.split)

definition acks_ok :: "publisher \<Rightarrow> bool" where
  "acks_ok s \<longleftrightarrow> prefix (List.map_filter ack_of (pb_written s)) (pb_streams s) \<and>
     (pb_writer_end s = None \<longrightarrow>
        List.map_filter ack_of (pb_written s) @ List.map_filter queued_ack (pb_queue s) = pb_streams s)"

lemma map_filter_snoc: "List.map_filter f (xs @ [x]) = List.map_filter f xs @ (case f x of None \<Rightarrow> [] | Some y \<Rightarrow> [y])"
  by (simp add: List.map_filter_def split: option.split)

lemma map_filter_Cons: "List.map_filter f (x # xs) = (case f x of None \<Rightarrow> [] | Some y \<Rightarrow> [y]) @ List.map_filter f xs"
  by (simp add: List.map_filter_def split: option.split)

lemma prefix_of_split: "xs @ y # zs = ys \<Longrightarrow> prefix (xs @ [y]) ys"
  by (auto simp: prefix_def)

lemma acks_ok_writes: "acks_ok s \<Longrightarrow> acks_ok (task_writes C p enc reg late s)"
  by (auto simp: task_writes_def acks_ok_def pb_writer_ends_def map_filter_snoc map_filter_Cons ack_of_write Let_def
      intro: prefix_of_split split: option.splits list.splits prod.splits sum.splits)

lemma acks_ok_request: "acks_ok s \<Longrightarrow> acks_ok (handle_request now m s)"
  by (auto simp: handle_request_def pb_send_def acks_ok_def map_filter_snoc queued_ack_def
      split: option.splits local_msg.splits)

lemma acks_ok_step: "acks_ok s \<Longrightarrow> acks_ok (publish_step C p enc env session reg te s)"
proof -
  assume s: "acks_ok s"
  obtain now e where te: "te = (now, e)"
    by fastforce
  show ?thesis
  proof (cases "pb_result s")
    case None
    show ?thesis
    proof (cases e)
      case (ControlMessage msg)
      have "acks_ok (s\<lparr>pb_lease := record_rx now (pb_lease s)\<rparr>)"
        using s by (simp add: acks_ok_def)
      then show ?thesis
        using None by (simp add: te ControlMessage publish_step_def acks_ok_request)
    next
      case TaskStarts
      then show ?thesis
        using None s by (auto simp: te publish_step_def task_starts_def pb_writer_ends_def acks_ok_def split: sum.split)
    next
      case Heartbeat
      then show ?thesis
        using None s by (auto simp: te publish_step_def heartbeat_tick_def pb_send_def pb_finish_def acks_ok_def
            map_filter_snoc queued_ack_def Let_def)
    next
      case (ProbeAnswer r)
      then show ?thesis
        using None s by (auto simp: te publish_step_def probe_answer_def pb_finish_def acks_ok_def Let_def split: probe_result.split)
    next
      case (TaskWrites late)
      then show ?thesis
        using None s by (simp add: te publish_step_def acks_ok_writes)
    qed (use None s in \<open>auto simp: te publish_step_def pb_finish_def acks_ok_def split: option.split\<close>)
  qed (simp add: te publish_step_def s)
qed

text \<open>
  C31: A publishing client acknowledges the stream requests it serves once each and in their order:
  the acknowledgements it has written come first among the data connections it has started, and as
  long as its writing task runs the rest of them is queued.
\<close>

theorem stream_requests_are_acknowledged_in_order:
  assumes "s = publish_run C p enc env session reg es (publisher_new now k)"
  shows "prefix (List.map_filter ack_of (pb_written s)) (pb_streams s) \<and>
    (pb_writer_end s = None \<longrightarrow>
       List.map_filter ack_of (pb_written s) @ List.map_filter queued_ack (pb_queue s) = pb_streams s)"
proof -
  have "acks_ok (publish_run C p enc env session reg es s0)" if "acks_ok s0" for s0
    using that by (induction es arbitrary: s0) (auto simp: publish_run_def acks_ok_step)
  from this [of "publisher_new now k"] assms show ?thesis
    by (simp add: acks_ok_def publisher_new_def List.map_filter_def)
qed

definition toy_client_session :: client_session where
  "toy_client_session = v2_client toy_key toy_material"

definition toy_publish_codecs :: publish_codecs where
  "toy_publish_codecs = (\<lambda>_. Some [7], \<lambda>b. if b = [1] then Some (LocalStream 4 9) else Some Pong)"

definition toy_registration :: control_registration where
  "toy_registration = \<lparr>cr_conn_id = 3, cr_generation = 5, cr_protocol_version = 2, cr_lease_ttl_ms = 0\<rparr>"

lemma stream_requests_are_acknowledged_in_order_witness:
  "pb_streams (publish_run toy_env (proc toy_state) toy_publish_codecs (\<lambda>_. None) toy_client_session toy_registration
      [(1, TaskStarts), (2, ControlMessage [1]), (3, Heartbeat), (4, ControlMessage [1])]
      (publisher_new 0 \<lparr>sent = [], room = None\<rparr>)) = [(4, 9), (4, 9)] \<and>
   prefix (List.map_filter ack_of (pb_written (publish_run toy_env (proc toy_state) toy_publish_codecs (\<lambda>_. None) toy_client_session toy_registration
      [(1, TaskStarts), (2, ControlMessage [1]), (3, Heartbeat), (4, ControlMessage [1])]
      (publisher_new 0 \<lparr>sent = [], room = None\<rparr>)))) [(4, 9), (4, 9)]"
proof -
  let ?s = "publish_run toy_env (proc toy_state) toy_publish_codecs (\<lambda>_. None) toy_client_session toy_registration
      [(1, TaskStarts), (2, ControlMessage [1]), (3, Heartbeat), (4, ControlMessage [1])]
      (publisher_new 0 \<lparr>sent = [], room = None\<rparr>)"
  have "pb_streams ?s = [(4, 9), (4, 9)]"
    by (simp add: publish_run_def publish_step_def publisher_new_def task_starts_def toy_client_session_def v2_client_def
        client_continuation_writer_def session_end_def toy_publish_codecs_def handle_request_def pb_send_def
        heartbeat_tick_def Let_def)
  with stream_requests_are_acknowledged_in_order [OF refl, of toy_env "proc toy_state" toy_publish_codecs "\<lambda>_. None" toy_client_session
      toy_registration "[(1, TaskStarts), (2, ControlMessage [1]), (3, Heartbeat), (4, ControlMessage [1])]" 0
      "\<lparr>sent = [], room = None\<rparr>"]
  show ?thesis
    by simp
qed

section \<open>Losing the relay\<close>

lemma publish_result_stays:
  "pb_result s \<noteq> None \<Longrightarrow> publish_step C p enc env session reg te s = s"
  by (auto simp: publish_step_def split: prod.split)

lemma lease_step:
  assumes "pb_result (publish_step C p enc env session reg (now, e) s) = None"
  shows "last_rx_at (pb_lease (publish_step C p enc env session reg (now, e) s)) =
    (case e of ControlMessage _ \<Rightarrow> now | _ \<Rightarrow> last_rx_at (pb_lease s))"
proof -
  have [simp]: "pb_lease (task_writes C p enc reg late s) = pb_lease s" for late
    by (auto simp: task_writes_def pb_writer_ends_def Let_def split: option.split list.split prod.split sum.split)
  from assms show ?thesis
    by (auto simp: publish_step_def handle_request_def pb_send_def record_rx_def record_pong_def task_starts_def
        pb_writer_ends_def heartbeat_tick_def probe_answer_def pb_finish_def Let_def
        split: publish_event.splits option.splits local_msg.splits sum.splits probe_result.splits if_splits)
qed

lemma lease_run:
  assumes "sorted (map fst es)" "pb_result (publish_run C p enc env session reg es s) = None"
    "(t, ControlMessage m) \<in> set es"
  shows "t \<le> last_rx_at (pb_lease (publish_run C p enc env session reg es s))"
  using assms
proof (induction es rule: rev_induct)
  case (snoc te es)
  obtain now e where te: "te = (now, e)"
    by fastforce
  let ?s = "publish_run C p enc env session reg es s"
  have run: "publish_run C p enc env session reg (es @ [(now, e)]) s = publish_step C p enc env session reg (now, e) ?s"
    by (simp add: publish_run_def)
  have "pb_result ?s = None"
    using snoc.prems(2) publish_result_stays [of ?s C p enc env session reg "(now, e)"] unfolding te run by metis
  moreover have "t \<le> now"
    using snoc.prems(1,3) by (auto simp: te sorted_append)
  ultimately show ?case
    using snoc.IH snoc.prems lease_step [of C p enc env session reg now e ?s]
    by (auto simp: run te sorted_append split: publish_event.splits)
qed simp

text \<open>
  C32: A publishing client gives its control connection up for the answer of a probe only when the
  relay has been silent for the heartbeat tolerance: no message came within it.
\<close>

theorem recently_heard_relay_is_not_given_up:
  assumes "sorted (map fst (es @ [(now, ProbeAnswer verdict)]))"
    and "s = publish_run C p enc env session reg es (publisher_new start k)" "pb_result s = None"
    and "pb_result (publish_step C p enc env session reg (now, ProbeAnswer verdict) s) = Some (Inl ReadMsg)"
    and "(t, ControlMessage m) \<in> set es"
  shows "t + control_heartbeat_tolerance env \<le> now"
proof -
  have "t \<le> last_rx_at (pb_lease s)" "t \<le> now"
    using lease_run [of es C p enc env session reg "publisher_new start k" t m] assms(1-3,5) by (auto simp: sorted_append)
  moreover have "control_heartbeat_tolerance env \<le> now - last_rx_at (pb_lease s)"
    using assms(3,4)
    by (auto simp: publish_step_def probe_answer_def last_rx_age_def pb_finish_def Let_def split: if_splits probe_result.splits)
  ultimately show ?thesis
    by linarith
qed

definition toy_silent :: publisher where
  "toy_silent = publisher_new 0 \<lparr>sent = [], room = None\<rparr>"

lemmas toy_publish_simps = publish_run_def publish_step_def publisher_new_def toy_silent_def toy_publish_codecs_def
  handle_request_def record_rx_def record_pong_def lease_state_new_def pb_send_def pb_finish_def heartbeat_tick_def
  probe_answer_def last_rx_age_def toy_registration_def control_heartbeat_tolerance_def control_suspect_grace_def
  duration_from_env_def env_value_def DEFAULT_CONTROL_HEARTBEAT_TOLERANCE_def DEFAULT_CONTROL_SUSPECT_GRACE_def from_secs_def

lemma recently_heard_relay_is_not_given_up_witness:
  "(5 :: nat) + control_heartbeat_tolerance (\<lambda>_. None) \<le> 8 * 10 ^ 9"
proof -
  let ?es = "[(5, ControlMessage [2]), (7 * 10 ^ 9, Heartbeat)]"
  define s where "s = publish_run toy_env (proc toy_state) toy_publish_codecs (\<lambda>_. None) toy_client_session toy_registration
    ?es toy_silent"
  have run: "pb_result s = None" "pb_result (publish_step toy_env (proc toy_state) toy_publish_codecs (\<lambda>_. None)
      toy_client_session toy_registration (8 * 10 ^ 9, ProbeAnswer ProbeMissing) s) = Some (Inl ReadMsg)"
    by (simp_all add: s_def toy_publish_simps)
  show ?thesis
    by (rule recently_heard_relay_is_not_given_up [OF _ s_def [unfolded toy_silent_def] run]) auto
qed

text \<open>
  C33: A relay that has said nothing for the tolerance and the grace is given up: the next heartbeat
  asks about the registration, and unless the answer is that it is still there the client reconnects.
\<close>

theorem silent_relay_is_given_up:
  assumes "pb_result s = None" "pb_writer_end s = None" "\<not> pb_probing s" "2 \<le> cr_protocol_version reg"
    and "last_rx_at (pb_lease s) + control_heartbeat_tolerance env + control_suspect_grace env \<le> t1" "t1 \<le> t2"
    and "verdict \<noteq> ProbePresent"
  shows "pb_result (publish_run C p enc env session reg [(t1, Heartbeat), (t2, ProbeAnswer verdict)] s) = Some (Inl ReadMsg)"
  using assms
  by (cases verdict) (auto simp: publish_run_def publish_step_def heartbeat_tick_def pb_send_def probe_answer_def
      last_rx_age_def pb_finish_def Let_def)

lemma silent_relay_is_given_up_witness:
  "pb_result (publish_run toy_env (proc toy_state) toy_publish_codecs (\<lambda>_. None) toy_client_session toy_registration
     [(9 * 10 ^ 9, Heartbeat), (10 * 10 ^ 9, ProbeAnswer ProbeFailed)] toy_silent) = Some (Inl ReadMsg)"
  by (rule silent_relay_is_given_up) (simp_all add: toy_publish_simps)

section \<open>Relay and subscribing client\<close>

lemma exchange_reads_a_v2_answer:
  assumes "aead_ok C" "cs_protocol s = V2Protocol" "cs_v2 s = Some m"
    and "\<not> dl_write_late d" "\<not> dl_read_late d" "write_initial C p s payload (dial_sink d) = (k, Inr ())"
    and "v2_write_msg C message (v2_end_new m DIRECTION_SERVER_TO_CLIENT 0, \<lparr>sent = [], room = x\<rparr>) = ((e, k'), Inr ())"
    and "dl_input d = sent k' @ stream"
  shows "exchange C p s payload d = ((k, stream), Inr message)"
proof -
  from v2.put_get [OF _ _ assms(7)] assms(1) obtain r' where
    "v2_read_msg C (v2_end_new m DIRECTION_SERVER_TO_CLIENT 0, sent k' @ stream) = ((r', stream), Inr message)"
    by force
  then show ?thesis
    using assms by (simp add: exchange_def client_response_reader_def session_end_def header_read_msg_def)
qed

text \<open>
  C34: When the relay has written a subscriber the answer with its stream key, the client's local
  stream is forwarded under exactly this key, over exactly what the relay sends after the answer.
\<close>

theorem subscriber_forwards_under_the_relays_key:
  assumes "aead_ok C" "client_new_v2 C cred st = (st1, Inr s)"
    and "dl_connect d" "\<not> dl_write_late d" "\<not> dl_read_late d" "fst enc (subscribe_request key namespace) = Some msg"
    and "write_initial C (proc st1) s msg (dial_sink d) = (k, Inr ())"
    and "ss_protocol (su_session u) = V2Protocol" "ss_v2 (su_session u) = cs_v2 s"
    and "write_subscribe_response C q encode u server_id stream_key \<lparr>sent = [], room = x\<rparr> = (k', Inr ())"
    and "encode (ConnSubscribe stream_key (unat (su_conn_id u)) (unat server_id)) = Some message"
    and "snd enc message = Some (ConnSubscribe stream_key (unat (su_conn_id u)) (unat server_id))"
    and "dl_input d = sent k' @ stream"
  shows "handle_local_stream C enc fwd key namespace cred d st = (st1, Inr (fwd stream_key (credential_key cred) (stream, k)))"
proof -
  obtain m where m: "cs_protocol s = V2Protocol" "cs_v2 s = Some m"
    using assms(2) by (auto simp: client_new_v2_def Let_def split: prod.splits sum.splits)
  from assms(8-11) m obtain e where "v2_write_msg C message (v2_end_new m DIRECTION_SERVER_TO_CLIENT 0,
      \<lparr>sent = [], room = x\<rparr>) = ((e, k'), Inr ())"
    by (auto simp: write_subscribe_response_def server_response_writer_def session_end_def header_write_msg_def
        split: prod.splits sum.splits)
  from exchange_reads_a_v2_answer [OF assms(1) m assms(4,5,7) this assms(13)] assms(2,3,6,12) show ?thesis
    by (simp add: handle_local_stream_def)
qed

lemma toy_client_new:
  "client_new_v2 toy_env (Admin toy_key) toy_state =
     (toy_state\<lparr>clk_pos := 1, rng_pos := 8\<rparr>, Inr (v2_client toy_key toy_material))"
proof -
  have "to_be 8 50 @ replicate 8 0 = toy_salt" "clk toy_state = (\<lambda>_. 50)" "rng toy_state = (\<lambda>_. 0)"
    "clk_pos toy_state = 0" "rng_pos toy_state = 0"
    by (simp_all add: toy_salt_def toy_state_def)
  with toy_material show ?thesis
    by (simp add: client_new_v2_def unix_seconds_def random_bytes_def v2_client_def ADMIN_KEY_ID_def map_replicate_const)
qed

lemma subscriber_forwards_under_the_relays_key_witness:
  "\<exists>d st. handle_local_stream toy_env ((\<lambda>_. Some [7]), (\<lambda>_. Some (ConnSubscribe None 1 0)))
     (\<lambda>key framing (rest, k). (key, rest)) [97] None (Admin toy_key) d toy_state = (st, Inr (None, [8, 9]))"
proof -
  obtain e k' where w: "header_write_msg toy_env (proc toy_state) [7]
      (V2End (v2_end_new toy_material DIRECTION_SERVER_TO_CLIENT 0), \<lparr>sent = [], room = None\<rparr>) = ((e, k'), Inr ())"
    using toy_write by blast
  let ?d = "\<lparr>dl_connect = True, dl_room = None, dl_input = sent k' @ [8, 9], dl_write_late = False, dl_read_late = False\<rparr>"
  have "write_subscribe_response toy_env (proc toy_state) (\<lambda>_. Some [7]) toy_subscription 0 None
      \<lparr>sent = [], room = None\<rparr> = (k', Inr ())"
    using w by (simp add: write_subscribe_response_def toy_subscription_def toy_session_def v2_session_def
        server_response_writer_def session_end_def)
  from subscriber_forwards_under_the_relays_key [OF toy_ok(1) toy_client_new, where d = ?d and u = toy_subscription
      and stream = "[8, 9]" and key = "[97]" and namespace = None and message = "[7]" and msg = "[7]" and stream_key = None
      and enc = "((\<lambda>_. Some [7]), (\<lambda>_. Some (ConnSubscribe None 1 0)))" and server_id = 0
      and fwd = "\<lambda>key framing (rest, k). (key, rest)", OF _ _ _ _ _ _ _ this] toy_write_initial
  show ?thesis
    by (auto simp: toy_subscription_def toy_session_def v2_session_def v2_client_def dial_sink_def)
qed

end
