(* ===== verification/Addresses.thy ===== *)
theory Addresses
  imports AuthConfig
begin

text \<open>
  Addresses of relays and services (\<^verbatim>\<open>pb-mapper-core/src/addr.rs\<close> and the lookups of
  \<^verbatim>\<open>config.rs\<close>): the order in which a text is tried as an address, by the resolver of the
  project and by the system's, and the connection to the first address that answers.  The resolvers
  and the syntax of an IP address are parameters.
\<close>

type_synonym 'ip socket_addr = "'ip \<times> nat"

record 'ip resolvers =
  parse_socket_addr :: "bytes \<Rightarrow> 'ip socket_addr option"
  parse_ipv4 :: "bytes \<Rightarrow> 'ip option"
  parse_ipv6 :: "bytes \<Rightarrow> 'ip option"
  custom_resolver :: "(bytes \<Rightarrow> 'ip list option) option"
  system_host :: "bytes \<Rightarrow> nat \<Rightarrow> 'ip socket_addr list option"
  system_text :: "bytes \<Rightarrow> 'ip socket_addr list option"

section \<open>Lookups\<close>

text \<open>\<^verbatim>\<open>rsplit_once\<close>.\<close>

definition rsplit_once :: "u8 \<Rightarrow> bytes \<Rightarrow> (bytes \<times> bytes) option" where
  "rsplit_once c bs =
     (let back = takeWhile (\<lambda>b. b \<noteq> c) (rev bs) in
      if length back = length bs then None
      else Some (take (length bs - length back - 1) bs, rev back))"

definition u16_max :: nat where "u16_max = 65535"

definition host_and_port :: "bytes \<Rightarrow> (bytes \<times> nat) option" where
  "host_and_port s =
     (case rsplit_once 58 s of
        None \<Rightarrow> None
      | Some (host, port_str) \<Rightarrow> map_option (Pair host) (parse_unsigned u16_max port_str))"

definition get_socket_addrs_from_host_port :: "'ip resolvers \<Rightarrow> bytes \<Rightarrow> nat \<Rightarrow> 'ip socket_addr list option" where
  "get_socket_addrs_from_host_port R host port = system_host R host port"

definition get_socket_addrs :: "'ip resolvers \<Rightarrow> bytes \<Rightarrow> 'ip socket_addr list option" where
  "get_socket_addrs R s =
     (case host_and_port s of
        None \<Rightarrow> None
      | Some (host, port) \<Rightarrow> get_socket_addrs_from_host_port R host port)"

definition get_ip_addrs_async :: "'ip resolvers \<Rightarrow> bytes \<Rightarrow> 'ip list option" where
  "get_ip_addrs_async R s = (case custom_resolver R of None \<Rightarrow> None | Some lookup_ip \<Rightarrow> lookup_ip s)"

definition get_socket_addrs_from_host_port_async :: "'ip resolvers \<Rightarrow> bytes \<Rightarrow> nat \<Rightarrow> 'ip socket_addr list option" where
  "get_socket_addrs_from_host_port_async R host port =
     (case get_ip_addrs_async R host of
        Some ips \<Rightarrow> Some (map (\<lambda>ip. (ip, port)) ips)
      | None \<Rightarrow> system_host R host port)"

definition get_socket_addrs_async :: "'ip resolvers \<Rightarrow> bytes \<Rightarrow> 'ip socket_addr list option" where
  "get_socket_addrs_async R s =
     (case host_and_port s of
        None \<Rightarrow> None
      | Some (host, port) \<Rightarrow> get_socket_addrs_from_host_port_async R host port)"

text \<open>The addresses of a text and of a host with its port.\<close>

definition text_to_socket_addrs :: "'ip resolvers \<Rightarrow> bytes \<Rightarrow> 'ip socket_addr list option" where
  "text_to_socket_addrs R s =
     (case parse_socket_addr R s of Some a \<Rightarrow> Some [a] | None \<Rightarrow> get_socket_addrs R s)"

definition host_to_socket_addrs :: "'ip resolvers \<Rightarrow> bytes \<Rightarrow> nat \<Rightarrow> 'ip socket_addr list option" where
  "host_to_socket_addrs R host port =
     (case parse_ipv4 R host of
        Some ip \<Rightarrow> Some [(ip, port)]
      | None \<Rightarrow>
          (case parse_ipv6 R host of
             Some ip \<Rightarrow> Some [(ip, port)]
           | None \<Rightarrow> get_socket_addrs_from_host_port R host port))"

section \<open>The first address that answers\<close>

datatype 'e connect_error = Unresolved | NoAddresses | ConnectFailed 'e

fun try_each :: "('a \<Rightarrow> 'e + 'c) \<Rightarrow> 'a list \<Rightarrow> 'e option \<Rightarrow> 'e connect_error + 'c" where
  "try_each f [] last_err = Inl (case last_err of None \<Rightarrow> NoAddresses | Some e \<Rightarrow> ConnectFailed e)"
| "try_each f (a # as) last_err = (case f a of Inr c \<Rightarrow> Inr c | Inl e \<Rightarrow> try_each f as (Some e))"

definition each_addr :: "'a list option \<Rightarrow> ('a \<Rightarrow> 'e + 'c) \<Rightarrow> 'e connect_error + 'c" where
  "each_addr addrs f = (case addrs of None \<Rightarrow> Inl Unresolved | Some as \<Rightarrow> try_each f as None)"

section \<open>The addresses of the settings\<close>

text \<open>An empty answer is an error, as a failed lookup is.\<close>

definition first_of :: "'a list option \<Rightarrow> 'a option" where
  "first_of r = (case r of Some (a # _) \<Rightarrow> Some a | _ \<Rightarrow> None)"

definition is_localhost :: "bytes \<Rightarrow> bool" where
  "is_localhost addr \<longleftrightarrow> strip_prefix (ascii ''localhost:'') addr \<noteq> None"

definition get_sockaddr :: "'ip resolvers \<Rightarrow> bytes \<Rightarrow> 'ip socket_addr option" where
  "get_sockaddr R addr =
     (case parse_socket_addr R addr of
        Some a \<Rightarrow> Some a
      | None \<Rightarrow>
          if is_localhost addr then first_of (system_text R addr)
          else case get_socket_addrs R addr of
            Some addrs \<Rightarrow> first_of (Some addrs)
          | None \<Rightarrow> first_of (system_text R addr))"

definition get_sockaddr_async :: "'ip resolvers \<Rightarrow> bytes \<Rightarrow> 'ip socket_addr option" where
  "get_sockaddr_async R addr =
     (case parse_socket_addr R addr of
        Some a \<Rightarrow> Some a
      | None \<Rightarrow>
          if is_localhost addr then first_of (system_text R addr)
          else case get_socket_addrs_async R addr of
            Some addrs \<Rightarrow> first_of (Some addrs)
          | None \<Rightarrow> first_of (system_text R addr))"

definition relay_setting :: "environment \<Rightarrow> bytes option \<Rightarrow> bytes option" where
  "relay_setting env addr =
     (case addr of
        Some a \<Rightarrow> Some a
      | None \<Rightarrow> (case env ''PB_MAPPER_SERVER'' of Some (Some a) \<Rightarrow> Some a | _ \<Rightarrow> None))"

definition get_pb_mapper_server :: "'ip resolvers \<Rightarrow> environment \<Rightarrow> bytes option \<Rightarrow> 'ip socket_addr option" where
  "get_pb_mapper_server R env addr = Option.bind (relay_setting env addr) (get_sockaddr R)"

definition get_pb_mapper_server_async :: "'ip resolvers \<Rightarrow> environment \<Rightarrow> bytes option \<Rightarrow> 'ip socket_addr option" where
  "get_pb_mapper_server_async R env addr = Option.bind (relay_setting env addr) (get_sockaddr_async R)"

section \<open>Facts\<close>

text \<open>
  A connection made over a list of addresses is one of theirs, after every address before it has
  failed; the error is the last address's.
\<close>

lemma try_each_Inr:
  assumes "try_each f as l = Inr c"
  shows "\<exists>pre a post. as = pre @ a # post \<and> (\<forall>b\<in>set pre. isl (f b)) \<and> f a = Inr c"
  using assms
proof (induction as arbitrary: l)
  case (Cons b as)
  show ?case
  proof (cases "f b")
    case (Inl e)
    then obtain pre a post where "as = pre @ a # post" "\<forall>b\<in>set pre. isl (f b)" "f a = Inr c"
      using Cons.IH [of "Some e"] Cons.prems by auto
    then have "b # as = (b # pre) @ a # post \<and> (\<forall>x\<in>set (b # pre). isl (f x)) \<and> f a = Inr c"
      using Inl by simp
    then show ?thesis
      by blast
  next
    case (Inr c')
    then have "b # as = [] @ b # as \<and> (\<forall>x\<in>set []. isl (f x)) \<and> f b = Inr c"
      using Cons.prems by simp
    then show ?thesis
      by blast
  qed
qed simp

lemma try_each_Inl:
  "try_each f as l = Inl e \<Longrightarrow> as \<noteq> [] \<Longrightarrow> \<exists>e'. f (last as) = Inl e' \<and> e = ConnectFailed e'"
  by (induction as arbitrary: l) (auto split: sum.splits if_splits)

text \<open>\<^verbatim>\<open>rsplit_once\<close> splits at the last colon, so that a bare IPv6 address keeps its colons.\<close>

lemma rsplit_once_spec:
  assumes "c \<notin> set post"
  shows "rsplit_once c (pre @ c # post) = Some (pre, post)"
proof -
  have "takeWhile (\<lambda>b. b \<noteq> c) (rev (pre @ c # post)) = rev post"
    using assms by (simp, subst takeWhile_append2) auto
  then show ?thesis
    by (simp add: rsplit_once_def)
qed

end
