(* ===== verification/AdminCli.thy ===== *)
theory AdminCli
  imports Exchange
begin

text \<open>
  The administrator's command line (\<^verbatim>\<open>pb-mapper-cli/src/bin/pb-mapper/admin.rs\<close>): one
  request with its single retry, the inventories page by page, what is printed, and the rotation of
  the root key.  Parsing the command line is left out: a command is given as parsed.
\<close>

section \<open>Commands\<close>

datatype output_format = Human | JsonOutput | Ndjson

datatype admin_key_command =
    IssueKey duration "bytes option"
  | ListTheKeys nat nat bool
  | ShowTheKey key_id
  | RevealTheKey key_id
  | RenewTheKey key_id duration
  | RevokeTheKey key_id
  | CollectKeys

datatype admin_list_command = ListPages "nat option" nat nat bool

datatype admin_command =
    KeyCommand admin_key_command
  | ConnectionCommand admin_list_command
  | ServiceCommand admin_list_command
  | StatusCommand
  | ResetCommand bool
  | RotateCommand "bytes option" "string option"
  | LegacyCommand legacy_policy

text \<open>Sources and texts of the errors are left out.\<close>

datatype admin_error =
    NoRelayAddress
  | AdminEncode
  | AdminConnect
  | AdminSession
  | AdminWrite
  | AdminRead
  | AdminDecode
  | AdminTimedOut
  | AdminRefused string bool
  | AdminUnexpected
  | SaltRetryExhausted
  | StagedKeyNotWritten auth_failure
  | RotationFailed admin_error
  | NewKeyRejected cred_error
  | NotVerified
  | KeyFileNotUpdated auth_failure

section \<open>One request\<close>

text \<open>
  The program's state is the operating system's with the connections it will make; what it has
  written on each is kept.
\<close>

record cli = os +
  cli_dials :: "nat \<Rightarrow> dial"
  cli_dial_pos :: nat
  cli_written :: "sink list"

text \<open>
  One attempt tells whether the request had been sent when it ended.  Every wait of an attempt is
  under one timeout, which drops it where it stands; a connect that never returns is a failed one.
\<close>

definition admin_attempt ::
  "'c crypto_scheme \<Rightarrow> client_codecs \<Rightarrow> bytes \<Rightarrow> cli \<Rightarrow> cli \<times> bool \<times> (admin_error + conn_resp)" where
  "admin_attempt C enc encoded st =
     (let d = cli_dials st (cli_dial_pos st);
          st = st\<lparr>cli_dial_pos := Suc (cli_dial_pos st)\<rparr>
      in if \<not> dl_connect d then (st, False, Inl AdminConnect)
         else case client_from_process C st of
           (st, Inl _) \<Rightarrow> (st, False, Inl AdminSession)
         | (st, Inr s) \<Rightarrow>
             if dl_write_late d then (st, False, Inl AdminTimedOut)
             else case write_initial C (proc st) s encoded (dial_sink d) of
               (k, Inl _) \<Rightarrow> (st\<lparr>cli_written := cli_written st @ [k]\<rparr>, False, Inl AdminWrite)
             | (k, Inr _) \<Rightarrow>
                 (let st = st\<lparr>cli_written := cli_written st @ [k]\<rparr>
                  in case client_response_reader s of
                       Inl _ \<Rightarrow> (st, True, Inl AdminSession)
                     | Inr r \<Rightarrow>
                         if dl_read_late d then (st, True, Inl AdminTimedOut)
                         else case header_read_msg C (proc st) (r, dl_input d) of
                           (_, Inl _) \<Rightarrow> (st, True, Inl AdminRead)
                         | (_, Inr message) \<Rightarrow>
                             (case snd enc message of
                                None \<Rightarrow> (st, True, Inl AdminDecode)
                              | Some response \<Rightarrow> (st, True, Inr response))))"

text \<open>Nothing: the loop goes round again.\<close>

definition admin_verdict :: "nat \<Rightarrow> bool \<Rightarrow> admin_error + conn_resp \<Rightarrow> (admin_error + admin_resp) option" where
  "admin_verdict attempt was_sent r =
     (case r of
        Inl e \<Rightarrow> if attempt = 0 \<and> \<not> was_sent then None else Some (Inl e)
      | Inr (ConnAdmin response) \<Rightarrow> Some (Inr response)
      | Inr (ConnError c again) \<Rightarrow>
          if c = ''connection_salt_replayed'' \<and> again then None else Some (Inl (AdminRefused c again))
      | Inr _ \<Rightarrow> Some (Inl AdminUnexpected))"

definition send_admin_request_with_timeout ::
  "'c crypto_scheme \<Rightarrow> client_codecs \<Rightarrow> admin_req \<Rightarrow> cli \<Rightarrow> cli \<times> (admin_error + admin_resp)" where
  "send_admin_request_with_timeout C enc req st =
     (case fst enc (AdminReq req) of
        None \<Rightarrow> (st, Inl AdminEncode)
      | Some encoded \<Rightarrow>
          (case admin_attempt C enc encoded st of
             (st, was_sent, r) \<Rightarrow>
               (case admin_verdict 0 was_sent r of
                  Some v \<Rightarrow> (st, v)
                | None \<Rightarrow>
                    (case admin_attempt C enc encoded st of
                       (st, was_sent, r) \<Rightarrow>
                         (case admin_verdict 1 was_sent r of
                            Some v \<Rightarrow> (st, v)
                          | None \<Rightarrow> (st, Inl SaltRetryExhausted))))))"

definition send_admin_request ::
  "'c crypto_scheme \<Rightarrow> client_codecs \<Rightarrow> admin_req \<Rightarrow> cli \<Rightarrow> cli \<times> (admin_error + admin_resp)" where
  "send_admin_request C enc req st = send_admin_request_with_timeout C enc req st"

section \<open>What is printed\<close>

text \<open>JSON is printed by \<^verbatim>\<open>serde_json\<close>; a line of it is named by its value.\<close>

datatype printed =
    PrettyJson admin_resp
  | JsonLine admin_resp
  | KeyLine key_metadata
  | ServiceLine service_info
  | ConnectionLine connection_info
  | TextLine bytes

definition show_bool :: "bool \<Rightarrow> bytes" where
  "show_bool b = (if b then ascii ''true'' else ascii ''false'')"

definition tabbed :: "bytes list \<Rightarrow> bytes" where
  "tabbed cells = tl (concat (map ((#) 9) cells))"

definition print_issued_key :: "issued_key \<Rightarrow> bytes list" where
  "print_issued_key key =
     (let m = ik_metadata key in
      [ascii ''key id: '' @ decimal (unat (km_key_id m)),
       ascii ''state: '' @ ascii (km_state m),
       ascii ''expires at: '' @ decimal (km_expires_at m)] @
      (case km_label m of Some label \<Rightarrow> [ascii ''label: '' @ label] | None \<Rightarrow> []) @
      (if ik_credential key \<noteq> [] then [ascii ''credential: '' @ ik_credential key] else []))"

definition print_key_row :: "key_metadata \<Rightarrow> bytes" where
  "print_key_row m =
     tabbed [decimal (unat (km_key_id m)), ascii (km_state m), decimal (km_expires_at m),
       (case km_label m of Some label \<Rightarrow> label | None \<Rightarrow> [])]"

definition print_status :: "auth_status \<Rightarrow> bytes list" where
  "print_status s =
     [ascii ''safe mode: '' @ show_bool (st_safe_mode s),
      ascii ''keys: '' @ decimal (st_active_keys s) @ ascii '' active / '' @ decimal (st_expired_keys s) @
        ascii '' expired / '' @ decimal (st_revoked_keys s) @ ascii '' revoked / '' @
        decimal (st_capacity s) @ ascii '' capacity'',
      ascii ''legacy protocol: '' @ ascii (case st_legacy_protocol s of Allow \<Rightarrow> ''Allow'' | Deny \<Rightarrow> ''Deny''),
      ascii ''active legacy connections: '' @ decimal (st_active_legacy s),
      ascii ''last legacy connection: '' @
        (case st_last_legacy_at s of Some t \<Rightarrow> decimal t | None \<Rightarrow> ascii ''never''),
      ascii ''authentication: '' @ decimal (st_auth_successes s) @ ascii '' succeeded / '' @
        decimal (st_auth_failures s) @ ascii '' failed'',
      ascii ''server instance: '' @ st_instance_id s]"

definition print_service_row :: "service_info \<Rightarrow> bytes" where
  "print_service_row s =
     tabbed [decimal (as_namespace s), as_service_name s, ascii (as_transport s),
       show_bool (as_codec_enabled s), decimal (as_connection_count s)]"

definition print_connection_row :: "connection_info \<Rightarrow> bytes" where
  "print_connection_row c =
     tabbed [decimal (ac_namespace c), ac_service_name c, decimal (ac_conn_id c), show_bool (ac_healthy c),
       ascii (ac_transport c), show_bool (ac_codec_enabled c)]"

fun print_human_admin_response :: "admin_resp \<Rightarrow> bytes list" where
  "print_human_admin_response (KeyIssuedResp key) = print_issued_key key"
| "print_human_admin_response (KeyShownResp key) = print_issued_key key"
| "print_human_admin_response (KeyRenewedResp key) = print_issued_key key"
| "print_human_admin_response (KeyRevokedResp m) =
     [ascii ''key '' @ decimal (unat (km_key_id m)) @ ascii '': '' @ ascii (km_state m)]"
| "print_human_admin_response (KeyListResp p) =
     tabbed [ascii ''KEY ID'', ascii ''STATE'', ascii ''EXPIRES'', ascii ''LABEL''] #
     map print_key_row (kp_items p) @
     (case kp_next_page p of Some nxt \<Rightarrow> [ascii ''next page: '' @ decimal nxt] | None \<Rightarrow> [])"
| "print_human_admin_response (KeyGcResp n) = [ascii ''removed '' @ decimal n @ ascii '' inactive keys'']"
| "print_human_admin_response (AuthStatusResp s) = print_status s"
| "print_human_admin_response (ServicesResp p) =
     tabbed (map ascii [''KEY ID'', ''SERVICE'', ''TRANSPORT'', ''CODEC'', ''CONNECTIONS'']) #
     map print_service_row (pg_items p)"
| "print_human_admin_response (ConnectionsResp p) =
     tabbed (map ascii [''KEY ID'', ''SERVICE'', ''CONN ID'', ''HEALTHY'', ''TRANSPORT'', ''CODEC'']) #
     map print_connection_row (pg_items p)"
| "print_human_admin_response (OkResp action) = [ascii ''ok: '' @ ascii action]"

definition print_admin_response :: "output_format \<Rightarrow> admin_resp \<Rightarrow> printed list" where
  "print_admin_response fmt response =
     (case fmt of
        JsonOutput \<Rightarrow> [PrettyJson response]
      | Ndjson \<Rightarrow> [JsonLine response]
      | Human \<Rightarrow> map TextLine (print_human_admin_response response))"

section \<open>Inventories\<close>

text \<open>
  Keys, services and connections are listed by the same loop over their own pages: how a page is
  asked for, how it is found in a response, its rows and its successor, the page without rows, the
  page with more rows, and how one row is printed.
\<close>

record ('p, 'i) paging =
  ask_page :: "nat \<Rightarrow> admin_req"
  page_of :: "admin_resp \<Rightarrow> 'p option"
  rows_of :: "'p \<Rightarrow> 'i list"
  page_after :: "'p \<Rightarrow> nat option"
  cleared :: "'p \<Rightarrow> 'p"
  extended :: "'i list \<Rightarrow> 'p \<Rightarrow> 'p"
  as_response :: "'p \<Rightarrow> admin_resp"
  row_line :: "'i \<Rightarrow> printed"

definition print_combined :: "('p, 'i) paging \<Rightarrow> output_format \<Rightarrow> 'p option \<Rightarrow> printed list" where
  "print_combined pg fmt combined =
     (case combined of None \<Rightarrow> [] | Some p \<Rightarrow> print_admin_response fmt (as_response pg p))"

definition take_page ::
  "('p, 'i) paging \<Rightarrow> output_format \<Rightarrow> bool \<Rightarrow> admin_resp \<Rightarrow> 'p \<Rightarrow> 'p option \<Rightarrow> 'p option \<times> printed list" where
  "take_page pg fmt all response p combined =
     (if all then
        (if fmt = Ndjson then (combined, map (row_line pg) (rows_of pg p))
         else (Some (extended pg (rows_of pg p) (case combined of None \<Rightarrow> cleared pg p | Some c \<Rightarrow> c)), []))
      else (combined, print_admin_response fmt response))"

text \<open>
  The loop ends when the relay names no further page.  A relay that always names one keeps it going,
  so the model takes the number of pages it may ask for.
\<close>

fun stream_pages ::
  "nat \<Rightarrow> (admin_req \<Rightarrow> 's \<Rightarrow> 's \<times> (admin_error + admin_resp)) \<Rightarrow> ('p, 'i) paging \<Rightarrow> output_format \<Rightarrow> bool \<Rightarrow>
   nat \<Rightarrow> 'p option \<Rightarrow> 's \<Rightarrow> ('s \<times> printed list \<times> (admin_error + unit)) option" where
  "stream_pages 0 ask pg fmt all n combined st = None"
| "stream_pages (Suc fuel) ask pg fmt all n combined st =
     (case ask (ask_page pg n) st of
        (st, Inl e) \<Rightarrow> Some (st, [], Inl e)
      | (st, Inr response) \<Rightarrow>
          (case page_of pg response of
             None \<Rightarrow> Some (st, [], Inl AdminUnexpected)
           | Some p \<Rightarrow>
               (case take_page pg fmt all response p combined of
                  (combined, out) \<Rightarrow>
                    (case page_after pg p of
                       None \<Rightarrow> Some (st, out @ print_combined pg fmt combined, Inr ())
                     | Some nxt \<Rightarrow>
                         if \<not> all then Some (st, out @ print_combined pg fmt combined, Inr ())
                         else case stream_pages fuel ask pg fmt all nxt combined st of
                                None \<Rightarrow> None
                              | Some (st, rest, r) \<Rightarrow> Some (st, out @ rest, r)))))"

definition key_paging :: "nat \<Rightarrow> (key_page, key_metadata) paging" where
  "key_paging page_size =
     \<lparr>ask_page = (\<lambda>n. KeyList n page_size),
      page_of = (\<lambda>r. case r of KeyListResp p \<Rightarrow> Some p | _ \<Rightarrow> None),
      rows_of = kp_items, page_after = kp_next_page,
      cleared = (\<lambda>p. p\<lparr>kp_items := [], kp_next_page := None\<rparr>),
      extended = (\<lambda>rows p. p\<lparr>kp_items := kp_items p @ rows\<rparr>),
      as_response = KeyListResp, row_line = KeyLine\<rparr>"

definition service_paging :: "nat option \<Rightarrow> nat \<Rightarrow> (service_info page, service_info) paging" where
  "service_paging key_id page_size =
     \<lparr>ask_page = (\<lambda>n. ServiceList key_id n page_size),
      page_of = (\<lambda>r. case r of ServicesResp p \<Rightarrow> Some p | _ \<Rightarrow> None),
      rows_of = pg_items, page_after = pg_next,
      cleared = (\<lambda>p. p\<lparr>pg_items := [], pg_next := None\<rparr>),
      extended = (\<lambda>rows p. p\<lparr>pg_items := pg_items p @ rows\<rparr>),
      as_response = ServicesResp, row_line = ServiceLine\<rparr>"

definition connection_paging :: "nat option \<Rightarrow> nat \<Rightarrow> (connection_info page, connection_info) paging" where
  "connection_paging key_id page_size =
     \<lparr>ask_page = (\<lambda>n. ConnectionList key_id n page_size),
      page_of = (\<lambda>r. case r of ConnectionsResp p \<Rightarrow> Some p | _ \<Rightarrow> None),
      rows_of = pg_items, page_after = pg_next,
      cleared = (\<lambda>p. p\<lparr>pg_items := [], pg_next := None\<rparr>),
      extended = (\<lambda>rows p. p\<lparr>pg_items := pg_items p @ rows\<rparr>),
      as_response = ConnectionsResp, row_line = ConnectionLine\<rparr>"

definition stream_key_pages ::
  "nat \<Rightarrow> (admin_req \<Rightarrow> 's \<Rightarrow> 's \<times> (admin_error + admin_resp)) \<Rightarrow> output_format \<Rightarrow> nat \<Rightarrow> nat \<Rightarrow> bool \<Rightarrow> 's \<Rightarrow>
   ('s \<times> printed list \<times> (admin_error + unit)) option" where
  "stream_key_pages fuel ask fmt n page_size all st =
     stream_pages fuel ask (key_paging page_size) fmt all n None st"

definition stream_service_pages ::
  "nat \<Rightarrow> (admin_req \<Rightarrow> 's \<Rightarrow> 's \<times> (admin_error + admin_resp)) \<Rightarrow> output_format \<Rightarrow> nat option \<Rightarrow> nat \<Rightarrow> nat \<Rightarrow>
   bool \<Rightarrow> 's \<Rightarrow> ('s \<times> printed list \<times> (admin_error + unit)) option" where
  "stream_service_pages fuel ask fmt key_id n page_size all st =
     stream_pages fuel ask (service_paging key_id page_size) fmt all n None st"

definition stream_connection_pages ::
  "nat \<Rightarrow> (admin_req \<Rightarrow> 's \<Rightarrow> 's \<times> (admin_error + admin_resp)) \<Rightarrow> output_format \<Rightarrow> nat option \<Rightarrow> nat \<Rightarrow> nat \<Rightarrow>
   bool \<Rightarrow> 's \<Rightarrow> ('s \<times> printed list \<times> (admin_error + unit)) option" where
  "stream_connection_pages fuel ask fmt key_id n page_size all st =
     stream_pages fuel ask (connection_paging key_id page_size) fmt all n None st"

section \<open>Rotating the root key\<close>

text \<open>
  \<open>files\<close> holds the directory of the key file; the candidate is staged beside it.  A key file that
  is not named is \<^verbatim>\<open>admin.key\<close> in the user's configuration directory.
\<close>

definition default_admin_recovery_key_file :: string where
  "default_admin_recovery_key_file = ''admin.key''"

definition staged_key_file :: "string \<Rightarrow> string" where
  "staged_key_file name = CHR ''.'' # name @ ''.next''"

definition rotation_lines :: "string \<Rightarrow> printed list" where
  "rotation_lines name =
     [TextLine (ascii ''administrator key rotated and verified''),
      TextLine (ascii ''all temporary credentials are now invalid (temporary_key_rotated)''),
      TextLine (ascii ''key file: '' @ ascii name)]"

text \<open>What follows the staging: the relay is asked, the new key is tried, the key file written.\<close>

definition rotate_with ::
  "'c env_scheme \<Rightarrow> client_codecs \<Rightarrow> output_format \<Rightarrow> bytes \<Rightarrow> string \<Rightarrow> cli \<Rightarrow>
   cli \<times> printed list \<times> (admin_error + unit)" where
  "rotate_with C enc fmt new_key key_file st =
     (case send_admin_request C enc (RootKeyRotate new_key) st of
        (st, Inl e) \<Rightarrow> (st, [], Inl (RotationFailed e))
      | (st, Inr response) \<Rightarrow>
          (case set_process_msg_header_key C (Some new_key) (proc st) of
             (p, Inl e) \<Rightarrow> (st\<lparr>proc := p\<rparr>, [], Inl (NewKeyRejected e))
           | (p, Inr _) \<Rightarrow>
               (case send_admin_request C enc AuthStatusReq (st\<lparr>proc := p\<rparr>) of
                  (st, Inl e) \<Rightarrow> (st, [], Inl e)
                | (st, Inr (AuthStatusResp _)) \<Rightarrow>
                    (case write_admin_key_file C key_file new_key True st of
                       (st, Inl e) \<Rightarrow> (st, [], Inl (KeyFileNotUpdated e))
                     | (st, Inr _) \<Rightarrow>
                         (remove_file (staged_key_file key_file) st,
                          if fmt = Human then rotation_lines key_file else print_admin_response fmt response,
                          Inr ()))
                | (st, Inr _) \<Rightarrow> (st, [], Inl NotVerified))))"

definition rotate_root_key ::
  "'c env_scheme \<Rightarrow> client_codecs \<Rightarrow> output_format \<Rightarrow> bytes option \<Rightarrow> string option \<Rightarrow> cli \<Rightarrow>
   cli \<times> printed list \<times> (admin_error + unit)" where
  "rotate_root_key C enc fmt new_key key_file st =
     (let key_file = (case key_file of Some name \<Rightarrow> name | None \<Rightarrow> default_admin_recovery_key_file);
          (st, new_key) = (case new_key of Some k \<Rightarrow> (st, k) | None \<Rightarrow> generate_admin_key st)
      in case write_admin_key_file C (staged_key_file key_file) new_key True st of
           (st, Inl e) \<Rightarrow> (st, [], Inl (StagedKeyNotWritten e))
         | (st, Inr _) \<Rightarrow> rotate_with C enc fmt new_key key_file st)"

section \<open>The program\<close>

definition print_answer ::
  "'c crypto_scheme \<Rightarrow> client_codecs \<Rightarrow> output_format \<Rightarrow> admin_req \<Rightarrow> cli \<Rightarrow>
   (cli \<times> printed list \<times> (admin_error + unit)) option" where
  "print_answer C enc fmt req st =
     (case send_admin_request C enc req st of
        (st, Inl e) \<Rightarrow> Some (st, [], Inl e)
      | (st, Inr response) \<Rightarrow> Some (st, print_admin_response fmt response, Inr ()))"

fun run_admin_command ::
  "'c env_scheme \<Rightarrow> client_codecs \<Rightarrow> nat \<Rightarrow> output_format \<Rightarrow> admin_command \<Rightarrow> cli \<Rightarrow>
   (cli \<times> printed list \<times> (admin_error + unit)) option" where
  "run_admin_command C enc fuel fmt (KeyCommand (IssueKey ttl label)) st =
     print_answer C enc fmt (KeyIssue (as_secs ttl) label) st"
| "run_admin_command C enc fuel fmt (KeyCommand (ListTheKeys n page_size all)) st =
     stream_key_pages fuel (send_admin_request C enc) fmt n page_size all st"
| "run_admin_command C enc fuel fmt (KeyCommand (ShowTheKey k)) st = print_answer C enc fmt (KeyShow k) st"
| "run_admin_command C enc fuel fmt (KeyCommand (RevealTheKey k)) st = print_answer C enc fmt (KeyReveal k) st"
| "run_admin_command C enc fuel fmt (KeyCommand (RenewTheKey k ttl)) st =
     print_answer C enc fmt (KeyRenew k (as_secs ttl)) st"
| "run_admin_command C enc fuel fmt (KeyCommand (RevokeTheKey k)) st = print_answer C enc fmt (KeyRevoke k) st"
| "run_admin_command C enc fuel fmt (KeyCommand CollectKeys) st = print_answer C enc fmt KeyGc st"
| "run_admin_command C enc fuel fmt (ConnectionCommand (ListPages key_id n page_size all)) st =
     stream_connection_pages fuel (send_admin_request C enc) fmt key_id n page_size all st"
| "run_admin_command C enc fuel fmt (ServiceCommand (ListPages key_id n page_size all)) st =
     stream_service_pages fuel (send_admin_request C enc) fmt key_id n page_size all st"
| "run_admin_command C enc fuel fmt StatusCommand st = print_answer C enc fmt AuthStatusReq st"
| "run_admin_command C enc fuel fmt (ResetCommand confirm) st = print_answer C enc fmt (AuthStateReset confirm) st"
| "run_admin_command C enc fuel fmt (RotateCommand new_key key_file) st =
     Some (rotate_root_key C enc fmt new_key key_file st)"
| "run_admin_command C enc fuel fmt (LegacyCommand policy) st =
     print_answer C enc fmt (LegacyProtocolSet policy) st"

definition run_admin ::
  "'c env_scheme \<Rightarrow> client_codecs \<Rightarrow> nat \<Rightarrow> bool \<Rightarrow> output_format \<Rightarrow> admin_command \<Rightarrow> cli \<Rightarrow>
   (cli \<times> printed list \<times> (admin_error + unit)) option" where
  "run_admin C enc fuel resolved fmt command st =
     (if \<not> resolved then Some (st, [], Inl NoRelayAddress) else run_admin_command C enc fuel fmt command st)"

end
