(* ===== verification/Machine.thy ===== *)
theory Machine
  imports AuthStore
begin

text \<open>
  The key a relay derives from its machine (\<^verbatim>\<open>pb-mapper-core/src/checksum.rs\<close>): which of
  the machine's answers names the host, which lists the addresses, and the derived key put in force
  and saved.  What the machine answers is a record; the output of a command is its lines.
\<close>

record machine_facts =
  mf_env_hostname :: "bytes option"
  mf_etc_hostname :: "bytes option"
  mf_hostname_command :: "bytes option"
  mf_sysfs :: "(bytes option \<times> bytes option) list option"
  mf_ip_link :: "bytes list option"
  mf_ifconfig :: "bytes list option"

section \<open>The name of the host\<close>

definition get_machine_hostname :: "machine_facts \<Rightarrow> bytes option" where
  "get_machine_hostname m =
     (case normalize_non_empty (mf_env_hostname m) of
        Some hostname \<Rightarrow> Some hostname
      | None \<Rightarrow>
          (case normalize_non_empty (mf_etc_hostname m) of
             Some hostname \<Rightarrow> Some hostname
           | None \<Rightarrow> normalize_non_empty (mf_hostname_command m)))"

section \<open>The addresses\<close>

definition trim_start :: "bytes \<Rightarrow> bytes" where
  "trim_start bs = strip_while white_space bs"

definition starts_space :: "bytes \<Rightarrow> bool" where
  "starts_space bs \<longleftrightarrow> list_ex (\<lambda>w. strip_prefix w bs \<noteq> None) white_space"

fun take_word :: "bytes \<Rightarrow> bytes" where
  "take_word [] = []"
| "take_word (b # bs) = (if starts_space (b # bs) then [] else b # take_word bs)"

text \<open>\<^verbatim>\<open>split_whitespace().nth(1)\<close>.\<close>

definition second_word :: "bytes \<Rightarrow> bytes option" where
  "second_word line =
     (let line = trim_start line;
          w = take_word (trim_start (drop (length (take_word line)) line))
      in if w = [] then None else Some w)"

text \<open>An entry of the directory has a name, when it is text, and an address file that can be read.\<close>

definition sysfs_entry :: "bytes option \<times> bytes option \<Rightarrow> bytes option" where
  "sysfs_entry = (\<lambda>(name, address).
     case name of
       None \<Rightarrow> None
     | Some interface \<Rightarrow>
         if interface = ascii ''lo'' then None
         else case address of
           None \<Rightarrow> None
         | Some raw \<Rightarrow> map_option (\<lambda>mac. interface @ ascii '':'' @ mac) (normalize_mac_address raw))"

definition get_machine_mac_addresses_from_sysfs :: "machine_facts \<Rightarrow> bytes list option" where
  "get_machine_mac_addresses_from_sysfs m =
     map_option (\<lambda>entries. normalize_and_validate_mac_entries (List.map_filter sysfs_entry entries)) (mf_sysfs m)"

definition mac_line ::
  "bytes \<Rightarrow> bytes option \<times> bytes list \<Rightarrow> bytes \<Rightarrow> bytes option \<times> bytes list" where
  "mac_line tag s line =
     (let line = trim_start line in
      if strip_prefix tag line = None then s
      else case fst s of
        None \<Rightarrow> s
      | Some interface \<Rightarrow>
          (case Option.bind (second_word line) normalize_mac_address of
             None \<Rightarrow> s
           | Some mac \<Rightarrow> (Some interface, snd s @ [interface @ ascii '':'' @ mac])))"

definition ip_link_line :: "bytes option \<times> bytes list \<Rightarrow> bytes \<Rightarrow> bytes option \<times> bytes list" where
  "ip_link_line s line =
     (if strip_prefix (ascii '' '') line = None then (parse_interface_name_from_ip_link line, snd s)
      else mac_line (ascii ''link/ether '') s line)"

definition get_machine_mac_addresses_from_ip_link :: "machine_facts \<Rightarrow> bytes list option" where
  "get_machine_mac_addresses_from_ip_link m =
     map_option (\<lambda>ls. normalize_and_validate_mac_entries (snd (foldl ip_link_line (None, []) ls))) (mf_ip_link m)"

definition ifconfig_line :: "bytes option \<times> bytes list \<Rightarrow> bytes \<Rightarrow> bytes option \<times> bytes list" where
  "ifconfig_line s line =
     (if strip_prefix [9] line = None \<and> strip_prefix (ascii '' '') line = None
      then (parse_interface_name_from_ifconfig line, snd s)
      else mac_line (ascii ''ether '') s line)"

definition get_machine_mac_addresses_from_ifconfig :: "machine_facts \<Rightarrow> bytes list option" where
  "get_machine_mac_addresses_from_ifconfig m =
     map_option (\<lambda>ls. normalize_and_validate_mac_entries (snd (foldl ifconfig_line (None, []) ls))) (mf_ifconfig m)"

text \<open>The first source that names an address.\<close>

definition get_machine_mac_addresses :: "machine_facts \<Rightarrow> bytes list option" where
  "get_machine_mac_addresses m =
     find_map (\<lambda>r. case r of Some macs \<Rightarrow> if macs \<noteq> [] then Some macs else None | None \<Rightarrow> None)
       [get_machine_mac_addresses_from_sysfs m, get_machine_mac_addresses_from_ip_link m,
        get_machine_mac_addresses_from_ifconfig m]"

section \<open>The derived key\<close>

datatype machine_error = NoHostname | NoAddress | DerivedKeyRejected cred_error | KeyNotSaved

text \<open>The directory, the file's creation, its content and its mode.\<close>

definition write_machine_msg_header_key :: "bytes \<Rightarrow> 'a os_scheme \<Rightarrow> 'a os_scheme \<times> (machine_error + unit)" where
  "write_machine_msg_header_key key st =
     (let line = key @ ascii [CHR 0x0A] in
      case sys st of
        (st, IoErr _) \<Rightarrow> (st, Inl KeyNotSaved)
      | (st, IoOk) \<Rightarrow>
      case sys st of
        (st, IoErr _) \<Rightarrow> (st, Inl KeyNotSaved)
      | (st, IoOk) \<Rightarrow>
      case sys st of
        (st, IoErr n) \<Rightarrow> (st\<lparr>machine_key := Some (take n line)\<rparr>, Inl KeyNotSaved)
      | (st, IoOk) \<Rightarrow>
      case sys (st\<lparr>machine_key := Some line\<rparr>) of
        (st, IoErr _) \<Rightarrow> (st, Inl KeyNotSaved)
      | (st, IoOk) \<Rightarrow> (st, Inr ()))"

definition setup_machine_msg_header_key ::
  "'c crypto_scheme \<Rightarrow> machine_facts \<Rightarrow> 'a os_scheme \<Rightarrow> 'a os_scheme \<times> (machine_error + bytes)" where
  "setup_machine_msg_header_key C m st =
     (case get_machine_hostname m of
        None \<Rightarrow> (st, Inl NoHostname)
      | Some hostname \<Rightarrow>
          (case get_machine_mac_addresses m of
             None \<Rightarrow> (st, Inl NoAddress)
           | Some macs \<Rightarrow>
               (let key = derive_msg_header_key C hostname macs in
                case set_process_msg_header_key C (Some key) (proc st) of
                  (p, Inl e) \<Rightarrow> (st\<lparr>proc := p\<rparr>, Inl (DerivedKeyRejected e))
                | (p, Inr _) \<Rightarrow>
                    (case write_machine_msg_header_key key (st\<lparr>proc := p\<rparr>) of
                       (st, Inl e) \<Rightarrow> (st, Inl e)
                     | (st, Inr _) \<Rightarrow> (st, Inr key)))))"

section \<open>Facts\<close>

text \<open>
  The derived key depends on the addresses found, not on the order the source lists them in: every
  source sorts its entries and drops repeated ones.
\<close>

lemma sysfs_order_free:
  assumes "mset es = mset es'"
  shows "get_machine_mac_addresses_from_sysfs (m\<lparr>mf_sysfs := Some es\<rparr>) =
    get_machine_mac_addresses_from_sysfs (m\<lparr>mf_sysfs := Some es'\<rparr>)"
proof -
  have "mset (List.map_filter sysfs_entry es) = mset (List.map_filter sysfs_entry es')"
    using assms by (simp add: map_filter_def mset_filter)
  then have "sort (List.map_filter sysfs_entry es) = sort (List.map_filter sysfs_entry es')"
    by (intro properties_for_sort) simp_all
  then show ?thesis
    by (simp add: get_machine_mac_addresses_from_sysfs_def normalize_and_validate_mac_entries_def
        sort_dedup_def)
qed

end
