(* ===== verification/Cli.thy ===== *)
theory Cli
  imports AdminCli Machine Publisher
begin

text \<open>
  The unified command line (\<^verbatim>\<open>pb-mapper-cli/src/bin/pb-mapper.rs\<close>): durations, the
  authentication flags of the relay and the environment they become, the key a relay starts with,
  and what the publishing and subscribing commands need before they start.
\<close>

section \<open>Durations\<close>

definition duration_unit :: "bytes \<Rightarrow> nat option" where
  "duration_unit u =
     (if u = [] \<or> u = ascii ''s'' then Some 1
      else if u = ascii ''m'' then Some 60
      else if u = ascii ''h'' then Some (60 * 60)
      else if u = ascii ''d'' then Some (24 * 60 * 60)
      else None)"

definition cli_parse_duration :: "bytes \<Rightarrow> duration option" where
  "cli_parse_duration raw =
     (let raw = trim raw;
          number = takeWhile is_ascii_digit raw;
          u = dropWhile is_ascii_digit raw
      in if raw = [] then None
         else case parse_unsigned u64_max number of
           None \<Rightarrow> None
         | Some v \<Rightarrow>
             (case duration_unit u of
                None \<Rightarrow> None
              | Some m \<Rightarrow> map_option from_secs (checked_mul_u64 v m)))"

section \<open>The flags of the relay\<close>

record server_args =
  sa_auth_state_dir :: "bytes option"
  sa_max_temporary_keys :: "nat option"
  sa_max_temporary_key_ttl :: "duration option"
  sa_legacy_protocol :: "legacy_policy option"
  sa_init_admin_key :: bool
  sa_force_init_admin_key :: bool
  sa_use_machine_msg_header_key :: bool

definition set_var :: "string \<Rightarrow> bytes \<Rightarrow> environment \<Rightarrow> environment" where
  "set_var name v env = env(name := Some (Some v))"

datatype flag_error = TooManyTemporaryKeys | TemporaryKeyTtlOutOfRange

text \<open>A flag that is refused leaves what the flags before it have set.\<close>

definition apply_server_auth_overrides :: "server_args \<Rightarrow> environment \<Rightarrow> environment \<times> (flag_error + unit)" where
  "apply_server_auth_overrides args env =
     (let env = (case sa_auth_state_dir args of
                   Some dir \<Rightarrow> set_var ''PB_MAPPER_AUTH_STATE_DIR'' dir env | None \<Rightarrow> env) in
      and_then
        (case sa_max_temporary_keys args of
           None \<Rightarrow> (env, Inr ())
         | Some n \<Rightarrow>
             if 1 \<le> n \<and> n \<le> MAX_TEMP_KEY_CAPACITY
             then (set_var ''PB_MAPPER_AUTH_MAX_TEMP_KEYS'' (decimal n) env, Inr ())
             else (env, Inl TooManyTemporaryKeys)) (\<lambda>env _.
      case sa_max_temporary_key_ttl args of
        None \<Rightarrow> (env, Inr ())
      | Some ttl \<Rightarrow>
          if ttl < from_secs MIN_TEMP_KEY_TTL \<or> from_secs MAX_TEMP_KEY_TTL < ttl
          then (env, Inl TemporaryKeyTtlOutOfRange)
          else (set_var ''PB_MAPPER_AUTH_MAX_TEMP_TTL_SECS'' (decimal (as_secs ttl)) env, Inr ())))"

definition server_environment :: "server_args \<Rightarrow> environment \<Rightarrow> environment \<times> (flag_error + unit)" where
  "server_environment args env =
     and_then (apply_server_auth_overrides args env) (\<lambda>env _.
       (case sa_legacy_protocol args of
          None \<Rightarrow> env
        | Some policy \<Rightarrow>
            set_var ''PB_MAPPER_LEGACY_PROTOCOL''
              (case policy of Allow \<Rightarrow> ascii ''allow'' | Deny \<Rightarrow> ascii ''deny'') env, Inr ()))"

section \<open>The key a relay starts with\<close>

datatype start_error =
    BadFlag flag_error
  | StateDirectory auth_failure
  | CannotReplaceKey
  | MachineKey machine_error
  | KeyRejected cred_error

text \<open>The directory is created and locked only while a new key is written.\<close>

definition init_admin_key :: "'c env_scheme \<Rightarrow> bool \<Rightarrow> 'a os_scheme \<Rightarrow> 'a os_scheme \<times> (start_error + unit)" where
  "init_admin_key C force st =
     (case and_then (io_call state_err st) (\<lambda>st _.
           and_then (acquire_state_dir_lock st) (\<lambda>st _. initialize_admin_key ADMIN_KEY_FILE force st)) of
        (st, Inl e) \<Rightarrow> (st, Inl (StateDirectory e))
      | (st, Inr key) \<Rightarrow>
          (case set_process_msg_header_key C (Some key) (proc st) of
             (p, Inl e) \<Rightarrow> (st\<lparr>proc := p\<rparr>, Inl (KeyRejected e))
           | (p, Inr _) \<Rightarrow> (st\<lparr>proc := p\<rparr>, Inr ())))"

definition prepare_server_key ::
  "'c env_scheme \<Rightarrow> machine_facts \<Rightarrow> server_args \<Rightarrow> 'a os_scheme \<Rightarrow> 'a os_scheme \<times> (start_error + unit)" where
  "prepare_server_key C m args st =
     (if sa_init_admin_key args then init_admin_key C (sa_force_init_admin_key args) st
      else if sa_use_machine_msg_header_key args then
        (if file_exists st ADMIN_KEY_FILE then (st, Inl CannotReplaceKey)
         else case setup_machine_msg_header_key C m st of
           (st, Inl e) \<Rightarrow> (st, Inl (MachineKey e))
         | (st, Inr _) \<Rightarrow> (st, Inr ()))
      else (st, Inr ()))"

text \<open>What the relay is started with: its configuration, once its key is in place.\<close>

definition run_server ::
  "'c env_scheme \<Rightarrow> machine_facts \<Rightarrow> server_args \<Rightarrow> environment \<Rightarrow> 'a os_scheme \<Rightarrow>
   'a os_scheme \<times> (start_error + auth_config)" where
  "run_server C m args env st =
     (case server_environment args env of
        (_, Inl e) \<Rightarrow> (st, Inl (BadFlag e))
      | (env, Inr _) \<Rightarrow> and_then (prepare_server_key C m args st) (\<lambda>st _. (st, Inr (default_auth_config env))))"

section \<open>Publishing and subscribing\<close>

datatype transport_kind = OverTcp | OverUdp

record register_args =
  ra_transport :: transport_kind
  ra_codec :: bool
  ra_keep_alive :: bool
  ra_namespace :: "nat option"
  ra_force :: bool

datatype command_error = CredentialNeeded cred_error | BadLocalAddress | BadRelayAddress

text \<open>
  \<open>local_addr\<close> and \<open>remote_addr\<close> say what the two addresses resolved to; the credential comes
  first, and is the one the tunnel keeps.
\<close>

definition run_register ::
  "environment \<Rightarrow> register_args \<Rightarrow> proc_cred \<Rightarrow> 'd option \<Rightarrow> 'd option \<Rightarrow>
   command_error + (transport_kind \<times> 'd \<times> 'd \<times> tunnel_options \<times> credential)" where
  "run_register env args p local_addr remote_addr =
     (case get_process_credential p of
        Inl e \<Rightarrow> Inl (CredentialNeeded e)
      | Inr cred \<Rightarrow>
          (case local_addr of
             None \<Rightarrow> Inl BadLocalAddress
           | Some a \<Rightarrow>
               (case remote_addr of
                  None \<Rightarrow> Inl BadRelayAddress
                | Some r \<Rightarrow>
                    Inr (ra_transport args, a, r,
                      \<lparr>need_codec = ra_codec args, is_datagram = (ra_transport args = OverUdp),
                       keep_alive = ra_keep_alive args \<or> keep_alive_from_env env,
                       to_namespace = ra_namespace args, force_namespace = ra_force args\<rparr>, cred))))"

definition run_connect ::
  "environment \<Rightarrow> transport_kind \<Rightarrow> bool \<Rightarrow> nat option \<Rightarrow> proc_cred \<Rightarrow> 'd option \<Rightarrow> 'd option \<Rightarrow>
   command_error + (transport_kind \<times> 'd \<times> 'd \<times> bool \<times> nat option \<times> credential)" where
  "run_connect env t alive namespace p local_addr remote_addr =
     (case get_process_credential p of
        Inl e \<Rightarrow> Inl (CredentialNeeded e)
      | Inr cred \<Rightarrow>
          (case local_addr of
             None \<Rightarrow> Inl BadLocalAddress
           | Some a \<Rightarrow>
               (case remote_addr of
                  None \<Rightarrow> Inl BadRelayAddress
                | Some r \<Rightarrow> Inr (t, a, r, alive \<or> keep_alive_from_env env, namespace, cred))))"

end
