(* ===== verification/CliProps.thy ===== *)
theory CliProps
  imports Cli ConfigProps RelayProps AuthFacts
begin

text \<open>
  What the command line guarantees: flags reach the relay's configuration unchanged, a listing with
  \<^verbatim>\<open>--all\<close> prints the relay's whole inventory, and a rotation never leaves the new root key
  without a file that holds it.
\<close>

section \<open>Flags\<close>

lemma parse_decimal_bounded [simp]: "n \<le> u64_max \<Longrightarrow> parse_unsigned u64_max (decimal n) = Some n"
  using parse_decimal [of n] by (simp add: parse_u64_def)

lemma parse_policy [simp]:
  "parse_legacy_protocol_policy (ascii ''allow'') = Some Allow"
  "parse_legacy_protocol_policy (ascii ''deny'') = Some Deny"
  by code_simp+

lemma set_var_apply [simp]: "set_var n v env n' = (if n' = n then Some (Some v) else env n')"
  by (simp add: set_var_def)

definition set_opt :: "string \<Rightarrow> bytes option \<Rightarrow> environment \<Rightarrow> environment" where
  "set_opt n v env = (case v of None \<Rightarrow> env | Some x \<Rightarrow> set_var n x env)"

lemma set_opt_simps [simp]: "set_opt n None env = env" "set_opt n (Some x) env = set_var n x env"
  "n' \<noteq> n \<Longrightarrow> set_opt n v env n' = env n'"
  by (simp_all add: set_opt_def split: option.split)

lemma server_environment_Inr:
  assumes "server_environment args env = (env', Inr ())"
  shows "env' =
    set_opt ''PB_MAPPER_LEGACY_PROTOCOL''
      (map_option (\<lambda>p. case p of Allow \<Rightarrow> ascii ''allow'' | Deny \<Rightarrow> ascii ''deny'') (sa_legacy_protocol args))
    (set_opt ''PB_MAPPER_AUTH_MAX_TEMP_TTL_SECS'' (map_option (decimal \<circ> as_secs) (sa_max_temporary_key_ttl args))
    (set_opt ''PB_MAPPER_AUTH_MAX_TEMP_KEYS'' (map_option decimal (sa_max_temporary_keys args))
    (set_opt ''PB_MAPPER_AUTH_STATE_DIR'' (sa_auth_state_dir args) env)))"
  using assms unfolding server_environment_def apply_server_auth_overrides_def set_opt_def and_then_def Let_def
  by (cases "sa_legacy_protocol args"; cases "sa_max_temporary_key_ttl args"; cases "sa_max_temporary_keys args";
      cases "sa_auth_state_dir args") (simp_all split: if_splits)

lemma flags_in_range:
  assumes "server_environment args env = (env', Inr ())"
  shows "sa_max_temporary_keys args = Some n \<Longrightarrow> Suc 0 \<le> n \<and> n \<le> MAX_TEMP_KEY_CAPACITY \<and> n \<le> u64_max"
    "sa_max_temporary_key_ttl args = Some ttl \<Longrightarrow>
       MIN_TEMP_KEY_TTL \<le> as_secs ttl \<and> as_secs ttl \<le> MAX_TEMP_KEY_TTL \<and> as_secs ttl \<le> u64_max"
  using assms unfolding server_environment_def apply_server_auth_overrides_def and_then_def Let_def
  by (auto simp: MAX_TEMP_KEY_CAPACITY_def u64_max_def from_secs_def as_secs_def MIN_TEMP_KEY_TTL_def
      MAX_TEMP_KEY_TTL_def split: option.splits if_splits)

text \<open>
Whenever the relay's flags are accepted, the configuration read back from the environment
  they were put into is exactly what the flags say, in whole seconds for the lifetime, and what the
  environment said before for every flag that was not given.
\<close>

theorem flags_reach_the_configuration:
  assumes "server_environment args env = (env', Inr ())"
  shows "default_auth_config env' =
    \<lparr>max_temporary_keys =
       (case sa_max_temporary_keys args of Some n \<Rightarrow> n | None \<Rightarrow> max_temporary_keys (default_auth_config env)),
     max_temporary_key_ttl =
       (case sa_max_temporary_key_ttl args of Some ttl \<Rightarrow> from_secs (as_secs ttl)
        | None \<Rightarrow> max_temporary_key_ttl (default_auth_config env)),
     cfg_legacy_protocol =
       (case sa_legacy_protocol args of Some p \<Rightarrow> p | None \<Rightarrow> cfg_legacy_protocol (default_auth_config env))\<rparr>"
  unfolding server_environment_Inr [OF assms] default_auth_config_def
  by (cases "sa_max_temporary_keys args"; cases "sa_max_temporary_key_ttl args"; cases "sa_legacy_protocol args")
    (simp_all add: flags_in_range [OF assms] env_bounded_def legacy_protocol_from_env_def split: legacy_policy.split)

theorem flags_reach_the_configuration_witness:
  "\<exists>env'. default_auth_config env' =
    \<lparr>max_temporary_keys = 1024, max_temporary_key_ttl = from_secs 7200, cfg_legacy_protocol = Deny\<rparr>"
proof -
  let ?args = "\<lparr>sa_auth_state_dir = None, sa_max_temporary_keys = Some 1024,
    sa_max_temporary_key_ttl = Some (from_secs 7200), sa_legacy_protocol = Some Deny, sa_init_admin_key = False,
    sa_force_init_admin_key = False, sa_use_machine_msg_header_key = False\<rparr>"
  have s: "as_secs (from_secs 7200) = 7200"
    by (simp add: as_secs_def from_secs_def)
  obtain env' where "server_environment ?args (\<lambda>_. None) = (env', Inr ())"
    by (simp add: server_environment_def apply_server_auth_overrides_def MAX_TEMP_KEY_CAPACITY_def
        MIN_TEMP_KEY_TTL_def MAX_TEMP_KEY_TTL_def from_secs_def)
  from flags_reach_the_configuration [OF this] show ?thesis
    using s by auto
qed

section \<open>Listings\<close>

lemma page_updates [simp]:
  "(p :: 'i page)\<lparr>pg_items := rows\<rparr> = \<lparr>pg_items = rows, pg_next = pg_next p\<rparr>"
  "p\<lparr>pg_next := nxt\<rparr> = \<lparr>pg_items = pg_items p, pg_next = nxt\<rparr>"
  by (cases p; simp)+

text \<open>
  What the printing loop needs of a kind of page: the answer that carries a page is recognised as
  that page, and rows may be appended in any number of steps.
\<close>

locale paged =
  fixes pg :: "('p, 'i) paging"
  assumes found: "page_of pg (as_response pg p) = Some p"
    and extend_none: "extended pg [] p = p"
    and extend_twice: "extended pg later_rows (extended pg rows p) = extended pg (rows @ later_rows) p"
begin

text \<open>What is printed for the rows found so far and the rest of the walk.\<close>

definition listing :: "output_format \<Rightarrow> 'p option \<Rightarrow> 'p \<Rightarrow> 'i list \<Rightarrow> printed list" where
  "listing fmt combined no_rows rows =
     (if fmt = Ndjson then map (row_line pg) rows
      else print_admin_response fmt
        (as_response pg (extended pg rows (case combined of None \<Rightarrow> no_rows | Some c \<Rightarrow> c))))"

lemma listing_ndjson [simp]: "listing Ndjson combined no_rows rows = map (row_line pg) rows"
  by (simp add: listing_def)

lemma listing_step:
  "fmt \<noteq> Ndjson \<Longrightarrow>
   listing fmt (Some (extended pg rows (case combined of None \<Rightarrow> no_rows | Some c \<Rightarrow> c))) no_rows later_rows =
   listing fmt combined no_rows (rows @ later_rows)"
  by (simp add: listing_def extend_twice)

end

text \<open>A relay that answers from a list that stays as it is, one page of it to every request.\<close>

locale inventory = paged pg for pg :: "('p, 'i) paging" +
  fixes serve :: "nat \<Rightarrow> 'p" and no_rows :: 'p and z :: nat and items :: "'i list"
  assumes rows: "rows_of pg (serve n) = pg_items (paginate n z items)"
    and after: "page_after pg (serve n) = pg_next (paginate n z items)"
    and cleared: "cleared pg (serve n) = no_rows"
begin

lemma stream_walk:
  assumes relay: "\<And>n st. snd (ask (ask_page pg n) st) = Inr (as_response pg (serve n))"
    and "walk_pages fuel n z items = Some rest" and "fmt = Ndjson \<Longrightarrow> combined = None"
  shows "\<exists>st'. stream_pages fuel ask pg fmt True n combined st = Some (st', listing fmt combined no_rows rest, Inr ())"
  using assms(2,3)
proof (induction fuel arbitrary: n combined rest st)
  case (Suc fuel)
  let ?rows = "pg_items (paginate n z items)"
  obtain st1 where ask: "ask (ask_page pg n) st = (st1, Inr (as_response pg (serve n)))"
    using relay [of n st] by (cases "ask (ask_page pg n) st") simp
  define next_combined where "next_combined =
    (if fmt = Ndjson then combined else Some (extended pg ?rows (case combined of None \<Rightarrow> no_rows | Some c \<Rightarrow> c)))"
  have taken: "take_page pg fmt True (as_response pg (serve n)) (serve n) combined =
      (next_combined, if fmt = Ndjson then map (row_line pg) ?rows else [])"
    by (simp add: take_page_def next_combined_def rows cleared split: option.split)
  have nd: "fmt = Ndjson \<Longrightarrow> next_combined = None"
    using Suc.prems(2) by (simp add: next_combined_def)
  show ?case
  proof (cases "pg_next (paginate n z items)")
    case None
    then show ?thesis
      using Suc.prems ask taken
      by (simp add: found after next_combined_def print_combined_def listing_def)
  next
    case (Some nxt)
    then obtain more_rows where walk: "walk_pages fuel nxt z items = Some more_rows" "rest = ?rows @ more_rows"
      using Suc.prems(1) by (auto simp: Let_def split: option.splits)
    obtain st2 where "stream_pages fuel ask pg fmt True nxt next_combined st1 =
        Some (st2, listing fmt next_combined no_rows more_rows, Inr ())"
      using Suc.IH [OF walk(1) nd] by blast
    then show ?thesis
      using Some ask taken walk(2) listing_step [of fmt ?rows no_rows combined more_rows]
      by (cases "fmt = Ndjson") (simp_all add: found after next_combined_def)
  qed
qed simp

lemma stream_all:
  assumes "\<And>n st. snd (ask (ask_page pg n) st) = Inr (as_response pg (serve n))" "length items \<le> u32_max"
  shows "\<exists>st'. stream_pages (Suc (length items)) ask pg fmt True 0 None st =
    Some (st', if fmt = Ndjson then map (row_line pg) items
      else print_admin_response fmt (as_response pg (extended pg items no_rows)), Inr ())"
  using stream_walk [of ask "Suc (length items)" 0 items fmt None st, OF assms(1)]
    walk_rest [of items 0 z "Suc (length items)"] assms(2)
  by (cases "fmt = Ndjson") (simp_all add: listing_def del: walk_pages.simps stream_pages.simps)

end

interpretation service_rows: inventory
  "service_paging key_id z" "\<lambda>n. paginate n z items" "\<lparr>pg_items = [], pg_next = None\<rparr>" z items for key_id z items
  by unfold_locales (simp_all add: service_paging_def)

interpretation connection_rows: inventory
  "connection_paging key_id z" "\<lambda>n. paginate n z items" "\<lparr>pg_items = [], pg_next = None\<rparr>" z items for key_id z items
  by unfold_locales (simp_all add: connection_paging_def)

text \<open>The page of keys that the service answers with, as \<^const>\<open>actor_list\<close> builds it.\<close>

definition served_keys :: "nat \<Rightarrow> auth \<Rightarrow> nat \<Rightarrow> key_page" where
  "served_keys z st n = projr (actor_list n z st)"

lemma actor_list_served: "actor_list n z st = Inr (served_keys z st n)"
  by (simp add: served_keys_def actor_list_def Let_def)

interpretation key_rows: inventory
  "key_paging z" "served_keys z st" "\<lparr>kp_schema_version = 1, kp_items = [], kp_next_page = None\<rparr>" z "all_metadata st"
  for z st
  by unfold_locales
    (simp_all add: key_paging_def served_keys_def actor_list_def paginate_def clamp_page_size_def Let_def min.commute)

text \<open>The keys and the connections of an unchanged relay are listed completely, too.\<close>

theorem all_keys_are_printed:
  assumes "\<And>n s. \<exists>p. actor_list n z st = Inr p \<and> snd (ask (KeyList n z) s) = Inr (KeyListResp p)"
    and "length (all_metadata st) \<le> u32_max"
  shows "\<exists>s'. stream_key_pages (Suc (length (all_metadata st))) ask fmt 0 z True s =
    Some (s',
      if fmt = Ndjson then map KeyLine (all_metadata st)
      else print_admin_response fmt
        (KeyListResp \<lparr>kp_schema_version = 1, kp_items = all_metadata st, kp_next_page = None\<rparr>),
      Inr ())"
proof -
  have "snd (ask (ask_page (key_paging z) n) s) = Inr (as_response (key_paging z) (served_keys z st n))" for n s
    using assms(1) [of n s] by (auto simp: key_paging_def actor_list_served)
  from key_rows.stream_all [where ask=ask and fmt=fmt and st=s, OF this assms(2)] show ?thesis
    by (cases "fmt = Ndjson") (simp_all add: stream_key_pages_def key_paging_def del: stream_pages.simps)
qed

theorem all_connections_are_printed:
  assumes "\<And>n s. snd (ask (ConnectionList key_id n z) s) =
      Inr (ConnectionsResp (paginate n z (list_connections key_id now m)))"
    and "length (list_connections key_id now m) \<le> u32_max"
  shows "\<exists>s'. stream_connection_pages (Suc (length (list_connections key_id now m))) ask fmt key_id 0 z True s =
    Some (s',
      if fmt = Ndjson then map ConnectionLine (list_connections key_id now m)
      else print_admin_response fmt
        (ConnectionsResp \<lparr>pg_items = list_connections key_id now m, pg_next = None\<rparr>),
      Inr ())"
proof -
  have "snd (ask (ask_page (connection_paging key_id z) n) s) =
      Inr (as_response (connection_paging key_id z) (paginate n z (list_connections key_id now m)))" for n s
    using assms(1) by (simp add: connection_paging_def)
  from connection_rows.stream_all [where ask=ask and fmt=fmt and st=s, OF this assms(2)] show ?thesis
    by (cases "fmt = Ndjson") (simp_all add: stream_connection_pages_def connection_paging_def del: stream_pages.simps)
qed

text \<open>
  C36: While the relay's table of services does not change, \<^verbatim>\<open>service list --all\<close> ends, with
  any page size, after at most one request more than there are services, reports success, and has
  printed the whole inventory: one line a service in NDJSON, one page with every service otherwise.
\<close>

theorem all_services_are_printed:
  assumes "\<And>n st. snd (ask (ServiceList key_id n z) st) = Inr (ServicesResp (paginate n z (list_services key_id m)))"
    and "length (list_services key_id m) \<le> u32_max"
  shows "\<exists>st'. stream_service_pages (Suc (length (list_services key_id m))) ask fmt key_id 0 z True st =
    Some (st',
      (if fmt = Ndjson then map ServiceLine (list_services key_id m)
       else print_admin_response fmt (ServicesResp \<lparr>pg_items = list_services key_id m, pg_next = None\<rparr>)),
      Inr ())"
proof -
  have "snd (ask (ask_page (service_paging key_id z) n) st) =
      Inr (as_response (service_paging key_id z) (paginate n z (list_services key_id m)))" for n st
    using assms(1) by (simp add: service_paging_def)
  from service_rows.stream_all [where ask=ask and fmt=fmt and st=st, OF this assms(2)] show ?thesis
    by (cases "fmt = Ndjson") (simp_all add: stream_service_pages_def service_paging_def del: stream_pages.simps)
qed

text \<open>A relay whose table stays as it is.\<close>

definition still_relay :: "service_map \<Rightarrow> admin_req \<Rightarrow> unit \<Rightarrow> unit \<times> (admin_error + admin_resp)" where
  "still_relay m req st =
     (st, case req of
            ServiceList key_id n z \<Rightarrow> Inr (ServicesResp (paginate n z (list_services key_id m)))
          | _ \<Rightarrow> Inl AdminUnexpected)"

theorem all_services_are_printed_witness:
  "\<exists>st'. stream_service_pages (Suc (length (list_services None (services toy_registry))))
     (still_relay (services toy_registry)) Ndjson None 0 1 True () =
    Some (st', map ServiceLine (list_services None (services toy_registry)), Inr ())"
proof -
  have "length (services toy_registry) = 1"
    by (simp add: toy_tasks_def manager_defs)
  then have "length (list_services None (services toy_registry)) \<le> 1"
    by (cases "services toy_registry") (auto simp: list_services_def service_row_def wanted_def split: list.split)
  then show ?thesis
    using all_services_are_printed [of "still_relay (services toy_registry)" None 1 "services toy_registry" Ndjson "()"]
    by (simp add: still_relay_def u32_max_def del: stream_pages.simps)
qed

section \<open>Rotation\<close>

lemma atomic_write_files:
  assumes "atomic_write n d st = (st', r)"
  shows "only_file n st st' \<and> (case r of Inl _ \<Rightarrow> True | Inr _ \<Rightarrow> files st' n = Some d)"
  using assms
  by (auto simp: atomic_write_def and_then_def io_call_def sys_def random_bytes_def sync_parent_directory_def
      put_file_def only_file_def Let_def split: io_outcome.splits sum.splits prod.splits)

definition same_files :: "'a os_scheme \<Rightarrow> 'a os_scheme \<Rightarrow> bool" where
  "same_files st s \<longleftrightarrow> files s = files st"

named_theorems file_frame

lemma same_files_io_call [file_frame]: "same_files st s \<Longrightarrow> ends (same_files st) (io_call e s)"
  by (simp add: same_files_def ends_def)

lemma same_files_random [file_frame]: "same_files st s \<Longrightarrow> ends (same_files st) (random_bytes n s)"
  by (simp add: same_files_def ends_def random_bytes_def)

lemma same_files_unix [file_frame]: "same_files st s \<Longrightarrow> ends (same_files st) (unix_seconds s)"
  by (simp add: same_files_def ends_def unix_seconds_def)

lemma same_files_refl: "same_files st st"
  by (simp add: same_files_def)

lemma same_files_read [file_frame]: "same_files st s \<Longrightarrow> ends (same_files st) (read_file e n s)"
  unfolding read_file_def by (intro ends_rules file_frame)

lemma same_files_sys [file_frame]: "same_files st s \<Longrightarrow> ends (same_files st) (sys s)"
  by (simp add: same_files_def ends_def sys_def)

lemma ends_credential [file_frame]:
  "(\<And>k. ends P (f k)) \<Longrightarrow> (\<And>i k. ends P (g i k)) \<Longrightarrow> ends P (case v of Admin k \<Rightarrow> f k | Temporary i k \<Rightarrow> g i k)"
  by (cases v) simp_all

lemma ends_outcome [file_frame]:
  "ends P r \<Longrightarrow> (\<And>n. ends P (f n)) \<Longrightarrow> ends P (case v of IoOk \<Rightarrow> r | IoErr n \<Rightarrow> f n)"
  by (cases v) simp_all

lemma ends_bool [file_frame]:
  "ends P r \<Longrightarrow> ends P r' \<Longrightarrow> ends P (case v of True \<Rightarrow> r | False \<Rightarrow> r')"
  by (cases v) simp_all

lemma same_files_snapshot [file_frame]:
  "same_files st s \<Longrightarrow> ends (same_files st) (key_matches_existing_snapshot C k s)"
  unfolding key_matches_existing_snapshot_def by (rule ends_rules file_frame | assumption)+

lemma same_files_wal [file_frame]: "same_files st s \<Longrightarrow> ends (same_files st) (wal_decrypts_with_key C k s)"
  unfolding wal_decrypts_with_key_def Let_def by (rule ends_rules file_frame | assumption)+

lemma same_files_matches [file_frame]: "same_files st s \<Longrightarrow> ends (same_files st) (key_matches_existing_state C k s)"
  unfolding key_matches_existing_state_def by (rule ends_rules file_frame | assumption)+

lemma write_admin_key_file_files:
  assumes "write_admin_key_file C name key force st = (st', r)"
  shows "only_file name st st' \<and> (case r of Inl _ \<Rightarrow> True | Inr _ \<Rightarrow> files st' name = Some (key_line key))"
proof -
  obtain s1 ok where chk:
    "(if name = ADMIN_KEY_FILE then key_matches_existing_state C key st else (st, True)) = (s1, ok)"
    by (metis surj_pair)
  have s1: "files s1 = files st"
    using ends_fst [OF same_files_matches [of st st C key, OF same_files_refl]] chk
    by (auto simp: same_files_def split: if_splits)
  have "only_file name st st'' \<longleftrightarrow> only_file name s1 st''" for st''
    using s1 by (simp add: only_file_def)
  then show ?thesis
    using assms chk s1 atomic_write_files [of name "key_line key" s1]
    by (auto simp: write_admin_key_file_def refuse_write_if_encrypted_state_def and_then_def only_file_def
        split: sum.splits credential.splits if_splits prod.splits)
qed

lemma admin_attempt_files: "files (fst (admin_attempt C enc encoded st)) = files st"
  by (simp add: admin_attempt_def client_from_process_def client_new_v2_def unix_seconds_def random_bytes_def
      Let_def split: sum.split option.split prod.split)

lemma send_files: "files (fst (send_admin_request C enc req st)) = files st"
proof (cases "fst enc (AdminReq req)")
  case (Some e)
  obtain s1 w1 r1 where a1: "admin_attempt C enc e st = (s1, w1, r1)"
    by (rule prod_cases3)
  obtain s2 w2 r2 where a2: "admin_attempt C enc e s1 = (s2, w2, r2)"
    by (rule prod_cases3)
  show ?thesis
    using Some a1 a2 admin_attempt_files [of C enc e st] admin_attempt_files [of C enc e s1]
    by (simp add: send_admin_request_def send_admin_request_with_timeout_def split: option.split)
qed (simp add: send_admin_request_def send_admin_request_with_timeout_def)

lemma staged_other [simp]: "staged_key_file name \<noteq> name" "name \<noteq> staged_key_file name"
proof -
  have "length (staged_key_file name) \<noteq> length name"
    by (simp add: staged_key_file_def)
  then show "staged_key_file name \<noteq> name" "name \<noteq> staged_key_file name"
    by auto
qed

text \<open>From a staged key on, every way out leaves the new key in a file.\<close>

definition key_kept :: "bytes \<Rightarrow> string \<Rightarrow> cli \<times> printed list \<times> (admin_error + unit) \<Rightarrow> bool" where
  "key_kept k name result =
     (case result of (st, _, r) \<Rightarrow>
        (case r of
           Inr _ \<Rightarrow> files st name = Some (key_line k)
         | Inl _ \<Rightarrow> files st (staged_key_file name) = Some (key_line k)))"

lemma key_kept_pair [simp]:
  "key_kept k name (st, out, Inl e) \<longleftrightarrow> files st (staged_key_file name) = Some (key_line k)"
  "key_kept k name (st, out, Inr u) \<longleftrightarrow> files st name = Some (key_line k)"
  by (simp_all add: key_kept_def)

lemma remove_file_others: "n \<noteq> name \<Longrightarrow> files (remove_file name st) n = files st n"
  by (simp add: remove_file_def sys_def split: io_outcome.split)

lemma rotate_with_keeps:
  assumes staged: "files st (staged_key_file name) = Some (key_line k)"
  shows "key_kept k name (rotate_with C enc fmt k name st)"
proof -
  obtain s1 r1 where a1: "send_admin_request C enc (RootKeyRotate k) st = (s1, r1)"
    by (metis surj_pair)
  have f1: "files s1 = files st"
    using send_files [of C enc "RootKeyRotate k" st] a1 by simp
  obtain p u where p: "set_process_msg_header_key C (Some k) (proc s1) = (p, u)"
    by (metis surj_pair)
  obtain s2 r2 where a2: "send_admin_request C enc AuthStatusReq (s1\<lparr>proc := p\<rparr>) = (s2, r2)"
    by (metis surj_pair)
  have f2: "files s2 = files st"
    using send_files [of C enc AuthStatusReq "s1\<lparr>proc := p\<rparr>"] a2 f1 by simp
  obtain s3 r3 where a3: "write_admin_key_file C name k True s2 = (s3, r3)"
    by (metis surj_pair)
  have f3: "files s3 (staged_key_file name) = files st (staged_key_file name)"
    "\<And>x. r3 = Inr x \<Longrightarrow> files s3 name = Some (key_line k)"
    using write_admin_key_file_files [OF a3] f2 by (auto simp: only_file_def)
  show ?thesis
    using a1 f1 p a2 f2 a3 f3 staged
    by (auto simp: rotate_with_def remove_file_others split: sum.split admin_resp.split)
qed

definition candidate :: "bytes option \<Rightarrow> cli \<Rightarrow> bytes" where
  "candidate new_key st = (case new_key of Some k \<Rightarrow> k | None \<Rightarrow> snd (generate_admin_key st))"

lemma dials_in_memory: "mem s = mem st \<Longrightarrow> cli_dial_pos s = cli_dial_pos st" for s st :: cli
  by (cases s; cases st) (simp add: mem_def)

lemma rotate_root_key_spec:
  fixes name key_file
  defines "name \<equiv> (case key_file of Some n \<Rightarrow> n | None \<Rightarrow> default_admin_recovery_key_file)"
  assumes result: "rotate_root_key C enc fmt new_key key_file st = (st', out, r)"
  shows "(\<exists>e. r = Inl (StagedKeyNotWritten e)) \<and> cli_dial_pos st' = cli_dial_pos st \<or>
    key_kept (candidate new_key st) name (st', out, r)"
proof -
  obtain s0 k where chosen: "(case new_key of Some k \<Rightarrow> (st, k) | None \<Rightarrow> generate_admin_key st) = (s0, k)"
    by (metis surj_pair)
  have k: "k = candidate new_key st" "mem s0 = mem st"
    using chosen by (auto simp: candidate_def generate_admin_key_def random_bytes_def split: option.splits)
  obtain s1 w where a1: "write_admin_key_file C (staged_key_file name) k True s0 = (s1, w)"
    by (metis surj_pair)
  have "mem s1 = mem st"
    using io_only_write_admin_key_file [of s0 "mem st" C "staged_key_file name" k True] k(2) a1
    by (simp add: io_only_def)
  then have quiet: "cli_dial_pos s1 = cli_dial_pos st"
    by (rule dials_in_memory)
  show ?thesis
  proof (cases w)
    case (Inl e)
    then show ?thesis
      using result chosen a1 quiet by (auto simp: rotate_root_key_def name_def [symmetric])
  next
    case (Inr u)
    then have "files s1 (staged_key_file name) = Some (key_line k)"
      using write_admin_key_file_files [OF a1] by simp
    moreover have "rotate_with C enc fmt k name s1 = (st', out, r)"
      using result chosen a1 Inr by (simp add: rotate_root_key_def name_def [symmetric])
    ultimately show ?thesis
      using rotate_with_keeps [of s1 name k C enc fmt] k(1) by simp
  qed
qed

text \<open>
  C37: However a rotation of the root key ends, the candidate is never only in memory once the relay
  may know it: a rotation that cannot stage the candidate makes no connection, one that fails later
  leaves it in the staged file, and one that succeeds has it in the key file.
\<close>

theorem rotated_key_is_kept:
  "case rotate_root_key C enc fmt new_key (Some name) st of (st', out, r) \<Rightarrow>
     (\<exists>e. r = Inl (StagedKeyNotWritten e)) \<and> cli_dial_pos st' = cli_dial_pos st \<or>
     (case r of
        Inr _ \<Rightarrow> files st' name = Some (key_line (candidate new_key st))
      | Inl _ \<Rightarrow> files st' (staged_key_file name) = Some (key_line (candidate new_key st)))"
  using rotate_root_key_spec [of C enc fmt new_key "Some name" st]
  by (auto simp: key_kept_def split: prod.split)

text \<open>
  The other side of it: a rotation that is tried again after its request failed overwrites the
  staged file before it asks, although the relay may have taken the first candidate and only its
  answer was lost.  The first candidate, perhaps the relay's key by then, is no longer staged.
\<close>

lemma retried_rotation_drops_the_first_candidate:
  assumes "files st (staged_key_file name) = Some (key_line first_key)"
    and "rotate_root_key C enc fmt (Some second_key) (Some name) st = (st', out, Inl e)"
    and "cli_dial_pos st' \<noteq> cli_dial_pos st" "second_key \<noteq> first_key"
  shows "files st' (staged_key_file name) \<noteq> Some (key_line first_key)"
  using rotate_root_key_spec [OF assms(2)] assms(3,4) by (auto simp: candidate_def key_line_def)

end
