(* ===== verification/Desktop.thy ===== *)
theory Desktop
  imports Publisher "HOL-Library.AList"
begin

text \<open>
  The application behind the desktop and mobile user interface
  (\<^verbatim>\<open>pb_mapper_ffi/src/state.rs\<close> and \<^verbatim>\<open>state/\<close>): its settings and remembered
  tunnels on disk, the claims and phases of setting a tunnel up, the running tunnels with the
  credential and relay each is pinned to, the embedded relay, and the cached status views.  Files
  are those of the configuration directory.  What the network answers and the instants of the caches
  are arguments; the bindings to Flutter are left out.
\<close>

section \<open>Data\<close>

datatype ctl_error =
    CtlAlreadyExists
  | CtlAlreadyInProgress
  | CtlAddressInUse
  | CtlInvalidAddress
  | CtlInvalidArgument
  | CtlServerUnreachable
  | CtlNotFound
  | CtlIo
  | CtlTimeout
  | CtlProtocol
  | CtlInternal

record app_config =
  app_server_address :: bytes
  app_keep_alive :: bool
  app_msg_header_key :: bytes

definition app_config_default :: app_config where
  "app_config_default =
     \<lparr>app_server_address = ascii ''localhost:7666'', app_keep_alive = True, app_msg_header_key = []\<rparr>"

record service_config_data =
  sd_service_key :: bytes
  sd_local_address :: bytes
  sd_protocol :: bytes
  sd_encryption :: bool
  sd_keep_alive :: bool
  sd_created_at :: nat

record client_config_data =
  cd_service_key :: bytes
  cd_local_address :: bytes
  cd_protocol :: bytes
  cd_keep_alive :: bool
  cd_created_at :: nat

type_synonym service_store = "(bytes \<times> service_config_data) list"
type_synonym client_store = "(bytes \<times> client_config_data) list"

text \<open>\<^verbatim>\<open>serde_json\<close> for the three files.\<close>

record desktop_json =
  app_print :: "app_config \<Rightarrow> bytes option"
  app_parse :: "bytes \<Rightarrow> app_config option"
  services_print :: "service_store \<Rightarrow> bytes option"
  services_parse :: "bytes \<Rightarrow> service_store option"
  clients_print :: "client_store \<Rightarrow> bytes option"
  clients_parse :: "bytes \<Rightarrow> client_store option"

text \<open>A socket address is a number; a tunnel is the arguments its task was spawned with.\<close>

datatype spawned_tunnel =
    PublishTunnel bool nat nat bytes tunnel_options credential
  | SubscribeTunnel bool nat nat bytes bool credential

record pinned_tunnel =
  pin_credential :: credential
  pin_endpoint :: nat

record tunnel_runtime =
  tr_task :: nat
  tr_pin :: pinned_tunnel

type_synonym runtime_map = "(bytes \<times> tunnel_runtime) list"

record status_entry =
  se_status :: string
  se_message :: string
  se_updated_at :: nat

record local_server_status =
  ls_running :: bool
  ls_active_connections :: nat
  ls_registered_services :: nat
  ls_uptime :: nat

definition local_status_idle :: local_server_status where
  "local_status_idle =
     \<lparr>ls_running = False, ls_active_connections = 0, ls_registered_services = 0, ls_uptime = 0\<rparr>"

text \<open>A setup between its claim and its commit: what the first phase captured, and its arguments.\<close>

record tunnel_setup =
  su_key :: bytes
  su_local_address :: bytes
  su_protocol :: bytes
  su_encryption :: bool
  su_keep_alive :: bool
  su_server_address :: bytes
  su_credential :: credential

record shown_service =
  si_protocol :: bytes
  si_local_address :: bytes
  si_status :: string

text \<open>
  \<open>live\<close> holds the tunnel tasks that were spawned and neither ended nor were aborted;
  \<open>registrations\<close> and \<open>connections\<close> the setups under way, whose claims are the two sets.
\<close>

record desktop = os +
  server_task :: bool
  server_start_time :: "nat option"
  server_auth :: bool
  registered_services :: "bytes \<Rightarrow> shown_service option"
  shown_connections :: "bytes \<Rightarrow> string option"
  service_runtime :: runtime_map
  client_runtime :: runtime_map
  app :: app_config
  local_cache :: local_server_status
  local_updated :: "nat option"
  local_refreshing :: bool
  service_cache :: "bytes \<Rightarrow> status_entry option"
  client_cache :: "bytes \<Rightarrow> status_entry option"
  service_refreshing :: "bytes set"
  client_refreshing :: "bytes set"
  registering :: "bytes set"
  connecting :: "bytes set"
  registrations :: "tunnel_setup list"
  connections_pending :: "tunnel_setup list"
  next_task :: nat
  live :: "nat \<Rightarrow> spawned_tunnel option"

section \<open>Settings\<close>

text \<open>\<^verbatim>\<open>std::fs::write\<close>: create and truncate, then write; an error leaves what was written.\<close>

definition fs_write :: "string \<Rightarrow> bytes \<Rightarrow> 'a os_scheme \<Rightarrow> 'a os_scheme \<times> (ctl_error + unit)" where
  "fs_write name data st =
     (case sys st of
        (st, IoErr _) \<Rightarrow> (st, Inl CtlIo)
      | (st, IoOk) \<Rightarrow>
          (case sys (put_file name [] st) of
             (st, IoErr n) \<Rightarrow> (put_file name (take n data) st, Inl CtlIo)
           | (st, IoOk) \<Rightarrow> (put_file name data st, Inr ())))"

definition fs_read :: "string \<Rightarrow> 'a os_scheme \<Rightarrow> 'a os_scheme \<times> bytes option" where
  "fs_read name st =
     (case sys st of
        (st, IoErr _) \<Rightarrow> (st, None)
      | (st, IoOk) \<Rightarrow>
          (st, case files st name of Some d \<Rightarrow> if utf8_valid d then Some d else None | None \<Rightarrow> None))"

definition normalize_msg_header_key :: "'c crypto_scheme \<Rightarrow> bytes \<Rightarrow> ctl_error + bytes" where
  "normalize_msg_header_key C key =
     (let normalized = trim key in
      if normalized = [] then Inr normalized
      else case parse_credential C normalized of
        Inl _ \<Rightarrow> Inl CtlInvalidArgument
      | Inr _ \<Rightarrow> Inr normalized)"

text \<open>A directory that cannot be made sends the settings to a file of the current directory.\<close>

definition get_config_file_path :: "'a os_scheme \<Rightarrow> 'a os_scheme \<times> string" where
  "get_config_file_path st =
     (case sys st of
        (st, IoErr _) \<Rightarrow> (st, ''pb_mapper_config.json'')
      | (st, IoOk) \<Rightarrow> (st, ''config.json''))"

definition load_config ::
  "'c crypto_scheme \<Rightarrow> desktop_json \<Rightarrow> 'a os_scheme \<Rightarrow> 'a os_scheme \<times> (ctl_error + app_config)" where
  "load_config C J st =
     (let (st, name) = get_config_file_path st in
      if \<not> file_exists st name then (st, Inr app_config_default)
      else case fs_read name st of
        (st, None) \<Rightarrow> (st, Inl CtlIo)
      | (st, Some contents) \<Rightarrow>
          (case app_parse J contents of
             None \<Rightarrow> (st, Inl CtlIo)
           | Some config \<Rightarrow>
               (case normalize_msg_header_key C (app_msg_header_key config) of
                  Inl e \<Rightarrow> (st, Inl e)
                | Inr key \<Rightarrow> (st, Inr (config\<lparr>app_msg_header_key := key\<rparr>)))))"

definition write_config_file :: "desktop_json \<Rightarrow> app_config \<Rightarrow> 'a os_scheme \<Rightarrow> 'a os_scheme \<times> (ctl_error + unit)" where
  "write_config_file J config st =
     (let (st, name) = get_config_file_path st in
      case app_print J config of
        None \<Rightarrow> (st, Inl CtlIo)
      | Some contents \<Rightarrow> fs_write name contents st)"

definition apply_msg_header_key_env :: "'c crypto_scheme \<Rightarrow> desktop \<Rightarrow> desktop \<times> (ctl_error + unit)" where
  "apply_msg_header_key_env C st =
     (let key = app_msg_header_key (app st) in
      case set_process_msg_header_key C (if key = [] then None else Some key) (proc st) of
        (p, Inl _) \<Rightarrow> (st\<lparr>proc := p\<rparr>, Inl CtlInvalidArgument)
      | (p, Inr _) \<Rightarrow> (st\<lparr>proc := p\<rparr>, Inr ()))"

definition reset_status_caches :: "desktop \<Rightarrow> desktop" where
  "reset_status_caches st =
     st\<lparr>local_cache := local_status_idle, local_updated := None, local_refreshing := False,
        service_cache := (\<lambda>_. None), client_cache := (\<lambda>_. None),
        service_refreshing := {}, client_refreshing := {}\<rparr>"

text \<open>Settings that are refused after they were written are written back.\<close>

definition update_config ::
  "'c crypto_scheme \<Rightarrow> desktop_json \<Rightarrow> bytes \<Rightarrow> bool \<Rightarrow> bytes \<Rightarrow> desktop \<Rightarrow> desktop \<times> (ctl_error + unit)" where
  "update_config C J address alive key st =
     (case normalize_msg_header_key C key of
        Inl e \<Rightarrow> (st, Inl e)
      | Inr key \<Rightarrow>
          (let previous = app st;
               chosen = \<lparr>app_server_address = address, app_keep_alive = alive, app_msg_header_key = key\<rparr>
           in and_then (write_config_file J chosen st) (\<lambda>st _.
              case apply_msg_header_key_env C (st\<lparr>app := chosen\<rparr>) of
                (st, Inl e) \<Rightarrow>
                  (let st = fst (write_config_file J previous (st\<lparr>app := previous\<rparr>))
                   in (fst (apply_msg_header_key_env C st), Inl e))
              | (st, Inr _) \<Rightarrow> (reset_status_caches st, Inr ()))))"

text \<open>The settings of another directory are taken when they load; the old ones stay otherwise.\<close>

definition set_app_directory_path ::
  "'c crypto_scheme \<Rightarrow> desktop_json \<Rightarrow> (string \<Rightarrow> bytes option) \<Rightarrow> desktop \<Rightarrow> desktop \<times> (ctl_error + unit)" where
  "set_app_directory_path C J dir st =
     (let (st, r) = load_config C J (st\<lparr>files := dir\<rparr>);
          st = (case r of Inr config \<Rightarrow> st\<lparr>app := config\<rparr> | Inl _ \<Rightarrow> st)
      in apply_msg_header_key_env C st)"

definition desktop_new :: "'c crypto_scheme \<Rightarrow> desktop_json \<Rightarrow> os \<Rightarrow> desktop" where
  "desktop_new C J sy =
     (let st = \<lparr>files = files sy, lax_mode = lax_mode sy, machine_key = machine_key sy, proc = proc sy,
                io = io sy, io_pos = io_pos sy, rng = rng sy, rng_pos = rng_pos sy, clk = clk sy, clk_pos = clk_pos sy,
                server_task = False, server_start_time = None, server_auth = False,
                registered_services = (\<lambda>_. None), shown_connections = (\<lambda>_. None),
                service_runtime = [], client_runtime = [], app = app_config_default,
                local_cache = local_status_idle, local_updated = None, local_refreshing = False,
                service_cache = (\<lambda>_. None), client_cache = (\<lambda>_. None), service_refreshing = {},
                client_refreshing = {}, registering = {}, connecting = {}, registrations = [],
                connections_pending = [], next_task = 0, live = (\<lambda>_. None)\<rparr>;
          (st, r) = load_config C J st;
          config = (case r of Inr config \<Rightarrow> config | Inl _ \<Rightarrow> app_config_default)
      in fst (apply_msg_header_key_env C (st\<lparr>app := config\<rparr>)))"

section \<open>Remembered tunnels\<close>

text \<open>A file that cannot be read or parsed is an empty store.\<close>

definition load_service_configs :: "desktop_json \<Rightarrow> 'a os_scheme \<Rightarrow> 'a os_scheme \<times> service_store" where
  "load_service_configs J st =
     (case fs_read ''services.json'' st of
        (st, None) \<Rightarrow> (st, [])
      | (st, Some content) \<Rightarrow> (st, case services_parse J content of Some store \<Rightarrow> store | None \<Rightarrow> []))"

definition save_service_configs ::
  "desktop_json \<Rightarrow> service_store \<Rightarrow> 'a os_scheme \<Rightarrow> 'a os_scheme \<times> (ctl_error + unit)" where
  "save_service_configs J store st =
     (case sys st of
        (st, IoErr _) \<Rightarrow> (st, Inl CtlIo)
      | (st, IoOk) \<Rightarrow>
          (case services_print J store of
             None \<Rightarrow> (st, Inl CtlIo)
           | Some content \<Rightarrow> fs_write ''services.json'' content st))"

definition save_service_config ::
  "desktop_json \<Rightarrow> bytes \<Rightarrow> bytes \<Rightarrow> bytes \<Rightarrow> bool \<Rightarrow> bool \<Rightarrow> 'a os_scheme \<Rightarrow> 'a os_scheme \<times> (ctl_error + unit)" where
  "save_service_config J key local_address protocol encryption alive st =
     (let (st, store) = load_service_configs J st;
          (st, now) = unix_seconds st;
          config = \<lparr>sd_service_key = key, sd_local_address = local_address, sd_protocol = protocol,
                    sd_encryption = encryption, sd_keep_alive = alive,
                    sd_created_at = (case map_of store key of Some c \<Rightarrow> sd_created_at c | None \<Rightarrow> now)\<rparr>
      in save_service_configs J (AList.update key config store) st)"

definition delete_service_config :: "desktop_json \<Rightarrow> bytes \<Rightarrow> 'a os_scheme \<Rightarrow> 'a os_scheme \<times> (ctl_error + unit)" where
  "delete_service_config J key st =
     (let (st, store) = load_service_configs J st in save_service_configs J (AList.delete key store) st)"

definition load_client_configs :: "desktop_json \<Rightarrow> 'a os_scheme \<Rightarrow> 'a os_scheme \<times> client_store" where
  "load_client_configs J st =
     (case fs_read ''clients.json'' st of
        (st, None) \<Rightarrow> (st, [])
      | (st, Some content) \<Rightarrow> (st, case clients_parse J content of Some store \<Rightarrow> store | None \<Rightarrow> []))"

definition save_client_configs ::
  "desktop_json \<Rightarrow> client_store \<Rightarrow> 'a os_scheme \<Rightarrow> 'a os_scheme \<times> (ctl_error + unit)" where
  "save_client_configs J store st =
     (case sys st of
        (st, IoErr _) \<Rightarrow> (st, Inl CtlIo)
      | (st, IoOk) \<Rightarrow>
          (case clients_print J store of
             None \<Rightarrow> (st, Inl CtlIo)
           | Some content \<Rightarrow> fs_write ''clients.json'' content st))"

definition save_client_config ::
  "desktop_json \<Rightarrow> bytes \<Rightarrow> bytes \<Rightarrow> bytes \<Rightarrow> bool \<Rightarrow> 'a os_scheme \<Rightarrow> 'a os_scheme \<times> (ctl_error + unit)" where
  "save_client_config J key local_address protocol alive st =
     (let (st, store) = load_client_configs J st;
          (st, now) = unix_seconds st;
          config = \<lparr>cd_service_key = key, cd_local_address = local_address, cd_protocol = protocol,
                    cd_keep_alive = alive,
                    cd_created_at = (case map_of store key of Some c \<Rightarrow> cd_created_at c | None \<Rightarrow> now)\<rparr>
      in save_client_configs J (AList.update key config store) st)"

definition delete_client_config :: "desktop_json \<Rightarrow> bytes \<Rightarrow> 'a os_scheme \<Rightarrow> 'a os_scheme \<times> (ctl_error + unit)" where
  "delete_client_config J key st =
     (let (st, store) = load_client_configs J st in save_client_configs J (AList.delete key store) st)"

section \<open>Running tunnels\<close>

definition abort_task :: "nat \<Rightarrow> (nat \<Rightarrow> spawned_tunnel option) \<Rightarrow> nat \<Rightarrow> spawned_tunnel option" where
  "abort_task t tasks = tasks(t := None)"

definition abort_runtime ::
  "runtime_map \<Rightarrow> bytes \<Rightarrow> (nat \<Rightarrow> spawned_tunnel option) \<Rightarrow> runtime_map \<times> (nat \<Rightarrow> spawned_tunnel option) \<times> bool" where
  "abort_runtime m key tasks =
     (case map_of m key of
        Some runtime \<Rightarrow> (AList.delete key m, abort_task (tr_task runtime) tasks, True)
      | None \<Rightarrow> (m, tasks, False))"

definition replace_runtime ::
  "runtime_map \<Rightarrow> bytes \<Rightarrow> tunnel_runtime \<Rightarrow> (nat \<Rightarrow> spawned_tunnel option) \<Rightarrow> runtime_map \<times> (nat \<Rightarrow> spawned_tunnel option)" where
  "replace_runtime m key runtime tasks =
     (AList.update key runtime m,
      case map_of m key of Some previous \<Rightarrow> abort_task (tr_task previous) tasks | None \<Rightarrow> tasks)"

definition abort_service :: "bytes \<Rightarrow> desktop \<Rightarrow> desktop \<times> bool" where
  "abort_service key st =
     (case abort_runtime (service_runtime st) key (live st) of
        (m, tasks, aborted) \<Rightarrow> (st\<lparr>service_runtime := m, live := tasks\<rparr>, aborted))"

definition abort_client :: "bytes \<Rightarrow> desktop \<Rightarrow> desktop \<times> bool" where
  "abort_client key st =
     (case abort_runtime (client_runtime st) key (live st) of
        (m, tasks, aborted) \<Rightarrow> (st\<lparr>client_runtime := m, live := tasks\<rparr>, aborted))"

definition spawn_tunnel :: "spawned_tunnel \<Rightarrow> desktop \<Rightarrow> desktop \<times> nat" where
  "spawn_tunnel t st =
     (st\<lparr>next_task := Suc (next_task st), live := (live st)(next_task st := Some t)\<rparr>, next_task st)"

definition is_tcp :: "bytes \<Rightarrow> bool" where
  "is_tcp protocol \<longleftrightarrow> to_ascii_lowercase protocol = ascii ''tcp''"

section \<open>Claims\<close>

definition claim_key :: "bytes set \<Rightarrow> bytes \<Rightarrow> ctl_error + bytes set" where
  "claim_key claims key = (if key \<in> claims then Inl CtlAlreadyInProgress else Inr (insert key claims))"

text \<open>The first phase, under the lock.  A missing credential drops the claim again.\<close>

definition begin_setup ::
  "bytes set \<Rightarrow> bytes \<Rightarrow> bytes \<Rightarrow> bytes \<Rightarrow> bool \<Rightarrow> bool \<Rightarrow> desktop \<Rightarrow> ctl_error + (bytes set \<times> tunnel_setup)" where
  "begin_setup claims key local_address protocol encryption alive st =
     (case claim_key claims key of
        Inl e \<Rightarrow> Inl e
      | Inr claims \<Rightarrow>
          (case get_process_credential (proc st) of
             Inl _ \<Rightarrow> Inl CtlInvalidArgument
           | Inr cred \<Rightarrow>
               Inr (claims,
                 \<lparr>su_key = key, su_local_address = local_address, su_protocol = protocol,
                  su_encryption = encryption, su_keep_alive = alive,
                  su_server_address = app_server_address (app st), su_credential = cred\<rparr>)))"

definition begin_register ::
  "bytes \<Rightarrow> bytes \<Rightarrow> bytes \<Rightarrow> bool \<Rightarrow> bool \<Rightarrow> desktop \<Rightarrow> desktop \<times> (ctl_error + tunnel_setup)" where
  "begin_register key local_address protocol encryption alive st =
     (case begin_setup (registering st) key local_address protocol encryption alive st of
        Inl e \<Rightarrow> (st, Inl e)
      | Inr (claims, s) \<Rightarrow> (st\<lparr>registering := claims, registrations := registrations st @ [s]\<rparr>, Inr s))"

definition begin_connect :: "bytes \<Rightarrow> bytes \<Rightarrow> bytes \<Rightarrow> bool \<Rightarrow> desktop \<Rightarrow> desktop \<times> (ctl_error + tunnel_setup)" where
  "begin_connect key local_address protocol alive st =
     (case begin_setup (connecting st) key local_address protocol False alive st of
        Inl e \<Rightarrow> (st, Inl e)
      | Inr (claims, s) \<Rightarrow>
          (st\<lparr>connecting := claims, connections_pending := connections_pending st @ [s]\<rparr>, Inr s))"

text \<open>
  The second phase, without the lock: both addresses, then a connection to the relay, or for a
  client a bind of the local address.
\<close>

record lookup =
  lk_local :: "nat option"
  lk_remote :: "nat option"
  lk_reachable :: bool

definition preflight :: "ctl_error \<Rightarrow> lookup \<Rightarrow> ctl_error + (nat \<times> nat)" where
  "preflight e l =
     (case lk_local l of
        None \<Rightarrow> Inl CtlInvalidAddress
      | Some a \<Rightarrow>
          (case lk_remote l of
             None \<Rightarrow> Inl CtlInvalidAddress
           | Some r \<Rightarrow> if lk_reachable l then Inr (a, r) else Inl e))"

section \<open>Refreshing a status\<close>

datatype status_view = ServiceView | ClientView

text \<open>Who is asked: the relay and credential of the running tunnel, or the settings without one.\<close>

record refresh =
  rf_view :: status_view
  rf_key :: bytes
  rf_target :: "nat + bytes"
  rf_credential :: "credential option"

definition runtime_of :: "status_view \<Rightarrow> desktop \<Rightarrow> runtime_map" where
  "runtime_of v st = (case v of ServiceView \<Rightarrow> service_runtime st | ClientView \<Rightarrow> client_runtime st)"

definition refreshing_of :: "status_view \<Rightarrow> desktop \<Rightarrow> bytes set" where
  "refreshing_of v st = (case v of ServiceView \<Rightarrow> service_refreshing st | ClientView \<Rightarrow> client_refreshing st)"

definition set_refreshing :: "status_view \<Rightarrow> bytes set \<Rightarrow> desktop \<Rightarrow> desktop" where
  "set_refreshing v ks st =
     (case v of ServiceView \<Rightarrow> st\<lparr>service_refreshing := ks\<rparr> | ClientView \<Rightarrow> st\<lparr>client_refreshing := ks\<rparr>)"

definition cache_of :: "status_view \<Rightarrow> desktop \<Rightarrow> bytes \<Rightarrow> status_entry option" where
  "cache_of v st = (case v of ServiceView \<Rightarrow> service_cache st | ClientView \<Rightarrow> client_cache st)"

definition put_cache :: "status_view \<Rightarrow> bytes \<Rightarrow> status_entry \<Rightarrow> desktop \<Rightarrow> desktop" where
  "put_cache v key e st =
     (case v of
        ServiceView \<Rightarrow> st\<lparr>service_cache := (service_cache st)(key := Some e)\<rparr>
      | ClientView \<Rightarrow> st\<lparr>client_cache := (client_cache st)(key := Some e)\<rparr>)"

text \<open>One refresh of a key at a time: the task that is spawned, if one is.\<close>

definition schedule_status_refresh :: "status_view \<Rightarrow> bytes \<Rightarrow> desktop \<Rightarrow> desktop \<times> refresh option" where
  "schedule_status_refresh v key st =
     (if key \<in> refreshing_of v st then (st, None)
      else
        (let st = set_refreshing v (insert key (refreshing_of v st)) st;
             pin = map_option tr_pin (map_of (runtime_of v st) key)
         in (st, Some \<lparr>rf_view = v, rf_key = key,
                       rf_target = (case pin of Some p \<Rightarrow> Inl (pin_endpoint p)
                                    | None \<Rightarrow> Inr (app_server_address (app st))),
                       rf_credential = map_option pin_credential pin\<rparr>)))"

text \<open>
  \<^verbatim>\<open>check_service_with_get_status\<close>, once the relay was dialled: the keys it lists, any other
  answer, or a failed query.
\<close>

definition check_service_with_get_status ::
  "bool \<Rightarrow> client_error + status_resp \<Rightarrow> bytes \<Rightarrow> ctl_error + bool" where
  "check_service_with_get_status dialled status key =
     (if \<not> dialled then Inl CtlServerUnreachable
      else case status of
        Inr (KeysResp keys) \<Rightarrow> if key \<in> set keys then Inr True else Inl CtlNotFound
      | Inr _ \<Rightarrow> Inr True
      | Inl _ \<Rightarrow> Inr False)"

definition refreshed_status :: "status_view \<Rightarrow> ctl_error + bool \<Rightarrow> string \<times> string" where
  "refreshed_status v r =
     (case r of
        Inr True \<Rightarrow>
          (''running'', case v of ServiceView \<Rightarrow> ''Service is running normally'' | ClientView \<Rightarrow> ''Client is connected normally'')
      | Inr False \<Rightarrow>
          (''retrying'', case v of ServiceView \<Rightarrow> ''Service is in retry connection loop''
                        | ClientView \<Rightarrow> ''Client is in retry connection loop'')
      | Inl _ \<Rightarrow> (''failed'', ''Cannot connect to pb-server''))"

text \<open>A refresh ends: the entry, whether the user can see a change, and the key's marker.\<close>

definition finish_refresh :: "refresh \<Rightarrow> ctl_error + bool \<Rightarrow> nat \<Rightarrow> desktop \<Rightarrow> desktop \<times> bool" where
  "finish_refresh rf r now st =
     (let (status, message) = refreshed_status (rf_view rf) r;
          shown = cache_of (rf_view rf) st (rf_key rf);
          changed = (case shown of None \<Rightarrow> True | Some e \<Rightarrow> se_status e \<noteq> status \<or> se_message e \<noteq> message);
          st = put_cache (rf_view rf) (rf_key rf)
                 \<lparr>se_status = status, se_message = message, se_updated_at = now\<rparr> st
      in (set_refreshing (rf_view rf) (refreshing_of (rf_view rf) st - {rf_key rf}) st, changed))"

definition STATUS_CACHE_TTL :: duration where "STATUS_CACHE_TTL = from_secs 2"

definition cache_is_stale :: "nat option \<Rightarrow> nat \<Rightarrow> bool" where
  "cache_is_stale last_update now = (case last_update of Some t \<Rightarrow> STATUS_CACHE_TTL < now - t | None \<Rightarrow> True)"

text \<open>What a view shows at once, and the refresh a stale entry starts.\<close>

definition get_cached_status ::
  "status_view \<Rightarrow> bytes \<Rightarrow> nat \<Rightarrow> desktop \<Rightarrow> desktop \<times> (string \<times> string) \<times> refresh option" where
  "get_cached_status v key now st =
     (case map_of (runtime_of v st) key of
        None \<Rightarrow>
          (st, (''stopped'', case v of ServiceView \<Rightarrow> ''Service is not registered'' | ClientView \<Rightarrow> ''Client is not connected''), None)
      | Some runtime \<Rightarrow>
          if live st (tr_task runtime) = None then
            (st, (''failed'', case v of ServiceView \<Rightarrow> ''Service connection terminated''
                             | ClientView \<Rightarrow> ''Client connection terminated''), None)
          else
            (let cached = cache_of v st key;
                 (st, rf) = (if cache_is_stale (map_option se_updated_at cached) now
                             then schedule_status_refresh v key st else (st, None))
             in (st, (case cached of
                        Some e \<Rightarrow> (se_status e, se_message e)
                      | None \<Rightarrow> (''retrying'', case v of ServiceView \<Rightarrow> ''Checking service status...''
                                             | ClientView \<Rightarrow> ''Checking client status...'')), rf)))"

section \<open>The lists and views\<close>

text \<open>
  The remembered tunnels, oldest first, each with its status; the refreshes that were started go
  along.
\<close>

fun statuses ::
  "status_view \<Rightarrow> nat \<Rightarrow> bytes list \<Rightarrow> desktop \<Rightarrow> desktop \<times> (string \<times> string) list \<times> refresh option list" where
  "statuses v now [] st = (st, [], [])"
| "statuses v now (key # keys) st =
     (let (st, shown, rf) = get_cached_status v key now st;
          (st, rest, rfs) = statuses v now keys st
      in (st, shown # rest, rf # rfs))"

definition get_service_configs ::
  "desktop_json \<Rightarrow> nat \<Rightarrow> desktop \<Rightarrow> desktop \<times> (service_config_data \<times> string \<times> string) list \<times> refresh option list" where
  "get_service_configs J now st =
     (let (st, store) = load_service_configs J st;
          configs = sort_key sd_created_at (map snd store);
          (st, shown, rfs) = statuses ServiceView now (map sd_service_key configs) st
      in (st, zip configs shown, rfs))"

definition get_client_configs ::
  "desktop_json \<Rightarrow> nat \<Rightarrow> desktop \<Rightarrow> desktop \<times> (client_config_data \<times> string \<times> string) list \<times> refresh option list" where
  "get_client_configs J now st =
     (let (st, store) = load_client_configs J st;
          (st, shown, rfs) = statuses ClientView now (map fst store) st
      in (st, sort_key (cd_created_at \<circ> fst) (zip (map snd store) shown), rfs))"

definition isolated_admin_key :: "bytes option \<Rightarrow> bytes option" where
  "isolated_admin_key raw =
     (case raw of
        None \<Rightarrow> None
      | Some text \<Rightarrow> (let key = trim text in if key = [] then None else Some key))"

section \<open>Asking the relay\<close>

text \<open>
  A query resolves the relay's address, dials it and asks; what came of each is the argument.
\<close>

record query =
  qr_resolved :: bool
  qr_dialled :: bool
  qr_status :: "client_error + status_resp"

definition ask_relay :: "query \<Rightarrow> ctl_error + status_resp" where
  "ask_relay q =
     (if \<not> qr_resolved q then Inl CtlInvalidAddress
      else if \<not> qr_dialled q then Inl CtlServerUnreachable
      else case qr_status q of Inl _ \<Rightarrow> Inl CtlInternal | Inr s \<Rightarrow> Inr s)"

definition get_server_keys_with_addr :: "query \<Rightarrow> ctl_error + bytes list" where
  "get_server_keys_with_addr q =
     (case ask_relay q of
        Inl e \<Rightarrow> Inl e
      | Inr (KeysResp keys) \<Rightarrow> Inr keys
      | Inr _ \<Rightarrow> Inl CtlProtocol)"

definition get_service_conns_with_addr :: "query \<Rightarrow> ctl_error + service_conn_status list" where
  "get_service_conns_with_addr q =
     (case ask_relay q of
        Inl e \<Rightarrow> Inl e
      | Inr (ServiceResp _ conns) \<Rightarrow> Inr conns
      | Inr _ \<Rightarrow> Inl CtlProtocol)"

definition get_remote_id_data_with_addr ::
  "query \<Rightarrow> ctl_error + ((bytes \<times> server_conn list) list \<times> conn_id list \<times> conn_id list)" where
  "get_remote_id_data_with_addr q =
     (case ask_relay q of
        Inl e \<Rightarrow> Inl e
      | Inr (RemoteIdResp m busy idle) \<Rightarrow> Inr (m, busy, idle)
      | Inr _ \<Rightarrow> Inl CtlProtocol)"

text \<open>A relay without its tables shows three empty texts; here, no tables.\<close>

record server_detail =
  dt_available :: bool
  dt_services :: "bytes list"
  dt_tables :: "((bytes \<times> server_conn list) list \<times> conn_id list \<times> conn_id list) option"

definition fetch_real_status_with_addr ::
  "query \<Rightarrow> query \<Rightarrow>
   ctl_error + (bytes list \<times> ((bytes \<times> server_conn list) list \<times> conn_id list \<times> conn_id list) option)" where
  "fetch_real_status_with_addr q1 q2 =
     (case get_server_keys_with_addr q1 of
        Inl _ \<Rightarrow> Inl CtlInternal
      | Inr keys \<Rightarrow>
          Inr (keys, case get_remote_id_data_with_addr q2 of Inr tables \<Rightarrow> Some tables | Inl _ \<Rightarrow> None))"

definition force_refresh_server_status :: "bool \<Rightarrow> query \<Rightarrow> query \<Rightarrow> server_detail" where
  "force_refresh_server_status late q1 q2 =
     (let unavailable = \<lparr>dt_available = False, dt_services = [], dt_tables = None\<rparr>
      in if late then unavailable
         else case fetch_real_status_with_addr q1 q2 of
           Inl _ \<Rightarrow> unavailable
         | Inr (keys, tables) \<Rightarrow> \<lparr>dt_available = True, dt_services = keys, dt_tables = tables\<rparr>)"

definition get_service_conns :: "bool \<Rightarrow> query \<Rightarrow> ctl_error + service_conn_status list" where
  "get_service_conns late q = (if late then Inl CtlTimeout else get_service_conns_with_addr q)"

section \<open>The commit\<close>

definition retrying_entry :: "nat \<Rightarrow> status_entry" where
  "retrying_entry now =
     \<lparr>se_status = ''retrying'', se_message = ''Connecting to pb-mapper server...'', se_updated_at = now\<rparr>"

definition replace_service :: "bytes \<Rightarrow> tunnel_runtime \<Rightarrow> desktop \<Rightarrow> desktop" where
  "replace_service key runtime st =
     (case replace_runtime (service_runtime st) key runtime (live st) of
        (m, tasks) \<Rightarrow> st\<lparr>service_runtime := m, live := tasks\<rparr>)"

definition replace_client :: "bytes \<Rightarrow> tunnel_runtime \<Rightarrow> desktop \<Rightarrow> desktop" where
  "replace_client key runtime st =
     (case replace_runtime (client_runtime st) key runtime (live st) of
        (m, tasks) \<Rightarrow> st\<lparr>client_runtime := m, live := tasks\<rparr>)"

definition register_tunnel :: "tunnel_setup \<Rightarrow> nat \<Rightarrow> nat \<Rightarrow> spawned_tunnel" where
  "register_tunnel s local_addr remote_addr =
     PublishTunnel (is_tcp (su_protocol s)) local_addr remote_addr (su_key s)
       \<lparr>need_codec = su_encryption s, is_datagram = (\<not> is_tcp (su_protocol s)), keep_alive = su_keep_alive s,
        to_namespace = None, force_namespace = False\<rparr>
       (su_credential s)"

definition finish_register ::
  "desktop_json \<Rightarrow> tunnel_setup \<Rightarrow> nat \<Rightarrow> nat \<Rightarrow> nat \<Rightarrow> desktop \<Rightarrow> desktop \<times> (ctl_error + refresh option)" where
  "finish_register J s local_addr remote_addr now st =
     (let (st, _) = abort_service (su_key s) st in
      and_then (save_service_config J (su_key s) (su_local_address s) (su_protocol s) (su_encryption s)
                 (su_keep_alive s) st) (\<lambda>st _.
      let (st, task) = spawn_tunnel (register_tunnel s local_addr remote_addr) st;
          st = replace_service (su_key s)
                 \<lparr>tr_task = task, tr_pin = \<lparr>pin_credential = su_credential s, pin_endpoint = remote_addr\<rparr>\<rparr> st;
          st = put_cache ServiceView (su_key s) (retrying_entry now) st;
          (st, rf) = schedule_status_refresh ServiceView (su_key s) st
      in (st\<lparr>registered_services := (registered_services st)(su_key s := Some
               \<lparr>si_protocol = su_protocol s, si_local_address = su_local_address s, si_status = ''Registering''\<rparr>)\<rparr>,
          Inr rf)))"

text \<open>A client that is up stays up when its settings cannot be saved.\<close>

definition finish_connect ::
  "desktop_json \<Rightarrow> tunnel_setup \<Rightarrow> nat \<Rightarrow> nat \<Rightarrow> nat \<Rightarrow> desktop \<Rightarrow> desktop \<times> (ctl_error + refresh option)" where
  "finish_connect J s local_addr remote_addr now st =
     (let (st, _) = abort_client (su_key s) st;
          (st, task) = spawn_tunnel (SubscribeTunnel (is_tcp (su_protocol s)) local_addr remote_addr (su_key s)
                         (su_keep_alive s) (su_credential s)) st;
          st = replace_client (su_key s)
                 \<lparr>tr_task = task, tr_pin = \<lparr>pin_credential = su_credential s, pin_endpoint = remote_addr\<rparr>\<rparr> st;
          st = put_cache ClientView (su_key s) (retrying_entry now) st;
          (st, rf) = schedule_status_refresh ClientView (su_key s) st;
          st = st\<lparr>shown_connections := (shown_connections st)(su_key s := Some ''Connected'')\<rparr>;
          (st, _) = save_client_config J (su_key s) (su_local_address s) (su_protocol s) (su_keep_alive s) st
      in (st, Inr rf))"

text \<open>The end of a setup drops its claim, whatever its outcome.\<close>

definition end_register ::
  "desktop_json \<Rightarrow> tunnel_setup \<Rightarrow> lookup \<Rightarrow> nat \<Rightarrow> desktop \<Rightarrow> desktop \<times> (ctl_error + refresh option)" where
  "end_register J s l now st =
     (case (case preflight CtlServerUnreachable l of
              Inl e \<Rightarrow> (st, Inl e) | Inr (a, r) \<Rightarrow> finish_register J s a r now st) of
        (st, r) \<Rightarrow>
          (st\<lparr>registering := registering st - {su_key s}, registrations := remove1 s (registrations st)\<rparr>, r))"

definition end_connect ::
  "desktop_json \<Rightarrow> tunnel_setup \<Rightarrow> lookup \<Rightarrow> nat \<Rightarrow> desktop \<Rightarrow> desktop \<times> (ctl_error + refresh option)" where
  "end_connect J s l now st =
     (case (case preflight CtlAddressInUse l of
              Inl e \<Rightarrow> (st, Inl e) | Inr (a, r) \<Rightarrow> finish_connect J s a r now st) of
        (st, r) \<Rightarrow>
          (st\<lparr>connecting := connecting st - {su_key s}, connections_pending := remove1 s (connections_pending st)\<rparr>, r))"

section \<open>Stopping a tunnel\<close>

definition unregister_service :: "bytes \<Rightarrow> desktop \<Rightarrow> desktop \<times> (ctl_error + unit)" where
  "unregister_service key st =
     (let (st, _) = abort_service key st in
      (st\<lparr>registered_services := (registered_services st)(key := None)\<rparr>,
       if registered_services st key \<noteq> None then Inr () else Inl CtlNotFound))"

definition delete_service_config_and_stop :: "desktop_json \<Rightarrow> bytes \<Rightarrow> desktop \<Rightarrow> desktop \<times> (ctl_error + unit)" where
  "delete_service_config_and_stop J key st =
     (let (st, _) = abort_service key st
      in delete_service_config J key (st\<lparr>registered_services := (registered_services st)(key := None)\<rparr>))"

definition disconnect_service :: "bytes \<Rightarrow> desktop \<Rightarrow> desktop \<times> (ctl_error + unit)" where
  "disconnect_service key st =
     (let (st, aborted) = abort_client key st in
      (st\<lparr>shown_connections := (shown_connections st)(key := None)\<rparr>,
       if aborted \<or> shown_connections st key \<noteq> None then Inr () else Inl CtlNotFound))"

definition delete_client_config_and_stop :: "desktop_json \<Rightarrow> bytes \<Rightarrow> desktop \<Rightarrow> desktop \<times> (ctl_error + unit)" where
  "delete_client_config_and_stop J key st =
     (let (st, _) = abort_client key st
      in delete_client_config J key (st\<lparr>shown_connections := (shown_connections st)(key := None)\<rparr>))"

section \<open>The embedded relay\<close>

text \<open>Whether the port could be bound, and whether the authentication state of the application opened.\<close>

definition start_server :: "bool \<Rightarrow> bool \<Rightarrow> nat \<Rightarrow> desktop \<Rightarrow> desktop \<times> (ctl_error + unit)" where
  "start_server bound auth_ready now st =
     (if server_task st then (st, Inl CtlAlreadyExists)
      else if \<not> bound then (st, Inl CtlAddressInUse)
      else if \<not> auth_ready then (st, Inl CtlIo)
      else let (st, started) = unix_seconds st in
        (st\<lparr>server_auth := True, server_task := True, server_start_time := Some started,
            local_cache := local_status_idle\<lparr>ls_running := True\<rparr>, local_updated := Some now\<rparr>, Inr ()))"

definition abort_all :: "runtime_map \<Rightarrow> (nat \<Rightarrow> spawned_tunnel option) \<Rightarrow> nat \<Rightarrow> spawned_tunnel option" where
  "abort_all m tasks = fold (\<lambda>(_, runtime). abort_task (tr_task runtime)) m tasks"

text \<open>Stopping the relay ends every tunnel of the application with it.\<close>

definition stop_server :: "nat \<Rightarrow> desktop \<Rightarrow> desktop \<times> (ctl_error + unit)" where
  "stop_server now st =
     (if \<not> server_task st then (st, Inl CtlNotFound)
      else
        (st\<lparr>server_task := False, server_auth := False, server_start_time := None,
            local_cache := local_status_idle, local_updated := Some now,
            live := abort_all (client_runtime st) (abort_all (service_runtime st) (live st)),
            service_runtime := [], client_runtime := [],
            registered_services := (\<lambda>_. None), shown_connections := (\<lambda>_. None)\<rparr>, Inr ()))"

section \<open>The status of the embedded relay\<close>

definition get_local_server_status :: "nat \<Rightarrow> desktop \<Rightarrow> desktop \<times> local_server_status \<times> bool" where
  "get_local_server_status now st =
     (if \<not> server_task st then
        (st\<lparr>local_cache := local_status_idle, local_updated := Some now\<rparr>, local_status_idle, False)
      else if cache_is_stale (local_updated st) now \<and> \<not> local_refreshing st
      then (st\<lparr>local_refreshing := True\<rparr>, local_cache st, True)
      else (st, local_cache st, False))"

text \<open>A refresh asks the relay's manager; without an answer in time it shows what it knows itself.\<close>

definition finish_local_refresh :: "nat \<Rightarrow> server_status option \<Rightarrow> nat \<Rightarrow> desktop \<Rightarrow> desktop" where
  "finish_local_refresh uptime info now st =
     st\<lparr>local_cache :=
          (case info of
             Some i \<Rightarrow> \<lparr>ls_running = True, ls_active_connections = ss_active_connections i,
                        ls_registered_services = ss_registered_services i, ls_uptime = ss_uptime_seconds i\<rparr>
           | None \<Rightarrow> \<lparr>ls_running = True, ls_active_connections = 0, ls_registered_services = 0, ls_uptime = uptime\<rparr>),
        local_updated := Some now, local_refreshing := False\<rparr>"

section \<open>The application as a run of events\<close>

datatype desktop_event =
    BeginRegister bytes bytes bytes bool bool
  | EndRegister tunnel_setup lookup nat
  | BeginConnect bytes bytes bytes bool
  | EndConnect tunnel_setup lookup nat
  | Unregister bytes
  | DeleteService bytes
  | Disconnect bytes
  | DeleteClient bytes
  | StartServer bool bool nat
  | StopServer nat
  | UpdateConfig bytes bool bytes
  | SetDirectory "string \<Rightarrow> bytes option"
  | ViewStatus status_view bytes nat
  | RefreshDone refresh "ctl_error + bool" nat
  | TunnelEnds nat

text \<open>Only a setup under way ends, and only once.\<close>

fun desktop_step :: "'c crypto_scheme \<Rightarrow> desktop_json \<Rightarrow> desktop_event \<Rightarrow> desktop \<Rightarrow> desktop" where
  "desktop_step C J (BeginRegister key local_address protocol encryption alive) st =
     fst (begin_register key local_address protocol encryption alive st)"
| "desktop_step C J (EndRegister s l now) st =
     (if s \<in> set (registrations st) then fst (end_register J s l now st) else st)"
| "desktop_step C J (BeginConnect key local_address protocol alive) st =
     fst (begin_connect key local_address protocol alive st)"
| "desktop_step C J (EndConnect s l now) st =
     (if s \<in> set (connections_pending st) then fst (end_connect J s l now st) else st)"
| "desktop_step C J (Unregister key) st = fst (unregister_service key st)"
| "desktop_step C J (DeleteService key) st = fst (delete_service_config_and_stop J key st)"
| "desktop_step C J (Disconnect key) st = fst (disconnect_service key st)"
| "desktop_step C J (DeleteClient key) st = fst (delete_client_config_and_stop J key st)"
| "desktop_step C J (StartServer bound auth_ready now) st = fst (start_server bound auth_ready now st)"
| "desktop_step C J (StopServer now) st = fst (stop_server now st)"
| "desktop_step C J (UpdateConfig address alive key) st = fst (update_config C J address alive key st)"
| "desktop_step C J (SetDirectory dir) st = fst (set_app_directory_path C J dir st)"
| "desktop_step C J (ViewStatus v key now) st = fst (get_cached_status v key now st)"
| "desktop_step C J (RefreshDone rf r now) st = fst (finish_refresh rf r now st)"
| "desktop_step C J (TunnelEnds t) st = st\<lparr>live := abort_task t (live st)\<rparr>"

definition desktop_run :: "'c crypto_scheme \<Rightarrow> desktop_json \<Rightarrow> desktop_event list \<Rightarrow> desktop \<Rightarrow> desktop" where
  "desktop_run C J es st = fold (desktop_step C J) es st"

end
