(* ===== verification/DesktopProps.thy ===== *)
theory DesktopProps
  imports Desktop AuthFacts Toy
begin

text \<open>
  What holds of the application whatever its users do, in any order: every running tunnel can be
  stopped, a key is set up by one caller at a time, and the settings that were saved are the ones
  the next start finds.
\<close>

section \<open>What the invariant reads\<close>

definition core_of :: "desktop \<Rightarrow>
  runtime_map \<times> runtime_map \<times> (nat \<Rightarrow> spawned_tunnel option) \<times> nat \<times> bytes set \<times> bytes set \<times> tunnel_setup list \<times> tunnel_setup list" where
  "core_of st = (service_runtime st, client_runtime st, live st, next_task st, registering st, connecting st,
     registrations st, connections_pending st)"

lemma core_of_mem: "mem s = mem st \<Longrightarrow> core_of s = core_of st" for s st :: desktop
  by (cases s; cases st) (simp add: mem_def core_of_def)

lemma core_of_updates [simp]:
  "core_of (st\<lparr>proc := p\<rparr>) = core_of st" "core_of (st\<lparr>app := a\<rparr>) = core_of st"
  "core_of (st\<lparr>files := f\<rparr>) = core_of st"
  "core_of (st\<lparr>registered_services := rs\<rparr>) = core_of st" "core_of (st\<lparr>shown_connections := cs\<rparr>) = core_of st"
  "core_of (reset_status_caches st) = core_of st"
  "core_of (put_cache v key e st) = core_of st" "core_of (set_refreshing v ks st) = core_of st"
  by (simp_all add: core_of_def reset_status_caches_def put_cache_def set_refreshing_def split: status_view.split)

lemma core_of_schedule [simp]: "core_of (fst (schedule_status_refresh v key st)) = core_of st"
  by (simp add: schedule_status_refresh_def Let_def)

lemma io_only_fs_write [io_frame]: "mem st = m \<Longrightarrow> io_only m (fs_write n d st)"
  unfolding fs_write_def by (rule io_frame | simp add: mem_put_file)+

lemma io_only_fs_read [io_frame]: "mem st = m \<Longrightarrow> io_only m (fs_read n st)"
  unfolding fs_read_def by (rule io_frame | simp)+

lemma io_only_path [io_frame]: "mem st = m \<Longrightarrow> io_only m (get_config_file_path st)"
  unfolding get_config_file_path_def by (rule io_frame | simp)+

lemma io_only_load_config [io_frame]: "mem st = m \<Longrightarrow> io_only m (load_config C J st)"
  unfolding load_config_def Let_def by (rule io_frame | simp)+

lemma io_only_write_config [io_frame]: "mem st = m \<Longrightarrow> io_only m (write_config_file J c st)"
  unfolding write_config_file_def Let_def by (rule io_frame | simp)+

lemma io_only_load_services [io_frame]: "mem st = m \<Longrightarrow> io_only m (load_service_configs J st)"
  unfolding load_service_configs_def by (rule io_frame | simp)+

lemma io_only_save_services [io_frame]: "mem st = m \<Longrightarrow> io_only m (save_service_configs J s st)"
  unfolding save_service_configs_def by (rule io_frame | simp)+

lemma io_only_save_service [io_frame]: "mem st = m \<Longrightarrow> io_only m (save_service_config J k l p e a st)"
  unfolding save_service_config_def Let_def by (rule io_frame | simp)+

lemma io_only_delete_service [io_frame]: "mem st = m \<Longrightarrow> io_only m (delete_service_config J k st)"
  unfolding delete_service_config_def Let_def by (rule io_frame | simp)+

lemma io_only_load_clients [io_frame]: "mem st = m \<Longrightarrow> io_only m (load_client_configs J st)"
  unfolding load_client_configs_def by (rule io_frame | simp)+

lemma io_only_save_clients [io_frame]: "mem st = m \<Longrightarrow> io_only m (save_client_configs J s st)"
  unfolding save_client_configs_def by (rule io_frame | simp)+

lemma io_only_save_client [io_frame]: "mem st = m \<Longrightarrow> io_only m (save_client_config J k l p a st)"
  unfolding save_client_config_def Let_def by (rule io_frame | simp)+

lemma io_only_delete_client [io_frame]: "mem st = m \<Longrightarrow> io_only m (delete_client_config J k st)"
  unfolding delete_client_config_def Let_def by (rule io_frame | simp)+

lemma core_of_io: "io_only (mem st) r \<Longrightarrow> core_of (fst r) = core_of st" for st :: desktop
  unfolding io_only_def by (rule core_of_mem)

lemmas core_of_disk [simp] =
  core_of_io [OF io_only_load_config [OF refl]] core_of_io [OF io_only_write_config [OF refl]]
  core_of_io [OF io_only_save_service [OF refl]] core_of_io [OF io_only_delete_service [OF refl]]
  core_of_io [OF io_only_save_client [OF refl]] core_of_io [OF io_only_delete_client [OF refl]]

lemma core_of_apply [simp]: "core_of (fst (apply_msg_header_key_env C st)) = core_of st"
  by (simp add: apply_msg_header_key_env_def Let_def split: prod.split sum.split)

section \<open>Tables of running tunnels\<close>

definition tasks_of :: "runtime_map \<Rightarrow> nat list" where
  "tasks_of m = map (tr_task \<circ> snd) m"

text \<open>
  One table beside the tasks of the other: keys and tasks are distinct, and every live task is in
  one of them.
\<close>

definition tidy :: "runtime_map \<Rightarrow> nat list \<Rightarrow> (nat \<Rightarrow> spawned_tunnel option) \<Rightarrow> nat \<Rightarrow> bool" where
  "tidy m rest tasks n \<longleftrightarrow> distinct (map fst m) \<and> distinct (tasks_of m @ rest) \<and>
     dom tasks \<subseteq> set (tasks_of m @ rest) \<and> (\<forall>t\<in>set (tasks_of m @ rest). t < n)"

lemma tidy_empty [simp]: "tidy [] [] (\<lambda>_. None) n"
  by (simp add: tidy_def tasks_of_def)

lemma delete_absent: "map_of m key = None \<Longrightarrow> AList.delete key m = m"
  by (induction m) (auto simp: AList.delete_eq split: if_splits)

lemma set_tasks_delete: "set (tasks_of (AList.delete key m)) \<subseteq> set (tasks_of m)"
  by (auto simp: tasks_of_def AList.delete_eq)

lemma distinct_tasks_delete: "distinct (tasks_of m) \<Longrightarrow> distinct (tasks_of (AList.delete key m))"
  unfolding tasks_of_def AList.delete_eq by (rule distinct_map_filter)

lemma live_after_delete:
  assumes "distinct (map fst m)" "map_of m key = Some runtime" "t \<in> set (tasks_of m)" "t \<noteq> tr_task runtime"
  shows "t \<in> set (tasks_of (AList.delete key m))"
proof -
  obtain k r where kr: "(k, r) \<in> set m" "t = tr_task r"
    using assms(3) by (auto simp: tasks_of_def)
  moreover have "k \<noteq> key"
    using kr assms(2,4) map_of_is_SomeI [OF assms(1) kr(1)] by auto
  ultimately show ?thesis
    by (force simp: tasks_of_def AList.delete_eq)
qed

lemma tidy_abort:
  assumes tidy: "tidy m rest tasks n" and abort: "abort_runtime m key tasks = (m', tasks', b)"
  shows "tidy m' rest tasks' n \<and> key \<notin> fst ` set m'"
proof (cases "map_of m key")
  case None
  then have "m' = m" "tasks' = tasks" "key \<notin> fst ` set m"
    using abort None by (auto simp: abort_runtime_def map_of_eq_None_iff [symmetric])
  then show ?thesis
    using tidy by simp
next
  case (Some runtime)
  have m': "m' = AList.delete key m" "tasks' = tasks(tr_task runtime := None)"
    using abort Some by (auto simp: abort_runtime_def abort_task_def)
  have keys: "distinct (map fst m)" and live: "dom tasks \<subseteq> set (tasks_of m) \<union> set rest"
    using tidy by (simp_all add: tidy_def)
  have "dom tasks' \<subseteq> set (tasks_of m' @ rest)"
  proof
    fix t
    assume "t \<in> dom tasks'"
    then have t: "t \<in> set (tasks_of m) \<or> t \<in> set rest" "t \<noteq> tr_task runtime"
      using live m'(2) by (auto split: if_splits)
    then show "t \<in> set (tasks_of m' @ rest)"
      using live_after_delete [OF keys Some _ t(2)] m'(1) by auto
  qed
  moreover have "distinct (tasks_of m' @ rest)"
    using tidy distinct_tasks_delete [of m key] set_tasks_delete [of key m] unfolding m' tidy_def by auto
  moreover have "\<forall>t\<in>set (tasks_of m' @ rest). t < n"
    using tidy set_tasks_delete [of key m] unfolding m' tidy_def by auto
  moreover have "distinct (map fst m')"
    using AList.distinct_delete [OF keys] by (simp add: m')
  moreover have "key \<notin> fst ` set m'"
    by (auto simp: m' AList.delete_eq)
  ultimately show ?thesis
    by (simp add: tidy_def)
qed

lemma tidy_spawn:
  assumes "tidy m rest tasks n" "key \<notin> fst ` set m"
    "replace_runtime m key \<lparr>tr_task = n, tr_pin = p\<rparr> (tasks(n := Some t)) = (m', tasks')"
  shows "tidy m' rest tasks' (Suc n)"
proof -
  have "map_of m key = None"
    using assms(2) by (simp add: map_of_eq_None_iff)
  moreover from assms(2) have "AList.update key r m = m @ [(key, r)]" for r
    by (induction m) auto
  ultimately have m': "m' = m @ [(key, \<lparr>tr_task = n, tr_pin = p\<rparr>)]" "tasks' = tasks(n := Some t)"
    using assms(3) by (auto simp: replace_runtime_def)
  then show ?thesis
    using assms(1,2) by (auto simp: tidy_def tasks_of_def less_Suc_eq)
qed

lemma tidy_swap: "tidy m (tasks_of m') tasks n \<Longrightarrow> distinct (map fst m') \<Longrightarrow> tidy m' (tasks_of m) tasks n"
  by (auto simp: tidy_def)

lemma tidy_end: "tidy m rest tasks n \<Longrightarrow> tidy m rest (abort_task t tasks) n"
  by (auto simp: tidy_def abort_task_def)

section \<open>The invariant\<close>

definition claims_ok :: "bytes set \<Rightarrow> tunnel_setup list \<Rightarrow> bool" where
  "claims_ok claims setups \<longleftrightarrow> claims = su_key ` set setups \<and> distinct (map su_key setups)"

definition desktop_ok :: "desktop \<Rightarrow> bool" where
  "desktop_ok st \<longleftrightarrow>
     tidy (service_runtime st) (tasks_of (client_runtime st)) (live st) (next_task st) \<and>
     distinct (map fst (client_runtime st)) \<and>
     claims_ok (registering st) (registrations st) \<and> claims_ok (connecting st) (connections_pending st)"

lemma desktop_ok_core: "core_of s = core_of st \<Longrightarrow> desktop_ok s = desktop_ok st"
  by (simp add: core_of_def desktop_ok_def)

lemma claims_ok_begin:
  "claims_ok claims setups \<Longrightarrow> su_key s \<notin> claims \<Longrightarrow> claims_ok (insert (su_key s) claims) (setups @ [s])"
  by (auto simp: claims_ok_def)

lemma claims_ok_end:
  assumes "claims_ok claims setups" "s \<in> set setups"
  shows "claims_ok (claims - {su_key s}) (remove1 s setups)"
proof -
  have d: "distinct setups" and inj: "inj_on su_key (set setups)"
    using assms(1) by (auto simp: claims_ok_def distinct_map)
  have "su_key ` (set setups - {s}) = su_key ` set setups - {su_key s}"
    using inj assms(2) by (auto dest: inj_onD)
  then show ?thesis
    using assms(1) d inj
    by (auto simp: claims_ok_def distinct_map set_remove1_eq intro: inj_on_subset distinct_remove1)
qed

lemma begin_setup_Inr:
  "begin_setup claims key la p e a st = Inr (claims', s) \<Longrightarrow> su_key s = key \<and> key \<notin> claims \<and> claims' = insert key claims"
  by (auto simp: begin_setup_def claim_key_def split: sum.splits if_splits)

lemma abort_service_ok:
  assumes "desktop_ok st"
  shows "desktop_ok (fst (abort_service key st)) \<and> key \<notin> fst ` set (service_runtime (fst (abort_service key st)))"
proof -
  obtain m tasks b where a: "abort_runtime (service_runtime st) key (live st) = (m, tasks, b)"
    by (rule prod_cases3)
  then show ?thesis
    using assms tidy_abort [OF _ a] by (auto simp: abort_service_def desktop_ok_def)
qed

lemma abort_client_ok:
  assumes "desktop_ok st"
  shows "desktop_ok (fst (abort_client key st)) \<and> key \<notin> fst ` set (client_runtime (fst (abort_client key st)))"
proof -
  obtain m tasks b where a: "abort_runtime (client_runtime st) key (live st) = (m, tasks, b)"
    by (rule prod_cases3)
  have "tidy (client_runtime st) (tasks_of (service_runtime st)) (live st) (next_task st)"
    "distinct (map fst (service_runtime st))"
    using assms by (auto simp: desktop_ok_def tidy_def)
  note swapped = this
  have m: "tidy m (tasks_of (service_runtime st)) tasks (next_task st)" "key \<notin> fst ` set m"
    using tidy_abort [OF swapped(1) a] by simp_all
  have "tidy (service_runtime st) (tasks_of m) tasks (next_task st)"
    by (rule tidy_swap [OF m(1) swapped(2)])
  moreover have "distinct (map fst m)"
    using m(1) by (simp add: tidy_def)
  ultimately show ?thesis
    using assms a m(2) by (simp add: abort_client_def desktop_ok_def)
qed

text \<open>A tunnel spawned under a key that has none.\<close>

lemma spawn_service_ok:
  assumes "desktop_ok st" "key \<notin> fst ` set (service_runtime st)"
  shows "desktop_ok (replace_service key \<lparr>tr_task = next_task st, tr_pin = p\<rparr> (fst (spawn_tunnel t st)))"
proof -
  obtain m tasks where r: "replace_runtime (service_runtime st) key \<lparr>tr_task = next_task st, tr_pin = p\<rparr>
      ((live st)(next_task st := Some t)) = (m, tasks)"
    by (metis surj_pair)
  then have "tidy m (tasks_of (client_runtime st)) tasks (Suc (next_task st))"
    using assms tidy_spawn [OF _ assms(2) r] by (simp add: desktop_ok_def)
  then show ?thesis
    using assms(1) r by (simp add: replace_service_def spawn_tunnel_def desktop_ok_def)
qed

lemma spawn_client_ok:
  assumes ok: "desktop_ok st" and fresh: "key \<notin> fst ` set (client_runtime st)"
  shows "desktop_ok (replace_client key \<lparr>tr_task = next_task st, tr_pin = p\<rparr> (fst (spawn_tunnel t st)))"
proof -
  obtain m tasks where r: "replace_runtime (client_runtime st) key \<lparr>tr_task = next_task st, tr_pin = p\<rparr>
      ((live st)(next_task st := Some t)) = (m, tasks)"
    by (metis surj_pair)
  have "distinct (map fst (service_runtime st))" and
    "tidy (client_runtime st) (tasks_of (service_runtime st)) (live st) (next_task st)"
    using ok by (auto simp: desktop_ok_def tidy_def)
  note swapped = this
  have m: "tidy m (tasks_of (service_runtime st)) tasks (Suc (next_task st))"
    by (rule tidy_spawn [OF swapped(2) fresh r])
  have "tidy (service_runtime st) (tasks_of m) tasks (Suc (next_task st))"
    by (rule tidy_swap [OF m swapped(1)])
  moreover have "distinct (map fst m)"
    using m by (simp add: tidy_def)
  ultimately show ?thesis
    using ok r by (simp add: replace_client_def spawn_tunnel_def desktop_ok_def)
qed

lemma desktop_ok_shown [simp]:
  "desktop_ok (st\<lparr>registered_services := rs\<rparr>) = desktop_ok st"
  "desktop_ok (st\<lparr>shown_connections := cs\<rparr>) = desktop_ok st"
  "desktop_ok (put_cache v key e st) = desktop_ok st"
  "desktop_ok (fst (schedule_status_refresh v key st)) = desktop_ok st"
  by (rule desktop_ok_core, simp)+

lemma core_of_runtime:
  "core_of s = core_of st \<Longrightarrow> service_runtime s = service_runtime st \<and> client_runtime s = client_runtime st"
  by (simp add: core_of_def)

lemma abort_service_claims [simp]:
  "registrations (fst (abort_service key st)) = registrations st"
  "connections_pending (fst (abort_service key st)) = connections_pending st"
  by (simp_all add: abort_service_def split: prod.split)

lemma abort_client_claims [simp]:
  "registrations (fst (abort_client key st)) = registrations st"
  "connections_pending (fst (abort_client key st)) = connections_pending st"
  by (simp_all add: abort_client_def split: prod.split)

lemma replace_claims [simp]:
  "registrations (replace_service key r st) = registrations st"
  "connections_pending (replace_client key r st) = connections_pending st"
  by (simp_all add: replace_service_def replace_client_def split: prod.split)

lemma core_claims: "core_of s = core_of st \<Longrightarrow> registrations s = registrations st \<and> connections_pending s = connections_pending st"
  by (simp add: core_of_def)

lemma shown_claims [simp]:
  "registrations (put_cache v key e st) = registrations st"
  "connections_pending (put_cache v key e st) = connections_pending st"
  "registrations (fst (schedule_status_refresh v key st)) = registrations st"
  "connections_pending (fst (schedule_status_refresh v key st)) = connections_pending st"
  using core_claims [of "put_cache v key e st" st] core_claims [of "fst (schedule_status_refresh v key st)" st]
  by simp_all

lemma finish_register_claims: "registrations (fst (finish_register J s a r now st)) = registrations st"
proof -
  obtain st2 w where save: "save_service_config J (su_key s) (su_local_address s) (su_protocol s)
      (su_encryption s) (su_keep_alive s) (fst (abort_service (su_key s) st)) = (st2, w)"
    by (metis surj_pair)
  have "registrations st2 = registrations st"
    using core_claims [OF core_of_disk(3)] save by (metis abort_service_claims(1) fst_conv)
  then show ?thesis
    using save by (cases w) (simp_all add: finish_register_def Let_def spawn_tunnel_def case_prod_beta)
qed

lemma finish_connect_claims: "connections_pending (fst (finish_connect J s a r now st)) = connections_pending st"
  using core_claims [OF core_of_disk(5)]
  by (simp add: finish_connect_def Let_def spawn_tunnel_def case_prod_beta)

lemma finish_register_ok:
  assumes "desktop_ok st"
  shows "desktop_ok (fst (finish_register J s a r now st))"
proof -
  let ?st1 = "fst (abort_service (su_key s) st)"
  obtain st2 w where save: "save_service_config J (su_key s) (su_local_address s) (su_protocol s)
      (su_encryption s) (su_keep_alive s) ?st1 = (st2, w)"
    by (metis surj_pair)
  have same: "core_of st2 = core_of ?st1"
    using core_of_disk(3) save by (metis fst_conv)
  then have ok: "desktop_ok st2" "su_key s \<notin> fst ` set (service_runtime st2)"
    using abort_service_ok [OF assms] desktop_ok_core [OF same] core_of_runtime [OF same] by simp_all
  show ?thesis
    using save ok(1) spawn_service_ok [OF ok]
    by (cases w) (simp_all add: finish_register_def Let_def spawn_tunnel_def case_prod_beta)
qed

lemma finish_connect_ok:
  assumes "desktop_ok st"
  shows "desktop_ok (fst (finish_connect J s a r now st))"
proof -
  let ?st1 = "fst (abort_client (su_key s) st)"
  have ok: "desktop_ok ?st1" "su_key s \<notin> fst ` set (client_runtime ?st1)"
    using abort_client_ok [OF assms] by simp_all
  then show ?thesis
    using spawn_client_ok [OF ok]
    by (simp add: finish_connect_def Let_def spawn_tunnel_def case_prod_beta desktop_ok_core [OF core_of_disk(5)])
qed

lemma abort_all_dom: "dom (abort_all m tasks) = dom tasks - set (tasks_of m)"
  unfolding abort_all_def tasks_of_def
  by (induction m arbitrary: tasks) (auto simp: abort_task_def split: prod.split if_splits)

lemma stop_server_spec:
  assumes "desktop_ok st" "server_task st"
  shows "live (fst (stop_server now st)) = (\<lambda>_. None)"
proof -
  have "dom (live st) \<subseteq> set (tasks_of (service_runtime st)) \<union> set (tasks_of (client_runtime st))"
    using assms(1) by (simp add: desktop_ok_def tidy_def)
  then have "dom (live (fst (stop_server now st))) = {}"
    using assms(2) by (auto simp: stop_server_def abort_all_dom)
  then show ?thesis
    by (simp add: dom_eq_empty_conv)
qed

lemma stop_server_ok: "desktop_ok st \<Longrightarrow> desktop_ok (fst (stop_server now st))"
  using stop_server_spec [of st now]
  by (cases "server_task st") (simp_all add: desktop_ok_def stop_server_def tasks_of_def [of "[]"])

lemma end_register_ok:
  assumes ok: "desktop_ok st" and s: "s \<in> set (registrations st)"
  shows "desktop_ok (fst (end_register J s l now st))"
proof -
  obtain st1 r where mid: "(case preflight CtlServerUnreachable l of
      Inl e \<Rightarrow> (st, Inl e) | Inr (a, r) \<Rightarrow> finish_register J s a r now st) = (st1, r)"
    by (metis surj_pair)
  have "desktop_ok st1 \<and> registrations st1 = registrations st"
    using mid ok finish_register_ok [OF ok, of J s _ _ now] finish_register_claims [of J s _ _ now st]
    by (auto split: sum.splits prod.splits) (metis fst_conv)+
  then show ?thesis
    using mid s by (auto simp: end_register_def desktop_ok_def intro: claims_ok_end)
qed

lemma end_connect_ok:
  assumes ok: "desktop_ok st" and s: "s \<in> set (connections_pending st)"
  shows "desktop_ok (fst (end_connect J s l now st))"
proof -
  obtain st1 r where mid: "(case preflight CtlAddressInUse l of
      Inl e \<Rightarrow> (st, Inl e) | Inr (a, r) \<Rightarrow> finish_connect J s a r now st) = (st1, r)"
    by (metis surj_pair)
  have "desktop_ok st1 \<and> connections_pending st1 = connections_pending st"
    using mid ok finish_connect_ok [OF ok, of J s _ _ now] finish_connect_claims [of J s _ _ now st]
    by (auto split: sum.splits prod.splits) (metis fst_conv)+
  then show ?thesis
    using mid s by (auto simp: end_connect_def desktop_ok_def intro: claims_ok_end)
qed

lemma begin_register_ok: "desktop_ok st \<Longrightarrow> desktop_ok (fst (begin_register k la p e a st))"
  unfolding begin_register_def
  by (auto simp: desktop_ok_def split: sum.split dest!: begin_setup_Inr intro: claims_ok_begin)

lemma begin_connect_ok: "desktop_ok st \<Longrightarrow> desktop_ok (fst (begin_connect k la p a st))"
  unfolding begin_connect_def
  by (auto simp: desktop_ok_def split: sum.split dest!: begin_setup_Inr intro: claims_ok_begin)

lemma ends_core [ends_rules]:
  "core_of st = v \<Longrightarrow> ends (\<lambda>s. core_of s = v) (write_config_file J c st)"
  "core_of st = v \<Longrightarrow> ends (\<lambda>s. core_of s = v) (load_config C J st)"
  "core_of st = v \<Longrightarrow> ends (\<lambda>s. core_of s = v) (apply_msg_header_key_env C st)"
  "core_of st = v \<Longrightarrow> ends (\<lambda>s. core_of s = v) (schedule_status_refresh u key st)"
  by (simp_all add: ends_def)

lemma quiet_update_config: "core_of (fst (update_config C J a b k st)) = core_of st"
  by (rule ends_fst, unfold update_config_def Let_def) (rule ends_rules | simp)+

lemma quiet_directory: "core_of (fst (set_app_directory_path C J dir st)) = core_of st"
  by (rule ends_fst, unfold set_app_directory_path_def Let_def) (rule ends_rules | simp split: sum.split)+

lemma quiet_cached: "core_of (fst (get_cached_status v key now st)) = core_of st"
  by (simp add: get_cached_status_def Let_def split: option.split prod.split) (metis core_of_schedule fst_conv)

lemma quiet_refresh: "core_of (fst (finish_refresh rf r now st)) = core_of st"
  by (simp add: finish_refresh_def Let_def split: prod.split)

lemma quiet_start: "core_of (fst (start_server bound ready now st)) = core_of st"
  by (simp add: start_server_def core_of_def unix_seconds_def Let_def)

lemmas quiet_events = quiet_update_config quiet_directory quiet_cached quiet_refresh quiet_start

lemma desktop_ok_step: "desktop_ok st \<Longrightarrow> desktop_ok (desktop_step C J e st)"
proof (cases e)
  case (Unregister key)
  then show "desktop_ok st \<Longrightarrow> ?thesis"
    using abort_service_ok [of st key] by (simp add: unregister_service_def Let_def case_prod_beta)
next
  case (DeleteService key)
  then show "desktop_ok st \<Longrightarrow> ?thesis"
    using abort_service_ok [of st key]
    by (simp add: delete_service_config_and_stop_def Let_def desktop_ok_core [OF core_of_disk(4)] case_prod_beta)
next
  case (Disconnect key)
  then show "desktop_ok st \<Longrightarrow> ?thesis"
    using abort_client_ok [of st key] by (simp add: disconnect_service_def Let_def case_prod_beta)
next
  case (DeleteClient key)
  then show "desktop_ok st \<Longrightarrow> ?thesis"
    using abort_client_ok [of st key]
    by (simp add: delete_client_config_and_stop_def Let_def desktop_ok_core [OF core_of_disk(6)] case_prod_beta)
next
  case (TunnelEnds t)
  then show "desktop_ok st \<Longrightarrow> ?thesis"
    by (simp add: desktop_ok_def tidy_end)
qed (simp_all add: begin_register_ok begin_connect_ok end_register_ok end_connect_ok stop_server_ok
    desktop_ok_core [OF quiet_update_config] desktop_ok_core [OF quiet_directory] desktop_ok_core [OF quiet_cached]
    desktop_ok_core [OF quiet_refresh] desktop_ok_core [OF quiet_start])

lemma desktop_ok_run: "desktop_ok st \<Longrightarrow> desktop_ok (desktop_run C J es st)"
  unfolding desktop_run_def by (induction es arbitrary: st) (simp_all add: desktop_ok_step)

lemma desktop_ok_new: "desktop_ok (desktop_new C J sy)"
proof -
  have "core_of (desktop_new C J sy) = ([], [], \<lambda>_. None, 0, {}, {}, [], [])"
    unfolding desktop_new_def Let_def by (simp add: case_prod_beta) (simp add: core_of_def)
  then show ?thesis
    by (simp add: core_of_def desktop_ok_def claims_ok_def tasks_of_def [of "[]"])
qed

text \<open>
  C38: After any sequence of setups, commits, disconnections, relay starts and stops, settings
  changes, status views and tunnel ends, in any interleaving: every running tunnel is the entry of a
  key in one of the two tables, so that it can be aborted; no two entries share a tunnel, no key has
  two; and at most one setup of a key is under way in each direction, exactly while it is claimed.
\<close>

theorem every_tunnel_has_one_owner:
  "let st = desktop_run C J es (desktop_new C J sy);
       owners = map (tr_task \<circ> snd) (service_runtime st) @ map (tr_task \<circ> snd) (client_runtime st)
   in dom (live st) \<subseteq> set owners \<and> distinct owners \<and>
      distinct (map fst (service_runtime st)) \<and> distinct (map fst (client_runtime st)) \<and>
      registering st = su_key ` set (registrations st) \<and> distinct (map su_key (registrations st)) \<and>
      connecting st = su_key ` set (connections_pending st) \<and> distinct (map su_key (connections_pending st))"
  using desktop_ok_run [OF desktop_ok_new, of C J es C J sy]
  by (simp add: Let_def desktop_ok_def tidy_def claims_ok_def tasks_of_def)

text \<open>A toy application: its JSON prints and parses one configuration.\<close>

definition toy_settings :: app_config where
  "toy_settings = \<lparr>app_server_address = [120], app_keep_alive = True, app_msg_header_key = []\<rparr>"

definition toy_json :: desktop_json where
  "toy_json = \<lparr>app_print = (\<lambda>c. if c = toy_settings then Some [123] else None),
     app_parse = (\<lambda>b. if b = [123] then Some toy_settings else None),
     services_print = (\<lambda>s. Some []), services_parse = (\<lambda>b. None),
     clients_print = (\<lambda>s. Some []), clients_parse = (\<lambda>b. None)\<rparr>"

definition toy_os :: os where
  "toy_os = os.truncate toy_state"

lemma start_server_runs: "server_task (fst (start_server True True now st))"
  by (simp add: start_server_def unix_seconds_def)

text \<open>
When the application stops its relay, no tunnel it ever started, of either kind, is left
  running.
\<close>

theorem stopping_the_relay_ends_every_tunnel:
  assumes "snd (stop_server now (desktop_run C J es (desktop_new C J sy))) = Inr ()"
  shows "live (fst (stop_server now (desktop_run C J es (desktop_new C J sy)))) = (\<lambda>_. None)"
  using assms stop_server_spec [OF desktop_ok_run [OF desktop_ok_new, of C J es C J sy]]
  by (simp add: stop_server_def split: if_splits)

theorem stopping_the_relay_ends_every_tunnel_witness:
  "live (fst (stop_server 9 (desktop_run toy_env toy_json [StartServer True True 7]
     (desktop_new toy_env toy_json toy_os)))) = (\<lambda>_. None)"
  by (rule stopping_the_relay_ends_every_tunnel)
    (simp add: desktop_run_def stop_server_def start_server_runs)

section \<open>Settings\<close>

lemma strip_while_id:
  "find_map (\<lambda>w. if w = [] then None else strip_prefix w bs) ws = None \<Longrightarrow> strip_while ws bs = bs"
  by (subst strip_while.simps) simp

lemma strip_while_stops:
  assumes "[] \<notin> set ws"
  shows "find_map (\<lambda>w. if w = [] then None else strip_prefix w (strip_while ws bs)) ws = None \<and>
    (\<exists>pre. bs = pre @ strip_while ws bs)"
  using assms
proof (induction ws bs rule: strip_while.induct)
  case (1 ws bs)
  show ?case
  proof (cases "find_map (\<lambda>w. if w = [] then None else strip_prefix w bs) ws")
    case None
    then show ?thesis
      using None strip_while_id [OF None] by (simp cong: if_cong)
  next
    case (Some rest)
    then obtain w where w: "w \<in> set ws" "strip_prefix w bs = Some rest"
      by (auto dest!: find_map_SomeD split: if_splits)
    then have bs: "bs = w @ rest" "length rest < length bs"
      using strip_prefix_SomeD [of w bs rest] "1.prems" by (cases w; auto)+
    have eq: "strip_while ws bs = strip_while ws rest"
      using Some bs(2) by (subst strip_while.simps) simp
    obtain pre where pre: "rest = pre @ strip_while ws rest"
      and fm: "find_map (\<lambda>w. if w = [] then None else strip_prefix w (strip_while ws rest)) ws = None"
      using "1.IH" [OF Some bs(2) "1.prems"] by blast
    have "bs = (w @ pre) @ strip_while ws rest"
      using bs(1) pre by (metis append.assoc)
    then show ?thesis
      unfolding eq using fm by blast
  qed
qed

lemma find_map_prefix:
  assumes "find_map (\<lambda>w. if w = [] then None else strip_prefix w (bs @ cs)) ws = None"
  shows "find_map (\<lambda>w. if w = [] then None else strip_prefix w bs) ws = None"
proof -
  have "strip_prefix w bs = None" if "strip_prefix w (bs @ cs) = None" for w
    using that strip_prefix_SomeD [of w bs] by (cases "strip_prefix w bs") auto
  then show ?thesis
    using assms by (auto simp: find_map_None_iff)
qed

lemma trim_trim [simp]: "trim (trim bs) = trim bs"
proof -
  let ?ws = "white_space" and ?sw = "map rev white_space"
  have ne: "[] \<notin> set ?ws" "[] \<notin> set ?sw"
    by (auto simp: white_space_def)
  obtain pre where pre: "rev (strip_while ?ws bs) = pre @ rev (trim bs)"
    using strip_while_stops [OF ne(2), of "rev (strip_while ?ws bs)"] by (auto simp: trim_def)
  then have "strip_while ?ws bs = trim bs @ rev pre"
    by (simp add: rev_swap)
  then have "find_map (\<lambda>w. if w = [] then None else strip_prefix w (trim bs @ rev pre)) ?ws = None"
    using strip_while_stops [OF ne(1), of bs] by (simp cong: if_cong)
  then have "strip_while ?ws (trim bs) = trim bs"
    by (intro strip_while_id find_map_prefix)
  moreover have "find_map (\<lambda>w. if w = [] then None else strip_prefix w (rev (trim bs))) ?sw = None"
    unfolding trim_def rev_rev_ident
    using strip_while_stops [OF ne(2), of "rev (strip_while ?ws bs)"] by blast
  ultimately show ?thesis
    using strip_while_id by (simp add: trim_def [of "trim bs"])
qed

lemma trim_Nil [simp]: "trim [] = []"
  by code_simp

lemma normalized_again:
  "normalize_msg_header_key C key = Inr k \<Longrightarrow> normalize_msg_header_key C k = Inr k"
  by (auto simp: normalize_msg_header_key_def Let_def split: if_splits sum.splits)

text \<open>
  C39: Settings that were accepted are the settings the next start loads: the file holds them, the
  stored key included, whatever was saved before.  (The three steps of a load and a save succeed;
  JSON text is UTF-8 and parses to what was printed.)
\<close>

theorem settings_survive_a_restart:
  assumes "\<And>c b. app_print J c = Some b \<Longrightarrow> app_parse J b = Some c \<and> utf8_valid b"
    and "\<And>n. io st n = IoOk"
    and "update_config C J address alive key st = (st', Inr ())"
  shows "snd (load_config C J st') = Inr (app st') \<and> app_server_address (app st') = address \<and>
    app_msg_header_key (app st') = trim key"
proof -
  obtain k where k: "normalize_msg_header_key C key = Inr k" "k = trim key"
    using assms(3) by (auto simp: update_config_def normalize_msg_header_key_def Let_def split: sum.splits if_splits)
  define chosen where "chosen = \<lparr>app_server_address = address, app_keep_alive = alive, app_msg_header_key = k\<rparr>"
  obtain st1 w where saved: "write_config_file J chosen st = (st1, w)"
    by (metis surj_pair)
  obtain b where b: "app_print J chosen = Some b" "w = Inr ()"
    "files st1 = (files st)(''config.json'' := Some b)" "io st1 = io st"
    using saved assms(2,3) k(1)
    by (auto simp: write_config_file_def get_config_file_path_def sys_def fs_write_def put_file_def Let_def
        update_config_def and_then_def chosen_def split: option.splits)
  have "st' = reset_status_caches (fst (apply_msg_header_key_env C (st1\<lparr>app := chosen\<rparr>)))"
    using assms(3) k(1) saved b(2)
    by (auto simp: update_config_def Let_def chosen_def [symmetric] split: prod.splits sum.splits)
  then have st': "files st' = (files st)(''config.json'' := Some b)" "io st' = io st" "app st' = chosen"
    using b by (simp_all add: reset_status_caches_def apply_msg_header_key_env_def Let_def split: prod.split sum.split)
  have "snd (load_config C J st') = Inr chosen"
    using st' b(1) assms(1) [of chosen b] assms(2) normalized_again [OF k(1)]
    by (simp add: load_config_def get_config_file_path_def sys_def fs_read_def file_exists_def Let_def chosen_def)
  then show ?thesis
    using st'(3) k(2) by (simp add: chosen_def)
qed

theorem settings_survive_a_restart_witness:
  "snd (load_config toy_env toy_json (fst (update_config toy_env toy_json [120] True []
     (desktop_new toy_env toy_json toy_os)))) = Inr toy_settings"
proof -
  let ?st = "desktop_new toy_env toy_json toy_os"
  have io: "io ?st n = IoOk" for n
    by (simp add: desktop_new_def load_config_def get_config_file_path_def sys_def file_exists_def toy_os_def
        toy_state_def os.defs apply_msg_header_key_env_def Let_def split: prod.split sum.split)
  obtain st' where up: "update_config toy_env toy_json [120] True [] ?st = (st', Inr ())" "app st' = toy_settings"
    using io
    by (simp add: update_config_def normalize_msg_header_key_def write_config_file_def get_config_file_path_def
        sys_def fs_write_def put_file_def toy_json_def toy_settings_def apply_msg_header_key_env_def
        set_process_msg_header_key_def reset_status_caches_def Let_def)
  have utf8: "utf8_valid [123]"
    by code_simp
  have json: "app_parse toy_json b = Some c \<and> utf8_valid b" if "app_print toy_json c = Some b" for c b
    using that utf8 by (auto simp del: utf8_valid.simps simp add: toy_json_def split: if_splits)
  have "snd (load_config toy_env toy_json st') = Inr (app st')"
    using settings_survive_a_restart [OF json io up(1)] by blast
  then show ?thesis
    using up by simp
qed

section \<open>What the disk can cost\<close>

text \<open>
  The file of remembered services is truncated before it is written.  A write that fails leaves a
  file that does not parse, which the next load takes for no services at all, and the next save
  writes that down.
\<close>

lemma failed_save_forgets_the_services:
  assumes "io st (io_pos st) = IoOk" "io st (Suc (io_pos st)) = IoOk" "io st (Suc (Suc (io_pos st))) = IoErr n"
    and "services_print J store = Some content" "services_parse J (take n content) = None"
  shows "snd (save_service_configs J store st) = Inl CtlIo \<and>
    snd (load_service_configs J (fst (save_service_configs J store st))) = []"
  using assms
  by (simp add: save_service_configs_def fs_write_def sys_def load_service_configs_def fs_read_def put_file_def
      split: io_outcome.split)

text \<open>
  A registration aborts the key's running tunnel before it saves the settings: when that fails it
  reports an error, and the old tunnel, still listed, is gone.
\<close>

lemma failed_registration_stops_the_old_tunnel:
  assumes "map_of (service_runtime st) (su_key s) = Some runtime"
    and "finish_register J s a r now st = (st', Inl e)"
  shows "live st' (tr_task runtime) = None \<and> registered_services st' = registered_services st"
proof -
  let ?st1 = "fst (abort_service (su_key s) st)"
  have ab: "live ?st1 (tr_task runtime) = None" "registered_services ?st1 = registered_services st"
    using assms(1) by (simp_all add: abort_service_def abort_runtime_def abort_task_def)
  obtain st2 w where saved: "save_service_config J (su_key s) (su_local_address s) (su_protocol s)
      (su_encryption s) (su_keep_alive s) ?st1 = (st2, w)"
    by (metis surj_pair)
  have "mem st2 = mem ?st1"
    using io_only_save_service [OF refl] saved by (metis io_only_def fst_conv)
  then have "live st2 = live ?st1 \<and> registered_services st2 = registered_services ?st1"
    by (cases st2; cases ?st1) (simp add: mem_def)
  moreover have "st' = st2"
    using assms(2) saved by (cases w) (simp_all add: finish_register_def Let_def case_prod_beta)
  ultimately show ?thesis
    using ab by simp
qed

end
