(* ===== verification/DesktopControl.thy ===== *)
theory DesktopControl
  imports Desktop
begin

text \<open>
  The control channel of the desktop application (\<^verbatim>\<open>pb_mapper_ffi/src/ctl\<close>): the commands a
  terminal sends to the running window, their length-prefixed JSON frames, the version check, the
  dispatch and the change it announces.  The endpoint (a Unix socket or a named pipe) is left out.
\<close>

section \<open>Commands\<close>

datatype ctl_command =
    CtlHello
  | CtlStatus
  | CtlServices
  | CtlConnections bytes
  | CtlClients
  | CtlRegister bytes bytes bool bool bool
  | CtlUnregister bytes
  | CtlConnect bytes bytes bool bool
  | CtlDisconnect bytes
  | CtlConfigGet

datatype origin = FromUi | FromCli | FromInternal

datatype change_kind = ChangedServices | ChangedClients | ChangedServer | ChangedConfig

fun affects :: "ctl_command \<Rightarrow> (change_kind \<times> bytes option) option" where
  "affects (CtlRegister key addr udp no_encrypt alive) = Some (ChangedServices, Some key)"
| "affects (CtlUnregister key) = Some (ChangedServices, Some key)"
| "affects (CtlConnect key addr udp alive) = Some (ChangedClients, Some key)"
| "affects (CtlDisconnect key) = Some (ChangedClients, Some key)"
| "affects _ = None"

definition ctl_is_mutating :: "ctl_command \<Rightarrow> bool" where
  "ctl_is_mutating c \<longleftrightarrow> affects c \<noteq> None"

definition protocol_name :: "bool \<Rightarrow> bytes" where
  "protocol_name udp = (if udp then ascii ''UDP'' else ascii ''TCP'')"

section \<open>Responses\<close>

definition PROTOCOL_VERSION :: nat where "PROTOCOL_VERSION = 1"

text \<open>The data of a response is named by what it shows; the texts are left out.\<close>

datatype ctl_data =
    HelloData nat
  | StatusData server_detail
  | ServicesData "(service_config_data \<times> string \<times> string) list"
  | ClientsData "(client_config_data \<times> string \<times> string) list"
  | ConnectionsData "service_conn_status list"
  | ConfigData bytes bool bool bool

record ctl_response =
  rp_v :: nat
  rp_id :: "bytes option"
  rp_success :: bool
  rp_data :: "ctl_data option"
  rp_code :: "ctl_error option"

definition response_ok :: "ctl_data option \<Rightarrow> ctl_response" where
  "response_ok d = \<lparr>rp_v = PROTOCOL_VERSION, rp_id = None, rp_success = True, rp_data = d, rp_code = None\<rparr>"

definition response_err :: "ctl_error \<Rightarrow> ctl_response" where
  "response_err e = \<lparr>rp_v = PROTOCOL_VERSION, rp_id = None, rp_success = False, rp_data = None, rp_code = Some e\<rparr>"

definition response_with_id :: "bytes option \<Rightarrow> ctl_response \<Rightarrow> ctl_response" where
  "response_with_id i r = r\<lparr>rp_id := i\<rparr>"

definition as_error :: "ctl_response \<Rightarrow> ctl_error option" where
  "as_error r =
     (if rp_success r then None else Some (case rp_code r of Some e \<Rightarrow> e | None \<Rightarrow> CtlInternal))"

record ctl_request =
  rq_v :: nat
  rq_id :: "bytes option"
  rq_command :: ctl_command

section \<open>Frames\<close>

definition MAX_FRAME :: nat where "MAX_FRAME = 4 * 1024 * 1024"

datatype frame_error = FrameIo | FrameData

definition write_frame :: "('a \<Rightarrow> bytes option) \<Rightarrow> 'a \<Rightarrow> sink \<Rightarrow> sink \<times> (frame_error + unit)" where
  "write_frame print value k =
     (case print value of
        None \<Rightarrow> (k, Inl FrameData)
      | Some body \<Rightarrow>
          if MAX_FRAME < length body then (k, Inl FrameData)
          else and_then (write_all FrameIo (to_be 4 (length body)) k) (\<lambda>k _. write_all FrameIo body k))"

definition read_frame :: "(bytes \<Rightarrow> 'a option) \<Rightarrow> bytes \<Rightarrow> bytes \<times> (frame_error + 'a)" where
  "read_frame parse input =
     and_then (read_uint FrameIo 4 input) (\<lambda>input len.
       if MAX_FRAME < len then (input, Inl FrameData)
       else and_then (read_exact FrameIo len input) (\<lambda>input body.
         case parse body of None \<Rightarrow> (input, Inl FrameData) | Some v \<Rightarrow> (input, Inr v)))"

section \<open>Dispatch\<close>

text \<open>What a command meets outside: the lookups of a setup, the relay's answers, the clock.\<close>

record ctl_world =
  cw_lookup :: lookup
  cw_late :: bool
  cw_keys :: query
  cw_tables :: query
  cw_isolated_key :: "bytes option"
  cw_now :: nat

definition ui_register_service ::
  "desktop_json \<Rightarrow> bytes \<Rightarrow> bytes \<Rightarrow> bytes \<Rightarrow> bool \<Rightarrow> bool \<Rightarrow> lookup \<Rightarrow> nat \<Rightarrow> desktop \<Rightarrow>
   desktop \<times> (ctl_error + refresh option)" where
  "ui_register_service J key addr protocol encryption alive l now st =
     and_then (begin_register key addr protocol encryption alive st) (\<lambda>st s. end_register J s l now st)"

definition ui_connect_service ::
  "desktop_json \<Rightarrow> bytes \<Rightarrow> bytes \<Rightarrow> bytes \<Rightarrow> bool \<Rightarrow> lookup \<Rightarrow> nat \<Rightarrow> desktop \<Rightarrow>
   desktop \<times> (ctl_error + refresh option)" where
  "ui_connect_service J key addr protocol alive l now st =
     and_then (begin_connect key addr protocol alive st) (\<lambda>st s. end_connect J s l now st)"

fun run_ctl :: "desktop_json \<Rightarrow> ctl_world \<Rightarrow> ctl_command \<Rightarrow> desktop \<Rightarrow> desktop \<times> (ctl_error + ctl_response)" where
  "run_ctl J w CtlHello st = (st, Inr (response_ok (Some (HelloData PROTOCOL_VERSION))))"
| "run_ctl J w CtlStatus st =
     (st, Inr (response_ok (Some (StatusData (force_refresh_server_status (cw_late w) (cw_keys w) (cw_tables w))))))"
| "run_ctl J w CtlServices st =
     (case get_service_configs J (cw_now w) st of
        (st, rows, _) \<Rightarrow> (st, Inr (response_ok (Some (ServicesData rows)))))"
| "run_ctl J w CtlClients st =
     (case get_client_configs J (cw_now w) st of
        (st, rows, _) \<Rightarrow> (st, Inr (response_ok (Some (ClientsData rows)))))"
| "run_ctl J w (CtlConnections key) st =
     (st, case get_service_conns (cw_late w) (cw_keys w) of
            Inl e \<Rightarrow> Inl e | Inr conns \<Rightarrow> Inr (response_ok (Some (ConnectionsData conns))))"
| "run_ctl J w CtlConfigGet st =
     (st, Inr (response_ok (Some
            (ConfigData (app_server_address (app st)) (app_keep_alive (app st))
              (app_msg_header_key (app st) \<noteq> []) (isolated_admin_key (cw_isolated_key w) \<noteq> None)))))"
| "run_ctl J w (CtlRegister key addr udp no_encrypt alive) st =
     and_then (ui_register_service J key addr (protocol_name udp) (\<not> no_encrypt) alive (cw_lookup w) (cw_now w) st)
       (\<lambda>st _. (st, Inr (response_ok None)))"
| "run_ctl J w (CtlUnregister key) st = and_then (unregister_service key st) (\<lambda>st _. (st, Inr (response_ok None)))"
| "run_ctl J w (CtlConnect key addr udp alive) st =
     and_then (ui_connect_service J key addr (protocol_name udp) alive (cw_lookup w) (cw_now w) st)
       (\<lambda>st _. (st, Inr (response_ok None)))"
| "run_ctl J w (CtlDisconnect key) st = and_then (disconnect_service key st) (\<lambda>st _. (st, Inr (response_ok None)))"

text \<open>The response, and the change to announce: only of a command that succeeded.\<close>

definition dispatch ::
  "desktop_json \<Rightarrow> ctl_world \<Rightarrow> ctl_command \<Rightarrow> origin \<Rightarrow> desktop \<Rightarrow>
   desktop \<times> ctl_response \<times> (change_kind \<times> bytes option \<times> origin) list" where
  "dispatch J w command from_whom st =
     (case run_ctl J w command st of
        (st, Inr response) \<Rightarrow>
          (st, response, case affects command of Some (kind, key) \<Rightarrow> [(kind, key, from_whom)] | None \<Rightarrow> [])
      | (st, Inl e) \<Rightarrow> (st, response_err e, []))"

text \<open>One connection: a request, its answer, the end.  A response that cannot be written is dropped.\<close>

definition serve_one ::
  "desktop_json \<Rightarrow> (bytes \<Rightarrow> ctl_request option) \<Rightarrow> (ctl_response \<Rightarrow> bytes option) \<Rightarrow> ctl_world \<Rightarrow> bytes \<Rightarrow> sink \<Rightarrow>
   desktop \<Rightarrow> desktop \<times> sink \<times> (change_kind \<times> bytes option \<times> origin) list" where
  "serve_one J parse print w input k st =
     (case read_frame parse input of
        (_, Inl _) \<Rightarrow> (st, fst (write_frame print (response_err CtlInvalidArgument) k), [])
      | (_, Inr req) \<Rightarrow>
          if PROTOCOL_VERSION < rq_v req
          then (st, fst (write_frame print (response_with_id (rq_id req) (response_err CtlInvalidArgument)) k), [])
          else case dispatch J w (rq_command req) FromCli st of
            (st, response, changes) \<Rightarrow>
              (st, fst (write_frame print (response_with_id (rq_id req) response) k), changes))"

section \<open>Facts\<close>

text \<open>A frame is read back as it was written, whatever follows it.\<close>

lemma frame_round_trip:
  assumes "write_frame print v k = (k', Inr ())" "\<And>b. print v = Some b \<Longrightarrow> parse b = Some v"
  shows "\<exists>bs. sent k' = sent k @ bs \<and> read_frame parse (bs @ rest) = (rest, Inr v)"
proof -
  obtain body where body: "print v = Some body" "length body \<le> MAX_FRAME"
    using assms(1) by (auto simp: write_frame_def split: option.splits if_splits)
  obtain k1 where k1: "write_all FrameIo (to_be 4 (length body)) k = (k1, Inr ())"
    "write_all FrameIo body k1 = (k', Inr ())"
    using assms(1) body by (auto simp: write_frame_def and_then_eq_Inr split: if_splits)
  have "read_frame parse ((to_be 4 (length body) @ body) @ rest) = (rest, Inr v)"
    using body assms(2) by (simp add: read_frame_def MAX_FRAME_def)
  then show ?thesis
    using write_all_Inr [OF k1(1)] write_all_Inr [OF k1(2)] by auto
qed

text \<open>
  A connection whose request cannot be read, or asks for a newer protocol, is answered with an error
  and changes nothing; a failed command announces nothing.
\<close>

lemma refused_request_changes_nothing:
  assumes "\<And>r. snd (read_frame parse input) = Inr r \<Longrightarrow> PROTOCOL_VERSION < rq_v r"
  shows "fst (serve_one J parse print w input k st) = st \<and> snd (snd (serve_one J parse print w input k st)) = []"
  using assms by (auto simp: serve_one_def split: prod.split sum.split)

lemma failed_command_announces_nothing:
  "dispatch J w c from_whom st = (st', response, changes) \<Longrightarrow> \<not> rp_success response \<Longrightarrow> changes = []"
  by (cases c) (auto simp: dispatch_def response_ok_def and_then_def split: prod.splits sum.splits)

end
