(* ===== verification/Spec2Isabelle.thy ===== *)
theory Spec2Isabelle
  imports CoreProps AuthProps AdminProps ReplayProps Buffer WireProps SecureProps ConnectionProps RelayProps
    ControlProps AdministrationProps ConfigProps
    ForwardProps ForwardTimers ClientProps Addresses CliProps DesktopProps DesktopControl
begin

text \<open>
  A model of pb-mapper, a relay that publishes local TCP and UDP services through a public server,
  and of the programs around it. A publishing client registers a service over a control connection;
  a subscribing client asks the relay for a stream to it; the relay asks the publisher for a data
  connection and forwards between the two. Every connection starts with a first flight, one message
  under a credential: the administrator's root key, or a temporary key derived from it, which has a
  row, a lease and a time to live in the relay. The definitions follow the sources under
  \<^verbatim>\<open>src/crates\<close> and \<^verbatim>\<open>src/ui/native\<close>, function by
  function and with the names of the code; the theorems of the properties are in the theories named
  \<open>...Props\<close> and \<open>ForwardTimers\<close>.

  \<^bold>\<open>Conventions.\<close>

  Operations take the state they change and return it, handlers as written, with every early return
  a branch. A failure is the left side of a sum and keeps its code and whether it may be retried,
  not its text. Seconds, ticks, counters and lengths are natural numbers with the saturating or
  checked operations of the code written out; bytes, nonces, identifiers and checksums are machine
  words. Text is the list of its UTF-8 bytes. What the programs ask others for is an argument:
  ciphers, hashes and codecs are the fields of a record of parameters (\<open>crypto\<close>,
  \<open>env\<close>, and the JSON records of the clients and of the application); the outcome of
  every system call, clock reading and random draw is taken from an oracle that is part of the
  state; what a peer sends, which timeout fires and how tasks interleave are lists of events.
  Theorems quantify over all of these, with the documented laws of a cipher (\<open>aead_ok\<close>
  and the like: what is opened was sealed) as named hypotheses; \<^theory_text>\<open>Toy\<close>
  has one concrete instance of everything for the witnesses.

  \<^bold>\<open>Credentials and authentication state.\<close>

  \<^item> \<^theory_text>\<open>Ids\<close> (\<^verbatim>\<open>pb-mapper-auth/src/ids.rs\<close>),
    \<^theory_text>\<open>Credential\<close> and \<^theory_text>\<open>Machine\<close>
    (\<^verbatim>\<open>pb-mapper-core/src/checksum.rs\<close>): key ids, printing and parsing of
    credentials, the checksum, the credential of a process, the key derived from a machine.
  \<^item> \<^theory_text>\<open>TimingWheel\<close> (\<^verbatim>\<open>timing_wheel.rs\<close>) is
    a hierarchical timer wheel; it interprets the locale \<open>agenda\<close> of
    \<^theory_text>\<open>Agenda\<close>, a multiset of deadlines, and
    \<^theory_text>\<open>CoreProps\<close> states the refinement: a timer fires on the very tick it
    was scheduled for.
  \<^item> \<^theory_text>\<open>AuthTypes\<close>, \<^theory_text>\<open>Leases\<close>,
    \<^theory_text>\<open>AuthActor\<close>, \<^theory_text>\<open>AuthRuntime\<close>
    (\<^verbatim>\<open>lib.rs\<close>, \<^verbatim>\<open>leases.rs\<close>,
    \<^verbatim>\<open>actor/\<close>, \<^verbatim>\<open>runtime.rs\<close>): the slot table,
    leases and timers as heap objects with reachability for reference counts, every command of the
    actor, the hot path that accepts a presented key. \<^theory_text>\<open>AuthStore\<close>,
    \<^theory_text>\<open>AuthKeys\<close> (\<^verbatim>\<open>persistence/\<close>,
    \<^verbatim>\<open>keys.rs\<close>): sealed blobs, the write-ahead log, snapshots, atomic
    replacement, key files and crash recovery. \<^theory_text>\<open>AuthConfig\<close>: the limits.
  \<^item> \<^theory_text>\<open>AuthFacts\<close> states once, in the locale
    \<open>core_invariant\<close>, that a predicate kept by the memory half of each operation is
    kept by every command, timer and run, and in \<open>log_invariant\<close> the same for the logs;
    their interpretations (history of the slot table, coverage of rows, logs, admission) carry
    \<^theory_text>\<open>AuthProps\<close> and \<^theory_text>\<open>AdminProps\<close>: exact
    acceptance, no revival of a dead key, no reissue of a key id, at most one execution of a
    mutation.

  \<^bold>\<open>Connections.\<close>

  \<^item> \<^theory_text>\<open>Wire\<close>
    (\<^verbatim>\<open>pb-mapper-protocol/src/lib.rs\<close>, \<^verbatim>\<open>codec.rs\<close>),
    \<^theory_text>\<open>Frame\<close> (\<^verbatim>\<open>secure/frame.rs\<close>): message
    framings with a plain, an encrypted and a counted format. The locale \<open>framing\<close> is
    the contract of a reader and a writer (what was written is read, what is left over stays),
    \<open>canonical_framing\<close> adds that nothing else is read; the encrypted and the v2
    framing interpret both, and \<^theory_text>\<open>WireProps\<close> rests on them.
  \<^item> \<^theory_text>\<open>Bloom\<close>, \<^theory_text>\<open>Replay\<close>
    (\<^verbatim>\<open>secure/replay.rs\<close>): the guard against replayed first flights, two
    rotating filters behind the locale \<open>window_filter\<close>, budgets and the durable log;
    \<^theory_text>\<open>ReplayProps\<close> has admission once, across restarts.
    \<^theory_text>\<open>Limiter\<close> (\<^verbatim>\<open>secure/limiter.rs\<close>): the
    suppression of repeated failures.
  \<^item> \<^theory_text>\<open>Secure\<close> (\<^verbatim>\<open>secure.rs\<close>,
    \<^verbatim>\<open>secure/first_flight.rs\<close>): sessions and first flights of both protocol
    versions. \<^theory_text>\<open>SecureFacts\<close>, \<^theory_text>\<open>SecureProps\<close>:
    the inductive relation \<open>relay_run\<close> interleaves connections with everything else the
    service does; a flight is answered once, and only a client with the key is answered.
  \<^item> \<^theory_text>\<open>Connection\<close> (\<^verbatim>\<open>command.rs\<close>,
    \<^verbatim>\<open>connection.rs\<close> of the relay): requests, namespaces, service keys,
    dispatch; \<^theory_text>\<open>ConnectionProps\<close>: a tenant stays in its namespace.

  \<^bold>\<open>The relay.\<close>

  \<^item> \<^theory_text>\<open>Registry\<close>, \<^theory_text>\<open>Manager\<close>,
    \<^theory_text>\<open>RateLimit\<close>
    (\<^verbatim>\<open>pb-mapper-server/src/manager.rs\<close>,
    \<^verbatim>\<open>runtime.rs\<close>, \<^verbatim>\<open>lib.rs\<close>): the single task that
    owns ids, registrations, pending streams, counts and token buckets, one definition per task.
    \<^theory_text>\<open>RegistryFacts\<close> has the locale \<open>registry_invariant\<close> (a
    predicate kept by the few primitive updates is kept by every run),
    \<^theory_text>\<open>RegistryInv\<close> its extension \<open>table_invariant\<close> and the
    interpretations; \<^theory_text>\<open>RegistryProps\<close>,
    \<^theory_text>\<open>RelayProps\<close>: tables within their limits, streams reach the
    subscriber they were requested for, exact counts, unused ids, bounded rates, inventories page by
    page.
  \<^item> \<^theory_text>\<open>Reply\<close>, \<^theory_text>\<open>Control\<close>,
    \<^theory_text>\<open>Subscriber\<close>, \<^theory_text>\<open>Administration\<close>
    (\<^verbatim>\<open>error.rs\<close>, \<^verbatim>\<open>status.rs\<close>,
    \<^verbatim>\<open>server.rs\<close>, \<^verbatim>\<open>client.rs\<close>,
    \<^verbatim>\<open>admin.rs\<close>): the handlers of connections.
    \<^theory_text>\<open>ControlProps\<close>, \<^theory_text>\<open>HandlerProps\<close>,
    \<^theory_text>\<open>AdministrationProps\<close>: replies in order, no stream and no
    registration outlives its connection, current leases.
  \<^item> \<^theory_text>\<open>Buffer\<close>, \<^theory_text>\<open>Forward\<close>
    (\<^verbatim>\<open>buffer.rs\<close>, \<^verbatim>\<open>forward.rs\<close> of the protocol):
    the forwarding loops, one poll of the biased select at a time.
    \<^theory_text>\<open>ForwardProps\<close> states the reading and the writing trait as the
    locales \<open>reader_end\<close> and \<open>writer_end\<close>, joins them in
    \<open>copy_ends\<close> and \<open>tunnel_ends\<close>, and interprets them for plain and
    sealed ends: nothing is lost or reordered. \<^theory_text>\<open>ForwardTimers\<close>: the idle
    and the half-close timer.

  \<^bold>\<open>The programs around it.\<close>

  \<^item> \<^theory_text>\<open>CoreConfig\<close>, \<^theory_text>\<open>Addresses\<close>
    (\<^verbatim>\<open>config.rs\<close>, \<^verbatim>\<open>addr.rs\<close> of pb-mapper-core):
    settings from the environment, the order of address lookups.
  \<^item> \<^theory_text>\<open>Exchange\<close> (\<^verbatim>\<open>timeout.rs\<close>,
    \<^verbatim>\<open>pb-mapper-client/src/client\<close>): retries, one request and its response,
    status queries, the subscribing client. \<^theory_text>\<open>Publisher\<close>
    (\<^verbatim>\<open>pb-mapper-client/src/server\<close>): control connection, heartbeats, data
    connections, workers. \<^theory_text>\<open>ClientProps\<close>: acknowledgements in order, when
    a silent relay is given up, and that client and relay are in step when forwarding starts.
  \<^item> \<^theory_text>\<open>Cli\<close>, \<^theory_text>\<open>AdminCli\<close>
    (\<^verbatim>\<open>pb-mapper-cli/src/bin\<close>): what the command lines do once parsed.
    \<^theory_text>\<open>CliProps\<close> states what the printing loop needs of a kind of page in
    the locales \<open>paged\<close> and \<open>inventory\<close>, interpreted for keys, services
    and connections; and that a rotated root key is never only in memory.
  \<^item> \<^theory_text>\<open>Desktop\<close>, \<^theory_text>\<open>DesktopControl\<close>
    (\<^verbatim>\<open>src/ui/native/pb_mapper_ffi/src/state.rs\<close>,
    \<^verbatim>\<open>state/\<close>, \<^verbatim>\<open>ctl/\<close>): the application of the user
    interface and its control channel. \<^theory_text>\<open>DesktopProps\<close>: one owner for
    every tunnel in any interleaving, settings that survive a restart.

  \<^bold>\<open>Bounds and fuel.\<close>

  Loops that end by their own doing are structural or have a measure: levels and slots of the wheel,
  records of a log, the bytes still to come, the inbox of a waiting subscriber. Loops that the other
  side keeps going run over the list of what it does (polls of a tunnel, events of a control
  connection, runs of the actor, of the manager and of the application), so that every finite run is
  covered and a waiting program is one whose list is used up. Only the walk through the pages of an
  inventory has fuel, the number of requests; one more than there are rows is shown to be enough for
  an inventory that does not change. The wheel holds deadlines up to its span of ticks, later ones
  are clamped as in the code; ids of accepted connections are shown unused until the 32-bit counter
  wraps.

  \<^bold>\<open>Findings.\<close>

  Statements of what the code does where that is not what it means to do: the end of a sealed stream
  stops both directions (\<^theory_text>\<open>ForwardProps\<close>), and the lemmas
  \<open>late_sign_off_hits_the_successor\<close> (\<^theory_text>\<open>RelayProps\<close>),
  \<open>idle_deadline_moves_back\<close> (\<^theory_text>\<open>ForwardTimers\<close>),
  \<open>retried_rotation_drops_the_first_candidate\<close> (\<^theory_text>\<open>CliProps\<close>),
  \<open>failed_save_forgets_the_services\<close> and
  \<open>failed_registration_stops_the_old_tunnel\<close> (\<^theory_text>\<open>DesktopProps\<close>).

  \<^bold>\<open>Not modelled.\<close>

  The parsing of command lines, log lines and the log subscriber, sockets, listeners and socket
  options, the spawning of tasks and thread pools with their panics, the choice of platform
  directories; the resolvers themselves; data lost in a power failure before it was synced; the
  bindings between Flutter and the application (C pointers and JSON wrappers), its endpoint, and the
  test kit. Timing is logical: a duration is what the clock oracle says, and no theorem is about how
  fast a task is scheduled.
\<close>

end
